(* ===== verification/Prelude.thy ===== *)
theory Prelude
  imports Complex_Main
begin

text \<open>
  Shared by every component: the errors of the program as values, identifiers, tables as lists
  of rows with lookup and update by key, decimal printing (the f-strings that build idempotency
  keys), and two interfaces: a system of steps that keep an invariant, and a status field that
  only moves forward along a transition table.
\<close>

section \<open>Identifiers, errors, results\<close>

text \<open>
  \<open>uid()\<close> returns a new UUID string. An identifier is the number of the draw that produced it,
  so a fresh one differs from all earlier ones; the state carries the next number.
\<close>

type_synonym uid = nat

text \<open>
  Exceptions raised by the code. \<open>HTTPException\<close> carries the status code and the detail (the
  Persian details are rendered in English); \<open>BillingHold\<close> is the subclass of \<open>ValueError\<close> of
  \<open>app.py\<close>; \<open>IntegrityError\<close> is the database refusing a row that breaks a unique constraint.
\<close>

datatype error =
    HTTPException nat string
  | ValueError string
  | TypeError string
  | KeyError string
  | BillingHold uid uid int
  | PermissionError string
  | RuntimeError string
  | IntegrityError string
  | DataError string
  | AttributeError string
  | InvalidOperation

text \<open>
  A call on the session returns a value or raises, and in both cases leaves a state: what a
  function changed before it raised stays in the session until somebody rolls it back.
\<close>

type_synonym ('a, 's) res = "(error + 'a) \<times> 's"

definition raised :: "error \<Rightarrow> 's \<Rightarrow> ('a, 's) res" where
  "raised e s = (Inl e, s)"

definition returned :: "'a \<Rightarrow> 's \<Rightarrow> ('a, 's) res" where
  "returned v s = (Inr v, s)"

definition bindr :: "('a, 's) res \<Rightarrow> ('a \<Rightarrow> 's \<Rightarrow> ('b, 's) res) \<Rightarrow> ('b, 's) res" where
  "bindr m f = (case m of (Inl e, s) \<Rightarrow> (Inl e, s) | (Inr v, s) \<Rightarrow> f v s)"

definition require :: "bool \<Rightarrow> error \<Rightarrow> 's \<Rightarrow> (unit, 's) res" where
  "require c e s = (if c then (Inr (), s) else (Inl e, s))"

definition require_some :: "'a option \<Rightarrow> error \<Rightarrow> 's \<Rightarrow> ('a, 's) res" where
  "require_some x e s = (case x of None \<Rightarrow> (Inl e, s) | Some v \<Rightarrow> (Inr v, s))"

named_theorems outcome \<open>equations that evaluate a chain of calls\<close>

lemma bindr_simps [simp, outcome]:
  "bindr (Inl e, s) f = (Inl e, s)"
  "bindr (Inr v, s) f = f v s"
  by (simp_all add: bindr_def)

lemma bindr_raised [simp, outcome]: "bindr (raised e s) f = raised e s"
  by (simp add: raised_def)

lemma bindr_returned [simp, outcome]: "bindr (returned v s) f = f v s"
  by (simp add: returned_def)

lemma bindr_require [outcome]:
  "bindr (require c e s) f = (if c then f () s else raised e s)"
  by (simp add: require_def raised_def)

lemma bindr_require_some [outcome]:
  "bindr (require_some x e s) f = (case x of None \<Rightarrow> raised e s | Some v \<Rightarrow> f v s)"
  by (simp add: require_some_def raised_def split: option.split)

lemma raised_eq [simp]:
  "raised e s = (r, s') \<longleftrightarrow> r = Inl e \<and> s' = s"
  "fst (raised e s) = Inl e" "snd (raised e s) = s"
  by (auto simp: raised_def)

lemma returned_eq [simp]:
  "returned v s = (r, s') \<longleftrightarrow> r = Inr v \<and> s' = s"
  "fst (returned v s) = Inr v" "snd (returned v s) = s"
  by (auto simp: returned_def)

lemma bindr_InrE:
  assumes "bindr m f = (Inr v, s')"
  obtains w s1 where "m = (Inr w, s1)" and "f w s1 = (Inr v, s')"
  using assms by (cases m; cases "fst m") (auto simp: bindr_def)

lemma bindr_Inl_iff:
  "bindr m f = (Inl e, s') \<longleftrightarrow> m = (Inl e, s') \<or> (\<exists>v s1. m = (Inr v, s1) \<and> f v s1 = (Inl e, s'))"
  by (cases m; cases "fst m") (auto simp: bindr_def)

lemma bindr_keeps:
  assumes "P (snd m)" and "\<And>v s1. m = (Inr v, s1) \<Longrightarrow> P s1 \<Longrightarrow> P (snd (f v s1))"
  shows "P (snd (bindr m f))"
proof (cases m)
  case (Pair r s1)
  with assms show ?thesis by (cases r) auto
qed

lemma returned_keeps: "P s \<Longrightarrow> P (snd (returned v s))"
  and raised_keeps: "P s \<Longrightarrow> P (snd (raised e s))"
  and require_keeps: "P s \<Longrightarrow> P (snd (require c e s))"
  and require_some_keeps: "P s \<Longrightarrow> P (snd (require_some x e s))"
  by (auto simp: require_def require_some_def split: option.split)

section \<open>Tables\<close>

text \<open>
  A table is the list of its rows in the order they were inserted. \<open>s.get(Table, key)\<close> and
  \<open>select(...).where(column == key)\<close> with \<open>scalar\<close> read the first row with that key; an
  attribute assignment on a loaded row is an update by key.
\<close>

definition lookup :: "('r \<Rightarrow> 'k) \<Rightarrow> 'k \<Rightarrow> 'r list \<Rightarrow> 'r option" where
  "lookup key k rs = List.find (\<lambda>r. key r = k) rs"

definition modify :: "('r \<Rightarrow> 'k) \<Rightarrow> 'k \<Rightarrow> ('r \<Rightarrow> 'r) \<Rightarrow> 'r list \<Rightarrow> 'r list" where
  "modify key k f rs = map (\<lambda>r. if key r = k then f r else r) rs"

definition has :: "('r \<Rightarrow> bool) \<Rightarrow> 'r list \<Rightarrow> bool" where
  "has P rs = list_ex P rs"

lemma has_iff [simp]: "has P rs \<longleftrightarrow> (\<exists>r \<in> set rs. P r)"
  by (simp add: has_def list_ex_iff)

lemma lookup_Nil [simp]: "lookup key k [] = None"
  by (simp add: lookup_def)

lemma lookup_Cons [simp]:
  "lookup key k (r # rs) = (if key r = k then Some r else lookup key k rs)"
  by (simp add: lookup_def)

lemma lookup_append:
  "lookup key k (xs @ ys) = (case lookup key k xs of None \<Rightarrow> lookup key k ys | Some r \<Rightarrow> Some r)"
  by (induction xs) auto

lemma lookup_SomeD: "lookup key k rs = Some r \<Longrightarrow> r \<in> set rs \<and> key r = k"
  by (induction rs) (auto split: if_splits)

lemma lookup_None_iff: "lookup key k rs = None \<longleftrightarrow> (\<forall>r \<in> set rs. key r \<noteq> k)"
  by (induction rs) auto

lemma lookup_unique:
  "distinct (map key rs) \<Longrightarrow> r \<in> set rs \<Longrightarrow> lookup key (key r) rs = Some r"
  by (induction rs) (auto simp: rev_image_eqI)

lemma lookup_distinct_iff:
  "distinct (map key rs) \<Longrightarrow> lookup key k rs = Some r \<longleftrightarrow> r \<in> set rs \<and> key r = k"
  by (metis lookup_SomeD lookup_unique)

lemma modify_Nil [simp]: "modify key k f [] = []"
  by (simp add: modify_def)

lemma modify_Cons [simp]:
  "modify key k f (r # rs) = (if key r = k then f r else r) # modify key k f rs"
  by (simp add: modify_def)

lemma length_modify [simp]: "length (modify key k f rs) = length rs"
  by (simp add: modify_def)

lemma modify_append [simp]: "modify key k f (xs @ ys) = modify key k f xs @ modify key k f ys"
  by (simp add: modify_def)

lemma modify_absent: "lookup key k rs = None \<Longrightarrow> modify key k f rs = rs"
  by (induction rs) (auto split: if_splits)

lemma map_key_modify [simp]:
  "(\<And>r. key r = k \<Longrightarrow> g (f r) = g r) \<Longrightarrow> map g (modify key k f rs) = map g rs"
  by (induction rs) auto

lemma lookup_modify:
  assumes "\<And>r. key r = k \<Longrightarrow> key (f r) = k"
  shows "lookup key j (modify key k f rs) =
    (if j = k then map_option f (lookup key k rs) else lookup key j rs)"
  using assms by (induction rs) auto

lemma lookup_modify_other:
  assumes "\<And>r. key r = k \<Longrightarrow> other (f r) = other r"
  shows "lookup other j (modify key k f rs) =
    map_option (\<lambda>r. if key r = k then f r else r) (lookup other j rs)"
  using assms by (induction rs) auto

lemma set_modify:
  "set (modify key k f rs) = (\<lambda>r. if key r = k then f r else r) ` set rs"
  by (simp add: modify_def)

lemma modify_in_setD:
  "r \<in> set (modify key k f rs) \<Longrightarrow> r \<in> set rs \<or> (\<exists>q \<in> set rs. key q = k \<and> r = f q)"
  by (auto simp: modify_def)

lemmas table_simps = lookup_append lookup_modify modify_absent

section \<open>Printing integers, and keys made of several fields\<close>

definition digit :: "nat \<Rightarrow> char" where
  "digit n = ''0123456789'' ! n"

fun dec :: "nat \<Rightarrow> string" where
  "dec n = (if n < 10 then [digit n] else dec (n div 10) @ [digit (n mod 10)])"

declare dec.simps [simp del]

definition pystr :: "int \<Rightarrow> string" where
  "pystr i = (if i < 0 then CHR ''-'' # dec (nat (- i)) else dec (nat i))"

definition undec :: "string \<Rightarrow> nat" where
  "undec cs = foldl (\<lambda>n c. 10 * n + (of_char c - 48)) 0 cs"

lemma less_10_cases:
  "(n::nat) < 10 \<Longrightarrow> n = 0 \<or> n = 1 \<or> n = 2 \<or> n = 3 \<or> n = 4 \<or> n = 5 \<or> n = 6 \<or> n = 7 \<or> n = 8 \<or> n = 9"
  by arith

lemma digit_value: "n < 10 \<Longrightarrow> (of_char (digit n) :: nat) = 48 + n"
  by (drule less_10_cases) (auto simp: digit_def)

lemma digit_not_sep: "n < 10 \<Longrightarrow> digit n \<noteq> CHR '':'' \<and> digit n \<noteq> CHR ''-''"
  by (drule less_10_cases) (auto simp: digit_def)

lemma undec_dec: "undec (dec n) = n"
proof (induction n rule: dec.induct)
  case (1 n)
  show ?case
  proof (cases "n < 10")
    case True
    then show ?thesis by (subst dec.simps) (simp add: undec_def digit_value)
  next
    case False
    have "undec (dec n) = undec (dec (n div 10) @ [digit (n mod 10)])"
      using False by (subst dec.simps) simp
    also have "\<dots> = 10 * undec (dec (n div 10)) + n mod 10"
      by (simp add: undec_def digit_value)
    finally show ?thesis using 1 False by simp
  qed
qed

lemma dec_inj [simp]: "dec m = dec n \<longleftrightarrow> m = n"
  by (metis undec_dec)

lemma dec_no_sep: "CHR '':'' \<notin> set (dec n) \<and> CHR ''-'' \<notin> set (dec n)"
proof (induction n rule: dec.induct)
  case (1 n)
  show ?case
  proof (cases "n < 10")
    case True
    with digit_not_sep [OF True] show ?thesis
      by (subst (1 2) dec.simps) (simp add: eq_commute)
  next
    case False
    with 1 have "CHR '':'' \<notin> set (dec (n div 10)) \<and> CHR ''-'' \<notin> set (dec (n div 10))"
      by simp
    moreover have "digit (n mod 10) \<noteq> CHR '':'' \<and> digit (n mod 10) \<noteq> CHR ''-''"
      by (rule digit_not_sep) simp
    ultimately show ?thesis using False by (subst (1 2) dec.simps) auto
  qed
qed

lemma pystr_no_colon: "CHR '':'' \<notin> set (pystr i)"
  using dec_no_sep by (simp add: pystr_def)

lemma pystr_inj [simp]: "pystr i = pystr j \<longleftrightarrow> i = j"
proof
  assume eq: "pystr i = pystr j"
  have sign: "i < 0 \<longleftrightarrow> j < 0"
  proof -
    have no: "CHR ''-'' \<notin> set (dec n)" for n using dec_no_sep by simp
    have "i < 0 \<longleftrightarrow> CHR ''-'' \<in> set (pystr i)" for i
      using no by (auto simp: pystr_def)
    with eq show ?thesis by metis
  qed
  with eq show "i = j" by (auto simp: pystr_def split: if_splits)
qed simp

lemma field_split:
  assumes "xs @ CHR '':'' # ys = xs' @ CHR '':'' # ys'"
    and "CHR '':'' \<notin> set xs" and "CHR '':'' \<notin> set xs'"
  shows "xs = xs' \<and> ys = ys'"
  using assms
proof (induction xs arbitrary: xs')
  case Nil
  then show ?case by (cases xs') auto
next
  case (Cons c xs)
  then show ?case by (cases xs') auto
qed

text \<open>\<open>str.strip()\<close>, on the characters \<open>str.isspace()\<close> accepts below 256.\<close>

definition isspace :: "char \<Rightarrow> bool" where
  "isspace c \<longleftrightarrow> (of_char c :: nat) \<in> set [9, 10, 11, 12, 13, 28, 29, 30, 31, 32, 133, 160]"

definition strip :: "string \<Rightarrow> string" where
  "strip t = rev (dropWhile isspace (rev (dropWhile isspace t)))"

section \<open>A system of steps that keep an invariant\<close>

locale step_system =
  fixes step :: "'op \<Rightarrow> 's \<Rightarrow> 's" and inv :: "'s \<Rightarrow> bool"
  assumes step_inv: "inv s \<Longrightarrow> inv (step x s)"
begin

lemma run_inv: "inv s \<Longrightarrow> inv (fold step xs s)"
  by (induction xs arbitrary: s) (auto intro: step_inv)

lemma run_inv_prefix: "inv s \<Longrightarrow> inv (fold step (take n xs) s)"
  by (rule run_inv)

end

section \<open>A status that only moves forward\<close>

text \<open>
  \<open>flow a\<close> lists the statuses reachable from \<open>a\<close> in one transition. A \<open>rank\<close> that every
  transition increases makes the table acyclic.
\<close>

locale status_flow =
  fixes flow :: "'st \<Rightarrow> 'st list" and rank :: "'st \<Rightarrow> nat" and top :: nat
  assumes forward: "b \<in> set (flow a) \<Longrightarrow> rank a < rank b"
    and bounded: "rank a \<le> top"
begin

fun walk :: "'st \<Rightarrow> 'st list \<Rightarrow> bool" where
  "walk a [] = True"
| "walk a (b # bs) = (b \<in> set (flow a) \<and> walk b bs)"

lemma walk_rank: "walk a bs \<Longrightarrow> b \<in> set bs \<Longrightarrow> rank a < rank b"
proof (induction bs arbitrary: a)
  case Nil
  then show ?case by simp
next
  case (Cons c bs)
  then have "rank a < rank c" by (simp add: forward)
  with Cons show ?case by (auto dest: less_trans)
qed

lemma walk_length: "walk a bs \<Longrightarrow> rank a + length bs \<le> top"
proof (induction bs arbitrary: a)
  case Nil
  then show ?case by (simp add: bounded)
next
  case (Cons c bs)
  then have "rank a < rank c" and "rank c + length bs \<le> top"
    by (simp_all add: forward)
  then show ?case by simp
qed

lemma walk_distinct: "walk a bs \<Longrightarrow> distinct (a # bs)"
proof (induction bs arbitrary: a)
  case Nil
  then show ?case by simp
next
  case (Cons c bs)
  then show ?case using walk_rank [of a "c # bs"] by fastforce
qed

end

end
