(* ===== verification/Rbac.thy ===== *)
theory Rbac
  imports Prelude "HOL-Library.List_Lexorder" "HOL-Library.Char_ord"
begin

text \<open>
  \<open>rbac.py\<close>: the permission matrix. Roles and permissions are the strings of the source; a Python
  set of permissions is the list of its members. A stored role may be missing (\<open>None\<close>) or unknown.
  The Persian sentence of \<open>denial_fa\<close> is rendered as the permission it refuses.
\<close>

section \<open>The matrix\<close>

definition ROLES :: "string list" where
  "ROLES = [''system_admin'', ''reseller_admin'', ''operator'', ''finance'', ''support'', ''viewer'',
            ''customer'']"

definition ASSIGNABLE_ROLES :: "string list" where
  "ASSIGNABLE_ROLES = drop 1 ROLES"

definition VIEW :: "string list" where
  "VIEW = [''view_dashboard'', ''view_finance'', ''view_audit'', ''export_reports'',
           ''create_support_ticket'', ''answer_support'']"

definition MONEY_REQUEST :: "string list" where
  "MONEY_REQUEST = [''request_funding'', ''request_adjustment'']"

definition MONEY_DECIDE :: "string list" where
  "MONEY_DECIDE = [''decide_funding'']"

definition INFRA :: "string list" where
  "INFRA = [''manage_servers'', ''node_control'', ''subscriber_control'', ''admin_limit'']"

definition NETWORK :: "string list" where
  "NETWORK = [''manage_resellers'']"

definition PRICING :: "string list" where
  "PRICING = [''change_billing_coefficient'']"

definition ORDER :: "string list" where
  "ORDER = [''order_panel'']"

definition ORDER_DECIDE :: "string list" where
  "ORDER_DECIDE = [''decide_orders'']"

definition CATALOG :: "string list" where
  "CATALOG = [''manage_catalog'']"

definition CUSTOMER :: "string list" where
  "CUSTOMER = [''view_dashboard'', ''view_finance'', ''export_reports'', ''create_support_ticket'',
               ''request_funding'', ''subscriber_control''] @ ORDER"

definition MATRIX :: "(string \<times> string list) list" where
  "MATRIX =
    [(''system_admin'', VIEW @ MONEY_REQUEST @ MONEY_DECIDE @ INFRA @ NETWORK @ PRICING @ CATALOG @
        ORDER @ ORDER_DECIDE @ [''decide_adjustment'']),
     (''reseller_admin'', VIEW @ MONEY_REQUEST @ MONEY_DECIDE @ INFRA @ NETWORK @ CATALOG @ ORDER @
        ORDER_DECIDE),
     (''operator'', [''view_dashboard'', ''view_audit'', ''export_reports'', ''manage_servers'',
        ''node_control'', ''subscriber_control'', ''admin_limit'']),
     (''finance'', [''view_dashboard'', ''view_finance'', ''view_audit'', ''export_reports'',
        ''create_support_ticket''] @ MONEY_REQUEST @ MONEY_DECIDE),
     (''support'', [''view_dashboard'', ''view_finance'', ''create_support_ticket'', ''answer_support'',
        ''subscriber_control'']),
     (''viewer'', [''view_dashboard'', ''view_finance'', ''export_reports'']),
     (''customer'', CUSTOMER)]"

definition ALL_PERMISSIONS :: "string list" where
  "ALL_PERMISSIONS = sort (remdups (VIEW @ MONEY_REQUEST @ MONEY_DECIDE @ INFRA @ NETWORK @ PRICING @
     CATALOG @ ORDER @ ORDER_DECIDE @ [''decide_adjustment'']))"

lemmas permission_groups =
  VIEW_def MONEY_REQUEST_def MONEY_DECIDE_def INFRA_def NETWORK_def PRICING_def ORDER_def
  ORDER_DECIDE_def CATALOG_def CUSTOMER_def

section \<open>Decisions\<close>

definition normalize :: "string option \<Rightarrow> string" where
  "normalize role = (case role of
     None \<Rightarrow> ''viewer''
   | Some r \<Rightarrow> if map_of MATRIX r \<noteq> None then r else ''viewer'')"

definition permissions_for :: "string option \<Rightarrow> string set" where
  "permissions_for role = set (the (map_of MATRIX (normalize role)))"

definition can :: "string option \<Rightarrow> string \<Rightarrow> bool" where
  "can role permission \<longleftrightarrow> permission \<in> permissions_for role"

definition permission_payload :: "string \<Rightarrow> (string \<times> bool) list" where
  "permission_payload role = map (\<lambda>name. (name, can (Some role) name)) ALL_PERMISSIONS"

definition denial :: "string \<Rightarrow> error" where
  "denial permission = HTTPException 403 (''not permitted: '' @ permission)"

section \<open>Properties\<close>

lemma dom_MATRIX: "map_of MATRIX r \<noteq> None \<longleftrightarrow> r \<in> set ROLES"
  by (auto simp: MATRIX_def ROLES_def)

lemma normalize_role: "normalize role \<in> set ROLES"
  using dom_MATRIX by (auto simp: normalize_def ROLES_def split: option.split)

lemma normalize_known: "r \<in> set ROLES \<Longrightarrow> normalize (Some r) = r"
  using dom_MATRIX by (simp add: normalize_def)

lemma normalize_unknown: "r \<notin> set ROLES \<Longrightarrow> normalize (Some r) = ''viewer''"
  using dom_MATRIX by (simp add: normalize_def)

lemma normalize_idem [simp]: "normalize (Some (normalize role)) = normalize role"
  using normalize_role normalize_known by blast

lemma can_normalize: "can (Some (normalize role)) p = can role p"
  by (simp add: can_def permissions_for_def)

lemma can_cases:
  "can role p \<longleftrightarrow> (\<exists>ps. map_of MATRIX (normalize role) = Some ps \<and> p \<in> set ps)"
proof -
  have "map_of MATRIX (normalize role) \<noteq> None" using dom_MATRIX normalize_role by blast
  then show ?thesis by (auto simp: can_def permissions_for_def)
qed

text \<open>The roles that hold a permission, read off the matrix.\<close>

definition holders :: "string \<Rightarrow> string list" where
  "holders p = map fst (filter (\<lambda>(r, ps). p \<in> set ps) MATRIX)"

lemma distinct_MATRIX: "distinct (map fst MATRIX)"
  by (simp add: MATRIX_def)

lemma keys_of_filter:
  "distinct (map fst m) \<Longrightarrow>
    r \<in> set (map fst (filter (\<lambda>(r, ps). p \<in> set ps) m)) \<longleftrightarrow> (\<exists>ps. map_of m r = Some ps \<and> p \<in> set ps)"
  by (induction m) (force split: if_splits)+

lemma can_holders: "can role p \<longleftrightarrow> normalize role \<in> set (holders p)"
  unfolding can_cases holders_def by (rule keys_of_filter [OF distinct_MATRIX, symmetric])

lemma ALL_PERMISSIONS_set:
  "set ALL_PERMISSIONS = set (VIEW @ MONEY_REQUEST @ MONEY_DECIDE @ INFRA @ NETWORK @ PRICING @ CATALOG @
     ORDER @ ORDER_DECIDE @ [''decide_adjustment''])"
  by (simp only: ALL_PERMISSIONS_def set_sort set_remdups)

lemma matrix_checked: "list_all (\<lambda>(r, ps). list_all (\<lambda>p. p \<in> set ALL_PERMISSIONS) ps) MATRIX"
  by code_simp

lemma matrix_within_all: "(r, ps) \<in> set MATRIX \<Longrightarrow> set ps \<subseteq> set ALL_PERMISSIONS"
  using matrix_checked by (fastforce simp: list_all_iff)

lemma privileged_holders:
  "holders ''change_billing_coefficient'' = [''system_admin'']" "holders ''decide_adjustment'' = [''system_admin'']"
  by code_simp+

lemma privileged_role:
  assumes "p \<in> {''change_billing_coefficient'', ''decide_adjustment''}" and "can (Some r) p"
  shows "r = ''system_admin''"
proof -
  have "normalize (Some r) = ''system_admin''"
    using assms privileged_holders by (auto simp: can_holders)
  then show ?thesis using normalize_known [of r] normalize_unknown [of r] by (cases "r \<in> set ROLES") auto
qed

text \<open>pricing the usage of an account and approving a correction of a settled balance are held
  by the system administrator alone, whatever role string is stored.\<close>

theorem reserved_for_root:
  "(can role ''change_billing_coefficient'' \<longleftrightarrow> normalize role = ''system_admin'') \<and>
   (can role ''decide_adjustment'' \<longleftrightarrow> normalize role = ''system_admin'')"
  using privileged_holders by (simp add: can_holders)

text \<open>the permission payload sent to the browser and the bot is exact: it marks a permission
  true if and only if the server would grant it, and no permission of the matrix is left out.\<close>

theorem payload_is_exact:
  "can (Some role) p \<longleftrightarrow> (p, True) \<in> set (permission_payload role)"
proof
  assume "can (Some role) p"
  moreover then have "p \<in> set ALL_PERMISSIONS"
    unfolding can_cases using matrix_within_all map_of_SomeD by fast
  ultimately show "(p, True) \<in> set (permission_payload role)"
    by (force simp: permission_payload_def)
qed (auto simp: permission_payload_def)

text \<open>the surface of a customer: a customer decides no money, order or catalog price, runs no
  server or node, manages no reseller and reads no audit trail.\<close>

theorem customer_surface:
  "can (Some ''customer'') p \<Longrightarrow>
    p \<notin> set (MONEY_DECIDE @ NETWORK @ PRICING @ CATALOG @ ORDER_DECIDE @
      [''manage_servers'', ''node_control'', ''admin_limit'', ''decide_adjustment'', ''request_adjustment'',
       ''view_audit''])"
proof -
  have "list_all (\<lambda>p. p \<notin> set (MONEY_DECIDE @ NETWORK @ PRICING @ CATALOG @ ORDER_DECIDE @
      [''manage_servers'', ''node_control'', ''admin_limit'', ''decide_adjustment'', ''request_adjustment'',
       ''view_audit''])) CUSTOMER"
    by code_simp
  moreover have "permissions_for (Some ''customer'') = set CUSTOMER"
    by (simp add: permissions_for_def normalize_def MATRIX_def)
  moreover assume "can (Some ''customer'') p"
  ultimately show ?thesis unfolding list_all_iff can_def by blast
qed

theorem customer_surface_witness:
  "can (Some ''customer'') ''order_panel'' \<and> ''order_panel'' \<notin> set ORDER_DECIDE"
proof -
  have h: "can (Some ''customer'') ''order_panel''" by code_simp
  with customer_surface [OF h] show ?thesis by simp
qed

lemma unknown_role_is_viewer:
  "r \<notin> set ROLES \<Longrightarrow> permissions_for (Some r) = permissions_for (Some ''viewer'')"
  using normalize_unknown normalize_known [of "''viewer''"]
  by (simp add: permissions_for_def ROLES_def)

end
