(* ===== verification/Database.thy ===== *)
theory Database
  imports Prelude
begin

text \<open>
  The tables of \<open>app.py\<close> as records, the database as the record of its tables, and the session
  helpers every module uses: \<open>s.get\<close>, fresh identifiers, settings and the audit trail. Times are
  seconds. JSON columns are lists of fields.
\<close>

section \<open>Rows\<close>

datatype json = JNull | JBool bool | JInt int | JStr string | JUid uid | JDecimal rat | JList "json list" | JObj "(string \<times> json) list"

text \<open>A \<open>Numeric(10,4)\<close> column keeps four digits, rounding halves up.\<close>

definition numeric4 :: "rat \<Rightarrow> rat" where
  "numeric4 c = of_int \<lfloor>c * 10000 + 1 / 2\<rfloor> / 10000"

definition json_id :: "uid option \<Rightarrow> json" where
  "json_id i = (case i of None \<Rightarrow> JNull | Some n \<Rightarrow> JUid n)"

datatype owner = SYSTEM | Org uid

record organization =
  org_id :: uid
  org_parent_id :: "uid option"
  org_name :: string
  org_slug :: string
  org_status :: string
  org_credit_limit_irr :: int
  org_max_depth :: int
  org_created_at :: int

record closure =
  clo_ancestor_id :: uid
  clo_descendant_id :: uid
  clo_depth :: nat

record contract =
  con_parent_id :: uid
  con_child_id :: uid
  con_price_per_gib_irr :: int
  con_status :: string

record account =
  acc_id :: uid
  acc_owner_key :: owner
  acc_balance_irr :: int

record entry =
  en_account_id :: uid
  en_side :: string
  en_amount_irr :: int

record transaction =
  tx_id :: uid
  tx_idempotency_key :: string
  tx_kind :: string
  tx_reference :: string
  tx_actor_id :: "uid option"
  tx_created_at :: int
  tx_entries :: "entry list"

record panel =
  pan_id :: uid
  pan_name :: string
  pan_base_url :: string
  pan_vendor :: string
  pan_api_key_ref :: "string option"
  pan_owner_user_ref :: "string option"
  pan_owner_pass_ref :: "string option"
  pan_usage_coefficient :: rat
  pan_verify_tls :: bool
  pan_status :: string
  pan_saleable :: bool

record panel_owner =
  own_panel_id :: uid
  own_organization_id :: uid

record plan_category =
  cat_id :: uid
  cat_organization_id :: uid
  cat_name :: string
  cat_description :: string
  cat_status :: string

record plan =
  plan_id :: uid
  plan_organization_id :: uid
  plan_panel_id :: uid
  plan_category_id :: "uid option"
  plan_name :: string
  plan_description :: string
  plan_price_per_gib_irr :: int
  plan_daily_gib :: int
  plan_duration_days :: int
  plan_user_count :: int
  plan_credit_limit_irr :: int
  plan_payment_instructions :: string
  plan_status :: string

text \<open>\<open>Plan.amount_irr\<close> is a property: it is computed on every read and never stored.\<close>

definition plan_amount_irr :: "plan \<Rightarrow> int" where
  "plan_amount_irr p = plan_price_per_gib_irr p * plan_daily_gib p * plan_duration_days p"

record binding =
  bnd_id :: uid
  bnd_organization_id :: uid
  bnd_panel_id :: uid
  bnd_pg_admin_id :: int
  bnd_username :: string
  bnd_status :: string

record checkpoint =
  chk_binding_id :: uid
  chk_lifetime_bytes :: int
  chk_observed_at :: int
  chk_anomaly_count :: nat

record usage =
  use_binding_id :: uid
  use_lifetime_bytes :: int
  use_delta_bytes :: int
  use_status :: string
  use_observed_at :: int

record outbox =
  obx_id :: uid
  obx_topic :: string
  obx_aggregate_id :: uid
  obx_payload :: "(string \<times> json) list"
  obx_status :: string
  obx_attempts :: nat
  obx_next_attempt_at :: int
  obx_claimed_by :: "string option"
  obx_claimed_at :: "int option"
  obx_completed_at :: "int option"
  obx_last_error :: "string option"

record actor =
  act_id :: uid
  act_telegram_id :: int
  act_display_name :: string
  act_status :: string

record membership =
  mem_id :: uid
  mem_organization_id :: uid
  mem_actor_id :: uid
  mem_role :: string
  mem_status :: string
  mem_created_at :: int

record funding_request =
  fun_id :: uid
  fun_organization_id :: uid
  fun_actor_id :: uid
  fun_amount_irr :: int
  fun_status :: string
  fun_decided_by :: "uid option"
  fun_decided_at :: "int option"
  fun_created_at :: int

definition ORDER_STATES :: "string list" where
  "ORDER_STATES = [''pending'', ''quoted'', ''confirmed'', ''payment_declared'', ''approved'', ''rejected'',
     ''cancelled'']"

record panel_order =
  ord_id :: uid
  ord_actor_id :: uid
  ord_panel_id :: uid
  ord_plan_id :: "uid option"
  ord_business_name :: string
  ord_slug :: string
  ord_user_count :: int
  ord_daily_gib :: int
  ord_note :: string
  ord_status :: string
  ord_credit_limit_irr :: int
  ord_price_per_gib_irr :: int
  ord_amount_irr :: int
  ord_payment_instructions :: string
  ord_admin_username :: string
  ord_pg_admin_id :: "int option"
  ord_organization_id :: "uid option"
  ord_decided_by :: "uid option"
  ord_decided_at :: "int option"
  ord_rejection_reason :: string
  ord_created_at :: int

record audit_log =
  aud_actor_id :: "uid option"
  aud_organization_id :: "uid option"
  aud_action :: string
  aud_target_type :: string
  aud_target_id :: string
  aud_details :: "(string \<times> json) list"
  aud_created_at :: int

record approval_request =
  apr_id :: uid
  apr_requester_id :: uid
  apr_approver_id :: "uid option"
  apr_action :: string
  apr_target_id :: uid
  apr_amount_irr :: int
  apr_note :: string
  apr_status :: string
  apr_expires_at :: int
  apr_decided_at :: "int option"
  apr_decision_note :: "string option"
  apr_created_at :: int

section \<open>The database\<close>

text \<open>The only setting the code writes, \<open>bootstrap_complete\<close>, holds an organization's id.\<close>

record db =
  organizations :: "organization list"
  closures :: "closure list"
  contracts :: "contract list"
  accounts :: "account list"
  transactions :: "transaction list"
  panels :: "panel list"
  panel_owners :: "panel_owner list"
  plan_categories :: "plan_category list"
  plans :: "plan list"
  bindings :: "binding list"
  checkpoints :: "checkpoint list"
  usages :: "usage list"
  outbox_events :: "outbox list"
  actors :: "actor list"
  memberships :: "membership list"
  funding_requests :: "funding_request list"
  panel_orders :: "panel_order list"
  settings :: "(string \<times> uid) list"
  audit_logs :: "audit_log list"
  approval_requests :: "approval_request list"
  next_uid :: uid

definition empty_db :: db where
  "empty_db = \<lparr>organizations = [], closures = [], contracts = [], accounts = [], transactions = [],
     panels = [], panel_owners = [], plan_categories = [], plans = [], bindings = [], checkpoints = [],
     usages = [], outbox_events = [], actors = [], memberships = [], funding_requests = [],
     panel_orders = [], settings = [], audit_logs = [], approval_requests = [], next_uid = 1\<rparr>"

text \<open>\<open>uid()\<close>: the next identifier is \<open>next_uid s\<close>, and the draw moves the counter.\<close>

definition draw :: "db \<Rightarrow> db" where
  "draw s = s\<lparr>next_uid := Suc (next_uid s)\<rparr>"

abbreviation get_organization :: "db \<Rightarrow> uid \<Rightarrow> organization option" where
  "get_organization s i \<equiv> lookup org_id i (organizations s)"

abbreviation get_panel :: "db \<Rightarrow> uid \<Rightarrow> panel option" where
  "get_panel s i \<equiv> lookup pan_id i (panels s)"

abbreviation get_plan :: "db \<Rightarrow> uid \<Rightarrow> plan option" where
  "get_plan s i \<equiv> lookup plan_id i (plans s)"

abbreviation get_category :: "db \<Rightarrow> uid \<Rightarrow> plan_category option" where
  "get_category s i \<equiv> lookup cat_id i (plan_categories s)"

abbreviation get_binding :: "db \<Rightarrow> uid \<Rightarrow> binding option" where
  "get_binding s i \<equiv> lookup bnd_id i (bindings s)"

abbreviation get_order :: "db \<Rightarrow> uid \<Rightarrow> panel_order option" where
  "get_order s i \<equiv> lookup ord_id i (panel_orders s)"

section \<open>Settings and the audit trail\<close>

definition setting :: "db \<Rightarrow> string \<Rightarrow> uid option" where
  "setting s key = map_option snd (lookup fst key (settings s))"

definition put_setting :: "string \<Rightarrow> uid \<Rightarrow> db \<Rightarrow> db" where
  "put_setting key value s = (if lookup fst key (settings s) = None
     then s\<lparr>settings := settings s @ [(key, value)]\<rparr>
     else s\<lparr>settings := modify fst key (\<lambda>row. (fst row, value)) (settings s)\<rparr>)"

text \<open>
  \<open>str(target_id)\<close> of an identifier. Column defaults are filled in when a row is flushed, so the id
  of a row that was only added to the session is still \<open>None\<close>, and prints as such.
\<close>

definition str_id :: "uid option \<Rightarrow> string" where
  "str_id i = (case i of None \<Rightarrow> ''None'' | Some n \<Rightarrow> dec n)"

definition audit ::
  "int \<Rightarrow> string \<Rightarrow> string \<Rightarrow> uid option \<Rightarrow> uid option \<Rightarrow> uid option \<Rightarrow> (string \<times> json) list \<Rightarrow> db \<Rightarrow> db" where
  "audit now action target_type target_id actor_id organization_id metadata s =
     s\<lparr>audit_logs := audit_logs s @
        [\<lparr>aud_actor_id = actor_id, aud_organization_id = organization_id, aud_action = action,
          aud_target_type = target_type, aud_target_id = str_id target_id, aud_details = metadata,
          aud_created_at = now\<rparr>]\<rparr>"

lemma draw_simps [simp]:
  "next_uid (draw s) = Suc (next_uid s)"
  "organizations (draw s) = organizations s" "closures (draw s) = closures s"
  "contracts (draw s) = contracts s" "accounts (draw s) = accounts s"
  "transactions (draw s) = transactions s" "panels (draw s) = panels s"
  "panel_owners (draw s) = panel_owners s" "plan_categories (draw s) = plan_categories s"
  "plans (draw s) = plans s" "bindings (draw s) = bindings s" "checkpoints (draw s) = checkpoints s"
  "usages (draw s) = usages s" "outbox_events (draw s) = outbox_events s" "actors (draw s) = actors s"
  "memberships (draw s) = memberships s" "funding_requests (draw s) = funding_requests s"
  "panel_orders (draw s) = panel_orders s" "settings (draw s) = settings s"
  "audit_logs (draw s) = audit_logs s" "approval_requests (draw s) = approval_requests s"
  by (simp_all add: draw_def)

lemma audit_simps [simp]:
  "next_uid (audit t a b c d e f s) = next_uid s"
  "organizations (audit t a b c d e f s) = organizations s" "closures (audit t a b c d e f s) = closures s"
  "contracts (audit t a b c d e f s) = contracts s" "accounts (audit t a b c d e f s) = accounts s"
  "transactions (audit t a b c d e f s) = transactions s" "panels (audit t a b c d e f s) = panels s"
  "panel_owners (audit t a b c d e f s) = panel_owners s"
  "plan_categories (audit t a b c d e f s) = plan_categories s" "plans (audit t a b c d e f s) = plans s"
  "bindings (audit t a b c d e f s) = bindings s" "checkpoints (audit t a b c d e f s) = checkpoints s"
  "usages (audit t a b c d e f s) = usages s" "outbox_events (audit t a b c d e f s) = outbox_events s"
  "actors (audit t a b c d e f s) = actors s" "memberships (audit t a b c d e f s) = memberships s"
  "funding_requests (audit t a b c d e f s) = funding_requests s"
  "panel_orders (audit t a b c d e f s) = panel_orders s" "settings (audit t a b c d e f s) = settings s"
  "approval_requests (audit t a b c d e f s) = approval_requests s"
  by (simp_all add: audit_def)

text \<open>The audit trail is append-only.\<close>

lemma audit_logs_audit: "\<exists>row. audit_logs (audit t a b c d e f s) = audit_logs s @ [row]"
  by (simp add: audit_def)

lemma setting_put_setting: "setting (put_setting key v s) k = (if k = key then Some v else setting s k)"
  by (cases "lookup fst key (settings s)")
     (auto simp: put_setting_def setting_def lookup_append lookup_modify split: option.split)

text \<open>The only vendor a client exists for.\<close>

definition SUPPORTED_VENDORS :: "string list" where
  "SUPPORTED_VENDORS = [''pasarguard'']"

text \<open>
  An unknown vendor is meant to be answered with status 422, but the call names the detail \<open>f\<close>
  (\<open>HTTPException(422,f="...")\<close>), an argument the constructor does not have: what is raised is a
  \<open>TypeError\<close>.
\<close>

definition assert_vendor :: "panel \<Rightarrow> 's \<Rightarrow> (unit, 's) res" where
  "assert_vendor p = require (pan_vendor p \<in> set SUPPORTED_VENDORS)
     (TypeError ''HTTPException.__init__() got an unexpected keyword argument f'')"

section \<open>Numbers in columns\<close>

text \<open>
  A number too large for its column, \<open>BigInteger\<close> or \<open>Integer\<close>, is refused by the database when the row is flushed.
\<close>

definition fits_bigint :: "int \<Rightarrow> bool" where
  "fits_bigint n \<longleftrightarrow> - (2 ^ 63) \<le> n \<and> n < 2 ^ 63"

definition fits_integer :: "int \<Rightarrow> bool" where
  "fits_integer n \<longleftrightarrow> - (2 ^ 31) \<le> n \<and> n < 2 ^ 31"

definition bigints_stored :: "int list \<Rightarrow> 's \<Rightarrow> (unit, 's) res" where
  "bigints_stored ns = require (list_all fits_bigint ns) (DataError ''bigint out of range'')"

definition integers_stored :: "int list \<Rightarrow> 's \<Rightarrow> (unit, 's) res" where
  "integers_stored ns = require (list_all fits_integer ns) (DataError ''integer out of range'')"

lemma bigints_stored_iff [simp]:
  "bigints_stored ns s = (Inr u, s') \<longleftrightarrow> list_all fits_bigint ns \<and> s' = s"
  "integers_stored ns s = (Inr u, s') \<longleftrightarrow> list_all fits_integer ns \<and> s' = s"
  by (auto simp: bigints_stored_def integers_stored_def require_def)

lemma bindr_stored [outcome]:
  "bindr (bigints_stored ns s) f = (if list_all fits_bigint ns then f () s else raised (DataError ''bigint out of range'') s)"
  "bindr (integers_stored ns s) f = (if list_all fits_integer ns then f () s else raised (DataError ''integer out of range'') s)"
  by (simp_all add: bigints_stored_def integers_stored_def bindr_require)

lemma bigints_stored_keeps: "P s \<Longrightarrow> P (snd (bigints_stored ns s))" "P s \<Longrightarrow> P (snd (integers_stored ns s))"
  by (simp_all add: bigints_stored_def integers_stored_def require_keeps)

section \<open>A request\<close>

text \<open>
  A session works on a copy of the database; \<open>commit\<close> makes the copy permanent, \<open>rollback\<close> (and
  the end of a request that raised) goes back to the last commit.
\<close>

record session =
  current :: db
  committed :: db

definition commit :: "'w session_scheme \<Rightarrow> 'w session_scheme" where
  "commit S = S\<lparr>committed := current S\<rparr>"

definition rollback :: "'w session_scheme \<Rightarrow> 'w session_scheme" where
  "rollback S = S\<lparr>current := committed S\<rparr>"

definition open_session :: "db \<Rightarrow> session" where
  "open_session s = \<lparr>current = s, committed = s\<rparr>"

definition in_session :: "(db \<Rightarrow> ('a, db) res) \<Rightarrow> 'w session_scheme \<Rightarrow> ('a, 'w session_scheme) res" where
  "in_session f S = (case f (current S) of (r, s) \<Rightarrow> (r, S\<lparr>current := s\<rparr>))"

text \<open>A route: what it commits is what remains.\<close>

definition request :: "(session \<Rightarrow> ('a, session) res) \<Rightarrow> db \<Rightarrow> ('a, db) res" where
  "request m s = (case m (open_session s) of (r, S) \<Rightarrow> (r, committed S))"

text \<open>The common shape: a body without commits of its own, and one commit when it did not raise.\<close>

definition transact :: "(db \<Rightarrow> ('a, db) res) \<Rightarrow> db \<Rightarrow> ('a, db) res" where
  "transact f s = request (\<lambda>S. bindr (in_session f S) (\<lambda>v S. returned v (commit S))) s"

lemma transact_eq:
  "transact f s = (case f s of (Inl e, _) \<Rightarrow> (Inl e, s) | (Inr v, s') \<Rightarrow> (Inr v, s'))"
  by (auto simp: transact_def request_def in_session_def open_session_def commit_def bindr_def returned_def
      split: prod.split sum.split)

lemma transact_error: "fst (transact f s) = Inl e \<Longrightarrow> snd (transact f s) = s"
  by (auto simp: transact_eq split: prod.splits sum.splits)

lemma transact_Inl: "transact f s = (Inl e, s') \<Longrightarrow> s' = s"
  using transact_error [of f s e] by simp

lemma transact_keeps:
  assumes "P s" and "\<And>v s'. f s = (Inr v, s') \<Longrightarrow> P s'"
  shows "P (snd (transact f s))"
  using assms by (auto simp: transact_eq split: prod.split sum.split)

end
