(* ===== verification/Ledger.thy ===== *)
theory Ledger
  imports Database
begin

text \<open>
  The double-entry ledger of \<open>app.py\<close>: \<open>account\<close>, \<open>balance\<close> and \<open>transfer\<close>. An account row exists
  from the first time somebody asks for it. \<open>transfer\<close> is split where it takes the row locks, so
  that what happens after the lock is a definition of its own.
\<close>

section \<open>Operations\<close>

definition account :: "owner \<Rightarrow> db \<Rightarrow> account \<times> db" where
  "account owner s = (case lookup acc_owner_key owner (accounts s) of
     Some a \<Rightarrow> (a, s)
   | None \<Rightarrow> let a = \<lparr>acc_id = next_uid s, acc_owner_key = owner, acc_balance_irr = 0\<rparr>
             in (a, draw (s\<lparr>accounts := accounts s @ [a]\<rparr>)))"

definition balance :: "owner \<Rightarrow> db \<Rightarrow> int \<times> db" where
  "balance owner s = (case account owner s of (a, s') \<Rightarrow> (acc_balance_irr a, s'))"

definition find_transaction :: "db \<Rightarrow> string \<Rightarrow> transaction option" where
  "find_transaction s key = lookup tx_idempotency_key key (transactions s)"

text \<open>The checks on a paying organization, on its locked and refreshed row.\<close>

definition payer_error :: "owner \<Rightarrow> int \<Rightarrow> int \<Rightarrow> db \<Rightarrow> error option" where
  "payer_error source sb amount s = (case source of
     SYSTEM \<Rightarrow> None
   | Org i \<Rightarrow> (case get_organization s i of
       None \<Rightarrow> Some (ValueError ''paying organization not found'')
     | Some org \<Rightarrow>
         if org_status org \<noteq> ''active'' then Some (ValueError ''organization suspended'')
         else if sb + org_credit_limit_irr org < amount then Some (ValueError ''insufficient credit'')
         else None))"

definition add_balance :: "int \<Rightarrow> account \<Rightarrow> account" where
  "add_balance n a = a\<lparr>acc_balance_irr := acc_balance_irr a + n\<rparr>"

text \<open>Two relative updates, then the transaction with its debit and its credit.\<close>

definition post ::
  "int \<Rightarrow> uid \<Rightarrow> uid \<Rightarrow> int \<Rightarrow> string \<Rightarrow> string \<Rightarrow> string \<Rightarrow> uid option \<Rightarrow> db \<Rightarrow> (transaction, db) res"
where
  "post now sa ta amount key kind ref actor_id s =
    (let tx = \<lparr>tx_id = next_uid s, tx_idempotency_key = key, tx_kind = kind, tx_reference = ref,
               tx_actor_id = actor_id, tx_created_at = now,
               tx_entries = [\<lparr>en_account_id = sa, en_side = ''debit'', en_amount_irr = amount\<rparr>,
                             \<lparr>en_account_id = ta, en_side = ''credit'', en_amount_irr = amount\<rparr>]\<rparr>;
         as = modify acc_id ta (add_balance amount) (modify acc_id sa (add_balance (- amount)) (accounts s))
     in returned tx (draw (s\<lparr>accounts := as, transactions := transactions s @ [tx]\<rparr>)))"

definition transfer_locked ::
  "int \<Rightarrow> uid \<Rightarrow> uid \<Rightarrow> owner \<Rightarrow> int \<Rightarrow> string \<Rightarrow> string \<Rightarrow> string \<Rightarrow> bool \<Rightarrow> uid option \<Rightarrow> db \<Rightarrow>
    (transaction, db) res"
where
  "transfer_locked now sa ta source amount key kind ref enforce actor_id s =
    (case find_transaction s key of
       Some old \<Rightarrow> returned old s
     | None \<Rightarrow>
        (case lookup acc_id sa (accounts s) of
           None \<Rightarrow> raised (TypeError ''balance row missing'') s
         | Some a \<Rightarrow>
            (case (if enforce then payer_error source (acc_balance_irr a) amount s else None) of
               Some e \<Rightarrow> raised e s
             | None \<Rightarrow> post now sa ta amount key kind ref actor_id s)))"

definition transfer ::
  "int \<Rightarrow> owner \<Rightarrow> owner \<Rightarrow> int \<Rightarrow> string \<Rightarrow> string \<Rightarrow> string \<Rightarrow> bool \<Rightarrow> uid option \<Rightarrow> db \<Rightarrow>
    (transaction, db) res"
where
  "transfer now source target amount key kind ref enforce actor_id s =
    (if amount \<le> 0 then raised (ValueError ''amount must be positive'') s
     else case find_transaction s key of
       Some old \<Rightarrow> returned old s
     | None \<Rightarrow>
        (case account source s of (sa, s1) \<Rightarrow>
         case account target s1 of (ta, s2) \<Rightarrow>
           transfer_locked now (acc_id sa) (acc_id ta) source amount key kind ref enforce actor_id s2))"

section \<open>What a correct ledger is\<close>

definition signed_amount :: "entry \<Rightarrow> int" where
  "signed_amount e = (if en_side e = ''credit'' then en_amount_irr e else - en_amount_irr e)"

definition entries_balance :: "uid \<Rightarrow> transaction list \<Rightarrow> int" where
  "entries_balance i txs =
     sum_list (map signed_amount (filter (\<lambda>e. en_account_id e = i) (concat (map tx_entries txs))))"

definition wallet_of :: "db \<Rightarrow> owner \<Rightarrow> int" where
  "wallet_of s w = (case lookup acc_owner_key w (accounts s) of None \<Rightarrow> 0 | Some a \<Rightarrow> acc_balance_irr a)"

definition double_entry :: "uid set \<Rightarrow> transaction \<Rightarrow> bool" where
  "double_entry ids tx \<longleftrightarrow> (\<exists>sa \<in> ids. \<exists>ta \<in> ids. \<exists>n > 0.
     tx_entries tx = [\<lparr>en_account_id = sa, en_side = ''debit'', en_amount_irr = n\<rparr>,
                      \<lparr>en_account_id = ta, en_side = ''credit'', en_amount_irr = n\<rparr>])"

definition ledger_ok :: "db \<Rightarrow> bool" where
  "ledger_ok s \<longleftrightarrow>
     distinct (map acc_owner_key (accounts s)) \<and> distinct (map acc_id (accounts s)) \<and>
     (\<forall>a \<in> set (accounts s). acc_id a < next_uid s) \<and>
     distinct (map tx_idempotency_key (transactions s)) \<and>
     (\<forall>tx \<in> set (transactions s). double_entry (acc_id ` set (accounts s)) tx) \<and>
     (\<forall>a \<in> set (accounts s). acc_balance_irr a = entries_balance (acc_id a) (transactions s))"

lemma add_balance_simps [simp]:
  "acc_id (add_balance n a) = acc_id a" "acc_owner_key (add_balance n a) = acc_owner_key a"
  "acc_balance_irr (add_balance n a) = acc_balance_irr a + n"
  by (simp_all add: add_balance_def)

lemma entries_balance_Nil [simp]: "entries_balance i [] = 0"
  by (simp add: entries_balance_def)

lemma entries_balance_append [simp]:
  "entries_balance i (xs @ ys) = entries_balance i xs + entries_balance i ys"
  by (simp add: entries_balance_def)

lemma entries_balance_single:
  "entries_balance i [tx] = sum_list (map signed_amount (filter (\<lambda>e. en_account_id e = i) (tx_entries tx)))"
  by (simp add: entries_balance_def)

lemma entries_balance_absent:
  assumes "\<And>tx. tx \<in> set txs \<Longrightarrow> double_entry ids tx" and "i \<notin> ids"
  shows "entries_balance i txs = 0"
  using assms
proof (induction txs)
  case Nil
  then show ?case by simp
next
  case (Cons tx txs)
  then have "double_entry ids tx" "entries_balance i txs = 0" by auto
  then show ?case
    using entries_balance_append [of i "[tx]" txs] Cons.prems(2)
    by (auto simp: double_entry_def entries_balance_single)
qed

section \<open>Single operations keep the ledger correct\<close>

lemma account_cases:
  obtains (old) a where "lookup acc_owner_key owner (accounts s) = Some a" "account owner s = (a, s)"
  | (new) "lookup acc_owner_key owner (accounts s) = None"
      "account owner s = (\<lparr>acc_id = next_uid s, acc_owner_key = owner, acc_balance_irr = 0\<rparr>,
         draw (s\<lparr>accounts := accounts s @
           [\<lparr>acc_id = next_uid s, acc_owner_key = owner, acc_balance_irr = 0\<rparr>]\<rparr>))"
  by (cases "lookup acc_owner_key owner (accounts s)") (auto simp: account_def Let_def)

lemma account_found:
  "account owner s = (a, s') \<Longrightarrow> lookup acc_owner_key owner (accounts s') = Some a"
  by (cases rule: account_cases [of owner s]) (auto simp: lookup_append)

lemma account_keeps_found:
  "account owner s = (a, s') \<Longrightarrow> lookup acc_owner_key w (accounts s) = Some b \<Longrightarrow>
    lookup acc_owner_key w (accounts s') = Some b"
  by (cases rule: account_cases [of owner s]) (auto simp: lookup_append)

lemma account_frame:
  assumes "account owner s = (a, s')"
  shows "organizations s' = organizations s" "transactions s' = transactions s"
    "closures s' = closures s" "contracts s' = contracts s" "panels s' = panels s"
    "bindings s' = bindings s" "checkpoints s' = checkpoints s" "usages s' = usages s"
    "outbox_events s' = outbox_events s" "panel_owners s' = panel_owners s"
    "memberships s' = memberships s" "panel_orders s' = panel_orders s"
    "funding_requests s' = funding_requests s" "actors s' = actors s" "plans s' = plans s"
    "plan_categories s' = plan_categories s" "approval_requests s' = approval_requests s"
    "settings s' = settings s" "audit_logs s' = audit_logs s" "next_uid s \<le> next_uid s'"
  using assms by (cases rule: account_cases [of owner s]; auto)+

lemma account_wallet: "account owner s = (a, s') \<Longrightarrow> wallet_of s' w = wallet_of s w"
  by (cases rule: account_cases [of owner s]) (auto simp: wallet_of_def lookup_append split: if_splits option.splits)

lemma account_ledger_ok:
  assumes ok: "ledger_ok s" and acc: "account owner s = (a, s')"
  shows "ledger_ok s'"
proof (cases rule: account_cases [of owner s])
  case old
  with assms show ?thesis by simp
next
  case new
  define ids where "ids = acc_id ` set (accounts s)"
  have fresh: "next_uid s \<notin> ids"
    using ok by (auto simp: ledger_ok_def ids_def)
  have txs: "\<And>tx. tx \<in> set (transactions s) \<Longrightarrow> double_entry ids tx"
    using ok by (simp add: ledger_ok_def ids_def)
  then have wide: "\<And>tx. tx \<in> set (transactions s) \<Longrightarrow> double_entry (insert (next_uid s) ids) tx"
    unfolding double_entry_def by blast
  have "owner \<notin> acc_owner_key ` set (accounts s)"
    using new(1) by (auto simp: lookup_None_iff)
  moreover have "entries_balance (next_uid s) (transactions s) = 0"
    using txs fresh by (rule entries_balance_absent)
  ultimately show ?thesis
    using ok new(2) acc fresh wide
    by (auto simp: ledger_ok_def ids_def less_Suc_eq)
qed

lemma modify_twice_balance:
  assumes "a \<in> set (modify acc_id ta (add_balance n) (modify acc_id sa (add_balance (- n)) as))"
  obtains b where "b \<in> set as" "acc_id a = acc_id b"
    "acc_balance_irr a = acc_balance_irr b + (if acc_id b = ta then n else 0) - (if acc_id b = sa then n else 0)"
  using assms by (auto simp: set_modify split: if_splits)

lemma post_ledger_ok:
  assumes ok: "ledger_ok s" and n: "amount > 0" and key: "find_transaction s key = None"
    and ids: "sa \<in> acc_id ` set (accounts s)" "ta \<in> acc_id ` set (accounts s)"
  shows "ledger_ok (snd (post now sa ta amount key kind ref actor_id s))"
proof -
  define tx where "tx = \<lparr>tx_id = next_uid s, tx_idempotency_key = key, tx_kind = kind, tx_reference = ref,
      tx_actor_id = actor_id, tx_created_at = now,
      tx_entries = [\<lparr>en_account_id = sa, en_side = ''debit'', en_amount_irr = amount\<rparr>,
                    \<lparr>en_account_id = ta, en_side = ''credit'', en_amount_irr = amount\<rparr>]\<rparr>"
  define as where "as = modify acc_id ta (add_balance amount) (modify acc_id sa (add_balance (- amount)) (accounts s))"
  have s': "snd (post now sa ta amount key kind ref actor_id s) =
      draw (s\<lparr>accounts := as, transactions := transactions s @ [tx]\<rparr>)"
    by (simp add: post_def Let_def tx_def as_def)
  have keys: "map acc_owner_key as = map acc_owner_key (accounts s)" "map acc_id as = map acc_id (accounts s)"
    by (simp_all add: as_def)
  have idset: "acc_id ` set as = acc_id ` set (accounts s)"
    using keys(2) by (metis list.set_map)
  have new: "double_entry (acc_id ` set as) tx"
    using n ids unfolding double_entry_def idset by (auto simp: tx_def)
  have single: "entries_balance i [tx] = (if i = ta then amount else 0) - (if i = sa then amount else 0)" for i
    by (auto simp: entries_balance_single tx_def signed_amount_def)
  have "acc_balance_irr a = entries_balance (acc_id a) (transactions s @ [tx])" if "a \<in> set as" for a
  proof -
    from that obtain b where b: "b \<in> set (accounts s)" "acc_id a = acc_id b"
      "acc_balance_irr a = acc_balance_irr b + (if acc_id b = ta then amount else 0)
         - (if acc_id b = sa then amount else 0)"
      unfolding as_def by (rule modify_twice_balance)
    then have "acc_balance_irr b = entries_balance (acc_id b) (transactions s)"
      using ok by (simp add: ledger_ok_def)
    with b show ?thesis by (simp add: single)
  qed
  moreover have "key \<notin> tx_idempotency_key ` set (transactions s)"
    using key by (auto simp: find_transaction_def lookup_None_iff)
  moreover have "acc_id a < next_uid s" if "a \<in> set as" for a
    using ok that idset by (metis (no_types, lifting) image_iff ledger_ok_def)
  ultimately show ?thesis
    unfolding s' using ok new keys idset by (auto simp: ledger_ok_def tx_def less_Suc_eq)
qed

lemma found_in_ids: "lookup acc_owner_key w as = Some a \<Longrightarrow> acc_id a \<in> acc_id ` set as"
  by (auto dest: lookup_SomeD)

lemma transfer_locked_ledger_ok:
  assumes "ledger_ok s" "amount > 0" "sa \<in> acc_id ` set (accounts s)" "ta \<in> acc_id ` set (accounts s)"
  shows "ledger_ok (snd (transfer_locked now sa ta source amount key kind ref enforce actor_id s))"
  using assms post_ledger_ok
  by (auto simp: transfer_locked_def split: option.split)

text \<open>The state \<open>transfer\<close> reaches when it waits for the locks.\<close>

lemma transfer_cases:
  obtains (refused) "amount \<le> 0"
      "transfer now source target amount key kind ref enforce actor_id s =
        raised (ValueError ''amount must be positive'') s"
  | (replayed) old where "amount > 0" "find_transaction s key = Some old"
      "transfer now source target amount key kind ref enforce actor_id s = returned old s"
  | (locked) sa s1 ta s2 where "amount > 0" "find_transaction s key = None"
      "account source s = (sa, s1)" "account target s1 = (ta, s2)"
      "lookup acc_owner_key source (accounts s2) = Some sa"
      "lookup acc_owner_key target (accounts s2) = Some ta"
      "find_transaction s2 key = None"
      "transfer now source target amount key kind ref enforce actor_id s =
        transfer_locked now (acc_id sa) (acc_id ta) source amount key kind ref enforce actor_id s2"
proof (cases "amount \<le> 0")
  case True
  then show thesis by (intro refused) (simp_all add: transfer_def)
next
  case False
  show thesis
  proof (cases "find_transaction s key")
    case (Some old)
    with False show thesis by (intro replayed) (simp_all add: transfer_def)
  next
    case None
    obtain sa s1 where a1: "account source s = (sa, s1)" by (cases "account source s")
    obtain ta s2 where a2: "account target s1 = (ta, s2)" by (cases "account target s1")
    have "find_transaction s2 key = None"
      using None a1 a2 by (simp add: find_transaction_def account_frame)
    with False None a1 a2 show thesis
      by (intro locked [of sa s1 ta s2]) (auto simp: transfer_def account_found account_keeps_found)
  qed
qed

lemma transfer_ledger_ok:
  assumes "ledger_ok s"
  shows "ledger_ok (snd (transfer now source target amount key kind ref enforce actor_id s))"
proof (cases rule: transfer_cases [of amount now source target key kind ref enforce actor_id s])
  case (locked sa s1 ta s2)
  with assms have "ledger_ok s2" by (blast intro: account_ledger_ok)
  with locked show ?thesis by (simp add: transfer_locked_ledger_ok found_in_ids)
qed (use assms in simp_all)

section \<open>What a transfer does\<close>

lemma same_account:
  assumes "ledger_ok s" "lookup acc_owner_key v (accounts s) = Some a"
    "lookup acc_owner_key w (accounts s) = Some b"
  shows "acc_id a = acc_id b \<longleftrightarrow> v = w"
proof
  have in_table: "a \<in> set (accounts s)" "b \<in> set (accounts s)"
    and keys: "acc_owner_key a = v" "acc_owner_key b = w"
    using assms(2,3) by (auto dest: lookup_SomeD)
  have "inj_on acc_id (set (accounts s))"
    using assms(1) by (simp add: ledger_ok_def distinct_map)
  moreover assume "acc_id a = acc_id b"
  ultimately have "a = b" using in_table by (blast dest: inj_onD)
  with keys show "v = w" by simp
next
  assume "v = w"
  with assms(2,3) show "acc_id a = acc_id b" by simp
qed

lemma post_wallet:
  assumes ok: "ledger_ok s"
    and sa: "lookup acc_owner_key source (accounts s) = Some sa"
    and ta: "lookup acc_owner_key target (accounts s) = Some ta"
  shows "wallet_of (snd (post now (acc_id sa) (acc_id ta) amount key kind ref actor_id s)) w =
    wallet_of s w + (if w = target then amount else 0) - (if w = source then amount else 0)"
proof (cases "lookup acc_owner_key w (accounts s)")
  case None
  then have "w \<noteq> source" "w \<noteq> target" using sa ta by auto
  with None show ?thesis by (simp add: wallet_of_def post_def Let_def lookup_modify_other)
next
  case (Some a)
  have "acc_id a = acc_id ta \<longleftrightarrow> w = target" "acc_id a = acc_id sa \<longleftrightarrow> w = source"
    using same_account [OF ok Some ta] same_account [OF ok Some sa] by simp_all
  with Some show ?thesis by (auto simp: wallet_of_def post_def Let_def lookup_modify_other)
qed

text \<open>Everything a transfer can do: refuse, replay, or post.\<close>

lemma transfer_outcome:
  assumes ok: "ledger_ok s"
    and run: "transfer now source target amount key kind ref enforce actor_id s = (r, s')"
  obtains (refused) e where "r = Inl e" "\<And>w. wallet_of s' w = wallet_of s w"
      "transactions s' = transactions s"
  | (replayed) old where "amount > 0" "r = Inr old" "find_transaction s key = Some old" "s' = s"
  | (posted) tx where "amount > 0" "r = Inr tx" "find_transaction s key = None"
      "transactions s' = transactions s @ [tx]" "tx_idempotency_key tx = key"
      "enforce \<Longrightarrow> payer_error source (wallet_of s source) amount s = None"
      "\<And>w. wallet_of s' w = wallet_of s w + (if w = target then amount else 0) - (if w = source then amount else 0)"
proof (cases rule: transfer_cases [of amount now source target key kind ref enforce actor_id s])
  case refused
  with run show thesis by (intro that(1) [of "ValueError ''amount must be positive''"]) auto
next
  case (replayed old)
  with run show thesis by (intro that(2) [of old]) auto
next
  case (locked sa s1 ta s2)
  have ok2: "ledger_ok s2" using ok locked by (blast intro: account_ledger_ok)
  have w2: "wallet_of s2 w = wallet_of s w" for w using locked by (simp add: account_wallet)
  have t2: "transactions s2 = transactions s" "organizations s2 = organizations s"
    using locked by (simp_all add: account_frame)
  have found: "lookup acc_id (acc_id sa) (accounts s2) = Some sa"
    using locked ok2 by (auto simp: ledger_ok_def dest: lookup_SomeD intro: lookup_unique)
  have pay: "payer_error source n amount s2 = payer_error source n amount s" for n
    by (simp add: payer_error_def t2 split: owner.split)
  have sb: "acc_balance_irr sa = wallet_of s source"
    using w2 [of source] locked by (simp add: wallet_of_def)
  show thesis
  proof (cases "if enforce then payer_error source (wallet_of s source) amount s else None")
    case (Some e)
    with run locked found pay sb have "r = Inl e" "s' = s2"
      by (auto simp: transfer_locked_def raised_def split: option.splits if_splits)
    with w2 t2 show thesis by (intro that(1) [of e]) auto
  next
    case None
    then have ps: "post now (acc_id sa) (acc_id ta) amount key kind ref actor_id s2 = (r, s')"
      using run locked found pay sb by (auto simp: transfer_locked_def split: option.splits if_splits)
    then obtain tx where tx: "r = Inr tx" "transactions s' = transactions s2 @ [tx]" "tx_idempotency_key tx = key"
      by (auto simp: post_def Let_def returned_def)
    have "wallet_of s' w = wallet_of s w + (if w = target then amount else 0) - (if w = source then amount else 0)" for w
      using post_wallet [OF ok2 locked(5,6), of now amount key kind ref actor_id w] ps w2 by simp
    with tx t2 None locked show thesis by (intro that(3) [of tx]) (auto split: if_splits)
  qed
qed

text \<open>With a key that was not used yet, a transfer that returns has posted.\<close>

lemma transfer_fresh:
  assumes "ledger_ok s" and run: "transfer now source target amount key kind ref enforce actor_id s = (Inr tx, s')"
    and "find_transaction s key = None"
  shows "amount > 0" and "transactions s' = transactions s @ [tx]" and "tx_idempotency_key tx = key"
    and "enforce \<Longrightarrow> payer_error source (wallet_of s source) amount s = None"
    and "wallet_of s' w = wallet_of s w + (if w = target then amount else 0) - (if w = source then amount else 0)"
  by (rule transfer_outcome [OF assms(1) run]; use assms(3) in simp)+

lemma transfer_frame:
  "organizations (snd (transfer now source target amount key kind ref enforce actor_id s)) = organizations s"
  "next_uid s \<le> next_uid (snd (transfer now source target amount key kind ref enforce actor_id s))"
proof -
  have "organizations s' = organizations s \<and> next_uid s \<le> next_uid s'"
    if "transfer now source target amount key kind ref enforce actor_id s = (r, s')" for r s'
  proof (cases rule: transfer_cases [of amount now source target key kind ref enforce actor_id s])
    case (locked sa s1 ta s2)
    have "organizations s2 = organizations s" "next_uid s \<le> next_uid s2"
      using locked account_frame(1,20) by (metis order_trans)+
    with locked that show ?thesis
      by (auto simp: transfer_locked_def post_def Let_def returned_def raised_def split: option.splits)
  qed (use that in \<open>auto simp: raised_def returned_def\<close>)
  then show "organizations (snd (transfer now source target amount key kind ref enforce actor_id s)) = organizations s"
    "next_uid s \<le> next_uid (snd (transfer now source target amount key kind ref enforce actor_id s))"
    by (metis prod.collapse)+
qed

text \<open>An operation that writes nothing but accounts and transactions.\<close>

definition ledger_only :: "db \<Rightarrow> db \<Rightarrow> bool" where
  "ledger_only s s' \<longleftrightarrow> next_uid s \<le> next_uid s' \<and>
     s\<lparr>accounts := accounts s', transactions := transactions s', next_uid := next_uid s'\<rparr> = s'"

lemma ledger_only_refl [simp]: "ledger_only s s"
  by (simp add: ledger_only_def)

lemma ledger_only_trans: "ledger_only s t \<Longrightarrow> ledger_only t u \<Longrightarrow> ledger_only s u"
  by (cases s; cases t; cases u) (auto simp: ledger_only_def)

lemma ledger_only_simps:
  assumes "ledger_only s s'"
  shows "organizations s' = organizations s" "closures s' = closures s" "contracts s' = contracts s"
    "panels s' = panels s" "panel_owners s' = panel_owners s" "plan_categories s' = plan_categories s"
    "plans s' = plans s" "bindings s' = bindings s" "checkpoints s' = checkpoints s" "usages s' = usages s"
    "outbox_events s' = outbox_events s" "actors s' = actors s" "memberships s' = memberships s"
    "funding_requests s' = funding_requests s" "panel_orders s' = panel_orders s" "settings s' = settings s"
    "audit_logs s' = audit_logs s" "approval_requests s' = approval_requests s" "next_uid s \<le> next_uid s'"
  using assms by (cases s; cases s'; simp add: ledger_only_def)+

lemma account_only: "account owner s = (a, s') \<Longrightarrow> ledger_only s s'"
  by (cases rule: account_cases [of owner s]) (auto simp: ledger_only_def draw_def)

lemma transfer_only:
  assumes "transfer now source target amount key kind ref enforce actor_id s = (r, s')"
  shows "ledger_only s s'"
proof (cases rule: transfer_cases [of amount now source target key kind ref enforce actor_id s])
  case (locked sa s1 ta s2)
  have "ledger_only s s2" using locked by (blast intro: account_only ledger_only_trans)
  moreover have "ledger_only s2 s'"
    using locked assms
    by (auto simp: transfer_locked_def post_def Let_def returned_def raised_def ledger_only_def draw_def
        split: option.splits)
  ultimately show ?thesis by (rule ledger_only_trans)
qed (use assms in \<open>auto simp: raised_def returned_def\<close>)

lemma ledger_ok_same:
  "ledger_ok s \<Longrightarrow> accounts s' = accounts s \<Longrightarrow> transactions s' = transactions s \<Longrightarrow> next_uid s \<le> next_uid s' \<Longrightarrow>
    ledger_ok s'"
  by (force simp: ledger_ok_def)

section \<open>The money interface\<close>

text \<open>
  A service that moves money under an idempotency key. What its clients rely on: a posting changes
  the balances by the announced amounts, a key that was posted is never posted again, a refusal
  changes no balance.
\<close>

locale money_service = step_system "\<lambda>m s. snd (do_move m s)" inv
  for do_move :: "'op \<Rightarrow> 's \<Rightarrow> ('t, 's) res" and inv :: "'s \<Rightarrow> bool" +
  fixes bal :: "'s \<Rightarrow> 'w \<Rightarrow> int" and key_of :: "'op \<Rightarrow> string" and posted :: "'s \<Rightarrow> string \<Rightarrow> bool"
    and change :: "'op \<Rightarrow> 'w \<Rightarrow> int"
  assumes moved: "inv s \<Longrightarrow> do_move m s = (Inr t, s') \<Longrightarrow> \<not> posted s (key_of m) \<Longrightarrow>
      bal s' w = bal s w + change m w \<and> posted s' (key_of m)"
    and replay: "inv s \<Longrightarrow> posted s (key_of m) \<Longrightarrow> bal (snd (do_move m s)) w = bal s w"
    and refuse: "inv s \<Longrightarrow> do_move m s = (Inl e, s') \<Longrightarrow> bal s' w = bal s w"
    and keeps_posted: "inv s \<Longrightarrow> posted s k \<Longrightarrow> posted (snd (do_move m s)) k"
begin

lemma replays_change_nothing:
  "inv s \<Longrightarrow> posted s k \<Longrightarrow> (\<And>m. m \<in> set ms \<Longrightarrow> key_of m = k) \<Longrightarrow>
    bal (fold (\<lambda>m s. snd (do_move m s)) ms s) w = bal s w"
  by (induction ms arbitrary: s) (simp_all add: replay keeps_posted step_inv)

lemma one_key_moves_once:
  assumes "inv s" and "\<And>m. m \<in> set ms \<Longrightarrow> key_of m = k \<and> change m = d"
  shows "bal (fold (\<lambda>m s. snd (do_move m s)) ms s) w - bal s w \<in> {0, d w}"
  using assms
proof (induction ms arbitrary: s)
  case Nil
  then show ?case by simp
next
  case (Cons m ms)
  obtain r s' where run: "do_move m s = (r, s')" by fastforce
  have inv': "inv s'" using step_inv [OF Cons.prems(1), of m] run by simp
  have key: "key_of m = k" "change m = d" using Cons.prems(2) by simp_all
  consider (same) "bal s' w = bal s w" | (posted) "posted s' k" "bal s' w = bal s w + d w"
    using moved [OF Cons.prems(1)] replay [OF Cons.prems(1)] refuse [OF Cons.prems(1)] run key
    by (cases r) (metis snd_conv)+
  then show ?case
  proof cases
    case same
    with Cons.IH [OF inv'] Cons.prems(2) run show ?thesis by simp
  next
    case posted
    have "bal (fold (\<lambda>m s. snd (do_move m s)) ms s') w = bal s' w"
      by (rule replays_change_nothing [OF inv' posted(1)]) (use Cons.prems(2) in simp)
    with posted run show ?thesis by simp
  qed
qed

end

text \<open>The arguments of one call of \<open>transfer\<close>.\<close>

record move =
  mv_now :: int
  mv_source :: owner
  mv_target :: owner
  mv_amount :: int
  mv_key :: string
  mv_kind :: string
  mv_ref :: string
  mv_enforce :: bool
  mv_actor :: "uid option"

definition run_move :: "move \<Rightarrow> db \<Rightarrow> (transaction, db) res" where
  "run_move m = transfer (mv_now m) (mv_source m) (mv_target m) (mv_amount m) (mv_key m) (mv_kind m)
     (mv_ref m) (mv_enforce m) (mv_actor m)"

definition is_posted :: "db \<Rightarrow> string \<Rightarrow> bool" where
  "is_posted s key \<longleftrightarrow> find_transaction s key \<noteq> None"

definition net_change :: "move \<Rightarrow> owner \<Rightarrow> int" where
  "net_change m w = (if w = mv_target m then mv_amount m else 0) - (if w = mv_source m then mv_amount m else 0)"

lemma is_posted_append: "transactions s' = transactions s @ [tx] \<Longrightarrow>
    is_posted s' k \<longleftrightarrow> is_posted s k \<or> tx_idempotency_key tx = k"
  by (auto simp: is_posted_def find_transaction_def lookup_append split: option.split)

lemma is_posted_same: "transactions s' = transactions s \<Longrightarrow> is_posted s' k = is_posted s k"
  by (simp add: is_posted_def find_transaction_def)

lemma run_move_cases:
  assumes ok: "ledger_ok s" and run: "run_move m s = (r, s')"
  obtains (refused) e where "r = Inl e" "\<And>w. wallet_of s' w = wallet_of s w"
      "\<And>k. is_posted s' k = is_posted s k"
  | (replayed) old where "r = Inr old" "is_posted s (mv_key m)" "s' = s"
  | (posted) tx where "r = Inr tx" "\<not> is_posted s (mv_key m)" "transactions s' = transactions s @ [tx]"
      "mv_enforce m \<Longrightarrow> payer_error (mv_source m) (wallet_of s (mv_source m)) (mv_amount m) s = None"
      "\<And>k. is_posted s' k \<longleftrightarrow> is_posted s k \<or> mv_key m = k"
      "\<And>w. wallet_of s' w = wallet_of s w + net_change m w"
proof (rule transfer_outcome [OF ok run [unfolded run_move_def]])
  fix e assume "r = Inl e" "\<And>w. wallet_of s' w = wallet_of s w" "transactions s' = transactions s"
  then show thesis by (intro refused [of e] is_posted_same)
next
  fix old assume "r = Inr old" "find_transaction s (mv_key m) = Some old" "s' = s"
  then show thesis by (intro replayed [of old]) (simp_all add: is_posted_def)
next
  fix tx assume tx: "r = Inr tx" "find_transaction s (mv_key m) = None" "transactions s' = transactions s @ [tx]"
    "tx_idempotency_key tx = mv_key m"
    "mv_enforce m \<Longrightarrow> payer_error (mv_source m) (wallet_of s (mv_source m)) (mv_amount m) s = None"
    "\<And>w. wallet_of s' w = wallet_of s w + (if w = mv_target m then mv_amount m else 0)
       - (if w = mv_source m then mv_amount m else 0)"
  show thesis
  proof (rule posted [of tx])
    show "\<not> is_posted s (mv_key m)" using tx(2) by (simp add: is_posted_def)
    show "is_posted s' k \<longleftrightarrow> is_posted s k \<or> mv_key m = k" for k
      using is_posted_append [OF tx(3)] tx(4) by simp
    show "wallet_of s' w = wallet_of s w + net_change m w" for w
      using tx(6) by (simp add: net_change_def)
  qed (use tx in simp_all)
qed

interpretation ledger: money_service run_move ledger_ok wallet_of mv_key is_posted net_change
proof (unfold_locales)
  fix m :: move and s assume "ledger_ok s"
  then show "ledger_ok (snd (run_move m s))" by (simp add: run_move_def transfer_ledger_ok)
next
  fix s t s' w and m :: move
  assume "ledger_ok s" "run_move m s = (Inr t, s')" "\<not> is_posted s (mv_key m)"
  then show "wallet_of s' w = wallet_of s w + net_change m w \<and> is_posted s' (mv_key m)"
    by (cases rule: run_move_cases) auto
next
  fix s w and m :: move assume ok: "ledger_ok s" "is_posted s (mv_key m)"
  obtain r s' where run: "run_move m s = (r, s')" by fastforce
  from ok(1) run have "wallet_of s' w = wallet_of s w"
    by (cases rule: run_move_cases) (use ok(2) in auto)
  with run show "wallet_of (snd (run_move m s)) w = wallet_of s w" by simp
next
  fix s e s' w and m :: move assume "ledger_ok s" "run_move m s = (Inl e, s')"
  then show "wallet_of s' w = wallet_of s w"
    by (cases rule: run_move_cases) auto
next
  fix s k and m :: move assume ok: "ledger_ok s" "is_posted s k"
  obtain r s' where run: "run_move m s = (r, s')" by fastforce
  from ok(1) run have "is_posted s' k"
    by (cases rule: run_move_cases) (use ok(2) in auto)
  with run show "is_posted (snd (run_move m s)) k" by simp
qed

section \<open>Properties\<close>

lemma entries_balance_cons: "entries_balance i (tx # txs) = entries_balance i [tx] + entries_balance i txs"
  using entries_balance_append [of i "[tx]" txs] by simp

lemma sum_one_transaction:
  assumes "distinct ids" "double_entry (set ids) tx"
  shows "sum_list (map (\<lambda>i. entries_balance i [tx]) ids) = 0"
proof -
  obtain sa ta n where e: "sa \<in> set ids" "ta \<in> set ids"
    "tx_entries tx = [\<lparr>en_account_id = sa, en_side = ''debit'', en_amount_irr = n\<rparr>,
                      \<lparr>en_account_id = ta, en_side = ''credit'', en_amount_irr = n\<rparr>]"
    using assms(2) by (auto simp: double_entry_def)
  have "entries_balance i [tx] = (if i = ta then n else 0) - (if i = sa then n else 0)" for i
    using e(3) by (auto simp: entries_balance_single signed_amount_def)
  then have "sum_list (map (\<lambda>i. entries_balance i [tx]) ids) =
      (\<Sum>i \<in> set ids. (if i = ta then n else 0) - (if i = sa then n else 0))"
    using assms(1) by (simp add: sum_list_distinct_conv_sum_set)
  also have "\<dots> = 0" using e(1,2) by (simp add: sum_subtractf)
  finally show ?thesis .
qed

lemma sum_all_transactions:
  assumes "distinct ids" "\<And>tx. tx \<in> set txs \<Longrightarrow> double_entry (set ids) tx"
  shows "sum_list (map (\<lambda>i. entries_balance i txs) ids) = 0"
  using assms(2)
proof (induction txs)
  case Nil
  then show ?case by (simp add: sum_list_0)
next
  case (Cons tx txs)
  have "sum_list (map (\<lambda>i. entries_balance i (tx # txs)) ids) =
      sum_list (map (\<lambda>i. entries_balance i [tx]) ids) + sum_list (map (\<lambda>i. entries_balance i txs) ids)"
    by (subst entries_balance_cons) (rule sum_list_addf)
  with Cons sum_one_transaction [OF assms(1)] show ?case by simp
qed

lemma ledger_total:
  assumes "ledger_ok s" shows "sum_list (map acc_balance_irr (accounts s)) = 0"
proof -
  have "map acc_balance_irr (accounts s) = map (\<lambda>i. entries_balance i (transactions s)) (map acc_id (accounts s))"
    using assms by (auto simp: ledger_ok_def)
  also have "sum_list \<dots> = 0"
    using assms by (intro sum_all_transactions) (auto simp: ledger_ok_def)
  finally show ?thesis .
qed

lemma ledger_ok_empty: "ledger_ok empty_db"
  by (simp add: ledger_ok_def empty_db_def)

definition run_moves :: "move list \<Rightarrow> db \<Rightarrow> db" where
  "run_moves ms s = fold (\<lambda>m s. snd (run_move m s)) ms s"

text \<open>A small ledger for the witnesses: one active organization with a credit limit of 50.\<close>

definition sample_db :: db where
  "sample_db = empty_db\<lparr>organizations := [\<lparr>org_id = 1, org_parent_id = None, org_name = ''North'',
     org_slug = ''north'', org_status = ''active'', org_credit_limit_irr = 50, org_max_depth = 5,
     org_created_at = 0\<rparr>], next_uid := 2\<rparr>"

lemma ledger_ok_sample: "ledger_ok sample_db"
  by (simp add: ledger_ok_def sample_db_def empty_db_def)

text \<open>C3: whatever sequence of transfers is attempted, accepted, replayed or refused, every balance
  stays the signed sum of its entries, every transaction stays one debit and one credit of the same
  positive amount, keys stay unique, and the balances of all accounts add up to zero.\<close>

theorem ledger_stays_balanced:
  assumes "ledger_ok s"
  shows "ledger_ok (run_moves ms s) \<and> sum_list (map acc_balance_irr (accounts (run_moves ms s))) = 0"
  using ledger.run_inv [OF assms, of ms] ledger_total by (simp add: run_moves_def)

theorem ledger_stays_balanced_witness:
  "ledger_ok (run_moves [\<lparr>mv_now = 1, mv_source = SYSTEM, mv_target = Org 1, mv_amount = 70, mv_key = ''k'',
      mv_kind = ''fund'', mv_ref = ''1'', mv_enforce = False, mv_actor = None\<rparr>] sample_db)"
  using ledger_stays_balanced [OF ledger_ok_sample] by blast

text \<open>C4: a request that is retried any number of times under one idempotency key moves its money at
  most once: afterwards every wallet differs from its start by nothing, or by the one posting.\<close>

theorem retries_move_money_once:
  assumes "ledger_ok s"
    and "\<And>m. m \<in> set ms \<Longrightarrow>
      mv_key m = key \<and> mv_source m = source \<and> mv_target m = target \<and> mv_amount m = amount"
  shows "wallet_of (run_moves ms s) w - wallet_of s w
    \<in> {0, (if w = target then amount else 0) - (if w = source then amount else 0)}"
proof -
  have "mv_key m = key \<and>
      net_change m = (\<lambda>w. (if w = target then amount else 0) - (if w = source then amount else 0))"
    if "m \<in> set ms" for m
    using assms(2) [OF that] by (auto simp: net_change_def fun_eq_iff)
  from ledger.one_key_moves_once [OF assms(1) this] show ?thesis by (simp add: run_moves_def)
qed

theorem retries_move_money_once_witness:
  "wallet_of (run_moves (replicate 3 \<lparr>mv_now = 1, mv_source = SYSTEM, mv_target = Org 1, mv_amount = 70,
      mv_key = ''k'', mv_kind = ''fund'', mv_ref = ''1'', mv_enforce = False, mv_actor = None\<rparr>) sample_db) (Org 1)
    - wallet_of sample_db (Org 1) \<in> {0, 70}"
  using retries_move_money_once [OF ledger_ok_sample, of "replicate 3 \<lparr>mv_now = 1, mv_source = SYSTEM,
      mv_target = Org 1, mv_amount = 70, mv_key = ''k'', mv_kind = ''fund'', mv_ref = ''1'', mv_enforce = False,
      mv_actor = None\<rparr>" "''k''" SYSTEM "Org 1" 70 "Org 1"]
  by auto

text \<open>the functional behaviour of a posting. When the key is new and the transfer returns, exactly
  one transaction is appended under that key, the source pays and the target receives the amount, and
  no other wallet changes.\<close>

theorem transfer_posts_once:
  assumes "ledger_ok s" "find_transaction s key = None"
    and "transfer now source target amount key kind ref enforce actor_id s = (Inr tx, s')"
  shows "transactions s' = transactions s @ [tx] \<and> tx_idempotency_key tx = key \<and>
    find_transaction s' key = Some tx \<and>
    (\<forall>w. wallet_of s' w = wallet_of s w + (if w = target then amount else 0) - (if w = source then amount else 0))"
  using assms(2) by (cases rule: transfer_outcome [OF assms(1,3)])
    (auto simp: find_transaction_def lookup_append)

theorem transfer_posts_once_witness:
  "\<exists>tx s'. transfer 1 SYSTEM (Org 1) 70 ''k'' ''fund'' ''1'' False None sample_db = (Inr tx, s') \<and>
     wallet_of s' (Org 1) = 70 \<and> wallet_of s' SYSTEM = -70"
proof -
  obtain tx s' where run: "transfer 1 SYSTEM (Org 1) 70 ''k'' ''fund'' ''1'' False None sample_db = (Inr tx, s')"
    by (simp add: transfer_def transfer_locked_def account_def post_def find_transaction_def sample_db_def
        empty_db_def draw_def Let_def returned_def)
  moreover have "find_transaction sample_db ''k'' = None"
    by (simp add: find_transaction_def sample_db_def empty_db_def)
  ultimately have "\<forall>w. wallet_of s' w = wallet_of sample_db w + (if w = Org 1 then 70 else 0) - (if w = SYSTEM then 70 else 0)"
    using transfer_posts_once [OF ledger_ok_sample] by blast
  then show ?thesis using run by (auto simp: wallet_of_def sample_db_def empty_db_def)
qed

definition within_credit :: "db \<Rightarrow> bool" where
  "within_credit s \<longleftrightarrow> (\<forall>org \<in> set (organizations s).
     0 \<le> wallet_of s (Org (org_id org)) + org_credit_limit_irr org)"

text \<open>C5: no organization ends below its agreed credit. If every wallet is within the credit limit of
  its organization, it still is after any transfer that either checks its payer or is paid by
  \<open>SYSTEM\<close>, as every call in the code is.\<close>

theorem credit_limit_respected:
  assumes ok: "ledger_ok s" "distinct (map org_id (organizations s))" "within_credit s"
    and call: "enforce \<or> source = SYSTEM"
  shows "within_credit (snd (transfer now source target amount key kind ref enforce actor_id s))"
proof -
  obtain r s' where run: "transfer now source target amount key kind ref enforce actor_id s = (r, s')"
    by fastforce
  have orgs: "organizations s' = organizations s" using transfer_frame(1) run by (metis snd_conv)
  have "0 \<le> wallet_of s' (Org (org_id org)) + org_credit_limit_irr org" if org: "org \<in> set (organizations s)" for org
    using ok(1) run
  proof (cases rule: transfer_outcome)
    case (posted tx)
    have before: "0 \<le> wallet_of s (Org (org_id org)) + org_credit_limit_irr org"
      using ok(3) org by (simp add: within_credit_def)
    show ?thesis
    proof (cases "source = Org (org_id org)")
      case True
      then have "payer_error source (wallet_of s source) amount s = None" using call posted by simp
      moreover have "get_organization s (org_id org) = Some org" using ok(2) org by (rule lookup_unique)
      ultimately have "amount \<le> wallet_of s source + org_credit_limit_irr org"
        using True by (simp add: payer_error_def split: if_splits)
      with True posted before show ?thesis by auto
    next
      case False
      with before posted show ?thesis by auto
    qed
  qed (use ok(3) org in \<open>simp_all add: within_credit_def\<close>)
  with run orgs show ?thesis by (simp add: within_credit_def)
qed

theorem credit_limit_respected_witness:
  "within_credit (snd (transfer 1 (Org 1) SYSTEM 50 ''k'' ''usage'' ''9'' True None sample_db)) \<and>
   fst (transfer 1 (Org 1) SYSTEM 51 ''k'' ''usage'' ''9'' True None sample_db) =
     Inl (ValueError ''insufficient credit'')"
proof
  have "within_credit sample_db" by (simp add: within_credit_def sample_db_def empty_db_def wallet_of_def)
  moreover have "distinct (map org_id (organizations sample_db))" by (simp add: sample_db_def)
  ultimately show "within_credit (snd (transfer 1 (Org 1) SYSTEM 50 ''k'' ''usage'' ''9'' True None sample_db))"
    using ledger_ok_sample by (intro credit_limit_respected) simp_all
  show "fst (transfer 1 (Org 1) SYSTEM 51 ''k'' ''usage'' ''9'' True None sample_db) =
      Inl (ValueError ''insufficient credit'')"
    by (simp add: transfer_def transfer_locked_def account_def post_def find_transaction_def sample_db_def
        empty_db_def draw_def Let_def payer_error_def)
qed

end
