(* ===== verification/Hierarchy.thy ===== *)
theory Hierarchy
  imports Ledger
begin

text \<open>
  The tree of resellers: the closure table, the depth limit, the chain of contracts from an
  organization to its root (\<open>edges\<close> of \<open>app.py\<close>), and the creation of organizations by the
  machine API (\<open>api.py\<close>), the WebApp (\<open>web_api.py\<close>) and the bot (\<open>telegram_consumer.py\<close>).
\<close>

section \<open>Depth and chains\<close>

definition depth_of :: "db \<Rightarrow> uid \<Rightarrow> nat" where
  "depth_of s i = fold max (map clo_depth (filter (\<lambda>c. clo_descendant_id c = i) (closures s))) 0"

text \<open>\<open>order_by(depth desc).limit(1)\<close>: a row of greatest depth, the first inserted among equals.\<close>

fun deepest :: "closure list \<Rightarrow> closure option" where
  "deepest [] = None"
| "deepest (c # cs) = (case deepest cs of
     None \<Rightarrow> Some c
   | Some d \<Rightarrow> if clo_depth d > clo_depth c then Some d else Some c)"

definition effective_depth_limit :: "int \<Rightarrow> db \<Rightarrow> organization \<Rightarrow> (int, db) res" where
  "effective_depth_limit max_tree_depth s parent =
    (case deepest (filter (\<lambda>c. clo_descendant_id c = org_id parent) (closures s)) of
       None \<Rightarrow> returned (min max_tree_depth (org_max_depth parent)) s
     | Some c \<Rightarrow> (case get_organization s (clo_ancestor_id c) of
         None \<Rightarrow> raised (TypeError ''NoneType has no attribute max_depth'') s
       | Some top_org \<Rightarrow> returned (min max_tree_depth (org_max_depth top_org)) s))"

definition assert_depth_allowed :: "int \<Rightarrow> organization \<Rightarrow> db \<Rightarrow> (unit, db) res" where
  "assert_depth_allowed max_tree_depth parent s =
    bindr (effective_depth_limit max_tree_depth s parent) (\<lambda>limit s.
      require (int (depth_of s (org_id parent)) + 1 \<le> limit)
        (HTTPException 409 (''maximum reseller depth '' @ pystr limit @ '' reached'')) s)"

text \<open>
  The loop of \<open>edges\<close>: \<open>cur\<close>, the id of the loaded organization, walks up the parents, \<open>seen\<close> holds
  the ids it went through. Each round adds a stored organization to \<open>seen\<close>, so the loop ends even on a table with a cycle.
\<close>

definition active_contract :: "db \<Rightarrow> uid \<Rightarrow> contract option" where
  "active_contract s i = List.find (\<lambda>c. con_child_id c = i \<and> con_status c = ''active'') (contracts s)"

function edges_from :: "db \<Rightarrow> uid \<Rightarrow> uid list \<Rightarrow> error + (uid \<times> uid \<times> int) list" where
  "edges_from s cur seen = (case get_organization s cur of
     None \<Rightarrow> Inr []
   | Some org \<Rightarrow> (case org_parent_id org of
       None \<Rightarrow> Inr []
     | Some p \<Rightarrow>
        if cur \<in> set seen then Inl (ValueError ''hierarchy cycle'')
        else (case active_contract s cur of
           None \<Rightarrow> Inl (ValueError ''active contract missing'')
         | Some c \<Rightarrow>
            (case edges_from s p (cur # seen) of
               Inl e \<Rightarrow> Inl e
             | Inr rest \<Rightarrow> Inr ((cur, p, con_price_per_gib_irr c) # rest)))))"
  by pat_completeness auto
termination
proof (relation "measure (\<lambda>(s, cur, seen). card (set (map org_id (organizations s)) - set seen))")
  fix s :: db and cur seen org p c
  assume "get_organization s cur = Some org" "cur \<notin> set seen"
  then have "cur \<in> set (map org_id (organizations s)) - set seen"
    by (auto dest: lookup_SomeD)
  then have "set (map org_id (organizations s)) - set (cur # seen) \<subset> set (map org_id (organizations s)) - set seen"
    by auto
  then show "((s, p, cur # seen), s, cur, seen)
      \<in> measure (\<lambda>(s, cur, seen). card (set (map org_id (organizations s)) - set seen))"
    by (auto intro!: psubset_card_mono)
qed simp

declare edges_from.simps [simp del]

definition edges :: "db \<Rightarrow> uid \<Rightarrow> error + (uid \<times> uid \<times> int) list" where
  "edges s i = edges_from s i []"

section \<open>Creating organizations\<close>

text \<open>The closure rows of a new child: itself, and one row below every ancestor of its parent.\<close>

definition child_closures :: "db \<Rightarrow> uid \<Rightarrow> uid option \<Rightarrow> closure list" where
  "child_closures s i parent =
    \<lparr>clo_ancestor_id = i, clo_descendant_id = i, clo_depth = 0\<rparr> #
    (case parent of None \<Rightarrow> [] | Some p \<Rightarrow>
       map (\<lambda>e. \<lparr>clo_ancestor_id = clo_ancestor_id e, clo_descendant_id = i, clo_depth = clo_depth e + 1\<rparr>)
         (filter (\<lambda>e. clo_descendant_id e = p) (closures s)))"

text \<open>
  The block every creating function has: the organization, its closure, its contract with the parent
  and its wallet account.
\<close>

definition add_organization ::
  "int \<Rightarrow> string \<Rightarrow> string \<Rightarrow> uid option \<Rightarrow> int \<Rightarrow> int option \<Rightarrow> db \<Rightarrow> organization \<times> db" where
  "add_organization now name slug parent credit price s =
    (let i = next_uid s;
         org = \<lparr>org_id = i, org_parent_id = parent, org_name = name, org_slug = slug, org_status = ''active'',
                org_credit_limit_irr = credit, org_max_depth = 5, org_created_at = now\<rparr>;
         s1 = draw (s\<lparr>organizations := organizations s @ [org],
                closures := closures s @ child_closures s i parent,
                contracts := contracts s @ (case (parent, price) of
                  (Some p, Some r) \<Rightarrow> [\<lparr>con_parent_id = p, con_child_id = i, con_price_per_gib_irr = r,
                     con_status = ''active''\<rparr>]
                | _ \<Rightarrow> [])\<rparr>)
     in (org, snd (account (Org i) s1)))"

definition slug_taken :: "db \<Rightarrow> string \<Rightarrow> bool" where
  "slug_taken s slug = has (\<lambda>r. org_slug r = slug) (organizations s)"

record org_in =
  oi_name :: string
  oi_slug :: string
  oi_parent_id :: "uid option"
  oi_price_per_gib_irr :: "int option"
  oi_credit_limit_irr :: int

definition create_org :: "int \<Rightarrow> int \<Rightarrow> org_in \<Rightarrow> db \<Rightarrow> (uid, db) res" where
  "create_org max_tree_depth now x = transact (\<lambda>s.
    bindr (require (\<not> slug_taken s (oi_slug x)) (HTTPException 409 ''slug exists'') s) (\<lambda>_ s.
    bindr (case oi_parent_id x of
        None \<Rightarrow> returned None s
      | Some p \<Rightarrow> (case get_organization s p of
          None \<Rightarrow> raised (HTTPException 404 ''parent not found'') s
        | Some parent \<Rightarrow>
            if oi_price_per_gib_irr x = None then raised (HTTPException 422 ''child price required'') s
            else bindr (assert_depth_allowed max_tree_depth parent s) (\<lambda>_ s. returned (Some p) s)))
      (\<lambda>parent s.
        (case add_organization now (oi_name x) (oi_slug x) parent (oi_credit_limit_irr x)
            (oi_price_per_gib_irr x) s of
           (org, s) \<Rightarrow> returned (org_id org)
             (audit now ''organization.create'' ''organization'' (Some (org_id org)) None (Some (org_id org))
               [(''slug'', JStr (oi_slug x)), (''parent_id'', json_id parent)] s)))))"

section \<open>What a correct tree is\<close>

text \<open>\<open>ancestor s n i\<close>: the organization \<open>n\<close> parents above \<open>i\<close>.\<close>

fun ancestor :: "db \<Rightarrow> nat \<Rightarrow> uid \<Rightarrow> uid option" where
  "ancestor s 0 i = Some i"
| "ancestor s (Suc n) i = (case get_organization s i of
     None \<Rightarrow> None
   | Some org \<Rightarrow> (case org_parent_id org of None \<Rightarrow> None | Some p \<Rightarrow> ancestor s n p))"

definition parents_older :: "db \<Rightarrow> bool" where
  "parents_older s \<longleftrightarrow> distinct (map org_id (organizations s)) \<and>
     (\<forall>org \<in> set (organizations s). org_id org < next_uid s \<and>
        (\<forall>p. org_parent_id org = Some p \<longrightarrow> p < org_id org \<and> get_organization s p \<noteq> None))"

definition closure_exact :: "db \<Rightarrow> bool" where
  "closure_exact s \<longleftrightarrow> distinct (closures s) \<and>
     (\<forall>c. c \<in> set (closures s) \<longleftrightarrow> get_organization s (clo_descendant_id c) \<noteq> None \<and>
        ancestor s (clo_depth c) (clo_descendant_id c) = Some (clo_ancestor_id c))"

definition contracts_ok :: "db \<Rightarrow> bool" where
  "contracts_ok s \<longleftrightarrow> (\<forall>org \<in> set (organizations s). org_parent_id org \<noteq> None \<longrightarrow>
     active_contract s (org_id org) \<noteq> None) \<and> (\<forall>c \<in> set (contracts s). con_child_id c < next_uid s)"

definition tree_ok :: "db \<Rightarrow> bool" where
  "tree_ok s \<longleftrightarrow> parents_older s \<and> closure_exact s \<and> contracts_ok s"

lemma ancestor_Some_exists:
  "ancestor s n i = Some a \<Longrightarrow> get_organization s i \<noteq> None \<Longrightarrow> parents_older s \<Longrightarrow>
    get_organization s a \<noteq> None \<and> a \<le> i"
proof (induction n arbitrary: i)
  case 0
  then show ?case by simp
next
  case (Suc n)
  then obtain org where org: "get_organization s i = Some org" by blast
  with Suc.prems(1) obtain p where p: "org_parent_id org = Some p" "ancestor s n p = Some a"
    by (cases "org_parent_id org") auto
  have "org \<in> set (organizations s)" "org_id org = i" using org by (auto dest: lookup_SomeD)
  with p Suc.prems(3) have "p < i" "get_organization s p \<noteq> None" by (auto simp: parents_older_def)
  with Suc.IH [OF p(2)] Suc.prems(3) show ?case by auto
qed

lemma ancestor_same:
  assumes older: "parents_older s" and new: "get_organization s i = None"
    and same: "\<And>d. d \<noteq> i \<Longrightarrow> get_organization s' d = get_organization s d"
  shows "get_organization s d \<noteq> None \<Longrightarrow> ancestor s' n d = ancestor s n d"
proof (induction n arbitrary: d)
  case 0
  then show ?case by simp
next
  case (Suc n)
  then obtain org where org: "get_organization s d = Some org" by blast
  with new have "d \<noteq> i" by auto
  with same org have org': "get_organization s' d = Some org" by simp
  show ?case
  proof (cases "org_parent_id org")
    case None
    with org org' show ?thesis by simp
  next
    case (Some p)
    have "org \<in> set (organizations s)" using org by (auto dest: lookup_SomeD)
    with Some older have "get_organization s p \<noteq> None" by (auto simp: parents_older_def)
    with Suc.IH org org' Some show ?thesis by simp
  qed
qed

text \<open>The state \<open>add_organization\<close> builds, apart from the wallet row.\<close>

lemma add_organization_state:
  assumes "add_organization now name slug parent credit price s = (org, s')"
  shows "organizations s' = organizations s @ [org]" "org_id org = next_uid s" "org_parent_id org = parent"
    "org_slug org = slug" "org_status org = ''active''" "org_credit_limit_irr org = credit"
    "closures s' = closures s @ child_closures s (next_uid s) parent"
    "contracts s' = contracts s @ (case (parent, price) of
        (Some p, Some r) \<Rightarrow> [\<lparr>con_parent_id = p, con_child_id = next_uid s, con_price_per_gib_irr = r,
           con_status = ''active''\<rparr>] | _ \<Rightarrow> [])"
    "next_uid s < next_uid s'"
  using assms
  by (auto simp: add_organization_def Let_def account_def split: option.splits)

lemma add_organization_get:
  assumes "add_organization now name slug parent credit price s = (org, s')" "parents_older s"
  shows "get_organization s' d = (if d = next_uid s then Some org else get_organization s d)"
    and "get_organization s (next_uid s) = None"
proof -
  show none: "get_organization s (next_uid s) = None"
    using assms(2) by (auto simp: parents_older_def lookup_None_iff)
  show "get_organization s' d = (if d = next_uid s then Some org else get_organization s d)"
    using add_organization_state(1,2) [OF assms(1)] none by (auto simp: lookup_append split: option.split)
qed

lemma add_organization_older:
  assumes add: "add_organization now name slug parent credit price s = (org, s')"
    and older: "parents_older s" and parent: "\<And>p. parent = Some p \<Longrightarrow> get_organization s p \<noteq> None"
  shows "parents_older s'"
proof -
  note st = add_organization_state [OF add]
  have i: "next_uid s \<notin> org_id ` set (organizations s)"
    using older by (auto simp: parents_older_def)
  have get: "get_organization s' d = (if d = next_uid s then Some org else get_organization s d)" for d
    by (rule add_organization_get(1) [OF add older])
  have "p < next_uid s" if "get_organization s p \<noteq> None" for p
    using that older by (auto simp: parents_older_def dest!: lookup_SomeD)
  moreover have "org_id x < next_uid s'" if "x \<in> set (organizations s)" for x
    using that older st(9) by (force simp: parents_older_def)
  ultimately show ?thesis
    using older i st parent
    by (auto simp: parents_older_def lookup_append split: option.split)
qed

lemma child_closures_iff:
  "c \<in> set (child_closures s i parent) \<longleftrightarrow> clo_descendant_id c = i \<and>
    (clo_depth c = 0 \<and> clo_ancestor_id c = i \<or>
     (\<exists>p m. parent = Some p \<and> clo_depth c = Suc m \<and>
        c\<lparr>clo_descendant_id := p, clo_depth := m\<rparr> \<in> set (closures s)))"
proof -
  have self: "c = \<lparr>clo_ancestor_id = i, clo_descendant_id = i, clo_depth = 0\<rparr> \<longleftrightarrow>
      clo_descendant_id c = i \<and> clo_depth c = 0 \<and> clo_ancestor_id c = i"
    by (auto intro: closure.equality)
  have above: "(\<exists>e \<in> set (closures s). clo_descendant_id e = p \<and>
        c = \<lparr>clo_ancestor_id = clo_ancestor_id e, clo_descendant_id = i, clo_depth = clo_depth e + 1\<rparr>) \<longleftrightarrow>
      clo_descendant_id c = i \<and> (\<exists>m. clo_depth c = Suc m \<and>
        c\<lparr>clo_descendant_id := p, clo_depth := m\<rparr> \<in> set (closures s))" (is "?L \<longleftrightarrow> ?R") for p
  proof
    assume ?L
    then obtain e where e: "e \<in> set (closures s)" "clo_descendant_id e = p"
      "c = \<lparr>clo_ancestor_id = clo_ancestor_id e, clo_descendant_id = i, clo_depth = clo_depth e + 1\<rparr>" by blast
    have "c\<lparr>clo_descendant_id := p, clo_depth := clo_depth e\<rparr> = e"
      using e(2,3) by (intro closure.equality) simp_all
    then have "clo_descendant_id c = i \<and> clo_depth c = Suc (clo_depth e) \<and>
        c\<lparr>clo_descendant_id := p, clo_depth := clo_depth e\<rparr> \<in> set (closures s)"
      using e(1,3) by simp
    then show ?R by blast
  next
    assume ?R
    then obtain m where m: "clo_descendant_id c = i" "clo_depth c = Suc m"
      "c\<lparr>clo_descendant_id := p, clo_depth := m\<rparr> \<in> set (closures s)" by blast
    from m(1,2) have "c = \<lparr>clo_ancestor_id = clo_ancestor_id (c\<lparr>clo_descendant_id := p, clo_depth := m\<rparr>),
        clo_descendant_id = i, clo_depth = clo_depth (c\<lparr>clo_descendant_id := p, clo_depth := m\<rparr>) + 1\<rparr>"
      by (intro closure.equality) simp_all
    with m(3) show ?L by (intro bexI [of _ "c\<lparr>clo_descendant_id := p, clo_depth := m\<rparr>"]) simp_all
  qed
  show ?thesis
  proof (cases parent)
    case None
    then show ?thesis by (simp add: child_closures_def self)
  next
    case (Some p)
    have "c \<in> set (child_closures s i parent) \<longleftrightarrow>
      c = \<lparr>clo_ancestor_id = i, clo_descendant_id = i, clo_depth = 0\<rparr> \<or>
      (\<exists>e \<in> set (closures s). clo_descendant_id e = p \<and>
        c = \<lparr>clo_ancestor_id = clo_ancestor_id e, clo_descendant_id = i, clo_depth = clo_depth e + 1\<rparr>)"
      using Some by (auto simp: child_closures_def)
    with self above [of p] Some show ?thesis by blast
  qed
qed

lemma child_closures_distinct:
  assumes "distinct (closures s)"
  shows "distinct (child_closures s i parent)"
proof (cases parent)
  case None
  then show ?thesis by (simp add: child_closures_def)
next
  case (Some p)
  have "inj_on (\<lambda>e. \<lparr>clo_ancestor_id = clo_ancestor_id e, clo_descendant_id = i, clo_depth = clo_depth e + 1\<rparr>)
      {e \<in> set (closures s). clo_descendant_id e = p}"
    by (rule inj_onI) (simp add: closure.equality)
  with assms Some show ?thesis
    by (auto simp: child_closures_def distinct_map)
qed

lemma add_organization_closure:
  assumes add: "add_organization now name slug parent credit price s = (org, s')"
    and older: "parents_older s" and exact: "closure_exact s"
    and parent: "\<And>p. parent = Some p \<Longrightarrow> get_organization s p \<noteq> None"
  shows "closure_exact s'"
proof -
  note st = add_organization_state [OF add]
  define i where "i = next_uid s"
  have get: "get_organization s' d = (if d = i then Some org else get_organization s d)" for d
    unfolding i_def by (rule add_organization_get(1) [OF add older])
  have new: "get_organization s i = None"
    unfolding i_def by (rule add_organization_get(2) [OF add older])
  have anc: "ancestor s' n d = ancestor s n d" if "get_organization s d \<noteq> None" for n d
    by (rule ancestor_same [OF older new _ that]) (simp add: get)
  have above: "ancestor s' (Suc n) i = (case parent of None \<Rightarrow> None | Some p \<Rightarrow> ancestor s n p)" for n
  proof (cases parent)
    case None
    then show ?thesis using get [of i] st(3) by simp
  next
    case (Some p)
    have "ancestor s' (Suc n) i = ancestor s' n p" using get [of i] st(3) Some by simp
    also have "\<dots> = ancestor s n p" by (rule anc) (rule parent [OF Some])
    finally show ?thesis using Some by simp
  qed
  have rows: "c \<in> set (closures s) \<longleftrightarrow> get_organization s (clo_descendant_id c) \<noteq> None \<and>
      ancestor s (clo_depth c) (clo_descendant_id c) = Some (clo_ancestor_id c)" for c
    using exact by (simp add: closure_exact_def)
  have "c \<in> set (closures s') \<longleftrightarrow> get_organization s' (clo_descendant_id c) \<noteq> None \<and>
      ancestor s' (clo_depth c) (clo_descendant_id c) = Some (clo_ancestor_id c)" for c
  proof (cases "clo_descendant_id c = i")
    case False
    then have "c \<in> set (closures s') \<longleftrightarrow> c \<in> set (closures s)"
      using st(7) by (simp add: child_closures_iff i_def)
    with False anc show ?thesis by (auto simp: rows get)
  next
    case True
    have "c \<in> set (closures s') \<longleftrightarrow> clo_depth c = 0 \<and> clo_ancestor_id c = i \<or>
       (\<exists>p m. parent = Some p \<and> clo_depth c = Suc m \<and> get_organization s p \<noteq> None \<and>
          ancestor s m p = Some (clo_ancestor_id c))"
      using st(7) True new by (simp add: child_closures_iff rows i_def [symmetric])
    also have "\<dots> \<longleftrightarrow> ancestor s' (clo_depth c) i = Some (clo_ancestor_id c)"
    proof (cases "clo_depth c")
      case (Suc m)
      then show ?thesis using above [of m] parent by (auto split: option.splits)
    qed auto
    finally show ?thesis using True get by simp
  qed
  moreover have "distinct (closures s')"
  proof -
    have "c \<notin> set (child_closures s i parent)" if "c \<in> set (closures s)" for c
      using that new rows [of c] child_closures_iff [of c s i parent] by auto
    then show ?thesis
      using exact child_closures_distinct st(7) by (auto simp: closure_exact_def i_def [symmetric])
  qed
  ultimately show ?thesis by (simp add: closure_exact_def)
qed

lemma active_contract_append:
  "active_contract s i \<noteq> None \<Longrightarrow> contracts s' = contracts s @ cs \<Longrightarrow> active_contract s' i \<noteq> None"
  by (auto simp: active_contract_def find_None_iff)

lemma add_organization_tree:
  assumes add: "add_organization now name slug parent credit price s = (org, s')"
    and ok: "tree_ok s" and parent: "\<And>p. parent = Some p \<Longrightarrow> get_organization s p \<noteq> None \<and> price \<noteq> None"
  shows "tree_ok s'"
proof -
  note st = add_organization_state [OF add]
  have older: "parents_older s" and exact: "closure_exact s" and con: "contracts_ok s"
    using ok by (simp_all add: tree_ok_def)
  have "active_contract s' (next_uid s) \<noteq> None" if some: "parent \<noteq> None"
  proof -
    obtain p where p: "parent = Some p" using some by blast
    then obtain r where "price = Some r" using parent by blast
    with p st(8) have "\<exists>c \<in> set (contracts s'). con_child_id c = next_uid s \<and> con_status c = ''active''"
      by simp
    then show ?thesis by (auto simp: active_contract_def find_None_iff)
  qed
  then have "contracts_ok s'"
    using con st(1-3,8,9) active_contract_append [OF _ st(8)]
    by (fastforce simp: contracts_ok_def split: option.splits)
  moreover have "parents_older s'"
    by (rule add_organization_older [OF add older]) (use parent in blast)
  moreover have "closure_exact s'"
    by (rule add_organization_closure [OF add older exact]) (use parent in blast)
  ultimately show ?thesis by (simp add: tree_ok_def)
qed

section \<open>The chain of contracts\<close>

lemma ancestor_Suc_None: "ancestor s n i = None \<Longrightarrow> ancestor s (Suc n) i = None"
proof (induction n arbitrary: i)
  case 0
  then show ?case by simp
next
  case (Suc n)
  show ?case
  proof (subst ancestor.simps(2), cases "get_organization s i")
    case (Some org)
    then show "(case get_organization s i of None \<Rightarrow> None
      | Some org \<Rightarrow> (case org_parent_id org of None \<Rightarrow> None | Some p \<Rightarrow> ancestor s (Suc n) p)) = None"
      using Suc.prems Suc.IH by (cases "org_parent_id org") (simp_all del: ancestor.simps add: ancestor.simps(2) [of s n i])
  qed simp
qed

lemma ancestor_None_mono: "ancestor s n i = None \<Longrightarrow> n \<le> m \<Longrightarrow> ancestor s m i = None"
  by (induction m) (auto simp: le_Suc_eq simp del: ancestor.simps dest: ancestor_Suc_None)

lemma depth_of_chain:
  assumes exact: "closure_exact s" and stored: "get_organization s i \<noteq> None"
    and here: "ancestor s n i = Some a" and stop: "ancestor s (Suc n) i = None"
  shows "depth_of s i = n"
proof -
  define D where "D = clo_depth ` {c \<in> set (closures s). clo_descendant_id c = i}"
  have D: "m \<in> D \<longleftrightarrow> ancestor s m i \<noteq> None" for m
  proof
    assume "m \<in> D"
    then show "ancestor s m i \<noteq> None" using exact by (auto simp: D_def closure_exact_def)
  next
    assume "ancestor s m i \<noteq> None"
    then obtain b where "ancestor s m i = Some b" by blast
    then have "\<lparr>clo_ancestor_id = b, clo_descendant_id = i, clo_depth = m\<rparr> \<in> set (closures s)"
      using exact stored by (simp add: closure_exact_def)
    then show "m \<in> D" by (force simp: D_def)
  qed
  have "depth_of s i = Max (set (0 # map clo_depth (filter (\<lambda>c. clo_descendant_id c = i) (closures s))))"
    unfolding depth_of_def by (rule Max.set_eq_fold [symmetric])
  also have "set (0 # map clo_depth (filter (\<lambda>c. clo_descendant_id c = i) (closures s))) = insert 0 D"
    by (auto simp: D_def)
  also have "Max (insert 0 D) = n"
  proof (rule Max_eqI)
    show "finite (insert 0 D)" by (simp add: D_def)
    show "n \<in> insert 0 D" using here D by simp
    show "m \<le> n" if "m \<in> insert 0 D" for m
      using that D [of m] stop ancestor_None_mono [of s "Suc n" i m] by fastforce
  qed
  finally show ?thesis .
qed

fun climbs :: "db \<Rightarrow> uid \<Rightarrow> (uid \<times> uid \<times> int) list \<Rightarrow> bool" where
  "climbs s i [] = (\<exists>org. get_organization s i = Some org \<and> org_parent_id org = None)"
| "climbs s i ((c, p, r) # es) = (c = i \<and>
     (\<exists>org con. get_organization s i = Some org \<and> org_parent_id org = Some p \<and>
        active_contract s i = Some con \<and> con_price_per_gib_irr con = r) \<and> climbs s p es)"

lemma edges_from_climbs:
  assumes ok: "tree_ok s"
  shows "get_organization s i = Some org \<Longrightarrow> (\<And>x. x \<in> set seen \<Longrightarrow> i < x) \<Longrightarrow>
    \<exists>es. edges_from s i seen = Inr es \<and> climbs s i es"
proof (induction i arbitrary: org seen rule: less_induct)
  case (less i)
  have row: "org \<in> set (organizations s)" "org_id org = i"
    using less.prems(1) by (auto dest: lookup_SomeD)
  show ?case
  proof (cases "org_parent_id org")
    case None
    then show ?thesis using less.prems(1) by (simp add: edges_from.simps)
  next
    case (Some p)
    with row ok have p: "p < i" "get_organization s p \<noteq> None"
      by (auto simp: tree_ok_def parents_older_def)
    then obtain q where q: "get_organization s p = Some q" by blast
    have "active_contract s i \<noteq> None" using row Some ok by (auto simp: tree_ok_def contracts_ok_def)
    then obtain c where c: "active_contract s i = Some c" by blast
    have "\<exists>es. edges_from s p (i # seen) = Inr es \<and> climbs s p es"
      using p(1) q less.prems(2) by (intro less.IH) (auto dest: less_trans)
    then obtain es where es: "edges_from s p (i # seen) = Inr es" "climbs s p es" by blast
    have "i \<notin> set seen" using less.prems(2) by blast
    then have "edges_from s i seen = Inr ((i, p, con_price_per_gib_irr c) # es)"
      using less.prems(1) Some c es(1) by (subst edges_from.simps) simp
    then show ?thesis using less.prems(1) Some c es(2) by simp
  qed
qed

lemma edges_climbs:
  "tree_ok s \<Longrightarrow> get_organization s i = Some org \<Longrightarrow> \<exists>es. edges s i = Inr es \<and> climbs s i es"
  unfolding edges_def by (rule edges_from_climbs) auto

lemma climbs_ancestors:
  "climbs s i es \<Longrightarrow> (\<exists>a. ancestor s (length es) i = Some a) \<and> ancestor s (Suc (length es)) i = None \<and>
    (\<forall>n < length es. ancestor s n i = Some (fst (es ! n)) \<and> ancestor s (Suc n) i = Some (fst (snd (es ! n))) \<and>
       map_option con_price_per_gib_irr (active_contract s (fst (es ! n))) = Some (snd (snd (es ! n))))"
proof (induction es arbitrary: i)
  case Nil
  then show ?case by auto
next
  case (Cons e es)
  obtain c p r where e: "e = (c, p, r)" by (cases e) auto
  with Cons.prems obtain org con where h: "c = i" "get_organization s i = Some org" "org_parent_id org = Some p"
    "active_contract s i = Some con" "con_price_per_gib_irr con = r" "climbs s p es" by auto
  note IH = Cons.IH [OF h(6)]
  have step: "ancestor s (Suc n) i = ancestor s n p" for n using h by simp
  have "ancestor s n i = Some (fst ((e # es) ! n)) \<and> ancestor s (Suc n) i = Some (fst (snd ((e # es) ! n))) \<and>
      map_option con_price_per_gib_irr (active_contract s (fst ((e # es) ! n))) = Some (snd (snd ((e # es) ! n)))"
    if "n < length (e # es)" for n
  proof (cases n)
    case 0
    then show ?thesis using h e by simp
  next
    case (Suc m)
    with that IH show ?thesis by (simp add: step del: ancestor.simps)
  qed
  with IH show ?case by (simp add: step del: ancestor.simps)
qed

text \<open>
  in a correct tree, \<open>edges\<close> never raises. It returns one triple per level between the
  organization and its root, exactly \<open>depth_of\<close> many; the n-th triple links the n-th ancestor to the
  next one and carries the price of the child's active contract.
\<close>

theorem edges_climb_to_the_root:
  assumes "tree_ok s" and "get_organization s i = Some org"
  shows "\<exists>es. edges s i = Inr es \<and> length es = depth_of s i \<and>
    (\<forall>n < length es. ancestor s n i = Some (fst (es ! n)) \<and> ancestor s (Suc n) i = Some (fst (snd (es ! n))) \<and>
       map_option con_price_per_gib_irr (active_contract s (fst (es ! n))) = Some (snd (snd (es ! n))))"
proof -
  obtain es where es: "edges s i = Inr es" "climbs s i es" using edges_climbs [OF assms] by blast
  note up = climbs_ancestors [OF es(2)]
  have "length es = depth_of s i"
    using up assms by (auto simp: tree_ok_def simp del: ancestor.simps intro!: depth_of_chain [symmetric])
  with es up show ?thesis by (auto simp del: ancestor.simps)
qed

section \<open>What creating an organization does\<close>

lemma climbs_unique: "climbs s i es \<Longrightarrow> climbs s i es' \<Longrightarrow> es = es'"
proof (induction es arbitrary: i es')
  case Nil
  then show ?case by (cases es') auto
next
  case (Cons e es)
  obtain c p r where e: "e = (c, p, r)" by (cases e) auto
  with Cons show ?case by (cases es') force+
qed

lemma climbs_append:
  assumes "parents_older s" and "get_organization s i \<noteq> None" and "climbs s i es"
    and "\<And>d. get_organization s d \<noteq> None \<Longrightarrow>
      get_organization s' d = get_organization s d \<and> active_contract s' d = active_contract s d"
  shows "climbs s' i es"
  using assms(2,3)
proof (induction es arbitrary: i)
  case Nil
  then show ?case using assms(4) by auto
next
  case (Cons e es)
  obtain c p r where e: "e = (c, p, r)" by (cases e) auto
  with Cons.prems obtain org con where h: "c = i" "get_organization s i = Some org" "org_parent_id org = Some p"
    "active_contract s i = Some con" "con_price_per_gib_irr con = r" "climbs s p es" by auto
  have "org \<in> set (organizations s)" using h(2) by (auto dest: lookup_SomeD)
  with h(3) assms(1) have "get_organization s p \<noteq> None" by (auto simp: parents_older_def)
  with Cons.IH h(6) have "climbs s' p es" by blast
  with e h assms(4) [of i] show ?case by auto
qed

lemma find_append:
  "List.find P (xs @ ys) = (case List.find P xs of None \<Rightarrow> List.find P ys | Some x \<Rightarrow> Some x)"
  by (induction xs) auto

lemma add_organization_contract:
  assumes add: "add_organization now name slug parent credit price s = (org, s')" and ok: "tree_ok s"
  shows "get_organization s d \<noteq> None \<Longrightarrow> active_contract s' d = active_contract s d"
    and "parent = Some p \<Longrightarrow> price = Some r \<Longrightarrow>
      \<exists>con. active_contract s' (next_uid s) = Some con \<and> con_price_per_gib_irr con = r"
proof -
  note st = add_organization_state [OF add]
  have old: "con_child_id c < next_uid s" if "c \<in> set (contracts s)" for c
    using ok that by (simp add: tree_ok_def contracts_ok_def)
  show "active_contract s' d = active_contract s d" if "get_organization s d \<noteq> None"
  proof -
    have "d \<noteq> next_uid s"
      using add_organization_get(2) [OF add] ok that by (auto simp: tree_ok_def)
    with st(8) show ?thesis
      by (auto simp: active_contract_def find_append split: option.splits)
  qed
  show "\<exists>con. active_contract s' (next_uid s) = Some con \<and> con_price_per_gib_irr con = r"
    if "parent = Some p" "price = Some r"
  proof -
    have "List.find (\<lambda>c. con_child_id c = next_uid s \<and> con_status c = ''active'') (contracts s) = None"
      using old by (fastforce simp: find_None_iff)
    with st(8) that show ?thesis by (simp add: active_contract_def find_append)
  qed
qed

lemma add_organization_edges:
  assumes add: "add_organization now name slug parent credit price s = (org, s')" and ok: "tree_ok s"
    and parent: "\<And>p. parent = Some p \<Longrightarrow> get_organization s p \<noteq> None \<and> price \<noteq> None"
  shows "case parent of
      None \<Rightarrow> edges s' (org_id org) = Inr [] \<and> depth_of s' (org_id org) = 0
    | Some p \<Rightarrow> \<exists>r es. price = Some r \<and> edges s p = Inr es \<and>
        edges s' (org_id org) = Inr ((org_id org, p, r) # es) \<and>
        depth_of s' (org_id org) = Suc (depth_of s p)"
proof -
  note st = add_organization_state [OF add]
  have older: "parents_older s" using ok by (simp add: tree_ok_def)
  have ok': "tree_ok s'" by (rule add_organization_tree [OF add ok]) (rule parent)
  have get: "get_organization s' (org_id org) = Some org"
    using add_organization_get(1) [OF add older] st(2) by simp
  obtain es' where es': "edges s' (org_id org) = Inr es'" "climbs s' (org_id org) es'"
    using edges_climbs [OF ok' get] by blast
  have len: "depth_of s' (org_id org) = length es'"
    using climbs_ancestors [OF es'(2)] ok' get
    by (auto simp: tree_ok_def simp del: ancestor.simps intro!: depth_of_chain)
  show ?thesis
  proof (cases parent)
    case None
    then have "climbs s' (org_id org) []" using get st(3) by simp
    then have "es' = []" by (rule climbs_unique [OF es'(2)])
    with None es' len show ?thesis by simp
  next
    case (Some p)
    then obtain q r where q: "get_organization s p = Some q" and r: "price = Some r"
      using parent [OF Some] by blast
    obtain es where es: "edges s p = Inr es" "climbs s p es" using edges_climbs [OF ok q] by blast
    have "climbs s' p es"
    proof (rule climbs_append [OF older _ es(2)])
      show "get_organization s p \<noteq> None" using q by simp
      show "get_organization s' d = get_organization s d \<and> active_contract s' d = active_contract s d"
        if d: "get_organization s d \<noteq> None" for d
      proof -
        have "d \<noteq> next_uid s" using add_organization_get(2) [OF add older] d by auto
        then show ?thesis
          using add_organization_get(1) [OF add older, of d] add_organization_contract(1) [OF add ok d] by simp
      qed
    qed
    then have "climbs s' (org_id org) ((org_id org, p, r) # es)"
      using get st(2,3) Some add_organization_contract(2) [OF add ok Some r] by auto
    then have "es' = (org_id org, p, r) # es" by (rule climbs_unique [OF es'(2)])
    moreover have "depth_of s p = length es"
      using climbs_ancestors [OF es(2)] ok q
      by (auto simp: tree_ok_def simp del: ancestor.simps intro!: depth_of_chain)
    ultimately show ?thesis using Some r es es' len by simp
  qed
qed

lemma assert_depth_allowed_Inr:
  "assert_depth_allowed m parent s = (Inr u, s') \<Longrightarrow> s' = s \<and> int (depth_of s (org_id parent)) + 1 \<le> m"
  by (auto simp: assert_depth_allowed_def effective_depth_limit_def require_def
      split: option.splits if_splits)

text \<open>Operations that leave the three tables of the tree alone keep it.\<close>

definition same_tree :: "db \<Rightarrow> db \<Rightarrow> bool" where
  "same_tree s s' \<longleftrightarrow> organizations s' = organizations s \<and> closures s' = closures s \<and>
     contracts s' = contracts s \<and> next_uid s \<le> next_uid s'"

lemma same_tree_ancestor: "same_tree s s' \<Longrightarrow> ancestor s' n i = ancestor s n i"
  by (induction n arbitrary: i) (auto simp: same_tree_def split: option.split)

lemma same_tree_edges: "same_tree s s' \<Longrightarrow> edges s' i = edges s i"
proof -
  assume same: "same_tree s s'"
  have "edges_from s' i seen = edges_from s i seen" for seen
    using same
  proof (induction s i seen rule: edges_from.induct)
    case (1 s cur seen)
    then have org: "organizations s' = organizations s" and con: "active_contract s' = active_contract s"
      by (auto simp: same_tree_def active_contract_def)
    show ?case
    proof (cases "get_organization s cur")
      case None
      with org show ?thesis by (simp add: edges_from.simps)
    next
      case (Some q)
      with 1 org con show ?thesis
        by (subst (1 2) edges_from.simps) (simp split: option.split)
    qed
  qed
  then show ?thesis by (simp add: edges_def)
qed

lemma same_tree_depth: "same_tree s s' \<Longrightarrow> depth_of s' i = depth_of s i"
  by (simp add: depth_of_def same_tree_def)

lemma same_tree_ok: "same_tree s s' \<Longrightarrow> tree_ok s \<Longrightarrow> tree_ok s'"
proof -
  assume same: "same_tree s s'" and ok: "tree_ok s"
  have "parents_older s'" using same ok by (force simp: same_tree_def tree_ok_def parents_older_def)
  moreover have "closure_exact s'"
    using same ok by (simp add: tree_ok_def closure_exact_def same_tree_ancestor) (simp add: same_tree_def)
  moreover have "contracts_ok s'"
    using same ok by (force simp: same_tree_def tree_ok_def contracts_ok_def active_contract_def)
  ultimately show ?thesis by (simp add: tree_ok_def)
qed

lemma same_tree_audit: "same_tree s (audit t a b c d e f s)"
  by (simp add: same_tree_def)

lemma create_org_Inr:
  assumes "create_org m now x s = (Inr i, s')"
  shows "oi_parent_id x = Some p \<Longrightarrow> oi_price_per_gib_irr x \<noteq> None"
    and "oi_parent_id x = Some p \<Longrightarrow> get_organization s p \<noteq> None \<and> int (depth_of s p) + 1 \<le> m"
    and "\<exists>org s1 a b c d e f. add_organization now (oi_name x) (oi_slug x) (oi_parent_id x)
        (oi_credit_limit_irr x) (oi_price_per_gib_irr x) s = (org, s1) \<and> i = org_id org \<and>
        s' = audit now a b c d e f s1"
proof -
  define add where "add = add_organization now (oi_name x) (oi_slug x) (oi_parent_id x)
        (oi_credit_limit_irr x) (oi_price_per_gib_irr x) s"
  obtain org s1 where res: "add = (org, s1)" by fastforce
  have parts: "(\<forall>p. oi_parent_id x = Some p \<longrightarrow> oi_price_per_gib_irr x \<noteq> None \<and>
      get_organization s p \<noteq> None \<and> int (depth_of s p) + 1 \<le> m) \<and> i = org_id org \<and>
      s' = audit now ''organization.create'' ''organization'' (Some (org_id org)) None (Some (org_id org))
               [(''slug'', JStr (oi_slug x)), (''parent_id'', json_id (oi_parent_id x))] s1"
  proof (cases "oi_parent_id x")
    case None
    with assms res show ?thesis
      by (auto simp: create_org_def transact_eq bindr_require add_def raised_def returned_def split: if_splits)
  next
    case (Some p)
    show ?thesis
    proof (cases "get_organization s p")
      case None
      with assms Some show ?thesis
        by (simp add: create_org_def transact_eq bindr_require raised_def split: if_splits)
    next
      case (Some q)
      have q: "org_id q = p" using Some by (auto dest: lookup_SomeD)
      obtain r s2 where a: "assert_depth_allowed m q s = (r, s2)" by fastforce
      with assms \<open>oi_parent_id x = Some p\<close> Some res assert_depth_allowed_Inr [of m q s] q show ?thesis
        by (cases r) (auto simp: create_org_def transact_eq bindr_require add_def raised_def returned_def
            split: if_splits)
    qed
  qed
  show "oi_parent_id x = Some p \<Longrightarrow> oi_price_per_gib_irr x \<noteq> None"
    and "oi_parent_id x = Some p \<Longrightarrow> get_organization s p \<noteq> None \<and> int (depth_of s p) + 1 \<le> m"
    and "\<exists>org s1 a b c d e f. add_organization now (oi_name x) (oi_slug x) (oi_parent_id x)
        (oi_credit_limit_irr x) (oi_price_per_gib_irr x) s = (org, s1) \<and> i = org_id org \<and>
        s' = audit now a b c d e f s1"
    using parts res unfolding add_def by blast+
qed

lemma create_org_made:
  assumes ok: "tree_ok s" and run: "create_org m now x s = (Inr i, s')"
  shows "tree_ok s' \<and> get_organization s i = None \<and>
      (case oi_parent_id x of
         None \<Rightarrow> edges s' i = Inr [] \<and> depth_of s' i = 0
       | Some p \<Rightarrow> int (depth_of s' i) \<le> m \<and> (\<exists>r es. oi_price_per_gib_irr x = Some r \<and>
           edges s p = Inr es \<and> edges s' i = Inr ((i, p, r) # es) \<and> depth_of s' i = Suc (depth_of s p)))"
proof -
  note parts = create_org_Inr [OF run]
  obtain org s1 where add: "add_organization now (oi_name x) (oi_slug x) (oi_parent_id x)
      (oi_credit_limit_irr x) (oi_price_per_gib_irr x) s = (org, s1)"
    and i: "i = org_id org" and s': "same_tree s1 s'"
    using parts(3) same_tree_audit by blast
  have parent: "get_organization s p \<noteq> None \<and> oi_price_per_gib_irr x \<noteq> None" if "oi_parent_id x = Some p" for p
    using parts(1,2) [OF that] by simp
  have ok1: "tree_ok s1" by (rule add_organization_tree [OF add ok]) (rule parent)
  have new: "get_organization s i = None"
    using add_organization_get(2) [OF add] add_organization_state(2) [OF add] ok i by (simp add: tree_ok_def)
  note links = add_organization_edges [OF add ok parent]
  show ?thesis
  proof (cases "oi_parent_id x")
    case None
    with links new same_tree_ok [OF s' ok1] i show ?thesis
      by (simp add: same_tree_edges [OF s'] same_tree_depth [OF s'])
  next
    case (Some p)
    from links Some obtain r es where e: "oi_price_per_gib_irr x = Some r" "edges s p = Inr es"
      "edges s1 i = Inr ((i, p, r) # es)" "depth_of s1 i = Suc (depth_of s p)"
      unfolding i by auto
    have "int (depth_of s1 i) \<le> m" using parts(2) [OF Some] e(4) by simp
    with new same_tree_ok [OF s' ok1] Some e show ?thesis
      by (simp add: same_tree_edges [OF s'] same_tree_depth [OF s'])
  qed
qed

lemma create_org_keeps_tree:
  assumes ok: "tree_ok s"
  shows "tree_ok (snd (create_org m now x s))"
proof (cases "create_org m now x s")
  case (Pair r s')
  show ?thesis
  proof (cases r)
    case (Inl e)
    then have "fst (create_org m now x s) = Inl e" using Pair by simp
    then have "snd (create_org m now x s) = s" unfolding create_org_def by (rule transact_error)
    with ok show ?thesis by simp
  next
    case (Inr i)
    with Pair create_org_made [OF ok, of m now x i s'] show ?thesis by simp
  qed
qed

text \<open>
  C6: creating an organization keeps the tree correct whatever the outcome. When it succeeds the
  organization is new, no deeper than \<open>MAX_TREE_DEPTH\<close>, and its edges are its own contract, at the
  requested price, in front of the edges of its parent; a root has no edges.
\<close>

theorem create_org_extends_the_tree:
  assumes ok: "tree_ok s"
  shows "tree_ok (snd (create_org m now x s)) \<and>
    (\<forall>i s'. create_org m now x s = (Inr i, s') \<longrightarrow> get_organization s i = None \<and>
      (case oi_parent_id x of
         None \<Rightarrow> edges s' i = Inr [] \<and> depth_of s' i = 0
       | Some p \<Rightarrow> int (depth_of s' i) \<le> m \<and> (\<exists>r es. oi_price_per_gib_irr x = Some r \<and>
           edges s p = Inr es \<and> edges s' i = Inr ((i, p, r) # es) \<and> depth_of s' i = Suc (depth_of s p))))"
  using create_org_keeps_tree [OF ok] create_org_made [OF ok] by blast

text \<open>A root and a reseller below it, created by the model itself.\<close>

definition sample_org_in :: "uid option \<Rightarrow> org_in" where
  "sample_org_in parent = \<lparr>oi_name = ''West'', oi_slug = ''west'', oi_parent_id = parent,
     oi_price_per_gib_irr = Some 300, oi_credit_limit_irr = 0\<rparr>"

definition sample_tree :: db where
  "sample_tree = snd (create_org 5 0 (sample_org_in (Some 1))
     (snd (add_organization 0 ''North'' ''north'' None 0 None empty_db)))"

lemma tree_ok_empty: "tree_ok empty_db"
  by (simp add: tree_ok_def parents_older_def closure_exact_def contracts_ok_def empty_db_def)

lemma tree_ok_north: "tree_ok (snd (add_organization 0 ''North'' ''north'' None 0 None empty_db))"
  using add_organization_tree [OF _ tree_ok_empty] by (metis option.distinct(1) prod.collapse)

theorem create_org_extends_the_tree_witness: "tree_ok sample_tree"
  unfolding sample_tree_def using create_org_extends_the_tree [OF tree_ok_north] by blast

lemma get_sample_tree: "get_organization sample_tree 3 \<noteq> None"
  by code_simp

lemma tree_ok_sample: "tree_ok sample_tree"
  unfolding sample_tree_def by (rule create_org_keeps_tree [OF tree_ok_north])

theorem edges_climb_to_the_root_witness:
  "\<exists>es. edges sample_tree 3 = Inr es \<and> length es = depth_of sample_tree 3"
proof -
  obtain org where "get_organization sample_tree 3 = Some org" using get_sample_tree by blast
  from edges_climb_to_the_root [OF tree_ok_sample this] show ?thesis by auto
qed

end
