(* ===== verification/Outbox.thy ===== *)
theory Outbox
  imports Database "HOL-Library.Product_Lexorder"
begin

text \<open>
  \<open>outbox.py\<close>: side effects queued in the transaction that causes them and delivered by a worker.
  Telegram and the panel API are parameters; a \<open>world\<close> is a session with the log of what was sent
  to them, which no rollback takes back. The workers' configuration comes from the environment.
\<close>

section \<open>The world outside\<close>

datatype notice =
    HoldNotice int
  | ResetNotice string
  | ApprovalNotice bool string string string
  | TicketNotice string string

datatype effect = Sent notice int | Limited uid int int

record world = session + effects :: "effect list"

record outside =
  token_configured :: bool
  send_message :: "notice \<Rightarrow> int \<Rightarrow> error option"
  modify_admin :: "uid \<Rightarrow> int \<Rightarrow> int \<Rightarrow> error option"

record outbox_config =
  MAX_ATTEMPTS :: nat
  BASE_BACKOFF_SECONDS :: int
  MAX_BACKOFF_SECONDS :: int
  HOLD_LIMIT_BYTES :: int
  CLAIM_TIMEOUT_SECONDS :: int
  ROOT_TELEGRAM_ID :: "int option"

section \<open>The queue\<close>

definition waiting :: "string \<Rightarrow> uid \<Rightarrow> outbox \<Rightarrow> bool" where
  "waiting topic aggregate_id e \<longleftrightarrow>
     obx_topic e = topic \<and> obx_aggregate_id e = aggregate_id \<and> obx_status e = ''pending''"

definition enqueue ::
  "int \<Rightarrow> string \<Rightarrow> uid \<Rightarrow> (string \<times> json) list \<Rightarrow> db \<Rightarrow> outbox option \<times> db" where
  "enqueue now topic aggregate_id payload s =
    (if has (waiting topic aggregate_id) (outbox_events s) then (None, s)
     else let event = \<lparr>obx_id = next_uid s, obx_topic = topic, obx_aggregate_id = aggregate_id,
            obx_payload = payload, obx_status = ''pending'', obx_attempts = 0, obx_next_attempt_at = now,
            obx_claimed_by = None, obx_claimed_at = None, obx_completed_at = None, obx_last_error = None\<rparr>
          in (Some event, draw (s\<lparr>outbox_events := outbox_events s @ [event]\<rparr>)))"

definition on_event :: "uid \<Rightarrow> (outbox \<Rightarrow> outbox) \<Rightarrow> db \<Rightarrow> db" where
  "on_event i f s = s\<lparr>outbox_events := modify obx_id i f (outbox_events s)\<rparr>"

abbreviation get_event :: "db \<Rightarrow> uid \<Rightarrow> outbox option" where
  "get_event s i \<equiv> lookup obx_id i (outbox_events s)"

text \<open>
  The unique index \<open>uq_outbox_pending_per_aggregate\<close> of \<open>004_ledger_hardening.sql\<close>: one pending row
  per topic and aggregate. A commit that breaks it raises.
\<close>

definition pending_keys :: "outbox list \<Rightarrow> (string \<times> uid) list" where
  "pending_keys es = map (\<lambda>e. (obx_topic e, obx_aggregate_id e)) (filter (\<lambda>e. obx_status e = ''pending'') es)"

definition commit_checked :: "'w session_scheme \<Rightarrow> (unit, 'w session_scheme) res" where
  "commit_checked S = (if distinct (pending_keys (outbox_events (current S))) then returned () (commit S)
     else raised (IntegrityError ''uq_outbox_pending_per_aggregate'') S)"

definition claimable :: "int \<Rightarrow> db \<Rightarrow> nat \<Rightarrow> uid list" where
  "claimable now s limit = map obx_id (take limit (sort_key (\<lambda>e. (obx_next_attempt_at e, obx_id e))
     (filter (\<lambda>e. obx_status e = ''pending'' \<and> obx_next_attempt_at e \<le> now) (outbox_events s))))"

definition mark_claimed :: "int \<Rightarrow> string \<Rightarrow> outbox \<Rightarrow> outbox" where
  "mark_claimed now worker_id e =
     e\<lparr>obx_status := ''claimed'', obx_claimed_by := Some worker_id, obx_claimed_at := Some now\<rparr>"

definition claim :: "int \<Rightarrow> string \<Rightarrow> nat \<Rightarrow> 'w session_scheme \<Rightarrow> (uid list, 'w session_scheme) res" where
  "claim now worker_id limit S =
    (let rows = claimable now (current S) limit;
         S1 = S\<lparr>current := fold (\<lambda>i. on_event i (mark_claimed now worker_id)) rows (current S)\<rparr>
     in if rows = [] then returned rows S1
        else bindr (commit_checked S1) (\<lambda>_. returned rows))"

definition mark_done :: "int \<Rightarrow> outbox \<Rightarrow> outbox" where
  "mark_done now e = e\<lparr>obx_status := ''done'', obx_completed_at := Some now, obx_last_error := None\<rparr>"

definition complete :: "int \<Rightarrow> uid \<Rightarrow> 'w session_scheme \<Rightarrow> (unit, 'w session_scheme) res" where
  "complete now i S = commit_checked (S\<lparr>current := on_event i (mark_done now) (current S)\<rparr>)"

definition backoff :: "outbox_config \<Rightarrow> nat \<Rightarrow> int" where
  "backoff cfg attempts = min (BASE_BACKOFF_SECONDS cfg * 2 ^ (attempts - 1)) (MAX_BACKOFF_SECONDS cfg)"

definition mark_failed :: "outbox_config \<Rightarrow> int \<Rightarrow> string \<Rightarrow> outbox \<Rightarrow> outbox" where
  "mark_failed cfg now err e =
    (let n = obx_attempts e + 1;
         e1 = e\<lparr>obx_attempts := n, obx_last_error := Some (take 2000 err), obx_claimed_by := None,
                obx_claimed_at := None\<rparr>
     in if n \<ge> MAX_ATTEMPTS cfg then e1\<lparr>obx_status := ''dead'', obx_completed_at := Some now\<rparr>
        else e1\<lparr>obx_status := ''pending'', obx_next_attempt_at := now + backoff cfg n\<rparr>)"

definition retry ::
  "outbox_config \<Rightarrow> int \<Rightarrow> uid \<Rightarrow> string \<Rightarrow> 'w session_scheme \<Rightarrow> (string, 'w session_scheme) res" where
  "retry cfg now i err S =
    (let S1 = S\<lparr>current := on_event i (mark_failed cfg now err) (current S)\<rparr>
     in bindr (commit_checked S1) (\<lambda>_ S2.
          returned (case get_event (current S2) i of None \<Rightarrow> '''' | Some e \<Rightarrow> obx_status e) S2))"

definition mark_reclaimed :: "outbox \<Rightarrow> outbox" where
  "mark_reclaimed e = e\<lparr>obx_status := ''pending'', obx_claimed_by := None, obx_claimed_at := None\<rparr>"

definition is_stale :: "int \<Rightarrow> outbox \<Rightarrow> bool" where
  "is_stale cutoff e \<longleftrightarrow> obx_status e = ''claimed'' \<and>
     (case obx_claimed_at e of None \<Rightarrow> False | Some t \<Rightarrow> t \<le> cutoff)"

definition reclaim_stale :: "outbox_config \<Rightarrow> int \<Rightarrow> 'w session_scheme \<Rightarrow> (nat, 'w session_scheme) res" where
  "reclaim_stale cfg now S =
    (let stale = map obx_id (filter (is_stale (now - CLAIM_TIMEOUT_SECONDS cfg)) (outbox_events (current S)));
         S1 = S\<lparr>current := fold (\<lambda>i. on_event i mark_reclaimed) stale (current S)\<rparr>
     in if stale = [] then returned (length stale) S1
        else bindr (commit_checked S1) (\<lambda>_. returned (length stale)))"

section \<open>Handlers\<close>

fun send_all :: "outside \<Rightarrow> notice \<Rightarrow> int list \<Rightarrow> world \<Rightarrow> (unit, world) res" where
  "send_all net text [] w = returned () w"
| "send_all net text (chat # chats) w = (case send_message net text chat of
     Some e \<Rightarrow> raised e w
   | None \<Rightarrow> send_all net text chats (w\<lparr>effects := effects w @ [Sent text chat]\<rparr>))"

definition notify :: "outside \<Rightarrow> notice \<Rightarrow> int list \<Rightarrow> world \<Rightarrow> (unit, world) res" where
  "notify net text chats w =
    (if \<not> token_configured net then raised (RuntimeError ''TELEGRAM_BOT_TOKEN is not configured'') w
     else send_all net text chats w)"

definition audience :: "db \<Rightarrow> uid \<Rightarrow> int list" where
  "audience s i = concat (map (\<lambda>a. map (\<lambda>_. act_telegram_id a)
     (filter (\<lambda>m. mem_actor_id m = act_id a \<and> mem_organization_id m = i \<and> mem_status m = ''active''
        \<and> act_status a = ''active'') (memberships s))) (actors s))"

definition field :: "string \<Rightarrow> (string \<times> json) list \<Rightarrow> json option" where
  "field k payload = map_option snd (lookup fst k payload)"

definition field_str :: "string \<Rightarrow> string \<Rightarrow> (string \<times> json) list \<Rightarrow> string" where
  "field_str k fallback payload = (case field k payload of Some (JStr t) \<Rightarrow> t | _ \<Rightarrow> fallback)"

definition field_int :: "string \<Rightarrow> (string \<times> json) list \<Rightarrow> int" where
  "field_int k payload = (case field k payload of Some (JInt n) \<Rightarrow> n | _ \<Rightarrow> 0)"

definition suspend_binding :: "uid \<Rightarrow> db \<Rightarrow> db" where
  "suspend_binding i s = s\<lparr>bindings := modify bnd_id i (\<lambda>b. b\<lparr>bnd_status := ''suspended''\<rparr>) (bindings s)\<rparr>"

definition limit_panel ::
  "outbox_config \<Rightarrow> outside \<Rightarrow> panel \<Rightarrow> binding \<Rightarrow> world \<Rightarrow> (unit, world) res" where
  "limit_panel cfg net p b w =
    bindr (assert_vendor p w) (\<lambda>_ w.
      case modify_admin net (pan_id p) (bnd_pg_admin_id b) (HOLD_LIMIT_BYTES cfg) of
        Some e \<Rightarrow> raised e w
      | None \<Rightarrow> returned () (w\<lparr>effects := effects w @ [Limited (pan_id p) (bnd_pg_admin_id b) (HOLD_LIMIT_BYTES cfg)],
          current := suspend_binding (bnd_id b) (current w)\<rparr>))"

definition handle_billing_hold :: "outbox_config \<Rightarrow> outside \<Rightarrow> outbox \<Rightarrow> world \<Rightarrow> (unit, world) res" where
  "handle_billing_hold cfg net event w =
    bindr (require_some (get_binding (current w) (obx_aggregate_id event))
       (RuntimeError ''binding no longer exists'') w) (\<lambda>b w.
    bindr (case get_panel (current w) (bnd_panel_id b) of
         None \<Rightarrow> returned () w
       | Some p \<Rightarrow> if pan_status p = ''active'' \<and> bnd_status b = ''active'' then limit_panel cfg net p b w
                  else returned () w) (\<lambda>_ w.
    bindr (notify net (HoldNotice (field_int ''amount_irr'' (obx_payload event)))
       (audience (current w) (bnd_organization_id b)) w) (\<lambda>_ w.
    commit_checked w)))"

definition handle_usage_reset :: "outside \<Rightarrow> outbox \<Rightarrow> world \<Rightarrow> (unit, world) res" where
  "handle_usage_reset net event w = (case field ''organization_id'' (obx_payload event) of
      Some (JUid i) \<Rightarrow>
        bindr (require_some (get_organization (current w) i) (RuntimeError ''organization no longer exists'') w)
          (\<lambda>org w. bindr (notify net (ResetNotice (org_name org)) (audience (current w) (org_id org)) w)
            (\<lambda>_. commit_checked))
    | _ \<Rightarrow> raised (KeyError ''organization_id'') w)"

definition handle_approval_granted :: "outside \<Rightarrow> outbox \<Rightarrow> world \<Rightarrow> (unit, world) res" where
  "handle_approval_granted net event w =
    (let payload = obx_payload event;
         chat_ids = (case field ''chat_id'' payload of Some (JInt n) \<Rightarrow> if n = 0 then [] else [n] | _ \<Rightarrow> []);
         status = field_str ''status'' ''approved'' payload
     in bindr (notify net (ApprovalNotice (status = ''approved'') (field_str ''action'' '''' payload) status
          (field_str ''note'' '''' payload)) chat_ids w) (\<lambda>_. commit_checked))"

definition handle_support_ticket :: "outbox_config \<Rightarrow> outside \<Rightarrow> outbox \<Rightarrow> world \<Rightarrow> (unit, world) res" where
  "handle_support_ticket cfg net event w = (case ROOT_TELEGRAM_ID cfg of
      None \<Rightarrow> raised (RuntimeError ''ROOT_TELEGRAM_ID is not configured'') w
    | Some root_chat \<Rightarrow> bindr (notify net (TicketNotice (field_str ''organization'' '''' (obx_payload event))
          (field_str ''message'' '''' (obx_payload event))) [root_chat] w) (\<lambda>_. commit_checked))"

definition HANDLERS :: "outbox_config \<Rightarrow> outside \<Rightarrow> string \<Rightarrow> (outbox \<Rightarrow> world \<Rightarrow> (unit, world) res) option" where
  "HANDLERS cfg net topic =
    (if topic = ''billing.hold_required'' then Some (handle_billing_hold cfg net)
     else if topic = ''usage.reset_detected'' then Some (handle_usage_reset net)
     else if topic = ''approval.granted'' then Some (handle_approval_granted net)
     else if topic = ''support.ticket'' then Some (handle_support_ticket cfg net)
     else None)"

section \<open>One round of the worker\<close>

definition error_text :: "error \<Rightarrow> string" where
  "error_text e = (case e of
     HTTPException n d \<Rightarrow> ''HTTPException: '' @ dec n @ '': '' @ d
   | ValueError d \<Rightarrow> ''ValueError: '' @ d
   | TypeError d \<Rightarrow> ''TypeError: '' @ d
   | KeyError d \<Rightarrow> ''KeyError: '' @ CHR 0x27 # d @ [CHR 0x27]
   | BillingHold b w n \<Rightarrow> ''BillingHold: insufficient credit; billing hold required''
   | PermissionError d \<Rightarrow> ''PermissionError: '' @ d
   | RuntimeError d \<Rightarrow> ''RuntimeError: '' @ d
   | IntegrityError d \<Rightarrow> ''IntegrityError: '' @ d
   | DataError d \<Rightarrow> ''DataError: '' @ d
   | AttributeError d \<Rightarrow> ''AttributeError: '' @ d
   | InvalidOperation \<Rightarrow> ''InvalidOperation: '')"

record stats =
  st_claimed :: nat
  st_done :: nat
  st_retry :: nat
  st_dead :: nat
  st_stale :: nat

definition count_fallback :: "string \<Rightarrow> stats \<Rightarrow> stats" where
  "count_fallback status st = (if status = ''pending'' then st\<lparr>st_retry := st_retry st + 1\<rparr>
     else st\<lparr>st_dead := st_dead st + 1\<rparr>)"

text \<open>
  The body of the loop. A row that the handler changed is changed in the same transaction; when it
  raises, the session goes back to the last commit before the failure is recorded. \<open>complete\<close> is
  inside the \<open>try\<close>.
\<close>

definition deliver ::
  "(string \<Rightarrow> (outbox \<Rightarrow> world \<Rightarrow> (unit, world) res) option) \<Rightarrow> outbox_config \<Rightarrow> int \<Rightarrow> uid \<Rightarrow> stats \<Rightarrow>
    world \<Rightarrow> (stats, world) res" where
  "deliver handlers cfg now i st w = (case get_event (current w) i of
      None \<Rightarrow> returned st w
    | Some event \<Rightarrow>
       (let st1 = st\<lparr>st_claimed := st_claimed st + 1\<rparr> in
        case handlers (obx_topic event) of
          None \<Rightarrow> bindr (retry cfg now i (''no handler for topic '' @ obx_topic event) w)
                   (\<lambda>status. returned (count_fallback status st1))
        | Some handler \<Rightarrow>
           (case bindr (handler event w) (\<lambda>_. complete now i) of
              (Inr _, w1) \<Rightarrow> returned (st1\<lparr>st_done := st_done st1 + 1\<rparr>) w1
            | (Inl e, w1) \<Rightarrow> bindr (retry cfg now i (error_text e) (rollback w1))
                (\<lambda>status. returned (count_fallback status st1)))))"

fun deliver_all ::
  "(string \<Rightarrow> (outbox \<Rightarrow> world \<Rightarrow> (unit, world) res) option) \<Rightarrow> outbox_config \<Rightarrow> (uid \<Rightarrow> int) \<Rightarrow> uid list \<Rightarrow> stats \<Rightarrow>
    world \<Rightarrow> (stats, world) res" where
  "deliver_all handlers cfg clock [] st w = returned st w"
| "deliver_all handlers cfg clock (i # rest) st w =
     bindr (deliver handlers cfg (clock i) i st w) (deliver_all handlers cfg clock rest)"

text \<open>
  Every commit of a round is a step of its own, and the clock moves on while Telegram and the panels are
  called: \<open>now\<close> is read for the reclaim and the claim, \<open>clock i\<close> when the outcome of event \<open>i\<close> is written.
\<close>

definition run_once ::
  "(string \<Rightarrow> (outbox \<Rightarrow> world \<Rightarrow> (unit, world) res) option) \<Rightarrow> outbox_config \<Rightarrow> int \<Rightarrow> (uid \<Rightarrow> int) \<Rightarrow>
    string \<Rightarrow> nat \<Rightarrow> world \<Rightarrow> (stats, world) res" where
  "run_once handlers cfg now clock worker_id limit w =
    bindr (reclaim_stale cfg now w) (\<lambda>stale w.
    bindr (claim now worker_id limit w) (\<lambda>rows.
      deliver_all handlers cfg clock rows
        \<lparr>st_claimed = 0, st_done = 0, st_retry = 0, st_dead = 0, st_stale = stale\<rparr>))"

section \<open>The state of the queue\<close>

definition event_ok :: "outbox_config \<Rightarrow> outbox \<Rightarrow> bool" where
  "event_ok cfg e \<longleftrightarrow>
     obx_status e \<in> {''pending'', ''claimed'', ''done'', ''dead''} \<and>
     (if obx_status e = ''dead'' then obx_attempts e = MAX_ATTEMPTS cfg else obx_attempts e < MAX_ATTEMPTS cfg) \<and>
     (obx_status e = ''claimed'' \<longrightarrow> obx_claimed_by e \<noteq> None \<and> obx_claimed_at e \<noteq> None) \<and>
     (obx_status e \<in> {''pending'', ''dead''} \<longrightarrow> obx_claimed_by e = None \<and> obx_claimed_at e = None) \<and>
     (obx_completed_at e \<noteq> None \<longleftrightarrow> obx_status e \<in> {''done'', ''dead''})"

definition rows_ok :: "outbox_config \<Rightarrow> uid \<Rightarrow> outbox list \<Rightarrow> bool" where
  "rows_ok cfg n es \<longleftrightarrow> distinct (map obx_id es) \<and> (\<forall>e \<in> set es. obx_id e < n \<and> event_ok cfg e)"

definition outbox_ok :: "outbox_config \<Rightarrow> db \<Rightarrow> bool" where
  "outbox_ok cfg s \<longleftrightarrow> rows_ok cfg (next_uid s) (outbox_events s) \<and> distinct (pending_keys (outbox_events s))"

lemma event_ok_marks:
  assumes "event_ok cfg e"
  shows "obx_status e = ''pending'' \<Longrightarrow> event_ok cfg (mark_claimed now worker e)"
    and "obx_status e = ''claimed'' \<Longrightarrow> event_ok cfg (mark_done now e)"
    and "obx_status e = ''claimed'' \<Longrightarrow> event_ok cfg (mark_failed cfg now err e)"
    and "obx_status e = ''claimed'' \<Longrightarrow> event_ok cfg (mark_reclaimed e)"
  using assms
  by (auto simp: event_ok_def mark_claimed_def mark_done_def mark_failed_def mark_reclaimed_def Let_def)

lemma mark_id [simp]:
  "obx_id (mark_claimed now worker e) = obx_id e" "obx_id (mark_done now e) = obx_id e"
  "obx_id (mark_failed cfg now err e) = obx_id e" "obx_id (mark_reclaimed e) = obx_id e"
  by (simp_all add: mark_claimed_def mark_done_def mark_failed_def mark_reclaimed_def Let_def)

lemma mark_row_status [simp]:
  "obx_status (mark_claimed now worker e) = ''claimed''" "obx_status (mark_done now e) = ''done''"
  "obx_status (mark_reclaimed e) = ''pending''"
  "obx_status (mark_failed cfg now err e) =
    (if obx_attempts e + 1 \<ge> MAX_ATTEMPTS cfg then ''dead'' else ''pending'')"
  by (simp_all add: mark_claimed_def mark_done_def mark_failed_def mark_reclaimed_def Let_def)

lemma on_event_simps [simp]:
  "outbox_events (on_event i f s) = modify obx_id i f (outbox_events s)"
  "next_uid (on_event i f s) = next_uid s"
  by (simp_all add: on_event_def)

lemma rows_ok_modify:
  assumes "rows_ok cfg n es" and "\<And>e. obx_id (f e) = obx_id e"
    and "\<And>e. lookup obx_id i es = Some e \<Longrightarrow> event_ok cfg (f e)"
  shows "rows_ok cfg n (modify obx_id i f es)"
proof -
  have "event_ok cfg (f e)" if "e \<in> set es" "obx_id e = i" for e
    using assms(1,3) lookup_unique [of obx_id es e] that by (auto simp: rows_ok_def)
  with assms(1,2) show ?thesis by (auto simp: rows_ok_def set_modify)
qed

text \<open>Applying a row update to a list of different rows.\<close>

definition update_all :: "uid list \<Rightarrow> (outbox \<Rightarrow> outbox) \<Rightarrow> outbox list \<Rightarrow> outbox list" where
  "update_all is f es = fold (\<lambda>i. modify obx_id i f) is es"

lemma fold_on_event:
  "outbox_events (fold (\<lambda>i. on_event i f) is s) = update_all is f (outbox_events s)"
  "next_uid (fold (\<lambda>i. on_event i f) is s) = next_uid s"
  by (induction "is" arbitrary: s) (simp_all add: update_all_def)

lemma lookup_update_all:
  assumes "\<And>e. obx_id (f e) = obx_id e" and "distinct is"
  shows "lookup obx_id i (update_all is f es) =
    (if i \<in> set is then map_option f (lookup obx_id i es) else lookup obx_id i es)"
  using assms(2)
proof (induction "is" arbitrary: es)
  case Nil
  then show ?case by (simp add: update_all_def)
next
  case (Cons j js)
  have "lookup obx_id i (modify obx_id j f es) =
      (if i = j then map_option f (lookup obx_id i es) else lookup obx_id i es)"
    by (simp add: lookup_modify assms(1))
  with Cons show ?case by (auto simp: update_all_def)
qed

lemma rows_ok_update_all:
  assumes "rows_ok cfg n es" and f: "\<And>e. obx_id (f e) = obx_id e" and "distinct is"
    and "\<And>i e. i \<in> set is \<Longrightarrow> lookup obx_id i es = Some e \<Longrightarrow> event_ok cfg (f e)"
  shows "rows_ok cfg n (update_all is f es)"
  using assms(1,3,4)
proof (induction "is" arbitrary: es)
  case Nil
  then show ?case by (simp add: update_all_def)
next
  case (Cons j js)
  have "rows_ok cfg n (modify obx_id j f es)"
    using Cons.prems f by (intro rows_ok_modify) auto
  moreover have "event_ok cfg (f e)" if "i \<in> set js" "lookup obx_id i (modify obx_id j f es) = Some e" for i e
    using that Cons.prems by (auto simp: lookup_modify f split: if_splits)
  ultimately show ?case using Cons by (simp add: update_all_def)
qed

section \<open>What a round does to the queue\<close>

text \<open>A session whose queue is \<open>es\<close>, both as it sees it and as committed.\<close>

definition synced :: "outbox list \<Rightarrow> uid \<Rightarrow> 'w session_scheme \<Rightarrow> bool" where
  "synced es n S \<longleftrightarrow> outbox_events (current S) = es \<and> outbox_events (committed S) = es \<and>
     next_uid (current S) = n \<and> next_uid (committed S) = n"

lemma commit_checked_cases:
  assumes "commit_checked S = (r, S')"
  obtains (ok) "r = Inr ()" "S' = commit S" "distinct (pending_keys (outbox_events (current S)))"
  | (broken) e where "r = Inl e" "S' = S"
  using assms by (auto simp: commit_checked_def split: if_splits)

lemma synced_keeps [simp]:
  "synced es n (commit S) \<longleftrightarrow> outbox_events (current S) = es \<and> next_uid (current S) = n"
  "synced es n S \<Longrightarrow> synced es n (rollback S)"
  "synced es n w \<Longrightarrow> synced es n (w\<lparr>effects := x\<rparr>)"
  by (auto simp: synced_def commit_def rollback_def)

lemma synced_commit_checked: "synced es n S \<Longrightarrow> synced es n (snd (commit_checked S))"
  by (auto simp: commit_checked_def synced_def commit_def)

lemma synced_notify: "synced es n w \<Longrightarrow> synced es n (snd (notify net text chats w))"
proof -
  have "synced es n w \<Longrightarrow> synced es n (snd (send_all net text chats w))"
    by (induction chats arbitrary: w) (auto split: option.split)
  then show "synced es n w \<Longrightarrow> synced es n (snd (notify net text chats w))"
    by (simp add: notify_def)
qed

lemma synced_limit_panel: "synced es n w \<Longrightarrow> synced es n (snd (limit_panel cfg net p b w))"
  unfolding limit_panel_def assert_vendor_def
  by (rule bindr_keeps [OF require_keeps])
    (auto simp: synced_def suspend_binding_def split: option.split)

lemmas synced_rules = bindr_keeps [where P = "synced es n" for es n]
  require_some_keeps [where P = "synced es n" for es n] synced_notify synced_commit_checked

lemma synced_handlers:
  assumes "HANDLERS cfg net topic = Some handler" and "synced es n w"
  shows "synced es n (snd (handler event w))"
proof -
  have hold: "synced es n (snd (handle_billing_hold cfg net event w))"
    unfolding handle_billing_hold_def using assms(2)
    by (intro synced_rules) (auto simp: synced_limit_panel split: option.split intro!: synced_rules)
  have reset: "synced es n (snd (handle_usage_reset net event w))"
    unfolding handle_usage_reset_def using assms(2)
    by (auto split: option.split json.split intro!: synced_rules)
  have approval: "synced es n (snd (handle_approval_granted net event w))"
    unfolding handle_approval_granted_def Let_def using assms(2) by (intro synced_rules)
  have ticket: "synced es n (snd (handle_support_ticket cfg net event w))"
    unfolding handle_support_ticket_def using assms(2) by (auto split: option.split intro!: synced_rules)
  from assms(1) hold reset approval ticket show ?thesis
    by (auto simp: HANDLERS_def split: if_splits)
qed

section \<open>Claiming and reclaiming\<close>

lemma update_commit:
  assumes sync: "synced es n S" and ok: "rows_ok cfg n es" and keys: "distinct (pending_keys es)"
    and "distinct is" "\<And>e. obx_id (f e) = obx_id e"
    and "\<forall>i \<in> set is. \<forall>e. lookup obx_id i es = Some e \<longrightarrow> event_ok cfg (f e)"
    and run: "(if is = [] then returned v S1 else bindr (commit_checked S1) (\<lambda>_. returned v)) = (r, S')"
    and S1: "S1 = S\<lparr>current := fold (\<lambda>i. on_event i f) is (current S)\<rparr>"
  shows "(r = Inr v \<and> synced (update_all is f es) n S' \<and> rows_ok cfg n (update_all is f es) \<and>
      distinct (pending_keys (update_all is f es))) \<or> (\<exists>x. r = Inl x \<and> committed S' = committed S)"
proof (cases "is = []")
  case True
  with run S1 sync ok keys show ?thesis by (auto simp: update_all_def synced_def)
next
  case False
  have rows: "rows_ok cfg n (update_all is f es)" using ok assms(4-6) by (intro rows_ok_update_all) auto
  have events: "outbox_events (current S1) = update_all is f es" "next_uid (current S1) = n"
    using sync S1 by (simp_all add: fold_on_event synced_def)
  obtain r1 S2 where c: "commit_checked S1 = (r1, S2)" by fastforce
  from c show ?thesis
  proof (cases rule: commit_checked_cases)
    case ok
    then have "synced (update_all is f es) n S2" using events by simp
    with ok False run c rows events show ?thesis by auto
  next
    case (broken x)
    with False run c S1 show ?thesis by auto
  qed
qed

lemma stale_ids:
  assumes "rows_ok cfg n es"
  shows "distinct (map obx_id (filter P es))"
    and "i \<in> set (map obx_id (filter P es)) \<longleftrightarrow> (\<exists>e. lookup obx_id i es = Some e \<and> P e)"
  using assms lookup_unique [of obx_id es]
  by (auto simp: rows_ok_def distinct_map inj_on_def dest: lookup_SomeD)

lemma claimable_ids:
  assumes "rows_ok cfg n (outbox_events s)"
  shows "distinct (claimable now s limit)" and "length (claimable now s limit) \<le> limit"
    and "i \<in> set (claimable now s limit) \<Longrightarrow> \<exists>e. get_event s i = Some e \<and> obx_status e = ''pending'' \<and>
      obx_next_attempt_at e \<le> now"
proof -
  let ?due = "filter (\<lambda>e. obx_status e = ''pending'' \<and> obx_next_attempt_at e \<le> now) (outbox_events s)"
  let ?sorted = "sort_key (\<lambda>e. (obx_next_attempt_at e, obx_id e)) ?due"
  have "distinct (map obx_id ?due)" by (rule stale_ids(1) [OF assms])
  then have "distinct (map obx_id ?sorted)" by (simp add: distinct_map)
  then have "distinct (take limit (map obx_id ?sorted))" by (rule distinct_take)
  then show "distinct (claimable now s limit)" unfolding claimable_def by (simp only: take_map)
  show "length (claimable now s limit) \<le> limit" by (simp add: claimable_def)
  assume "i \<in> set (claimable now s limit)"
  then obtain e where "e \<in> set ?due" "obx_id e = i"
    by (auto simp: claimable_def dest!: in_set_takeD)
  then show "\<exists>e. get_event s i = Some e \<and> obx_status e = ''pending'' \<and> obx_next_attempt_at e \<le> now"
    using assms lookup_unique [of obx_id "outbox_events s"] by (auto simp: rows_ok_def)
qed

definition reclaimed :: "int \<Rightarrow> outbox \<Rightarrow> outbox" where
  "reclaimed cutoff e = (if is_stale cutoff e then mark_reclaimed e else e)"

lemma reclaim_stale_cases:
  assumes "reclaim_stale cfg now S = (r, S')" "synced es n S" "rows_ok cfg n es" "distinct (pending_keys es)"
  shows "(\<exists>k es1. r = Inr k \<and> synced es1 n S' \<and> rows_ok cfg n es1 \<and> distinct (pending_keys es1) \<and>
      (\<forall>i. lookup obx_id i es1 = map_option (reclaimed (now - CLAIM_TIMEOUT_SECONDS cfg)) (lookup obx_id i es))) \<or>
    (\<exists>x. r = Inl x \<and> committed S' = committed S)"
proof -
  define cutoff where "cutoff = now - CLAIM_TIMEOUT_SECONDS cfg"
  define stale where "stale = map obx_id (filter (is_stale cutoff) es)"
  define S1 where "S1 = S\<lparr>current := fold (\<lambda>i. on_event i mark_reclaimed) stale (current S)\<rparr>"
  have in_stale: "i \<in> set stale \<longleftrightarrow> (\<exists>e. lookup obx_id i es = Some e \<and> is_stale cutoff e)" for i
    unfolding stale_def by (rule stale_ids(2) [OF assms(3)])
  have d: "distinct stale" unfolding stale_def by (rule stale_ids(1) [OF assms(3)])
  have ok: "\<forall>i \<in> set stale. \<forall>e. lookup obx_id i es = Some e \<longrightarrow> event_ok cfg (mark_reclaimed e)"
  proof (intro ballI allI impI)
    fix i e
    assume that: "i \<in> set stale" "lookup obx_id i es = Some e"
    have "obx_status e = ''claimed''" using that in_stale by (auto simp: is_stale_def)
    moreover have "event_ok cfg e" using that(2) assms(3) by (auto simp: rows_ok_def dest: lookup_SomeD)
    ultimately show "event_ok cfg (mark_reclaimed e)" by (simp add: event_ok_marks)
  qed
  have "stale = map obx_id (filter (is_stale (now - CLAIM_TIMEOUT_SECONDS cfg)) (outbox_events (current S)))"
    using assms(2) by (simp add: stale_def cutoff_def synced_def)
  note eq = this
  have run: "(if stale = [] then returned (length stale) S1
      else bindr (commit_checked S1) (\<lambda>_. returned (length stale))) = (r, S')"
    using assms(1) unfolding reclaim_stale_def Let_def S1_def eq .
  have "lookup obx_id i (update_all stale mark_reclaimed es) = map_option (reclaimed cutoff) (lookup obx_id i es)" for i
    using in_stale [of i] d by (cases "lookup obx_id i es") (auto simp: lookup_update_all reclaimed_def)
  with update_commit [OF assms(2-4) d mark_id(4) ok run S1_def] show ?thesis
    unfolding cutoff_def by blast
qed

lemma claim_cases:
  assumes "claim now worker limit S = (r, S')" "synced es n S" "rows_ok cfg n es" "distinct (pending_keys es)"
  shows "(\<exists>rows es1. r = Inr rows \<and> synced es1 n S' \<and> rows_ok cfg n es1 \<and> distinct (pending_keys es1) \<and>
      distinct rows \<and> length rows \<le> limit \<and>
      (\<forall>i \<in> set rows. \<exists>e. lookup obx_id i es = Some e \<and> obx_status e = ''pending'' \<and>
         obx_next_attempt_at e \<le> now \<and> lookup obx_id i es1 = Some (mark_claimed now worker e)) \<and>
      (\<forall>i. i \<notin> set rows \<longrightarrow> lookup obx_id i es1 = lookup obx_id i es)) \<or>
    (\<exists>x. r = Inl x \<and> committed S' = committed S)"
proof -
  define rows where "rows = claimable now (current S) limit"
  define S1 where "S1 = S\<lparr>current := fold (\<lambda>i. on_event i (mark_claimed now worker)) rows (current S)\<rparr>"
  have es: "outbox_events (current S) = es" using assms(2) by (simp add: synced_def)
  then have ok: "rows_ok cfg n (outbox_events (current S))" using assms(3) by simp
  note ids = claimable_ids [OF ok, where now = now and limit = limit, folded rows_def, unfolded es]
  have mok: "\<forall>i \<in> set rows. \<forall>e. lookup obx_id i es = Some e \<longrightarrow> event_ok cfg (mark_claimed now worker e)"
  proof (intro ballI allI impI)
    fix i e
    assume that: "i \<in> set rows" "lookup obx_id i es = Some e"
    have "event_ok cfg e" using that(2) assms(3) by (auto simp: rows_ok_def dest: lookup_SomeD)
    with ids(3) [OF that(1)] that(2) show "event_ok cfg (mark_claimed now worker e)"
      by (auto simp: event_ok_marks)
  qed
  have run: "(if rows = [] then returned rows S1 else bindr (commit_checked S1) (\<lambda>_. returned rows)) = (r, S')"
    using assms(1) unfolding claim_def Let_def S1_def rows_def .
  let ?new = "update_all rows (mark_claimed now worker) es"
  have look: "lookup obx_id i ?new =
      (if i \<in> set rows then map_option (mark_claimed now worker) (lookup obx_id i es) else lookup obx_id i es)" for i
    by (simp add: lookup_update_all ids(1))
  then have "\<forall>i \<in> set rows. \<exists>e. lookup obx_id i es = Some e \<and> obx_status e = ''pending'' \<and>
      obx_next_attempt_at e \<le> now \<and> lookup obx_id i ?new = Some (mark_claimed now worker e)"
    using ids(3) by fastforce
  moreover have "\<forall>i. i \<notin> set rows \<longrightarrow> lookup obx_id i ?new = lookup obx_id i es" using look by simp
  ultimately show ?thesis
    using update_commit [OF assms(2-4) ids(1) mark_id(1) mok run S1_def] ids(1,2) by blast
qed

text \<open>
  The interface between the loop and the handlers: whatever a handler does, it leaves the queue to
  the loop.
\<close>

locale delivery =
  fixes handlers :: "string \<Rightarrow> (outbox \<Rightarrow> world \<Rightarrow> (unit, world) res) option"
  assumes quiet: "handlers topic = Some handler \<Longrightarrow> synced es n w \<Longrightarrow> synced es n (snd (handler event w))"
begin

lemma complete_cases:
  assumes "complete now i w = (r, w')" and "synced es n w"
  obtains "r = Inr ()" "synced (modify obx_id i (mark_done now) es) n w'"
      "distinct (pending_keys (modify obx_id i (mark_done now) es))"
    | x where "r = Inl x" "committed w' = committed w"
  using assms by (auto simp: complete_def synced_def commit_def elim!: commit_checked_cases)

lemma retry_cases:
  assumes "retry cfg now i err w = (r, w')" and "synced es n w" and "lookup obx_id i es = Some e"
  obtains "r = Inr (obx_status (mark_failed cfg now err e))"
      "synced (modify obx_id i (mark_failed cfg now err) es) n w'"
      "distinct (pending_keys (modify obx_id i (mark_failed cfg now err) es))"
    | x where "r = Inl x" "committed w' = committed w"
proof -
  obtain r1 w1 where c: "commit_checked (w\<lparr>current := on_event i (mark_failed cfg now err) (current w)\<rparr>) = (r1, w1)"
    by fastforce
  from c show ?thesis
  proof (cases rule: commit_checked_cases)
    case ok
    then have "r = Inr (obx_status (mark_failed cfg now err e))"
      and "synced (modify obx_id i (mark_failed cfg now err) es) n w'"
      using assms c by (auto simp: retry_def synced_def commit_def lookup_modify)
    with ok assms(2) show ?thesis by (intro that(1)) (auto simp: synced_def)
  next
    case (broken x)
    with assms(1) c that(2) show ?thesis by (auto simp: retry_def)
  qed
qed

definition settles :: "outbox_config \<Rightarrow> int \<Rightarrow> (outbox \<Rightarrow> outbox) \<Rightarrow> bool" where
  "settles cfg now f \<longleftrightarrow> f = mark_done now \<or> (\<exists>err. f = mark_failed cfg now err)"

lemma deliver_cases:
  assumes run: "deliver handlers cfg now i st w = (r, w')" and sync: "synced es n w"
    and e: "lookup obx_id i es = Some e"
  shows "(\<exists>st' f. r = Inr st' \<and> settles cfg now f \<and> synced (modify obx_id i f es) n w' \<and>
      distinct (pending_keys (modify obx_id i f es)) \<and> st_claimed st' = Suc (st_claimed st) \<and>
      st_done st' + st_retry st' + st_dead st' = Suc (st_done st + st_retry st + st_dead st)) \<or>
    (\<exists>x. r = Inl x \<and> outbox_events (committed w') = es \<and> next_uid (committed w') = n)"
    (is "?goal r w'")
proof -
  have get: "get_event (current w) i = Some e" using sync e by (simp add: synced_def)
  define st1 where "st1 = st\<lparr>st_claimed := st_claimed st + 1\<rparr>"
  have failed: "?goal r w'"
    if v: "synced es n v" and t: "bindr (retry cfg now i err v) (\<lambda>status. returned (count_fallback status st1)) = (r, w')"
    for err v
  proof -
    obtain r1 w1 where t1: "retry cfg now i err v = (r1, w1)" by fastforce
    from t1 v e show ?thesis
    proof (cases rule: retry_cases)
      case 1
      let ?f = "mark_failed cfg now err" and ?st = "count_fallback (obx_status (mark_failed cfg now err e)) st1"
      have "r = Inr ?st" "w' = w1" using t t1 1 by (simp_all del: mark_row_status)
      moreover have "settles cfg now ?f" by (auto simp: settles_def)
      moreover have "st_claimed ?st = Suc (st_claimed st)"
        "st_done ?st + st_retry ?st + st_dead ?st = Suc (st_done st + st_retry st + st_dead st)"
        by (simp_all add: count_fallback_def st1_def)
      ultimately show ?thesis using 1 by blast
    next
      case (2 x)
      with t t1 v show ?thesis by (auto simp: synced_def)
    qed
  qed
  show ?thesis
  proof (cases "handlers (obx_topic e)")
    case None
    have "bindr (retry cfg now i (''no handler for topic '' @ obx_topic e) w)
        (\<lambda>status. returned (count_fallback status st1)) = (r, w')"
      using run get None by (simp add: deliver_def st1_def Let_def)
    then show ?thesis by (rule failed [OF sync])
  next
    case (Some handler)
    obtain r1 w1 where h: "handler e w = (r1, w1)" by fastforce
    with quiet [OF Some sync, of e] have sync1: "synced es n w1" by simp
    obtain r2 w2 where c: "bindr (handler e w) (\<lambda>_. complete now i) = (r2, w2)" by fastforce
    show ?thesis
    proof (cases r2)
      case (Inl x)
      have "committed w2 = committed w1"
      proof (cases r1)
        case (Inr u)
        with h c have "complete now i w1 = (Inl x, w2)" using \<open>r2 = Inl x\<close> by simp
        from this sync1 show ?thesis by (cases rule: complete_cases) auto
      qed (use h c in simp)
      then have "synced es n (rollback w2)" using sync1 by (simp add: synced_def rollback_def)
      then show ?thesis
        by (rule failed [of _ "error_text x"]) (use run get Some c Inl in \<open>simp add: deliver_def st1_def Let_def\<close>)
    next
      case (Inr u)
      with h c obtain v where "r1 = Inr v" "complete now i w1 = (Inr u, w2)" by (cases r1) auto
      from this(2) sync1 have w2: "synced (modify obx_id i (mark_done now) es) n w2"
        "distinct (pending_keys (modify obx_id i (mark_done now) es))"
        by (cases rule: complete_cases; simp)+
      have "r = Inr (st1\<lparr>st_done := st_done st1 + 1\<rparr>)" "w' = w2"
        using run get Some c Inr by (auto simp: deliver_def st1_def Let_def)
      moreover have "settles cfg now (mark_done now)" by (simp add: settles_def)
      ultimately show ?thesis using w2 by (intro disjI1 exI conjI) (auto simp: st1_def)
    qed
  qed
qed

lemma settles_ok:
  "settles cfg now f \<Longrightarrow> event_ok cfg e \<Longrightarrow> obx_status e = ''claimed'' \<Longrightarrow> event_ok cfg (f e)"
  "settles cfg now f \<Longrightarrow> obx_id (f e) = obx_id e"
  by (auto simp: settles_def event_ok_marks)

lemma settles_outcome:
  assumes "settles cfg now f" and "obx_attempts e < MAX_ATTEMPTS cfg"
  shows "obx_status (f e) = ''done'' \<and> obx_attempts (f e) = obx_attempts e \<or>
    obx_status (f e) = ''pending'' \<and> obx_attempts (f e) = obx_attempts e + 1 \<and>
      obx_next_attempt_at (f e) = now + backoff cfg (obx_attempts (f e)) \<or>
    obx_status (f e) = ''dead'' \<and> obx_attempts (f e) = obx_attempts e + 1 \<and>
      obx_attempts (f e) = MAX_ATTEMPTS cfg"
proof (cases "f = mark_done now")
  case True
  then show ?thesis by (simp add: mark_done_def)
next
  case False
  then obtain err where f: "f = mark_failed cfg now err" using assms(1) by (auto simp: settles_def)
  show ?thesis
    using assms(2) unfolding f by (cases "obx_attempts e + 1 \<ge> MAX_ATTEMPTS cfg") (simp_all add: mark_failed_def Let_def)
qed

definition live :: "uid list \<Rightarrow> outbox list \<Rightarrow> bool" where
  "live is es \<longleftrightarrow> distinct is \<and> (\<forall>i \<in> set is. \<exists>e. lookup obx_id i es = Some e \<and> obx_status e = ''claimed'')"

lemma deliver_all_keeps:
  assumes "synced es n w" "rows_ok cfg n es" "distinct (pending_keys es)" "live is es"
    and "deliver_all handlers cfg clock is st w = (r, w')"
  shows "rows_ok cfg n (outbox_events (committed w')) \<and>
    distinct (pending_keys (outbox_events (committed w'))) \<and> next_uid (committed w') = n"
  using assms
proof (induction "is" arbitrary: st w es)
  case Nil
  then show ?case by (auto simp: synced_def)
next
  case (Cons i rest)
  obtain e where e: "lookup obx_id i es = Some e" "obx_status e = ''claimed''"
    using Cons.prems(4) by (auto simp: live_def)
  obtain r1 w1 where d: "deliver handlers cfg (clock i) i st w = (r1, w1)" by fastforce
  from deliver_cases [OF d Cons.prems(1) e(1)] show ?case
  proof (elim disjE exE conjE)
    fix st1 f
    assume ok: "r1 = Inr st1" "settles cfg (clock i) f" "synced (modify obx_id i f es) n w1"
      "distinct (pending_keys (modify obx_id i f es))"
    have id: "obx_id (f x) = obx_id x" for x using ok(2) by (rule settles_ok)
    have "event_ok cfg e" using Cons.prems(2) e(1) by (auto simp: rows_ok_def dest: lookup_SomeD)
    then have "rows_ok cfg n (modify obx_id i f es)"
      using Cons.prems(2) id e settles_ok(1) [OF ok(2)] by (intro rows_ok_modify) auto
    moreover have "live rest (modify obx_id i f es)"
      using Cons.prems(4) by (auto simp: live_def lookup_modify id)
    moreover have "deliver_all handlers cfg clock rest st1 w1 = (r, w')"
      using Cons.prems(5) d ok(1) by simp
    ultimately show ?thesis using Cons.IH ok by blast
  next
    fix x
    assume bad: "r1 = Inl x" "outbox_events (committed w1) = es" "next_uid (committed w1) = n"
    with Cons.prems d show ?thesis by auto
  qed
qed

lemma deliver_all_settles:
  assumes "synced es n w" "live is es" and "deliver_all handlers cfg clock is st w = (Inr st', w')"
  shows "\<exists>es'. synced es' n w' \<and> (\<forall>j. j \<notin> set is \<longrightarrow> lookup obx_id j es' = lookup obx_id j es) \<and>
      (\<forall>i \<in> set is. \<exists>f. settles cfg (clock i) f \<and> lookup obx_id i es' = map_option f (lookup obx_id i es)) \<and>
      st_claimed st' = st_claimed st + length is \<and>
      st_done st' + st_retry st' + st_dead st' = st_done st + st_retry st + st_dead st + length is"
  using assms
proof (induction "is" arbitrary: st w es)
  case Nil
  then show ?case by auto
next
  case (Cons i rest)
  obtain e where e: "lookup obx_id i es = Some e" using Cons.prems(2) by (auto simp: live_def)
  obtain r1 w1 where d: "deliver handlers cfg (clock i) i st w = (r1, w1)" by fastforce
  obtain st1 f where ok: "r1 = Inr st1" "settles cfg (clock i) f" "synced (modify obx_id i f es) n w1"
      "st_claimed st1 = Suc (st_claimed st)"
      "st_done st1 + st_retry st1 + st_dead st1 = Suc (st_done st + st_retry st + st_dead st)"
    using deliver_cases [OF d Cons.prems(1) e] Cons.prems(3) d by auto
  have look: "lookup obx_id j (modify obx_id i f es) =
      (if j = i then map_option f (lookup obx_id i es) else lookup obx_id j es)" for j
    by (rule lookup_modify) (simp add: settles_ok(2) [OF ok(2)])
  have "live rest (modify obx_id i f es)" using Cons.prems(2) by (auto simp: live_def look)
  moreover have "deliver_all handlers cfg clock rest st1 w1 = (Inr st', w')" using Cons.prems(3) d ok(1) by simp
  ultimately obtain es' where es': "synced es' n w'"
      "\<forall>j. j \<notin> set rest \<longrightarrow> lookup obx_id j es' = lookup obx_id j (modify obx_id i f es)"
      "\<forall>j \<in> set rest. \<exists>g. settles cfg (clock j) g \<and> lookup obx_id j es' = map_option g (lookup obx_id j (modify obx_id i f es))"
      "st_claimed st' = st_claimed st1 + length rest"
      "st_done st' + st_retry st' + st_dead st' = st_done st1 + st_retry st1 + st_dead st1 + length rest"
    using Cons.IH ok(3) by blast
  have "i \<notin> set rest" using Cons.prems(2) by (simp add: live_def)
  then have "\<exists>g. settles cfg (clock j) g \<and> lookup obx_id j es' = map_option g (lookup obx_id j es)"
    if j: "j \<in> set (i # rest)" for j
  proof (cases "j = i")
    case True
    with es'(2) ok(2) look \<open>i \<notin> set rest\<close> show ?thesis by (intro exI [of _ f]) simp
  next
    case False
    with j es'(3) look [of j] show ?thesis by (metis set_ConsD)
  qed
  moreover have "lookup obx_id j es' = lookup obx_id j es" if "j \<notin> set (i # rest)" for j
    using that es'(2) look by simp
  ultimately show ?case using es'(1,4,5) ok(4,5) by (intro exI [of _ es']) simp
qed

lemma run_once_keeps:
  assumes sync: "synced es n w" and ok: "rows_ok cfg n es" and keys: "distinct (pending_keys es)"
    and run: "run_once handlers cfg now clock worker limit w = (r, w')"
  shows "rows_ok cfg n (outbox_events (committed w')) \<and>
    distinct (pending_keys (outbox_events (committed w'))) \<and> next_uid (committed w') = n"
proof -
  have old: ?thesis if "outbox_events (committed w') = outbox_events (committed v)"
    "next_uid (committed w') = next_uid (committed v)" "synced es0 n v" "rows_ok cfg n es0" "distinct (pending_keys es0)"
    for v :: world and es0
    using that by (simp add: synced_def)
  obtain r1 w1 where c1: "reclaim_stale cfg now w = (r1, w1)" by fastforce
  from reclaim_stale_cases [OF c1 sync ok keys] show ?thesis
  proof (elim disjE exE conjE)
    fix k es1
    assume 1: "r1 = Inr k" "synced es1 n w1" "rows_ok cfg n es1" "distinct (pending_keys es1)"
    obtain r2 w2 where c2: "claim now worker limit w1 = (r2, w2)" by fastforce
    from claim_cases [OF c2 1(2-4)] show ?thesis
    proof (elim disjE exE conjE)
      fix rows es2
      assume 2: "r2 = Inr rows" "synced es2 n w2" "rows_ok cfg n es2" "distinct (pending_keys es2)"
        "distinct rows" "\<forall>i \<in> set rows. \<exists>e. lookup obx_id i es1 = Some e \<and> obx_status e = ''pending'' \<and>
         obx_next_attempt_at e \<le> now \<and> lookup obx_id i es2 = Some (mark_claimed now worker e)"
      then have "live rows es2" by (fastforce simp: live_def)
      with 1(1) 2 c1 c2 run show ?thesis
        by (intro deliver_all_keeps [of es2 n w2 cfg rows]) (auto simp: run_once_def)
    next
      fix x assume "r2 = Inl x" "committed w2 = committed w1"
      with 1 c1 c2 run show ?thesis by (intro old [of w1 es1]) (auto simp: run_once_def)
    qed
  next
    fix x assume "r1 = Inl x" "committed w1 = committed w"
    with c1 run sync ok keys show ?thesis by (intro old [of w es]) (auto simp: run_once_def)
  qed
qed

lemma run_once_settles:
  assumes sync: "synced es n w" and ok: "rows_ok cfg n es" and keys: "distinct (pending_keys es)"
    and run: "run_once handlers cfg now clock worker limit w = (Inr st, w')"
  shows "\<exists>rows es'. synced es' n w' \<and> distinct rows \<and> length rows \<le> limit \<and> st_claimed st = length rows \<and>
    st_done st + st_retry st + st_dead st = length rows \<and>
    (\<forall>i. if i \<in> set rows
      then \<exists>e f. lookup obx_id i es = Some e \<and> settles cfg (clock i) f \<and>
        obx_status (reclaimed (now - CLAIM_TIMEOUT_SECONDS cfg) e) = ''pending'' \<and> obx_next_attempt_at e \<le> now \<and>
        lookup obx_id i es' = Some (f (mark_claimed now worker (reclaimed (now - CLAIM_TIMEOUT_SECONDS cfg) e)))
      else lookup obx_id i es' = map_option (reclaimed (now - CLAIM_TIMEOUT_SECONDS cfg)) (lookup obx_id i es))"
proof -
  let ?re = "reclaimed (now - CLAIM_TIMEOUT_SECONDS cfg)"
  obtain r1 w1 where c1: "reclaim_stale cfg now w = (r1, w1)" by fastforce
  then obtain k where k: "r1 = Inr k" using run by (cases r1) (auto simp: run_once_def)
  with reclaim_stale_cases [OF c1 sync ok keys] obtain es1 where 1: "synced es1 n w1" "rows_ok cfg n es1"
    "distinct (pending_keys es1)" "\<forall>i. lookup obx_id i es1 = map_option ?re (lookup obx_id i es)" by blast
  obtain r2 w2 where c2: "claim now worker limit w1 = (r2, w2)" by fastforce
  then obtain rows where rows: "r2 = Inr rows" using run k c1 by (cases r2) (auto simp: run_once_def)
  with claim_cases [OF c2 1(1-3)] obtain es2 where 2: "synced es2 n w2" "distinct rows" "length rows \<le> limit"
    "\<forall>i \<in> set rows. \<exists>e. lookup obx_id i es1 = Some e \<and> obx_status e = ''pending'' \<and>
         obx_next_attempt_at e \<le> now \<and> lookup obx_id i es2 = Some (mark_claimed now worker e)"
    "\<forall>i. i \<notin> set rows \<longrightarrow> lookup obx_id i es2 = lookup obx_id i es1" by blast
  have "live rows es2" using 2 by (fastforce simp: live_def)
  moreover have "deliver_all handlers cfg clock rows
      \<lparr>st_claimed = 0, st_done = 0, st_retry = 0, st_dead = 0, st_stale = k\<rparr> w2 = (Inr st, w')"
    using run c1 c2 k rows by (simp add: run_once_def)
  ultimately obtain es' where es': "synced es' n w'" "\<forall>j. j \<notin> set rows \<longrightarrow> lookup obx_id j es' = lookup obx_id j es2"
      "\<forall>i \<in> set rows. \<exists>f. settles cfg (clock i) f \<and> lookup obx_id i es' = map_option f (lookup obx_id i es2)"
      "st_claimed st = length rows" "st_done st + st_retry st + st_dead st = length rows"
    using deliver_all_settles [OF 2(1)] by fastforce
  have "\<exists>e f. lookup obx_id i es = Some e \<and> settles cfg (clock i) f \<and> obx_status (?re e) = ''pending'' \<and>
      obx_next_attempt_at e \<le> now \<and> lookup obx_id i es' = Some (f (mark_claimed now worker (?re e)))"
    if i: "i \<in> set rows" for i
  proof -
    obtain e1 where e1: "lookup obx_id i es1 = Some e1" "obx_status e1 = ''pending''" "obx_next_attempt_at e1 \<le> now"
      "lookup obx_id i es2 = Some (mark_claimed now worker e1)" using 2(4) i by blast
    then obtain e where e: "lookup obx_id i es = Some e" "?re e = e1" using 1(4) by auto
    then have "obx_next_attempt_at e \<le> now" using e1(3) by (auto simp: reclaimed_def mark_reclaimed_def split: if_splits)
    moreover obtain f where "settles cfg (clock i) f" "lookup obx_id i es' = map_option f (lookup obx_id i es2)"
      using es'(3) i by blast
    ultimately show ?thesis using e e1 by auto
  qed
  moreover have "lookup obx_id i es' = map_option ?re (lookup obx_id i es)" if "i \<notin> set rows" for i
    using that es'(2) 2(5) 1(4) by simp
  ultimately show ?thesis using es'(1,4,5) 2(2,3) by (intro exI [of _ rows] exI [of _ es']) simp
qed

end

interpretation shipped: delivery "HANDLERS cfg net"
  by unfold_locales (rule synced_handlers)

section \<open>Properties\<close>

definition open_world :: "db \<Rightarrow> world" where
  "open_world s = \<lparr>current = s, committed = s, effects = []\<rparr>"

text \<open>Everything that happens to the queue: some transaction enqueues, or a worker runs a round.\<close>

datatype queue_op =
    Enqueue int string uid "(string \<times> json) list"
  | Round outside int "uid \<Rightarrow> int" string nat

fun queue_step :: "outbox_config \<Rightarrow> queue_op \<Rightarrow> db \<Rightarrow> db" where
  "queue_step cfg (Enqueue now topic aggregate_id payload) s = snd (enqueue now topic aggregate_id payload s)"
| "queue_step cfg (Round net now clock worker limit) s =
     committed (snd (run_once (HANDLERS cfg net) cfg now clock worker limit (open_world s)))"

lemma synced_open_world: "synced (outbox_events s) (next_uid s) (open_world s)"
  by (simp add: synced_def open_world_def)

lemma enqueue_outbox_ok:
  assumes "0 < MAX_ATTEMPTS cfg" and ok: "outbox_ok cfg s"
  shows "outbox_ok cfg (snd (enqueue now topic aggregate_id payload s))"
proof (cases "has (waiting topic aggregate_id) (outbox_events s)")
  case True
  with ok show ?thesis by (simp only: enqueue_def if_True snd_conv)
next
  case False
  then have "(topic, aggregate_id) \<notin> set (pending_keys (outbox_events s))"
    by (auto simp: pending_keys_def waiting_def)
  with False assms show ?thesis
    by (auto simp: enqueue_def Let_def outbox_ok_def rows_ok_def event_ok_def pending_keys_def less_Suc_eq)
qed

lemma round_outbox_ok:
  assumes "outbox_ok cfg s"
  shows "outbox_ok cfg (committed (snd (run_once (HANDLERS cfg net) cfg now clock worker limit (open_world s))))"
proof -
  obtain r w' where run: "run_once (HANDLERS cfg net) cfg now clock worker limit (open_world s) = (r, w')" by fastforce
  from shipped.run_once_keeps [OF synced_open_world _ _ run] assms show ?thesis
    by (simp add: outbox_ok_def run)
qed

interpretation queue: step_system "queue_step cfg" "\<lambda>s. 0 < MAX_ATTEMPTS cfg \<and> outbox_ok cfg s"
proof
  fix s x
  assume "0 < MAX_ATTEMPTS cfg \<and> outbox_ok cfg s"
  then show "0 < MAX_ATTEMPTS cfg \<and> outbox_ok cfg (queue_step cfg x s)"
    by (cases x) (simp_all add: enqueue_outbox_ok round_outbox_ok)
qed

text \<open>
  C12: however enqueues and worker rounds interleave, and whatever Telegram and the panels answer,
  the committed queue stays well formed: identifiers are distinct, an event is dead exactly when its
  attempts are used up, an event waiting to be delivered is held by no worker, and no topic and
  aggregate has two pending events.
\<close>

theorem queue_stays_well_formed:
  assumes "0 < MAX_ATTEMPTS cfg" and "outbox_ok cfg s"
  shows "outbox_ok cfg (fold (queue_step cfg) ops s)"
  using queue.run_inv [of cfg s ops] assms by blast

text \<open>
  C13: a round that returns settles exactly what it claimed. It claimed at most \<open>limit\<close> events, all of
  them due and pending (or stranded by a worker that went silent for longer than the timeout); each is
  now done, or pending again (due after the backoff, from the moment it failed) or dead with one attempt
  more; every other event is as it was, except
  that stranded ones are pending again. The counters add up.
\<close>

theorem round_settles_what_it_claims:
  assumes ok: "outbox_ok cfg s"
    and run: "run_once (HANDLERS cfg net) cfg now clock worker limit (open_world s) = (Inr st, w')"
  shows "\<exists>rows. distinct rows \<and> length rows = st_claimed st \<and> st_claimed st \<le> limit \<and>
    st_done st + st_retry st + st_dead st = st_claimed st \<and>
    (\<forall>i. if i \<in> set rows
      then \<exists>e e'. get_event s i = Some e \<and> get_event (committed w') i = Some e' \<and>
        (obx_status e = ''pending'' \<or> is_stale (now - CLAIM_TIMEOUT_SECONDS cfg) e) \<and> obx_next_attempt_at e \<le> now \<and>
        (obx_status e' = ''done'' \<and> obx_attempts e' = obx_attempts e \<or>
         obx_status e' = ''pending'' \<and> obx_attempts e' = obx_attempts e + 1 \<and>
           obx_next_attempt_at e' = clock i + backoff cfg (obx_attempts e') \<or>
         obx_status e' = ''dead'' \<and> obx_attempts e' = obx_attempts e + 1 \<and> obx_attempts e' = MAX_ATTEMPTS cfg)
      else get_event (committed w') i = map_option (reclaimed (now - CLAIM_TIMEOUT_SECONDS cfg)) (get_event s i))"
proof -
  let ?re = "reclaimed (now - CLAIM_TIMEOUT_SECONDS cfg)"
  obtain rows es' where st: "synced es' (next_uid s) w'" "distinct rows" "length rows \<le> limit" "st_claimed st = length rows"
    "st_done st + st_retry st + st_dead st = length rows"
    and ev: "\<And>i. if i \<in> set rows
      then \<exists>e f. get_event s i = Some e \<and> shipped.settles cfg (clock i) f \<and> obx_status (?re e) = ''pending'' \<and>
        obx_next_attempt_at e \<le> now \<and> lookup obx_id i es' = Some (f (mark_claimed now worker (?re e)))
      else lookup obx_id i es' = map_option ?re (get_event s i)"
    using shipped.run_once_settles [OF synced_open_world _ _ run] ok unfolding outbox_ok_def by blast
  have es': "outbox_events (committed w') = es'" using st(1) by (simp add: synced_def)
  have row: "\<exists>e e'. get_event s i = Some e \<and> get_event (committed w') i = Some e' \<and>
        (obx_status e = ''pending'' \<or> is_stale (now - CLAIM_TIMEOUT_SECONDS cfg) e) \<and> obx_next_attempt_at e \<le> now \<and>
        (obx_status e' = ''done'' \<and> obx_attempts e' = obx_attempts e \<or>
         obx_status e' = ''pending'' \<and> obx_attempts e' = obx_attempts e + 1 \<and>
           obx_next_attempt_at e' = clock i + backoff cfg (obx_attempts e') \<or>
         obx_status e' = ''dead'' \<and> obx_attempts e' = obx_attempts e + 1 \<and> obx_attempts e' = MAX_ATTEMPTS cfg)"
    if i: "i \<in> set rows" for i
  proof -
    obtain e f where e: "get_event s i = Some e" "shipped.settles cfg (clock i) f" "obx_status (?re e) = ''pending''"
      "obx_next_attempt_at e \<le> now" "lookup obx_id i es' = Some (f (mark_claimed now worker (?re e)))"
      using ev [of i] i by auto
    have "event_ok cfg e" using ok e(1) by (auto simp: outbox_ok_def rows_ok_def dest: lookup_SomeD)
    then have bound: "obx_attempts e + 1 \<le> MAX_ATTEMPTS cfg"
      using e(3) by (auto simp: event_ok_def reclaimed_def is_stale_def split: if_splits)
    have "obx_status e = ''pending'' \<or> is_stale (now - CLAIM_TIMEOUT_SECONDS cfg) e"
      using e(3) by (auto simp: reclaimed_def split: if_splits)
    moreover have "obx_attempts (mark_claimed now worker (?re e)) = obx_attempts e"
      by (simp add: reclaimed_def mark_claimed_def mark_reclaimed_def)
    ultimately show ?thesis
      using shipped.settles_outcome [OF e(2), of "mark_claimed now worker (?re e)"] e es' bound by auto
  qed
  have other: "get_event (committed w') i = map_option ?re (get_event s i)" if "i \<notin> set rows" for i
    using ev [of i] that es' by simp
  show ?thesis using st(2-5) row other by (intro exI [of _ rows]) simp
qed

lemma backoff_double:
  assumes "0 < n"
  shows "BASE_BACKOFF_SECONDS cfg * 2 ^ (n + k - 1) = 2 ^ k * (BASE_BACKOFF_SECONDS cfg * 2 ^ (n - 1))"
proof -
  have "n + k - 1 = (n - 1) + k" using assms by simp
  then show ?thesis by (simp add: power_add)
qed

text \<open>
  a failing event waits longer and longer, within bounds. The delay after the n-th failure is
  positive, never decreases from one failure to a later one, doubles with each failure until it
  reaches \<open>MAX_BACKOFF_SECONDS\<close>, and never exceeds it.
\<close>

theorem failures_back_off:
  assumes base: "0 < BASE_BACKOFF_SECONDS cfg" and top: "0 < MAX_BACKOFF_SECONDS cfg" and n: "0 < n"
  shows "0 < backoff cfg n \<and> backoff cfg n \<le> backoff cfg (n + k) \<and>
    backoff cfg (n + k) \<le> MAX_BACKOFF_SECONDS cfg \<and>
    (backoff cfg (n + k) = 2 ^ k * backoff cfg n \<or> backoff cfg (n + k) = MAX_BACKOFF_SECONDS cfg)"
proof -
  define x where "x = BASE_BACKOFF_SECONDS cfg * 2 ^ (n - 1)"
  have x: "0 < x" using base by (simp add: x_def)
  have n_eq: "backoff cfg n = min x (MAX_BACKOFF_SECONDS cfg)"
    and k_eq: "backoff cfg (n + k) = min (2 ^ k * x) (MAX_BACKOFF_SECONDS cfg)"
    unfolding backoff_def x_def by (simp, simp only: backoff_double [OF n])
  have le: "x \<le> 2 ^ k * x" using x by simp
  then have "0 < backoff cfg n" "backoff cfg n \<le> backoff cfg (n + k)"
    "backoff cfg (n + k) \<le> MAX_BACKOFF_SECONDS cfg"
    using x top unfolding n_eq k_eq by (auto simp: min_le_iff_disj)
  moreover have "backoff cfg (n + k) = 2 ^ k * backoff cfg n \<or> backoff cfg (n + k) = MAX_BACKOFF_SECONDS cfg"
    using le unfolding n_eq k_eq by (auto simp: min_def)
  ultimately show ?thesis by blast
qed

lemma pending_keys_duplicate:
  assumes "e1 \<in> set es" "e2 \<in> set es" "obx_id e1 \<noteq> obx_id e2" "obx_status e1 = ''pending''" "obx_status e2 = ''pending''"
    and "obx_topic e1 = obx_topic e2" "obx_aggregate_id e1 = obx_aggregate_id e2"
  shows "\<not> distinct (pending_keys es)"
proof
  assume "distinct (pending_keys es)"
  then have "inj_on (\<lambda>e. (obx_topic e, obx_aggregate_id e)) (set (filter (\<lambda>e. obx_status e = ''pending'') es))"
    by (simp add: pending_keys_def distinct_map)
  then have "e1 = e2" by (rule inj_onD) (use assms in auto)
  with assms(3) show False by simp
qed

text \<open>
  C14: a worker that dies holding an event can stop the whole queue. If, while the event was claimed,
  another one was queued for the same topic and aggregate, then once the claim is stale every round
  of every worker raises on the unique index before it delivers anything: nothing is sent and the
  database stays as it is.
\<close>

theorem stranded_duplicate_stops_the_queue:
  assumes ok: "outbox_ok cfg s"
    and old: "get_event s i = Some e" "is_stale (now - CLAIM_TIMEOUT_SECONDS cfg) e"
    and new: "get_event s j = Some f" "waiting (obx_topic e) (obx_aggregate_id e) f"
  shows "\<exists>w'. run_once (HANDLERS cfg net) cfg now clock worker limit (open_world s) =
      (Inl (IntegrityError ''uq_outbox_pending_per_aggregate''), w') \<and> committed w' = s \<and> effects w' = []"
proof -
  define stale where "stale = map obx_id (filter (is_stale (now - CLAIM_TIMEOUT_SECONDS cfg)) (outbox_events s))"
  define w1 where "w1 = (open_world s)\<lparr>current := fold (\<lambda>i. on_event i mark_reclaimed) stale s\<rparr>"
  have rows: "rows_ok cfg (next_uid s) (outbox_events s)" using ok by (simp add: outbox_ok_def)
  have in_stale: "k \<in> set stale \<longleftrightarrow> (\<exists>e. get_event s k = Some e \<and> is_stale (now - CLAIM_TIMEOUT_SECONDS cfg) e)" for k
    unfolding stale_def by (rule stale_ids(2) [OF rows])
  have i: "i \<in> set stale" using in_stale old by blast
  have j: "j \<notin> set stale" using in_stale new by (auto simp: is_stale_def waiting_def)
  have look: "get_event (current w1) k =
      (if k \<in> set stale then map_option mark_reclaimed (get_event s k) else get_event s k)" for k
  proof -
    have d: "distinct stale" unfolding stale_def by (rule stale_ids(1) [OF rows])
    show ?thesis unfolding w1_def by (simp add: fold_on_event lookup_update_all [OF mark_id(4) d])
  qed
  have "get_event (current w1) i = Some (mark_reclaimed e)" "get_event (current w1) j = Some f"
    using look i j old(1) new(1) by simp_all
  then have rows1: "mark_reclaimed e \<in> set (outbox_events (current w1))" "f \<in> set (outbox_events (current w1))"
    by (auto dest: lookup_SomeD)
  have "obx_id e = i" "obx_id f = j" using old(1) new(1) by (auto dest: lookup_SomeD)
  with i j have ids: "obx_id (mark_reclaimed e) \<noteq> obx_id f" by auto
  have "\<not> distinct (pending_keys (outbox_events (current w1)))"
    using new(2) by (intro pending_keys_duplicate [OF rows1 ids]) (simp_all add: waiting_def mark_reclaimed_def)
  then have "commit_checked w1 = (Inl (IntegrityError ''uq_outbox_pending_per_aggregate''), w1)"
    by (simp add: commit_checked_def raised_def)
  moreover have "stale \<noteq> []" using i by auto
  ultimately have "reclaim_stale cfg now (open_world s) = (Inl (IntegrityError ''uq_outbox_pending_per_aggregate''), w1)"
    by (simp add: reclaim_stale_def Let_def open_world_def stale_def w1_def)
  then show ?thesis by (auto simp: run_once_def w1_def open_world_def)
qed

lemma send_all_returns:
  "send_all net text chats w = (Inr u, w') \<Longrightarrow> w' = w\<lparr>effects := effects w @ map (Sent text) chats\<rparr>"
proof (induction chats arbitrary: w)
  case (Cons chat chats)
  then show ?case using Cons.IH [of "w\<lparr>effects := effects w @ [Sent text chat]\<rparr>"]
    by (auto split: option.splits)
qed simp

lemma notify_returns:
  "notify net text chats w = (Inr u, w') \<Longrightarrow> w' = w\<lparr>effects := effects w @ map (Sent text) chats\<rparr>"
  by (auto simp: notify_def send_all_returns split: if_splits)

lemma commit_checked_returns: "commit_checked S = (Inr u, S') \<Longrightarrow> S' = commit S"
  by (auto simp: commit_checked_def split: if_splits)

text \<open>The panel a binding is billed on, when suspending it there is still to be done.\<close>

definition enforceable :: "db \<Rightarrow> binding \<Rightarrow> panel option" where
  "enforceable s b = (case get_panel s (bnd_panel_id b) of
     None \<Rightarrow> None
   | Some p \<Rightarrow> if pan_status p = ''active'' \<and> bnd_status b = ''active'' then Some p else None)"

lemma handle_billing_hold_returns:
  assumes "handle_billing_hold cfg net event w = (Inr u, w1)" and b: "get_binding (current w) (obx_aggregate_id event) = Some b"
  shows "committed w1 = current w1 \<and>
    (case enforceable (current w) b of
       None \<Rightarrow> current w1 = current w \<and> effects w1 = effects w @
         map (Sent (HoldNotice (field_int ''amount_irr'' (obx_payload event)))) (audience (current w) (bnd_organization_id b))
     | Some p \<Rightarrow> pan_vendor p \<in> set SUPPORTED_VENDORS \<and> current w1 = suspend_binding (bnd_id b) (current w) \<and>
         effects w1 = effects w @ [Limited (pan_id p) (bnd_pg_admin_id b) (HOLD_LIMIT_BYTES cfg)] @
           map (Sent (HoldNotice (field_int ''amount_irr'' (obx_payload event)))) (audience (current w) (bnd_organization_id b)))"
proof -
  have aud: "audience (suspend_binding i s) = audience s" for i s
    by (intro ext) (simp add: audience_def suspend_binding_def)
  show ?thesis
  proof (cases "enforceable (current w) b")
    case None
    then have "(case get_panel (current w) (bnd_panel_id b) of
         None \<Rightarrow> returned () w
       | Some p \<Rightarrow> if pan_status p = ''active'' \<and> bnd_status b = ''active'' then limit_panel cfg net p b w
                  else returned () w) = returned () w"
      by (auto simp: enforceable_def split: option.splits if_splits)
    with assms None show ?thesis
      by (auto simp: handle_billing_hold_def bindr_require_some commit_def elim!: bindr_InrE
          dest!: notify_returns commit_checked_returns)
  next
    case (Some p)
    then have "(case get_panel (current w) (bnd_panel_id b) of
         None \<Rightarrow> returned () w
       | Some p \<Rightarrow> if pan_status p = ''active'' \<and> bnd_status b = ''active'' then limit_panel cfg net p b w
                  else returned () w) = limit_panel cfg net p b w"
      by (auto simp: enforceable_def split: option.splits if_splits)
    with assms Some aud show ?thesis
      by (auto simp: handle_billing_hold_def bindr_require_some commit_def limit_panel_def assert_vendor_def
          bindr_require elim!: bindr_InrE dest!: notify_returns commit_checked_returns split: if_splits option.splits)
  qed
qed

definition is_limit :: "effect \<Rightarrow> bool" where
  "is_limit x \<longleftrightarrow> (case x of Limited _ _ _ \<Rightarrow> True | Sent _ _ \<Rightarrow> False)"

lemma no_limit_in_notices [simp]: "filter is_limit (map (Sent text) chats) = []"
  by (induction chats) (simp_all add: is_limit_def)

text \<open>
  C15: a billing hold is enforced once and told to everybody concerned. A handler that returns for an
  existing binding has told every active member of the organization; if the binding and its panel
  were active it has also cut the panel admin off and suspended the binding, and otherwise changed
  nothing. When the event is delivered again, the panel is not touched a second time.
\<close>

theorem hold_is_enforced_once:
  assumes "handle_billing_hold cfg net event w = (Inr u, w1)"
    and b: "get_binding (current w) (obx_aggregate_id event) = Some b"
  shows "committed w1 = current w1 \<and>
    current w1 = (if enforceable (current w) b = None then current w else suspend_binding (bnd_id b) (current w)) \<and>
    effects w1 = effects w @
      (case enforceable (current w) b of None \<Rightarrow> []
       | Some p \<Rightarrow> [Limited (pan_id p) (bnd_pg_admin_id b) (HOLD_LIMIT_BYTES cfg)]) @
      map (Sent (HoldNotice (field_int ''amount_irr'' (obx_payload event))))
        (audience (current w) (bnd_organization_id b)) \<and>
    (\<forall>w2. handle_billing_hold cfg net event w1 = (Inr (), w2) \<longrightarrow>
       filter is_limit (effects w2) = filter is_limit (effects w1))"
proof -
  note first = handle_billing_hold_returns [OF assms]
  have id: "bnd_id b = obx_aggregate_id event" using b by (auto dest: lookup_SomeD)
  have "\<exists>b'. get_binding (current w1) (obx_aggregate_id event) = Some b' \<and> enforceable (current w1) b' = None"
  proof (cases "enforceable (current w) b")
    case None
    with first b show ?thesis by simp
  next
    case (Some p)
    with first have "current w1 = suspend_binding (bnd_id b) (current w)" by simp
    with b id show ?thesis
      by (auto simp: suspend_binding_def lookup_modify enforceable_def split: option.split)
  qed
  then obtain b' where b': "get_binding (current w1) (obx_aggregate_id event) = Some b'"
    "enforceable (current w1) b' = None" by blast
  have "filter is_limit (effects w2) = filter is_limit (effects w1)"
    if "handle_billing_hold cfg net event w1 = (Inr (), w2)" for w2
    using handle_billing_hold_returns [OF that b'(1)] b'(2) by simp
  with first show ?thesis by (cases "enforceable (current w) b") auto
qed

text \<open>
  the event \<open>panel_order.approved\<close> that the approval of an order queues is never delivered: no
  handler is registered for it, so every delivery sends nothing and counts as a failure, until the
  event is dead.
\<close>

theorem approved_order_event_is_never_delivered:
  assumes e: "get_event (current w) i = Some e" and topic: "obx_topic e = ''panel_order.approved''"
    and run: "deliver (HANDLERS cfg net) cfg now i st w = (Inr st', w')"
  shows "effects w' = effects w \<and> st_done st' = st_done st \<and>
    (\<exists>e'. get_event (current w') i = Some e' \<and> obx_attempts e' = obx_attempts e + 1 \<and>
      obx_status e' = (if obx_attempts e' \<ge> MAX_ATTEMPTS cfg then ''dead'' else ''pending''))"
proof -
  define f where "f = mark_failed cfg now ''no handler for topic panel_order.approved''"
  define w1 where "w1 = w\<lparr>current := on_event i f (current w)\<rparr>"
  have "HANDLERS cfg net ''panel_order.approved'' = None" by (simp add: HANDLERS_def)
  with run e topic have "bindr (retry cfg now i ''no handler for topic panel_order.approved'' w)
      (\<lambda>status. returned (count_fallback status (st\<lparr>st_claimed := st_claimed st + 1\<rparr>))) = (Inr st', w')"
    by (simp add: deliver_def Let_def)
  then have "w' = commit w1" "st_done st' = st_done st"
    by (auto simp: retry_def Let_def w1_def f_def count_fallback_def elim!: bindr_InrE dest!: commit_checked_returns
        split: if_splits)
  moreover have "get_event (current (commit w1)) i = Some (f e)"
    using e by (simp add: commit_def w1_def lookup_modify f_def)
  moreover have "obx_attempts (f e) = obx_attempts e + 1" by (simp add: f_def mark_failed_def Let_def)
  ultimately show ?thesis by (simp add: commit_def w1_def f_def)
qed

section \<open>Witnesses\<close>

definition sample_cfg :: outbox_config where
  "sample_cfg = \<lparr>MAX_ATTEMPTS = 8, BASE_BACKOFF_SECONDS = 15, MAX_BACKOFF_SECONDS = 900,
     HOLD_LIMIT_BYTES = 1, CLAIM_TIMEOUT_SECONDS = 300, ROOT_TELEGRAM_ID = Some 7\<rparr>"

definition sample_net :: outside where
  "sample_net = \<lparr>token_configured = True, send_message = (\<lambda>_ _. None), modify_admin = (\<lambda>_ _ _. None)\<rparr>"

definition sample_event :: "uid \<Rightarrow> string \<Rightarrow> string \<Rightarrow> outbox" where
  "sample_event i topic status = \<lparr>obx_id = i, obx_topic = topic, obx_aggregate_id = 4,
     obx_payload = [(''amount_irr'', JInt 70)], obx_status = status, obx_attempts = 0, obx_next_attempt_at = 0,
     obx_claimed_by = (if status = ''claimed'' then Some ''w0'' else None),
     obx_claimed_at = (if status = ''claimed'' then Some 0 else None),
     obx_completed_at = None, obx_last_error = None\<rparr>"

definition sample_queue :: "outbox list \<Rightarrow> db" where
  "sample_queue es = empty_db\<lparr>
     panels := [\<lparr>pan_id = 3, pan_name = ''P'', pan_base_url = ''https://p'', pan_vendor = ''pasarguard'',
       pan_api_key_ref = None, pan_owner_user_ref = None, pan_owner_pass_ref = None,
       pan_usage_coefficient = 1, pan_verify_tls = True, pan_status = ''active'', pan_saleable = True\<rparr>],
     bindings := [\<lparr>bnd_id = 4, bnd_organization_id = 1, bnd_panel_id = 3, bnd_pg_admin_id = 12,
       bnd_username = ''west'', bnd_status = ''active''\<rparr>],
     outbox_events := es, next_uid := 20\<rparr>"

lemmas sample_simps = sample_cfg_def sample_net_def sample_event_def sample_queue_def empty_db_def

lemma outbox_ok_sample:
  "outbox_ok sample_cfg (sample_queue [sample_event 10 ''billing.hold_required'' ''claimed'',
     sample_event 11 ''billing.hold_required'' ''pending''])"
  "outbox_ok sample_cfg (sample_queue [sample_event 10 ''billing.hold_required'' ''pending''])"
  by (simp_all add: outbox_ok_def rows_ok_def event_ok_def pending_keys_def sample_simps)

theorem queue_stays_well_formed_witness:
  "outbox_ok sample_cfg (fold (queue_step sample_cfg)
     [Enqueue 1 ''support.ticket'' 4 [], Round sample_net 2 (\<lambda>_. 3) ''w'' 10]
     (sample_queue [sample_event 10 ''billing.hold_required'' ''pending'']))"
  by (rule queue_stays_well_formed [OF _ outbox_ok_sample(2)]) (simp add: sample_cfg_def)

theorem failures_back_off_witness: "backoff sample_cfg 3 = 60 \<and> 0 < backoff sample_cfg 3"
  using failures_back_off [of sample_cfg 3 0] by (simp add: sample_cfg_def backoff_def)

theorem stranded_duplicate_stops_the_queue_witness:
  "\<exists>w'. run_once (HANDLERS sample_cfg sample_net) sample_cfg 500 (\<lambda>_. 507) ''w'' 10
      (open_world (sample_queue [sample_event 10 ''billing.hold_required'' ''claimed'',
        sample_event 11 ''billing.hold_required'' ''pending''])) =
      (Inl (IntegrityError ''uq_outbox_pending_per_aggregate''), w') \<and> effects w' = []"
  using stranded_duplicate_stops_the_queue [OF outbox_ok_sample(1), of 10
      "sample_event 10 ''billing.hold_required'' ''claimed''" 500 11
      "sample_event 11 ''billing.hold_required'' ''pending''" sample_net "\<lambda>_. 507" "''w''" 10]
  by (auto simp: sample_simps is_stale_def waiting_def)

definition sample_world :: world where
  "sample_world = open_world (sample_queue [sample_event 10 ''billing.hold_required'' ''pending''])"

lemma sample_runs:
  "fst (handle_billing_hold sample_cfg sample_net (sample_event 10 ''billing.hold_required'' ''pending'')
     sample_world) = Inr ()"
  "(case fst (run_once (HANDLERS sample_cfg sample_net) sample_cfg 500 (\<lambda>_. 507) ''w'' 10 sample_world) of
     Inr st \<Rightarrow> st_claimed st = 1 \<and> st_done st = 1 | Inl _ \<Rightarrow> False)"
  "(case fst (deliver (HANDLERS sample_cfg sample_net) sample_cfg 500 10
       \<lparr>st_claimed = 0, st_done = 0, st_retry = 0, st_dead = 0, st_stale = 0\<rparr>
       (open_world (sample_queue [sample_event 10 ''panel_order.approved'' ''claimed'']))) of
     Inr st \<Rightarrow> st_retry st = 1 | Inl _ \<Rightarrow> False)"
  by code_simp+

theorem round_settles_what_it_claims_witness:
  "\<exists>st w'. run_once (HANDLERS sample_cfg sample_net) sample_cfg 500 (\<lambda>_. 507) ''w'' 10 sample_world = (Inr st, w') \<and>
     st_claimed st = 1 \<and> st_claimed st \<le> 10"
proof -
  obtain r w' where run: "run_once (HANDLERS sample_cfg sample_net) sample_cfg 500 (\<lambda>_. 507) ''w'' 10 sample_world = (r, w')"
    by fastforce
  with sample_runs(2) obtain st where st: "r = Inr st" "st_claimed st = 1" by (cases r) auto
  from round_settles_what_it_claims [OF outbox_ok_sample(2) run [unfolded st(1) sample_world_def]]
  have "st_claimed st \<le> 10" by blast
  with run st show ?thesis by blast
qed

theorem hold_is_enforced_once_witness:
  "\<exists>w1. handle_billing_hold sample_cfg sample_net (sample_event 10 ''billing.hold_required'' ''pending'')
       sample_world = (Inr (), w1) \<and> effects w1 = [Limited 3 12 1] \<and> committed w1 = current w1"
proof -
  let ?e = "sample_event 10 ''billing.hold_required'' ''pending''"
  obtain r w1 where run: "handle_billing_hold sample_cfg sample_net ?e sample_world = (r, w1)" by fastforce
  with sample_runs(1) have "r = Inr ()" by simp
  with run have run: "handle_billing_hold sample_cfg sample_net ?e sample_world = (Inr (), w1)" by simp
  obtain b where b: "get_binding (current sample_world) (obx_aggregate_id ?e) = Some b"
    by (simp add: sample_world_def open_world_def sample_simps)
  from hold_is_enforced_once [OF run b] b run show ?thesis
    by (auto simp: sample_world_def open_world_def sample_simps enforceable_def audience_def)
qed

theorem approved_order_event_is_never_delivered_witness:
  "\<exists>st' w'. deliver (HANDLERS sample_cfg sample_net) sample_cfg 500 10
       \<lparr>st_claimed = 0, st_done = 0, st_retry = 0, st_dead = 0, st_stale = 0\<rparr>
       (open_world (sample_queue [sample_event 10 ''panel_order.approved'' ''claimed''])) = (Inr st', w') \<and>
     st_done st' = 0 \<and> effects w' = []"
proof -
  let ?st = "\<lparr>st_claimed = 0, st_done = 0, st_retry = 0, st_dead = 0, st_stale = 0\<rparr>"
  let ?w = "open_world (sample_queue [sample_event 10 ''panel_order.approved'' ''claimed''])"
  obtain r w' where run: "deliver (HANDLERS sample_cfg sample_net) sample_cfg 500 10 ?st ?w = (r, w')" by fastforce
  with sample_runs(3) obtain st' where st': "r = Inr st'" by (cases r) auto
  have e: "get_event (current ?w) 10 = Some (sample_event 10 ''panel_order.approved'' ''claimed'')"
    by (simp add: open_world_def sample_simps)
  from approved_order_event_is_never_delivered [OF e _ run [unfolded st']] run st' show ?thesis
    by (simp add: sample_event_def open_world_def)
qed

end
