(* ===== verification/Pricing.thy ===== *)
theory Pricing
  imports Prelude
begin

text \<open>
  \<open>domain.py\<close>: the price of a usage delta and the cascade of settlements along the chain of
  resellers. \<open>decimal.Decimal\<close> is modelled by the value it denotes, with the rounding its
  default context applies to the result of every operation: 28 significant digits, half to even.
\<close>

section \<open>Decimal arithmetic\<close>

text \<open>The decimal exponent of the leading digit of a positive number.\<close>

function decade :: "rat \<Rightarrow> int" where
  "decade x = (if x \<le> 0 then 0
     else if x \<ge> 10 then 1 + decade (x / 10)
     else if x < 1 then decade (10 * x) - 1 else 0)"
  by pat_completeness auto

lemma decade_up_shrinks: "x \<ge> 10 \<Longrightarrow> nat \<lfloor>x / 10\<rfloor> < nat \<lfloor>x :: rat\<rfloor>"
proof -
  assume "x \<ge> 10"
  then have "\<lfloor>x / 10\<rfloor> < \<lfloor>x\<rfloor>" by linarith
  moreover have "0 \<le> \<lfloor>x / 10\<rfloor>" using \<open>x \<ge> 10\<close> by simp
  ultimately show ?thesis using \<open>x \<ge> 10\<close> by linarith
qed

lemma decade_down_shrinks:
  assumes "0 < x" "10 * x < (1 :: rat)"
  shows "nat \<lfloor>1 / (10 * x)\<rfloor> < nat \<lfloor>1 / x\<rfloor>"
proof -
  define y where "y = 1 / (10 * x)"
  have "y > 1" using assms by (simp add: y_def field_simps)
  moreover have "1 / x = 10 * y" using assms by (simp add: y_def)
  moreover have "\<lfloor>y\<rfloor> < \<lfloor>10 * y\<rfloor>" using \<open>y > 1\<close> by linarith
  moreover have "0 \<le> \<lfloor>y\<rfloor>" using \<open>y > 1\<close> by simp
  ultimately show ?thesis by (simp add: y_def [symmetric])
qed

termination decade
proof (relation "measure (\<lambda>x. if x < 1 then 10 + nat \<lfloor>1 / x\<rfloor> else nat \<lfloor>x\<rfloor>)")
  fix x :: rat
  assume "\<not> x \<le> 0" "x \<ge> 10"
  then show "(x / 10, x) \<in> measure (\<lambda>x. if x < 1 then 10 + nat \<lfloor>1 / x\<rfloor> else nat \<lfloor>x\<rfloor>)"
    using decade_up_shrinks by simp
next
  fix x :: rat
  assume x: "\<not> x \<le> 0" "\<not> x \<ge> 10" "x < 1"
  have "nat \<lfloor>10 * x\<rfloor> < 10" using x by linarith
  then show "(10 * x, x) \<in> measure (\<lambda>x. if x < 1 then 10 + nat \<lfloor>1 / x\<rfloor> else nat \<lfloor>x\<rfloor>)"
    using x decade_down_shrinks [of x] by auto
qed simp

declare decade.simps [simp del]

lemma powi_10_step: "(10 :: rat) powi (1 + e) = 10 * 10 powi e"
  by (simp add: power_int_add)

lemma powi_10_back: "10 * (10 :: rat) powi (e - 1) = 10 powi e"
  by (simp add: power_int_diff)

lemma decade_bounds:
  "0 < x \<Longrightarrow> 10 powi decade x \<le> x \<and> x < 10 powi (decade x + 1)"
proof (induction x rule: decade.induct)
  case (1 x)
  consider "x \<ge> 10" | "x < 1" | "1 \<le> x" "x < 10" by linarith
  then show ?case
  proof cases
    case 1
    then have ih: "10 powi decade (x / 10) \<le> x / 10 \<and> x / 10 < 10 powi (decade (x / 10) + 1)"
      using "1.IH"(1) "1.prems" by simp
    have d: "decade x = 1 + decade (x / 10)"
      using 1 by (subst decade.simps) simp
    have "(10 :: rat) powi (1 + decade (x / 10)) = 10 * 10 powi decade (x / 10)"
      and "(10 :: rat) powi (1 + decade (x / 10) + 1) = 10 * 10 powi (decade (x / 10) + 1)"
      using powi_10_step [of "decade (x / 10)"] powi_10_step [of "decade (x / 10) + 1"]
      by (simp_all add: add.assoc)
    with ih show ?thesis unfolding d by (simp add: field_simps)
  next
    case 2
    then have ih: "10 powi decade (10 * x) \<le> 10 * x \<and> 10 * x < 10 powi (decade (10 * x) + 1)"
      using "1.IH"(2) "1.prems" by simp
    have d: "decade x = decade (10 * x) - 1"
      using 2 "1.prems" by (subst decade.simps) simp
    have "10 * (10 :: rat) powi (decade (10 * x) - 1) = 10 powi decade (10 * x)"
      and "10 * (10 :: rat) powi (decade (10 * x) - 1 + 1) = 10 powi (decade (10 * x) + 1)"
      using powi_10_back [of "decade (10 * x)"] powi_10_back [of "decade (10 * x) + 1"] by simp_all
    with ih show ?thesis unfolding d by linarith
  next
    case 3
    then have "decade x = 0" by (subst decade.simps) simp
    with 3 show ?thesis by simp
  qed
qed

text \<open>Nearest integer, ties to the even one (\<open>ROUND_HALF_EVEN\<close>) or away from zero
  (\<open>ROUND_HALF_UP\<close>, for numbers that are not negative).\<close>

definition round_half_even :: "rat \<Rightarrow> int" where
  "round_half_even q = (let f = \<lfloor>q\<rfloor>; d = q - of_int f in
     if d < 1 / 2 then f else if d > 1 / 2 then f + 1 else if even f then f else f + 1)"

definition round_half_up :: "rat \<Rightarrow> int" where
  "round_half_up q = \<lfloor>q + 1 / 2\<rfloor>"

text \<open>The result of one operation in the default context.\<close>

definition context_round :: "rat \<Rightarrow> rat" where
  "context_round x = (if x = 0 then 0
     else let u = 10 powi (decade x - 27) in of_int (round_half_even (x / u)) * u)"

lemma round_half_even_near: "\<bar>of_int (round_half_even q) - q\<bar> \<le> 1 / 2"
proof -
  have "of_int \<lfloor>q\<rfloor> \<le> q" "q < of_int \<lfloor>q\<rfloor> + 1" by linarith+
  then show ?thesis by (auto simp: round_half_even_def Let_def abs_le_iff)
qed

lemma round_half_even_of_int [simp]: "round_half_even (of_int n) = n"
  by (simp add: round_half_even_def)

lemma round_half_even_nonneg: "0 \<le> q \<Longrightarrow> 0 \<le> round_half_even q"
  by (simp add: round_half_even_def Let_def)

lemma context_round_error:
  assumes "0 < x"
  shows "\<bar>context_round x - x\<bar> \<le> 10 powi (decade x - 27) / 2"
proof -
  define u :: rat where "u = 10 powi (decade x - 27)"
  have u: "0 < u" by (simp add: u_def)
  have "context_round x - x = (of_int (round_half_even (x / u)) - x / u) * u"
    using assms u by (simp add: context_round_def u_def [symmetric] Let_def field_simps)
  also have "\<bar>\<dots>\<bar> \<le> 1 / 2 * u"
    using round_half_even_near [of "x / u"] u by (simp add: abs_mult mult_right_mono)
  finally show ?thesis by (simp add: u_def)
qed

text \<open>A number written with at most 28 digits is its own rounding.\<close>

lemma decade_less:
  assumes "0 < x" "x < 10 powi k" shows "decade x < k"
proof (rule ccontr)
  assume "\<not> decade x < k"
  then have "(10 :: rat) powi k \<le> 10 powi decade x" by (intro power_int_increasing) auto
  with decade_bounds [OF assms(1)] assms(2) show False by linarith
qed

lemma context_round_exact:
  assumes "0 \<le> n" "n < 10 ^ 28"
  shows "context_round (of_int n * 10 powi e) = of_int n * 10 powi e"
proof (cases "n = 0")
  case True
  then show ?thesis by (simp add: context_round_def)
next
  case False
  define x :: rat where "x = of_int n * 10 powi e"
  have pos: "0 < x" using assms False by (simp add: x_def)
  have "(of_int n :: rat) < of_int (10 ^ 28)" using assms by (simp only: of_int_less_iff)
  then have "x < 10 powi (28 :: int) * 10 powi e" by (simp add: x_def)
  then have "x < 10 powi (28 + e)" by (simp add: power_int_add)
  with pos have le: "decade x - 27 \<le> e" using decade_less [of x "28 + e"] by simp
  define u :: rat where "u = 10 powi (decade x - 27)"
  define j where "j = nat (e - (decade x - 27))"
  have u: "0 < u" by (simp add: u_def)
  have "(10 :: rat) powi e = 10 powi (int j + (decade x - 27))" using le by (simp add: j_def)
  also have "\<dots> = 10 ^ j * u" by (subst power_int_add) (simp_all add: u_def)
  finally have "x = of_int (n * 10 ^ j) * u" by (simp add: x_def)
  then have q: "x / u = of_int (n * 10 ^ j)" using u by simp
  then have "round_half_even (x / u) = n * 10 ^ j" by (simp only: round_half_even_of_int)
  then have "context_round x = of_int (n * 10 ^ j) * u"
    using pos by (simp add: context_round_def Let_def u_def)
  with \<open>x = of_int (n * 10 ^ j) * u\<close> have "context_round x = x" by simp
  then show ?thesis by (simp add: x_def)
qed

text \<open>
  Rounding a quotient with denominator \<open>d\<close> to 28 digits does not move it across a half: the
  quotient is a tie, which is exact, or at least \<open>1 / d\<close> away from one.
\<close>

lemma context_round_keeps_half_up:
  fixes m d :: int
  assumes m: "0 \<le> m" "m < 10 ^ 14 * d" and d: "0 < d" "even d" "d \<le> 10 ^ 14"
  shows "round_half_up (context_round (of_int m / of_int d)) = (m + d div 2) div d"
proof -
  define x :: rat where "x = of_int m / of_int d"
  define k where "k = (m + d div 2) div d"
  define r where "r = (m + d div 2) mod d"
  have kr: "m + d div 2 = k * d + r" "0 \<le> r" "r < d"
    using d(1) by (simp_all add: k_def r_def)
  have D: "(0 :: rat) < of_int d" using d(1) by simp
  have half: "(of_int d :: rat) = 2 * of_int (d div 2)"
    using d(2) by (metis dvd_mult_div_cancel of_int_mult of_int_numeral)
  have "(of_int (m + d div 2) :: rat) = of_int (k * d + r)" using kr(1) by simp
  then have pos: "x + 1 / 2 = of_int k + of_int r / of_int d"
    using D half by (simp add: x_def field_simps)
  have fit: "of_int k \<le> context_round x + 1 / 2 \<and> context_round x + 1 / 2 < of_int k + 1"
  proof (cases "x = 0 \<or> r = 0")
    case True
    then have "context_round x = x"
    proof
      assume "x = 0" then show ?thesis by (simp add: context_round_def)
    next
      assume r0: "r = 0"
      have "k \<le> 10 ^ 14 + 1"
      proof -
        have "k * d \<le> m + d div 2" using kr by simp
        also have "\<dots> < (10 ^ 14 + 1) * d" using m(2) d(1) by (simp add: distrib_right)
        finally show ?thesis using d(1) by (simp add: mult_less_cancel_right)
      qed
      moreover have "0 < k"
      proof (rule ccontr)
        assume "\<not> 0 < k"
        then have "k * d \<le> 0" using d(1) by (simp add: mult_nonpos_nonneg)
        moreover have "0 < d div 2" using d by presburger
        ultimately show False using kr r0 m(1) by simp
      qed
      ultimately have "context_round (of_int (5 * (2 * k - 1)) * 10 powi - 1) =
          of_int (5 * (2 * k - 1)) * 10 powi - 1"
        by (intro context_round_exact) simp_all
      moreover have "of_int (5 * (2 * k - 1)) * 10 powi - 1 = x"
        using pos r0 by (simp add: power_int_minus field_simps)
      ultimately show ?thesis by simp
    qed
    moreover have "of_int r / of_int d < (1 :: rat)" "0 \<le> of_int r / (of_int d :: rat)"
      using kr D by simp_all
    ultimately show ?thesis using pos by (intro conjI) linarith+
  next
    case False
    then have x: "0 < x" using m(1) d(1) by (auto simp: x_def)
    have "(of_int m :: rat) < of_int (10 ^ 14 * d)" using m(2) by (simp only: of_int_less_iff)
    then have "x < 10 powi (14 :: int)" using D by (simp add: x_def field_simps)
    with x have "decade x - 27 \<le> - 14" using decade_less [of x 14] by simp
    then have "(10 :: rat) powi (decade x - 27) \<le> 10 powi (- 14)"
      by (intro power_int_increasing) auto
    with context_round_error [OF x] have "\<bar>context_round x - x\<bar> \<le> 10 powi (- 14) / 2"
      by (meson divide_right_mono order_trans zero_le_numeral)
    moreover have "(of_int d :: rat) \<le> of_int (10 ^ 14)" using d(3) by (simp only: of_int_le_iff)
    then have "10 powi (- 14) \<le> 1 / (of_int d :: rat)"
      using D by (simp add: power_int_minus field_simps)
    ultimately have near: "\<bar>context_round x - x\<bar> \<le> 1 / of_int d / 2"
      by (meson divide_right_mono order_trans zero_le_numeral)
    define g :: rat where "g = 1 / of_int d"
    have "g \<le> of_int r / of_int d" "of_int r / of_int d \<le> 1 - g" "0 < g"
      using False kr D by (simp_all add: g_def field_simps)
    moreover have "context_round x - x \<le> g / 2" "x - context_round x \<le> g / 2"
      using near by (simp_all add: g_def abs_le_iff)
    ultimately show ?thesis using pos by (intro conjI) linarith+
  qed
  then have "\<lfloor>context_round x + 1 / 2\<rfloor> = k" by (intro floor_unique) auto
  then show ?thesis by (simp add: round_half_up_def x_def k_def)
qed

section \<open>The price of a usage delta\<close>

definition GIB :: int where
  "GIB = 1024 ^ 3"

text \<open>
  \<open>quantize(Decimal("1"))\<close> signals \<open>InvalidOperation\<close> when the rounded value does not fit the
  28 digits of the context.
\<close>

definition price_usage :: "int \<Rightarrow> int \<Rightarrow> rat \<Rightarrow> error + int" where
  "price_usage delta_bytes rate_irr coefficient =
    (if delta_bytes < 0 \<or> rate_irr < 0 then Inl (ValueError ''negative usage/rate'')
     else if coefficient < 0 then Inl (ValueError ''negative usage coefficient'')
     else let product = context_round (context_round (of_int delta_bytes * of_int rate_irr) * coefficient);
              amount = round_half_up (context_round (product / of_int GIB))
          in if amount \<ge> 10 ^ 28 then Inl InvalidOperation else Inr amount)"

record settlement =
  child_id :: uid
  parent_id :: uid
  delta_bytes :: int
  rate_irr :: int
  amount_irr :: int

text \<open>One settlement per edge; the first edge that cannot be priced raises.\<close>

fun cascade :: "int \<Rightarrow> (uid \<times> uid \<times> int) list \<Rightarrow> rat \<Rightarrow> error + settlement list" where
  "cascade delta [] coefficient = Inr []"
| "cascade delta ((c, p, r) # edges) coefficient =
    (if delta > 0 then
       (case price_usage delta r coefficient of
          Inl e \<Rightarrow> Inl e
        | Inr amount \<Rightarrow>
           (case cascade delta edges coefficient of
              Inl e \<Rightarrow> Inl e
            | Inr rest \<Rightarrow> Inr (\<lparr>child_id = c, parent_id = p, delta_bytes = delta, rate_irr = r,
                 amount_irr = amount\<rparr> # rest)))
     else cascade delta edges coefficient)"

section \<open>Properties\<close>

text \<open>The price in exact integer arithmetic: a coefficient is a number of ten-thousandths
  (\<open>Numeric(10,4)\<close>), and ties are rounded up.\<close>

definition ideal_price :: "int \<Rightarrow> int \<Rightarrow> int \<Rightarrow> int" where
  "ideal_price delta rate c = (delta * rate * c + GIB * 10 ^ 4 div 2) div (GIB * 10 ^ 4)"

lemma price_product:
  assumes "0 \<le> a" "a < 10 ^ 28" "0 \<le> c" "a * c < 10 ^ 28"
  shows "context_round (context_round (of_int a) * (of_int c / 10 ^ 4)) = of_int (a * c) / 10 ^ 4"
proof -
  have "context_round (of_int a * 10 powi 0) = of_int a * 10 powi 0"
    using assms by (intro context_round_exact) auto
  moreover have "context_round (of_int (a * c) * 10 powi - 4) = of_int (a * c) * 10 powi - 4"
    using assms by (intro context_round_exact) auto
  ultimately show ?thesis by (simp add: power_int_minus field_simps)
qed

lemma ideal_price_bounds:
  assumes "0 \<le> delta" "0 \<le> rate" "0 \<le> c" "delta * rate * c < 10 ^ 14 * (GIB * 10 ^ 4)"
  shows "0 \<le> ideal_price delta rate c \<and> ideal_price delta rate c \<le> 10 ^ 14"
proof -
  define m where "m = delta * rate * c"
  have m: "0 \<le> m" "m < 10 ^ 14 * (GIB * 10 ^ 4)" using assms by (simp_all add: m_def)
  have "0 \<le> (m + GIB * 10 ^ 4 div 2) div (GIB * 10 ^ 4)"
    using m(1) by (intro div_int_pos_iff [THEN iffD2]) (simp add: GIB_def)
  moreover have "(m + GIB * 10 ^ 4 div 2) div (GIB * 10 ^ 4) \<le> 10 ^ 14"
  proof -
    have "m + GIB * 10 ^ 4 div 2 \<le> 10 ^ 14 * (GIB * 10 ^ 4) + (GIB * 10 ^ 4 - 1)"
      using m(2) by (simp add: GIB_def)
    then have "(m + GIB * 10 ^ 4 div 2) div (GIB * 10 ^ 4) \<le>
        (10 ^ 14 * (GIB * 10 ^ 4) + (GIB * 10 ^ 4 - 1)) div (GIB * 10 ^ 4)"
      by (intro zdiv_mono1) (simp_all add: GIB_def)
    also have "\<dots> = 10 ^ 14" by (simp add: GIB_def)
    finally show ?thesis .
  qed
  ultimately show ?thesis by (simp add: ideal_price_def m_def)
qed

lemma price_usage_ideal:
  assumes "0 \<le> delta" "0 \<le> rate" "0 < c"
    and bound: "delta * rate * c < 10 ^ 14 * (GIB * 10 ^ 4)"
  shows "price_usage delta rate (of_int c / 10 ^ 4) = Inr (ideal_price delta rate c)"
proof -
  define a where "a = delta * rate"
  have a: "0 \<le> a" using assms by (simp add: a_def)
  have ac: "a * c < 10 ^ 28" using bound by (simp add: a_def GIB_def)
  have "a * 1 \<le> a * c" using a assms(3) by (intro mult_left_mono) auto
  with ac have "a < 10 ^ 28" by simp
  define p where "p = context_round (context_round (of_int delta * of_int rate) * (of_int c / 10 ^ 4))"
  have prod: "p = of_int (a * c) / 10 ^ 4"
    using price_product [of a c] a ac \<open>a < 10 ^ 28\<close> assms(3) by (simp only: p_def a_def of_int_mult)
  have "0 \<le> a * c" using a assms(3) by simp
  moreover have "a * c < 10 ^ 14 * (GIB * 10 ^ 4)" using bound by (simp add: a_def)
  ultimately have "round_half_up (context_round (of_int (a * c) / of_int (GIB * 10 ^ 4))) =
      (a * c + GIB * 10 ^ 4 div 2) div (GIB * 10 ^ 4)"
    by (intro context_round_keeps_half_up) (simp_all add: GIB_def)
  moreover have "of_int (a * c) / of_int (GIB * 10 ^ 4) = p / of_int GIB"
    by (simp add: prod mult.commute)
  ultimately have amount: "round_half_up (context_round (p / of_int GIB)) = ideal_price delta rate c"
    by (simp only: ideal_price_def a_def)
  have "price_usage delta rate (of_int c / 10 ^ 4) =
      (if round_half_up (context_round (p / of_int GIB)) \<ge> 10 ^ 28 then Inl InvalidOperation
       else Inr (round_half_up (context_round (p / of_int GIB))))"
    using assms(1-3) by (auto simp: price_usage_def p_def Let_def)
  moreover have "ideal_price delta rate c < 10 ^ 28"
    using ideal_price_bounds [of delta rate c] assms by simp
  ultimately show ?thesis by (simp only: amount) simp
qed

text \<open>C1: for every delta and rate that are not negative and every positive coefficient with four
  decimals, and amounts up to 10^14 rials, the chain of rounded decimal operations gives exactly
  the product of the three divided by one GiB, rounded to the nearest rial with ties up.\<close>

theorem price_usage_exact:
  assumes "0 \<le> delta" "0 \<le> rate" "0 < c"
    and "delta * rate * c < 10 ^ 14 * (GIB * 10 ^ 4)"
  shows "price_usage delta rate (of_int c / 10 ^ 4) =
    Inr ((delta * rate * c + GIB * 10 ^ 4 div 2) div (GIB * 10 ^ 4))"
  using price_usage_ideal [OF assms] by (simp add: ideal_price_def)

theorem price_usage_exact_witness:
  "price_usage (3 * 1024 ^ 3 div 2) 25001 (of_int 10000 / 10 ^ 4) = Inr 37502"
  using price_usage_exact [of "3 * 1024 ^ 3 div 2" 25001 10000] by (simp add: GIB_def)

lemma cascade_zero: "delta \<le> 0 \<Longrightarrow> cascade delta es coefficient = Inr []"
  by (induction es) auto

lemma cascade_cong:
  assumes "delta > 0" and "\<And>c p r. (c, p, r) \<in> set es \<Longrightarrow> price_usage delta r coefficient = Inr (f r)"
  shows "cascade delta es coefficient =
    Inr (map (\<lambda>(c, p, r). \<lparr>child_id = c, parent_id = p, delta_bytes = delta, rate_irr = r,
                           amount_irr = f r\<rparr>) es)"
  using assms(2)
proof (induction es)
  case Nil
  then show ?case by simp
next
  case (Cons x es)
  obtain c p r where x: "x = (c, p, r)" by (cases x)
  have "price_usage delta r coefficient = Inr (f r)"
    using Cons.prems [of c p r] x by simp
  moreover have "cascade delta es coefficient =
      Inr (map (\<lambda>(c, p, r). \<lparr>child_id = c, parent_id = p, delta_bytes = delta, rate_irr = r,
                           amount_irr = f r\<rparr>) es)"
    using Cons.prems by (intro Cons.IH) auto
  ultimately show ?case using assms(1) x by simp
qed

lemma cascade_length:
  "cascade delta es coefficient = Inr rows \<Longrightarrow> delta > 0 \<Longrightarrow>
    map (\<lambda>x. (child_id x, parent_id x, rate_irr x)) rows = es"
  by (induction delta es coefficient arbitrary: rows rule: cascade.induct)
     (auto split: sum.splits)

lemma cascade_amounts:
  "cascade delta es coefficient = Inr rows \<Longrightarrow> x \<in> set rows \<Longrightarrow>
    delta_bytes x = delta \<and> price_usage delta (rate_irr x) coefficient = Inr (amount_irr x)"
  by (induction delta es coefficient arbitrary: rows rule: cascade.induct)
     (auto split: sum.splits if_splits)

text \<open>C2: within the same bounds a positive delta settles every edge of the chain once, in order,
  each for the exact price at that edge's own rate.\<close>

theorem cascade_settles_every_edge:
  assumes "0 < delta" "0 < c"
    and "\<And>a b r. (a, b, r) \<in> set es \<Longrightarrow> 0 \<le> r \<and> delta * r * c < 10 ^ 14 * (GIB * 10 ^ 4)"
  shows "cascade delta es (of_int c / 10 ^ 4) =
    Inr (map (\<lambda>(a, b, r). \<lparr>child_id = a, parent_id = b, delta_bytes = delta, rate_irr = r,
                           amount_irr = ideal_price delta r c\<rparr>) es)"
proof (rule cascade_cong)
  fix a b r assume "(a, b, r) \<in> set es"
  then show "price_usage delta r (of_int c / 10 ^ 4) = Inr (ideal_price delta r c)"
    using assms by (intro price_usage_ideal) auto
qed (rule assms(1))

theorem cascade_settles_every_edge_witness:
  "cascade (2 * 1024 ^ 3) [(3, 2, 30000), (2, 1, 20000)] (of_int 15000 / 10 ^ 4) =
    Inr [\<lparr>child_id = 3, parent_id = 2, delta_bytes = 2 * 1024 ^ 3, rate_irr = 30000, amount_irr = 90000\<rparr>,
         \<lparr>child_id = 2, parent_id = 1, delta_bytes = 2 * 1024 ^ 3, rate_irr = 20000, amount_irr = 60000\<rparr>]"
proof -
  have "0 \<le> r \<and> 2 * 1024 ^ 3 * r * 15000 < 10 ^ 14 * (GIB * 10 ^ 4)"
    if "(a, b, r) \<in> set [(3, 2, 30000), (2, 1, 20000)]" for a b :: uid and r
    using that by (auto simp: GIB_def)
  with cascade_settles_every_edge [of "2 * 1024 ^ 3" 15000 "[(3, 2, 30000), (2, 1, 20000)]"]
  show ?thesis by (simp add: GIB_def ideal_price_def del: cascade.simps)
qed

end
