(* ===== verification/Usage.thy ===== *)
theory Usage
  imports Hierarchy Outbox Pricing
begin

text \<open>
  Metering: \<open>observe\<close> of \<open>app.py\<close> turns a reading of a panel's byte counter into settlements up the
  tree, the two usage routes of \<open>api.py\<close> and the poller of \<open>worker.py\<close> call it. The panel API that the
  poller asks is a parameter.
\<close>

section \<open>Operations\<close>

record usage_in =
  ui_binding_id :: uid
  ui_lifetime_bytes :: int
  ui_observed_at :: int

definition record_hold :: "int \<Rightarrow> uid \<Rightarrow> uid \<Rightarrow> int \<Rightarrow> db \<Rightarrow> outbox option \<times> db" where
  "record_hold now binding_id organization_id amount s =
     enqueue now ''billing.hold_required'' binding_id
       [(''organization_id'', JUid organization_id), (''amount_irr'', JInt amount)] s"

abbreviation get_checkpoint :: "db \<Rightarrow> uid \<Rightarrow> checkpoint option" where
  "get_checkpoint s i \<equiv> lookup chk_binding_id i (checkpoints s)"

definition add_usage :: "usage_in \<Rightarrow> int \<Rightarrow> string \<Rightarrow> db \<Rightarrow> db" where
  "add_usage d delta status s = s\<lparr>usages := usages s @
     [\<lparr>use_binding_id = ui_binding_id d, use_lifetime_bytes = ui_lifetime_bytes d, use_delta_bytes = delta,
       use_status = status, use_observed_at = ui_observed_at d\<rparr>]\<rparr>"

definition add_checkpoint :: "usage_in \<Rightarrow> db \<Rightarrow> db" where
  "add_checkpoint d s = s\<lparr>checkpoints := checkpoints s @
     [\<lparr>chk_binding_id = ui_binding_id d, chk_lifetime_bytes = ui_lifetime_bytes d,
       chk_observed_at = ui_observed_at d, chk_anomaly_count = 0\<rparr>]\<rparr>"

definition move_checkpoint :: "usage_in \<Rightarrow> db \<Rightarrow> db" where
  "move_checkpoint d s = s\<lparr>checkpoints := modify chk_binding_id (ui_binding_id d)
     (\<lambda>cp. cp\<lparr>chk_lifetime_bytes := ui_lifetime_bytes d, chk_observed_at := ui_observed_at d,
              chk_anomaly_count := 0\<rparr>) (checkpoints s)\<rparr>"

definition count_anomaly :: "uid \<Rightarrow> db \<Rightarrow> db" where
  "count_anomaly i s = s\<lparr>checkpoints := modify chk_binding_id i
     (\<lambda>cp. cp\<lparr>chk_anomaly_count := chk_anomaly_count cp + 1\<rparr>) (checkpoints s)\<rparr>"

definition usage_key :: "uid \<Rightarrow> int \<Rightarrow> int \<Rightarrow> uid \<Rightarrow> string" where
  "usage_key b start reading child =
     ''usage:'' @ dec b @ '':'' @ pystr start @ '':'' @ pystr reading @ '':'' @ dec child"

text \<open>
  The \<open>try\<close> around the transfers: the refusal of a payer becomes a \<open>BillingHold\<close> with the amount
  settled so far; what was transferred before it stays in the session.
\<close>

fun settle_edges ::
  "int \<Rightarrow> binding \<Rightarrow> int \<Rightarrow> int \<Rightarrow> settlement list \<Rightarrow> int \<Rightarrow> db \<Rightarrow> (unit, db) res" where
  "settle_edges now b start reading [] pending s = returned () s"
| "settle_edges now b start reading (x # xs) pending s =
    (case transfer now (Org (child_id x)) (Org (parent_id x)) (amount_irr x)
        (usage_key (bnd_id b) start reading (child_id x)) ''usage'' (dec (bnd_id b)) True None s of
       (Inr _, s') \<Rightarrow> settle_edges now b start reading xs (pending + amount_irr x) s'
     | (Inl e, s') \<Rightarrow>
         raised (if e = ValueError ''insufficient credit'' then BillingHold (bnd_id b) (bnd_organization_id b) pending
           else e) s')"

definition coefficient_of :: "db \<Rightarrow> uid \<Rightarrow> rat" where
  "coefficient_of s i = (case get_panel s i of
     None \<Rightarrow> 1
   | Some p \<Rightarrow> if pan_usage_coefficient p = 0 then 1 else pan_usage_coefficient p)"

definition usage_rows :: "db \<Rightarrow> binding \<Rightarrow> int \<Rightarrow> error + settlement list" where
  "usage_rows s b delta = (case edges s (bnd_organization_id b) of
     Inl e \<Rightarrow> Inl e
   | Inr es \<Rightarrow> cascade delta es (coefficient_of s (bnd_panel_id b)))"

definition observe :: "nat \<Rightarrow> int \<Rightarrow> usage_in \<Rightarrow> db \<Rightarrow> (settlement list, db) res" where
  "observe reset_confirm_readings now d s =
    bindr (require_some (get_binding s (ui_binding_id d)) (ValueError ''binding not found'') s) (\<lambda>b s.
    case get_checkpoint s (bnd_id b) of
      None \<Rightarrow> returned [] (add_usage d 0 ''baseline'' (add_checkpoint d s))
    | Some cp \<Rightarrow>
        if ui_lifetime_bytes d < chk_lifetime_bytes cp then
          (let s1 = add_usage d 0 ''regression'' (count_anomaly (bnd_id b) s) in
           if chk_anomaly_count cp + 1 \<ge> reset_confirm_readings then
             returned [] (snd (enqueue now ''usage.reset_detected'' (bnd_id b)
               [(''organization_id'', JUid (bnd_organization_id b)), (''lifetime_bytes'', JInt (ui_lifetime_bytes d))]
               (add_usage d 0 ''reset_baseline'' (move_checkpoint d s1))))
           else returned [] s1)
        else
          (let delta = ui_lifetime_bytes d - chk_lifetime_bytes cp in
           case usage_rows s b delta of
             Inl e \<Rightarrow> raised e s
           | Inr rows \<Rightarrow>
               bindr (settle_edges now b (chk_lifetime_bytes cp) (ui_lifetime_bytes d) rows 0 s) (\<lambda>_ s.
                 returned rows (add_usage d delta ''accepted'' (move_checkpoint d s)))))"

text \<open>\<open>POST /v1/internal/usage\<close>: a hold is recorded after a rollback, and answered with status 402.\<close>

definition hold_text :: string where
  "hold_text = ''insufficient credit; billing hold required''"

definition usage_route :: "nat \<Rightarrow> int \<Rightarrow> usage_in \<Rightarrow> session \<Rightarrow> (settlement list, session) res" where
  "usage_route reset_confirm_readings now d S =
    (case bindr (in_session (observe reset_confirm_readings now d) S)
        (\<lambda>rows S. bindr (commit_checked S) (\<lambda>_. returned rows)) of
       (Inr rows, S) \<Rightarrow> returned rows S
     | (Inl (BillingHold b w amount), S) \<Rightarrow>
         (let S1 = rollback S;
              S2 = S1\<lparr>current := snd (record_hold now b w amount (current S1))\<rparr>
          in bindr (commit_checked S2) (\<lambda>_. raised (HTTPException 402 hold_text)))
     | (Inl (ValueError text), S) \<Rightarrow> raised (HTTPException 409 text) (rollback S)
     | (Inl e, S) \<Rightarrow> raised e S)"

definition usage_api :: "nat \<Rightarrow> int \<Rightarrow> usage_in \<Rightarrow> db \<Rightarrow> (settlement list, db) res" where
  "usage_api reset_confirm_readings now d = request (usage_route reset_confirm_readings now d)"

text \<open>
  \<open>POST /v1/internal/usage/batch\<close> observes all items in one transaction, without a rollback between
  them. The session does not flush by itself (\<open>autoflush=False\<close>): rows added since the last flush,
  which every transfer that reaches its accounts does, are invisible to later queries. \<open>flushed\<close> is
  the database as queries see it; an item that adds a row because it could not see an unflushed
  equal one makes the next flush fail.
\<close>

definition resets :: "nat \<Rightarrow> checkpoint \<Rightarrow> usage_in \<Rightarrow> bool" where
  "resets reset_confirm_readings cp d \<longleftrightarrow> ui_lifetime_bytes d < chk_lifetime_bytes cp \<and>
     chk_anomaly_count cp + 1 \<ge> reset_confirm_readings"

definition unflushed_clash :: "nat \<Rightarrow> db \<Rightarrow> db \<Rightarrow> usage_in \<Rightarrow> bool" where
  "unflushed_clash reset_confirm_readings flushed s d = (case get_checkpoint s (ui_binding_id d) of
     None \<Rightarrow> False
   | Some cp \<Rightarrow> get_checkpoint flushed (ui_binding_id d) = None \<or>
       resets reset_confirm_readings cp d \<and>
       has (waiting ''usage.reset_detected'' (ui_binding_id d)) (outbox_events s) \<and>
       \<not> has (waiting ''usage.reset_detected'' (ui_binding_id d)) (outbox_events flushed))"

record batch =
  ba_db :: db
  ba_flushed :: db
  ba_results :: "(uid \<times> settlement list) list"
  ba_holds :: "(uid \<times> uid) list"

definition batch_item :: "nat \<Rightarrow> int \<Rightarrow> usage_in \<Rightarrow> batch \<Rightarrow> (unit, batch) res" where
  "batch_item reset_confirm_readings now d B =
    (let s = ba_db B in
     if get_binding s (ui_binding_id d) = None then raised (ValueError ''binding not found'') B
     else if unflushed_clash reset_confirm_readings (ba_flushed B) s d
     then raised (IntegrityError ''duplicate key'') B
     else case observe reset_confirm_readings now d s of
       (Inr rows, s1) \<Rightarrow> returned () (B\<lparr>ba_db := s1,
          ba_flushed := (if transactions s1 = transactions s then ba_flushed B else s1),
          ba_results := ba_results B @ [(ui_binding_id d, rows)]\<rparr>)
     | (Inl (BillingHold b w amount), s1) \<Rightarrow> returned () (B\<lparr>ba_db := snd (record_hold now b w amount s1),
          ba_flushed := s1, ba_holds := ba_holds B @ [(b, w)]\<rparr>)
     | (Inl e, s1) \<Rightarrow> raised e (B\<lparr>ba_db := s1\<rparr>))"

fun batch_items :: "nat \<Rightarrow> int \<Rightarrow> usage_in list \<Rightarrow> batch \<Rightarrow> (unit, batch) res" where
  "batch_items reset_confirm_readings now [] B = returned () B"
| "batch_items reset_confirm_readings now (d # ds) B =
     bindr (batch_item reset_confirm_readings now d B) (\<lambda>_. batch_items reset_confirm_readings now ds)"

definition usage_batch :: "nat \<Rightarrow> int \<Rightarrow> usage_in list \<Rightarrow> db \<Rightarrow>
    ((uid \<times> settlement list) list \<times> (uid \<times> uid) list, db) res" where
  "usage_batch reset_confirm_readings now observations s =
    (case batch_items reset_confirm_readings now observations
        \<lparr>ba_db = s, ba_flushed = s, ba_results = [], ba_holds = []\<rparr> of
       (Inl e, B) \<Rightarrow> raised e s
     | (Inr _, B) \<Rightarrow>
         request (\<lambda>S. bindr (commit_checked (S\<lparr>current := ba_db B\<rparr>)) (\<lambda>_.
           if ba_holds B \<noteq> [] \<and> ba_results B = [] then raised (HTTPException 402 ''billing hold recorded'')
           else returned (ba_results B, ba_holds B))) s)"

text \<open>
  One pass of the poller. The panel's answer is the list of its admins with their counters; no
  answer (the client raised) skips the panel. A negative counter is refused by the validation of
  \<open>UsageIn\<close>. Only a failure to record a hold escapes the loop.
\<close>

definition poll_binding ::
  "nat \<Rightarrow> int \<Rightarrow> (int \<times> int option) list \<Rightarrow> binding \<Rightarrow> session \<Rightarrow> (unit, session) res" where
  "poll_binding reset_confirm_readings now admins b S =
    (case lookup fst (bnd_pg_admin_id b) (rev admins) of
       Some (_, Some n) \<Rightarrow>
         if n < 0 then returned () (rollback S)
         else (case bindr (in_session (observe reset_confirm_readings now
                  \<lparr>ui_binding_id = bnd_id b, ui_lifetime_bytes = n, ui_observed_at = now\<rparr>) S)
                (\<lambda>_. commit_checked) of
             (Inr _, S1) \<Rightarrow> returned () S1
           | (Inl (BillingHold i w amount), S1) \<Rightarrow>
               (let S2 = rollback S1
                in commit_checked (S2\<lparr>current := snd (record_hold now i w 0 (current S2))\<rparr>))
           | (Inl e, S1) \<Rightarrow> returned () (rollback S1))
     | _ \<Rightarrow> returned () S)"

fun poll_bindings ::
  "nat \<Rightarrow> int \<Rightarrow> (int \<times> int option) list \<Rightarrow> binding list \<Rightarrow> session \<Rightarrow> (unit, session) res" where
  "poll_bindings reset_confirm_readings now admins [] S = returned () S"
| "poll_bindings reset_confirm_readings now admins (b # bs) S =
     bindr (poll_binding reset_confirm_readings now admins b S)
       (\<lambda>_. poll_bindings reset_confirm_readings now admins bs)"

fun poll_panels ::
  "nat \<Rightarrow> int \<Rightarrow> (panel \<Rightarrow> (int \<times> int option) list option) \<Rightarrow> binding list \<Rightarrow> uid list \<Rightarrow> session \<Rightarrow>
    (unit, session) res" where
  "poll_panels reset_confirm_readings now fetch bs [] S = returned () S"
| "poll_panels reset_confirm_readings now fetch bs (i # rest) S =
     bindr (case get_panel (current S) i of
         None \<Rightarrow> returned () S
       | Some p \<Rightarrow>
           if pan_status p \<noteq> ''active'' then returned () S
           else (case fetch p of
               None \<Rightarrow> returned () S
             | Some admins \<Rightarrow> poll_bindings reset_confirm_readings now admins
                 (filter (\<lambda>b. bnd_panel_id b = i) bs) S))
       (\<lambda>_. poll_panels reset_confirm_readings now fetch bs rest)"

definition poll ::
  "nat \<Rightarrow> int \<Rightarrow> (panel \<Rightarrow> (int \<times> int option) list option) \<Rightarrow> db \<Rightarrow> (unit, db) res" where
  "poll reset_confirm_readings now fetch = request (\<lambda>S.
    let bs = filter (\<lambda>b. bnd_status b = ''active'') (bindings (current S))
    in poll_panels reset_confirm_readings now fetch bs (rev (remdups (rev (map bnd_panel_id bs)))) S)"

section \<open>The meter\<close>

text \<open>
  What a checkpoint stands for: the log of readings of its binding, replayed. A baseline sets the
  counter, an accepted reading moves it, a regression only counts.
\<close>

fun meter :: "usage list \<Rightarrow> (int \<times> nat) option \<Rightarrow> (int \<times> nat) option" where
  "meter [] m = m"
| "meter (u # us) m = meter us
    (if use_status u = ''regression'' then map_option (\<lambda>(l, n). (l, n + 1)) m
     else Some (use_lifetime_bytes u, 0))"

definition readings :: "db \<Rightarrow> uid \<Rightarrow> usage list" where
  "readings s i = filter (\<lambda>u. use_binding_id u = i) (usages s)"

definition checkpoint_of :: "db \<Rightarrow> uid \<Rightarrow> (int \<times> nat) option" where
  "checkpoint_of s i = map_option (\<lambda>cp. (chk_lifetime_bytes cp, chk_anomaly_count cp)) (get_checkpoint s i)"

text \<open>
  The bytes billed since the last baseline: the accepted deltas after it.
\<close>

fun billed :: "usage list \<Rightarrow> int \<Rightarrow> int" where
  "billed [] n = n"
| "billed (u # us) n = billed us
    (if use_status u = ''accepted'' then n + use_delta_bytes u
     else if use_status u = ''regression'' then n else 0)"

fun base :: "usage list \<Rightarrow> int \<Rightarrow> int" where
  "base [] n = n"
| "base (u # us) n = base us
    (if use_status u \<in> {''accepted'', ''regression''} then n else use_lifetime_bytes u)"

definition log_ok :: "nat \<Rightarrow> usage list \<Rightarrow> (int \<times> nat) option \<Rightarrow> bool" where
  "log_ok R us cp \<longleftrightarrow> meter us None = cp \<and>
     (\<forall>l n. cp = Some (l, n) \<longrightarrow> l = base us 0 + billed us 0 \<and> n < max 1 R)"

definition metered :: "nat \<Rightarrow> db \<Rightarrow> bool" where
  "metered R s \<longleftrightarrow> (\<forall>i. log_ok R (readings s i) (checkpoint_of s i)) \<and>
     (\<forall>u \<in> set (usages s). 0 \<le> use_delta_bytes u)"

lemma checkpoint_log:
  assumes "metered R s" and "get_checkpoint s i = Some cp"
  shows "log_ok R (readings s i) (Some (chk_lifetime_bytes cp, chk_anomaly_count cp))"
proof -
  have "checkpoint_of s i = Some (chk_lifetime_bytes cp, chk_anomaly_count cp)"
    using assms(2) by (simp add: checkpoint_of_def)
  with assms(1) show ?thesis unfolding metered_def by metis
qed

section \<open>Keys\<close>

lemma usage_key_inj [simp]:
  "usage_key b start reading child = usage_key b' start' reading' child' \<longleftrightarrow>
    b = b' \<and> start = start' \<and> reading = reading' \<and> child = child'"
proof
  assume "usage_key b start reading child = usage_key b' start' reading' child'"
  then have eq: "dec b @ CHR '':'' # pystr start @ CHR '':'' # pystr reading @ CHR '':'' # dec child =
      dec b' @ CHR '':'' # pystr start' @ CHR '':'' # pystr reading' @ CHR '':'' # dec child'"
    by (simp add: usage_key_def)
  have no: "CHR '':'' \<notin> set (dec n)" "CHR '':'' \<notin> set (pystr i)" for n i
    using dec_no_sep pystr_no_colon by simp_all
  from field_split [OF eq no(1) no(1)] have b: "dec b = dec b'"
    and r1: "pystr start @ CHR '':'' # pystr reading @ CHR '':'' # dec child =
      pystr start' @ CHR '':'' # pystr reading' @ CHR '':'' # dec child'" by simp_all
  from field_split [OF r1 no(2) no(2)] have f: "pystr start = pystr start'"
    and r2: "pystr reading @ CHR '':'' # dec child = pystr reading' @ CHR '':'' # dec child'" by simp_all
  from field_split [OF r2 no(2) no(2)] have "pystr reading = pystr reading'" "dec child = dec child'" by simp_all
  with b f show "b = b' \<and> start = start' \<and> reading = reading' \<and> child = child'" by simp
qed simp

section \<open>Settling\<close>

lemma settle_edges_only:
  "settle_edges now b start reading rows pending s = (r, s') \<Longrightarrow> ledger_only s s'"
  by (induction now b start reading rows pending s rule: settle_edges.induct)
     (auto split: prod.splits sum.splits intro: transfer_only ledger_only_trans)

lemma settle_edges_ledger_ok:
  "settle_edges now b start reading rows pending s = (r, s') \<Longrightarrow> ledger_ok s \<Longrightarrow> ledger_ok s'"
proof (induction now b start reading rows pending s rule: settle_edges.induct)
  case (2 now b start reading x xs pending s)
  obtain r1 s1 where t: "transfer now (Org (child_id x)) (Org (parent_id x)) (amount_irr x)
      (usage_key (bnd_id b) start reading (child_id x)) ''usage'' (dec (bnd_id b)) True None s = (r1, s1)" by fastforce
  with 2(3) have "ledger_ok s1" using transfer_ledger_ok by (metis snd_conv)
  with 2 t show ?case by (cases r1) auto
qed simp

text \<open>What the settlement of one reading does to a wallet.\<close>

definition settlement_change :: "settlement list \<Rightarrow> owner \<Rightarrow> int" where
  "settlement_change rows w = sum_list (map (\<lambda>x.
     (if w = Org (parent_id x) then amount_irr x else 0) - (if w = Org (child_id x) then amount_irr x else 0)) rows)"

lemma settle_edges_posts:
  assumes "settle_edges now b start reading rows pending s = (Inr u, s')" and "ledger_ok s"
    and "distinct (map child_id rows)"
    and "\<forall>x \<in> set rows. find_transaction s (usage_key (bnd_id b) start reading (child_id x)) = None"
  shows "(\<forall>w. wallet_of s' w = wallet_of s w + settlement_change rows w) \<and>
    (\<exists>txs. transactions s' = transactions s @ txs \<and>
       map tx_idempotency_key txs = map (\<lambda>x. usage_key (bnd_id b) start reading (child_id x)) rows)"
  using assms
proof (induction rows arbitrary: pending s)
  case Nil
  then show ?case by (simp add: settlement_change_def)
next
  case (Cons x xs)
  let ?key = "\<lambda>x. usage_key (bnd_id b) start reading (child_id x)"
  obtain r1 s1 where t: "transfer now (Org (child_id x)) (Org (parent_id x)) (amount_irr x)
      (?key x) ''usage'' (dec (bnd_id b)) True None s = (r1, s1)" by fastforce
  with Cons.prems(1) obtain tx where rest: "r1 = Inr tx"
    "settle_edges now b start reading xs (pending + amount_irr x) s1 = (Inr u, s')" by (cases r1) auto
  have ok1: "ledger_ok s1" using t Cons.prems(2) transfer_ledger_ok by (metis snd_conv)
  from Cons.prems(2) t obtain tx' where p: "transactions s1 = transactions s @ [tx']" "tx_idempotency_key tx' = ?key x"
    "\<And>w. wallet_of s1 w = wallet_of s w + (if w = Org (parent_id x) then amount_irr x else 0) -
       (if w = Org (child_id x) then amount_irr x else 0)"
  proof (cases rule: transfer_outcome)
    case (replayed old)
    with Cons.prems(4) show thesis by simp
  qed (use rest(1) in auto)
  have "\<forall>y \<in> set xs. find_transaction s1 (?key y) = None"
    using Cons.prems(3,4) p(1,2) by (force simp: find_transaction_def lookup_append split: option.split)
  with Cons.IH [OF rest(2) ok1] Cons.prems(3)
  have IH: "\<forall>w. wallet_of s' w = wallet_of s1 w + settlement_change xs w"
    "\<exists>txs. transactions s' = transactions s1 @ txs \<and> map tx_idempotency_key txs = map ?key xs" by auto
  have "wallet_of s' w = wallet_of s w + settlement_change (x # xs) w" for w
    using IH(1) p(3) [of w] by (simp add: settlement_change_def)
  with IH(2) p(1,2) show ?case by auto
qed

lemma settle_edges_replayed:
  assumes "settle_edges now b start reading rows pending s = (Inr u, s')"
    and "\<forall>x \<in> set rows. find_transaction s (usage_key (bnd_id b) start reading (child_id x)) \<noteq> None"
  shows "s' = s"
  using assms
proof (induction rows arbitrary: pending)
  case Nil
  then show ?case by simp
next
  case (Cons x xs)
  then obtain old where "find_transaction s (usage_key (bnd_id b) start reading (child_id x)) = Some old" by auto
  with Cons show ?case by (auto simp: transfer_def returned_def raised_def split: if_splits)
qed

lemma transfer_not_hold:
  "transfer now source target amount key kind ref enforce actor_id s \<noteq> (Inl (BillingHold i w n), s')"
  by (auto simp: transfer_def transfer_locked_def payer_error_def post_def Let_def raised_def returned_def
      split: option.splits prod.splits owner.splits if_splits)

lemma settle_edges_hold:
  assumes "settle_edges now b start reading rows pending s = (Inl (BillingHold i w n), s')"
  shows "i = bnd_id b \<and> w = bnd_organization_id b"
  using assms
  by (induction rows arbitrary: pending s) (auto split: prod.splits sum.splits if_splits simp: transfer_not_hold)

section \<open>What a reading does\<close>

text \<open>The outcomes of \<open>observe\<close>.\<close>

lemma observe_cases:
  assumes "observe R now d s = (r, s')"
  obtains (missing) "get_binding s (ui_binding_id d) = None" "r = Inl (ValueError ''binding not found'')" "s' = s"
  | (baseline) b where "get_binding s (ui_binding_id d) = Some b" "get_checkpoint s (ui_binding_id d) = None"
      "r = Inr []" "s' = add_usage d 0 ''baseline'' (add_checkpoint d s)"
  | (regression) b cp where "get_binding s (ui_binding_id d) = Some b" "get_checkpoint s (ui_binding_id d) = Some cp"
      "ui_lifetime_bytes d < chk_lifetime_bytes cp" "chk_anomaly_count cp + 1 < R"
      "r = Inr []" "s' = add_usage d 0 ''regression'' (count_anomaly (ui_binding_id d) s)"
  | (reset) b cp payload where "get_binding s (ui_binding_id d) = Some b" "get_checkpoint s (ui_binding_id d) = Some cp"
      "ui_lifetime_bytes d < chk_lifetime_bytes cp" "R \<le> chk_anomaly_count cp + 1" "r = Inr []"
      "s' = snd (enqueue now ''usage.reset_detected'' (ui_binding_id d) payload (add_usage d 0 ''reset_baseline''
         (move_checkpoint d (add_usage d 0 ''regression'' (count_anomaly (ui_binding_id d) s)))))"
  | (failed) b cp e where "get_binding s (ui_binding_id d) = Some b" "get_checkpoint s (ui_binding_id d) = Some cp"
      "chk_lifetime_bytes cp \<le> ui_lifetime_bytes d" "r = Inl e" "ledger_only s s'" "ledger_ok s \<Longrightarrow> ledger_ok s'"
  | (accepted) b cp rows u s1 where "get_binding s (ui_binding_id d) = Some b"
      "get_checkpoint s (ui_binding_id d) = Some cp" "chk_lifetime_bytes cp \<le> ui_lifetime_bytes d"
      "usage_rows s b (ui_lifetime_bytes d - chk_lifetime_bytes cp) = Inr rows"
      "settle_edges now b (chk_lifetime_bytes cp) (ui_lifetime_bytes d) rows 0 s = (Inr u, s1)" "r = Inr rows"
      "s' = add_usage d (ui_lifetime_bytes d - chk_lifetime_bytes cp) ''accepted'' (move_checkpoint d s1)"
proof (cases "get_binding s (ui_binding_id d)")
  case None
  with assms missing show thesis by (simp add: observe_def bindr_require_some)
next
  case (Some b)
  have id: "bnd_id b = ui_binding_id d" using Some by (auto dest: lookup_SomeD)
  show thesis
  proof (cases "get_checkpoint s (ui_binding_id d)")
    case None
    with assms Some id baseline show thesis by (simp add: observe_def bindr_require_some)
  next
    case cp: (Some cp)
    note ev = observe_def bindr_require_some
    show thesis
    proof (cases "ui_lifetime_bytes d < chk_lifetime_bytes cp")
      case True
      show thesis
      proof (cases "R \<le> chk_anomaly_count cp + 1")
        case True
        with assms Some id cp \<open>ui_lifetime_bytes d < chk_lifetime_bytes cp\<close> show thesis
          by (intro reset [OF Some cp]) (simp_all add: ev Let_def)
      next
        case False
        with assms Some id cp \<open>ui_lifetime_bytes d < chk_lifetime_bytes cp\<close> show thesis
          by (intro regression [OF Some cp]) (simp_all add: ev Let_def)
      qed
    next
      case False
      then have le: "chk_lifetime_bytes cp \<le> ui_lifetime_bytes d" by simp
      show thesis
      proof (cases "usage_rows s b (ui_lifetime_bytes d - chk_lifetime_bytes cp)")
        case (Inl e)
        with assms Some id cp False show thesis
          by (intro failed [OF Some cp le, of e]) (auto simp: ev Let_def)
      next
        case (Inr rows)
        obtain r1 s1 where st: "settle_edges now b (chk_lifetime_bytes cp) (ui_lifetime_bytes d) rows 0 s = (r1, s1)"
          by fastforce
        show thesis
        proof (cases r1)
          case (Inl e)
          with assms Some id cp False Inr st settle_edges_only [OF st] settle_edges_ledger_ok [OF st] show thesis
            by (intro failed [OF Some cp le, of e]) (auto simp: ev Let_def)
        next
          case r1: (Inr u)
          with assms Some id cp False Inr st show thesis
            by (intro accepted [OF Some cp le Inr, of u s1]) (auto simp: ev Let_def)
        qed
      qed
    qed
  qed
qed

section \<open>The checkpoint replays the log\<close>

lemma meter_append [simp]: "meter (us @ vs) m = meter vs (meter us m)"
  by (induction us arbitrary: m) simp_all

lemma billed_append [simp]: "billed (us @ vs) n = billed vs (billed us n)"
  by (induction us arbitrary: n) simp_all

lemma base_append [simp]: "base (us @ vs) n = base vs (base us n)"
  by (induction us arbitrary: n) simp_all

lemma log_ok_steps:
  "st \<notin> {''accepted'', ''regression''} \<Longrightarrow> log_ok R (us @ [\<lparr>use_binding_id = i, use_lifetime_bytes = l,
     use_delta_bytes = k, use_status = st, use_observed_at = t\<rparr>]) (Some (l, 0))"
  "log_ok R us (Some (l, n)) \<Longrightarrow> k = m - l \<Longrightarrow> log_ok R (us @ [\<lparr>use_binding_id = i, use_lifetime_bytes = m,
     use_delta_bytes = k, use_status = ''accepted'', use_observed_at = t\<rparr>]) (Some (m, 0))"
  "log_ok R us (Some (l, n)) \<Longrightarrow> n + 1 < R \<Longrightarrow> log_ok R (us @ [\<lparr>use_binding_id = i, use_lifetime_bytes = m,
     use_delta_bytes = k, use_status = ''regression'', use_observed_at = t\<rparr>]) (Some (l, n + 1))"
  by (auto simp: log_ok_def)

lemma checkpoint_of_simps:
  "checkpoint_of (add_usage d n st s) i = checkpoint_of s i"
  "get_checkpoint s (ui_binding_id d) = None \<Longrightarrow> checkpoint_of (add_checkpoint d s) i =
    (if i = ui_binding_id d then Some (ui_lifetime_bytes d, 0) else checkpoint_of s i)"
  "get_checkpoint s (ui_binding_id d) \<noteq> None \<Longrightarrow> checkpoint_of (move_checkpoint d s) i =
    (if i = ui_binding_id d then Some (ui_lifetime_bytes d, 0) else checkpoint_of s i)"
  "checkpoint_of (count_anomaly j s) i =
    (if i = j then map_option (\<lambda>(l, n). (l, n + 1)) (checkpoint_of s i) else checkpoint_of s i)"
  by (auto simp: checkpoint_of_def add_usage_def add_checkpoint_def move_checkpoint_def count_anomaly_def
      lookup_append lookup_modify option.map_comp comp_def split: option.split)

lemma usages_simps [simp]:
  "usages (move_checkpoint d s) = usages s" "usages (add_checkpoint d s) = usages s"
  "usages (count_anomaly i s) = usages s"
  by (simp_all add: move_checkpoint_def add_checkpoint_def count_anomaly_def)

lemma readings_add_usage:
  "readings (add_usage d n st s) i = (if i = ui_binding_id d
     then readings s i @ [\<lparr>use_binding_id = ui_binding_id d, use_lifetime_bytes = ui_lifetime_bytes d,
       use_delta_bytes = n, use_status = st, use_observed_at = ui_observed_at d\<rparr>]
     else readings s i)"
  "readings (move_checkpoint d s) i = readings s i" "readings (add_checkpoint d s) i = readings s i"
  "readings (count_anomaly j s) i = readings s i"
  by (auto simp: readings_def add_usage_def)

text \<open>A step that adds one reading of one binding and sets its checkpoint.\<close>

lemma metered_add_usage:
  assumes "metered R s0" and "0 \<le> n" and "\<forall>u \<in> set (usages s). 0 \<le> use_delta_bytes u"
    and "\<And>i. i \<noteq> ui_binding_id d \<Longrightarrow> checkpoint_of s i = checkpoint_of s0 i \<and> readings s i = readings s0 i"
    and "log_ok R (readings (add_usage d n st s) (ui_binding_id d)) (checkpoint_of s (ui_binding_id d))"
  shows "metered R (add_usage d n st s)"
proof -
  have "log_ok R (readings (add_usage d n st s) i) (checkpoint_of (add_usage d n st s) i)" for i
    using assms(1,4,5) by (cases "i = ui_binding_id d") (auto simp: metered_def checkpoint_of_simps readings_add_usage)
  moreover have "\<forall>u \<in> set (usages (add_usage d n st s)). 0 \<le> use_delta_bytes u"
    using assms(2,3) by (auto simp: add_usage_def)
  ultimately show ?thesis by (simp add: metered_def)
qed

lemma metered_same:
  "metered R s \<Longrightarrow> checkpoints s' = checkpoints s \<Longrightarrow> usages s' = usages s \<Longrightarrow> metered R s'"
proof -
  assume "metered R s" "checkpoints s' = checkpoints s" "usages s' = usages s"
  moreover from this have "checkpoint_of s' = checkpoint_of s" "readings s' = readings s"
    by (auto simp: checkpoint_of_def readings_def)
  ultimately show ?thesis by (simp add: metered_def)
qed

lemma enqueue_frame:
  "checkpoints (snd (enqueue now t a p s)) = checkpoints s" "usages (snd (enqueue now t a p s)) = usages s"
  "accounts (snd (enqueue now t a p s)) = accounts s" "transactions (snd (enqueue now t a p s)) = transactions s"
  "organizations (snd (enqueue now t a p s)) = organizations s" "bindings (snd (enqueue now t a p s)) = bindings s"
  "panels (snd (enqueue now t a p s)) = panels s" "next_uid s \<le> next_uid (snd (enqueue now t a p s))"
  "same_tree s (snd (enqueue now t a p s))"
  by (auto simp: enqueue_def Let_def same_tree_def)

lemma observe_metered:
  assumes run: "observe R now d s = (r, s')" and ok: "metered R s"
  shows "metered R s'"
proof -
  have deltas: "\<forall>u \<in> set (usages s). 0 \<le> use_delta_bytes u" using ok by (simp add: metered_def)
  from run show ?thesis
  proof (cases rule: observe_cases)
    case missing
    with ok show ?thesis by simp
  next
    case baseline
    then show ?thesis unfolding baseline(4)
      using deltas
      by (intro metered_add_usage [OF ok]) (auto simp: checkpoint_of_simps readings_add_usage intro: log_ok_steps)
  next
    case (regression b cp)
    have "log_ok R (readings s (ui_binding_id d)) (Some (chk_lifetime_bytes cp, chk_anomaly_count cp))"
      by (rule checkpoint_log [OF ok regression(2)])
    with regression(4) have "log_ok R (readings (add_usage d 0 ''regression'' (count_anomaly (ui_binding_id d) s))
        (ui_binding_id d)) (checkpoint_of (count_anomaly (ui_binding_id d) s) (ui_binding_id d))"
      using regression(2) log_ok_steps(3)
      by (simp add: readings_add_usage checkpoint_of_simps) (simp add: checkpoint_of_def)
    then show ?thesis unfolding regression(6)
      using deltas by (intro metered_add_usage [OF ok]) (auto simp: checkpoint_of_simps readings_add_usage)
  next
    case (reset b cp payload)
    define s2 where "s2 = move_checkpoint d (add_usage d 0 ''regression'' (count_anomaly (ui_binding_id d) s))"
    have some: "get_checkpoint (add_usage d 0 ''regression'' (count_anomaly (ui_binding_id d) s)) (ui_binding_id d) \<noteq> None"
      using reset(2) by (simp add: add_usage_def count_anomaly_def lookup_modify)
    have "checkpoint_of s2 i = (if i = ui_binding_id d then Some (ui_lifetime_bytes d, 0) else checkpoint_of s i)" for i
      unfolding s2_def by (simp add: checkpoint_of_simps(3) [OF some]) (simp add: checkpoint_of_simps)
    moreover have "readings s2 i = readings s i" if "i \<noteq> ui_binding_id d" for i
      using that by (simp add: s2_def readings_add_usage)
    moreover have "\<forall>u \<in> set (usages s2). 0 \<le> use_delta_bytes u"
      using deltas by (simp add: s2_def add_usage_def)
    ultimately have "metered R (add_usage d 0 ''reset_baseline'' s2)"
      by (intro metered_add_usage [OF ok]) (auto simp: readings_add_usage intro: log_ok_steps)
    then show ?thesis unfolding reset(6) s2_def [symmetric]
      by (rule metered_same) (simp_all add: enqueue_frame)
  next
    case failed
    with ok show ?thesis by (auto intro: metered_same simp: ledger_only_simps)
  next
    case (accepted b cp rows u s1)
    note only = ledger_only_simps [OF settle_edges_only [OF accepted(5)]]
    have "log_ok R (readings s (ui_binding_id d)) (Some (chk_lifetime_bytes cp, chk_anomaly_count cp))"
      by (rule checkpoint_log [OF ok accepted(2)])
    moreover have "readings s1 = readings s" "checkpoint_of s1 = checkpoint_of s"
      by (auto simp: readings_def checkpoint_of_def only)
    moreover have "get_checkpoint s1 (ui_binding_id d) \<noteq> None" using only accepted(2) by simp
    ultimately show ?thesis unfolding accepted(7) using accepted(3) deltas
      by (intro metered_add_usage [OF ok])
        (auto simp: checkpoint_of_simps readings_add_usage only intro: log_ok_steps)
  qed
qed

lemma observe_ledger_ok:
  assumes run: "observe R now d s = (r, s')" and ok: "ledger_ok s"
  shows "ledger_ok s'"
  using run
proof (cases rule: observe_cases)
  case (accepted b cp rows u s1)
  have "ledger_ok s1" by (rule settle_edges_ledger_ok [OF accepted(5) ok])
  then show ?thesis unfolding accepted(7)
    by (rule ledger_ok_same) (simp_all add: add_usage_def move_checkpoint_def)
next
  case (reset b cp payload)
  show ?thesis unfolding reset(6)
    by (rule ledger_ok_same [OF ok])
      (simp_all add: enqueue_frame add_usage_def move_checkpoint_def count_anomaly_def
        order_trans [OF _ enqueue_frame(8)])
qed (use ok in \<open>auto intro: ledger_ok_same simp: add_usage_def add_checkpoint_def count_anomaly_def\<close>)

section \<open>Routes and the poller\<close>

text \<open>Both what a session sees and what it has committed satisfy a property.\<close>

definition both :: "(db \<Rightarrow> bool) \<Rightarrow> session \<Rightarrow> bool" where
  "both J S \<longleftrightarrow> J (current S) \<and> J (committed S)"

lemma both_rollback: "both J S \<Longrightarrow> both J (rollback S)"
  by (simp add: both_def rollback_def)

lemma both_commit_checked: "both J S \<Longrightarrow> both J (snd (commit_checked S))"
  by (simp add: both_def commit_checked_def commit_def)

lemma both_in_session:
  "both J S \<Longrightarrow> (\<And>s. J s \<Longrightarrow> J (snd (f s))) \<Longrightarrow> both J (snd (in_session f S))"
  by (simp add: both_def in_session_def split_beta)

lemma both_open: "J s \<Longrightarrow> both J (open_session s)"
  by (simp add: both_def open_session_def)

lemma request_keeps: "J s \<Longrightarrow> (\<And>S. both J S \<Longrightarrow> both J (snd (m S))) \<Longrightarrow> J (snd (request m s))"
  using both_open [of J s] by (force simp: request_def both_def split: prod.split)

text \<open>
  The interface between the metering core and the routes over it: whatever \<open>observe\<close> and \<open>record_hold\<close> keep is
  kept by the single reading, the batch and the poller, both in the session and in what is committed.
\<close>

locale reading_keeper =
  fixes R :: nat and J :: "db \<Rightarrow> bool"
  assumes observing: "J s \<Longrightarrow> J (snd (observe R now d s))"
    and holding: "J s \<Longrightarrow> J (snd (record_hold now b w n s))"
begin

lemma hold_commit_keeps:
  "both J S \<Longrightarrow>
    both J (snd (commit_checked (S\<lparr>current := snd (record_hold now b w n (current S))\<rparr>)))"
  by (rule both_commit_checked) (simp add: both_def holding)

lemmas both_bindr = bindr_keeps [where P = "both J"]

lemma observe_commit_keeps:
  assumes "both J S" and "bindr (in_session (observe R now d) S) (\<lambda>v S. bindr (commit_checked S) (g v)) = (r, S1)"
    and "\<And>v u S. both J S \<Longrightarrow> both J (snd (g v u S))"
  shows "both J S1"
proof -
  have "both J (snd (bindr (in_session (observe R now d) S) (\<lambda>v S. bindr (commit_checked S) (g v))))"
  proof (rule both_bindr)
    show "both J (snd (in_session (observe R now d) S))"
      using assms(1) observing by (rule both_in_session)
    show "both J (snd (bindr (commit_checked S2) (g v)))"
      if "both J S2" for v and S2 :: session
      by (rule both_bindr [OF both_commit_checked [OF that]]) (rule assms(3))
  qed
  with assms(2) show ?thesis by simp
qed

lemma usage_route_keeps:
  assumes "both J S"
  shows "both J (snd (usage_route R now d S))"
proof -
  obtain r S1 where run: "bindr (in_session (observe R now d) S)
        (\<lambda>rows S. bindr (commit_checked S) (\<lambda>_. returned rows)) = (r, S1)" by fastforce
  have ok1: "both J S1"
    using observe_commit_keeps [OF assms run] by simp
  have hold: "both J (snd (bindr (commit_checked ((rollback S1)\<lparr>current :=
      snd (record_hold now b w n (current (rollback S1)))\<rparr>))
      (\<lambda>_. raised (HTTPException 402 hold_text) :: session \<Rightarrow> (settlement list, session) res)))" for b w n
    by (rule both_bindr [OF hold_commit_keeps [OF both_rollback [OF ok1]]]) simp
  show ?thesis
  proof (cases r)
    case (Inl e)
    show ?thesis
      unfolding usage_route_def run prod.case Inl sum.case Let_def
      by (cases e) (simp_all only: error.case raised_eq hold ok1 both_rollback [OF ok1])
  next
    case (Inr rows)
    with run ok1 show ?thesis by (simp add: usage_route_def)
  qed
qed

lemma usage_api_keeps: "J s \<Longrightarrow> J (snd (usage_api R now d s))"
  unfolding usage_api_def by (rule request_keeps [OF _ usage_route_keeps])

lemma poll_binding_keeps:
  assumes "both J S"
  shows "both J (snd (poll_binding R now admins b S))"
proof (cases "\<exists>k n. lookup fst (bnd_pg_admin_id b) (rev admins) = Some (k, Some n) \<and> 0 \<le> n")
  case False
  with assms show ?thesis
    by (auto simp: poll_binding_def both_rollback split: option.split)
next
  case True
  then obtain k n where n: "lookup fst (bnd_pg_admin_id b) (rev admins) = Some (k, Some n)" "\<not> n < 0" by auto
  let ?d = "\<lparr>ui_binding_id = bnd_id b, ui_lifetime_bytes = n, ui_observed_at = now\<rparr>"
  obtain r S1 where run: "bindr (in_session (observe R now ?d) S) (\<lambda>_. commit_checked) = (r, S1)" by fastforce
  have "bindr m returned = m" for m :: "(unit, session) res"
    by (cases m; cases "fst m") (auto simp: returned_def)
  then have "bindr (in_session (observe R now ?d) S) (\<lambda>v S. bindr (commit_checked S) returned) = (r, S1)"
    using run by simp
  from observe_commit_keeps [OF assms this] have ok1: "both J S1" by simp
  show ?thesis
  proof (cases r)
    case (Inl e)
    show ?thesis
      unfolding poll_binding_def n(1) option.case prod.case if_not_P [OF n(2)] run Inl sum.case Let_def
      by (cases e) (simp_all only: error.case returned_eq hold_commit_keeps both_rollback [OF ok1])
  next
    case (Inr u)
    with run n ok1 show ?thesis by (simp add: poll_binding_def)
  qed
qed

lemma poll_bindings_keeps: "both J S \<Longrightarrow> both J (snd (poll_bindings R now admins bs S))"
proof (induction bs arbitrary: S)
  case (Cons b bs)
  show ?case
    unfolding poll_bindings.simps
    by (rule both_bindr [OF poll_binding_keeps [OF Cons.prems]]) (rule Cons.IH)
qed simp

lemma poll_panels_keeps: "both J S \<Longrightarrow> both J (snd (poll_panels R now fetch bs is S))"
proof (induction "is" arbitrary: S)
  case (Cons i rest)
  show ?case
    unfolding poll_panels.simps
    by (rule both_bindr [OF _ Cons.IH])
      (auto simp: Cons.prems poll_bindings_keeps split: option.split)
qed simp

lemma poll_keeps: "J s \<Longrightarrow> J (snd (poll R now fetch s))"
  unfolding poll_def Let_def by (rule request_keeps [OF _ poll_panels_keeps])

lemma batch_item_keeps: "J (ba_db B) \<Longrightarrow> J (ba_db (snd (batch_item R now d B)))"
proof -
  assume ok: "J (ba_db B)"
  obtain r s1 where run: "observe R now d (ba_db B) = (r, s1)" by fastforce
  with observing [OF ok, of now d] have "J s1" by simp
  with run ok show ?thesis
    by (auto simp: batch_item_def Let_def holding split: sum.split error.split)
qed

lemma batch_items_keeps: "J (ba_db B) \<Longrightarrow> J (ba_db (snd (batch_items R now ds B)))"
proof (induction ds arbitrary: B)
  case (Cons d ds)
  show ?case
    unfolding batch_items.simps
    by (rule bindr_keeps [where P = "\<lambda>B. J (ba_db B)", OF batch_item_keeps [OF Cons.prems]])
      (rule Cons.IH)
qed simp

lemma usage_batch_keeps:
  assumes "J s"
  shows "J (snd (usage_batch R now ds s))"
proof -
  let ?B = "\<lparr>ba_db = s, ba_flushed = s, ba_results = [], ba_holds = []\<rparr>"
  obtain r B where run: "batch_items R now ds ?B = (r, B)" by fastforce
  have B: "J (ba_db B)" using batch_items_keeps [of ?B now ds] run assms by simp
  show ?thesis
  proof (cases r)
    case (Inl e)
    with run assms show ?thesis by (simp add: usage_batch_def)
  next
    case (Inr u)
    have "J (snd (request (\<lambda>S. bindr (commit_checked (S\<lparr>current := ba_db B\<rparr>)) (\<lambda>_.
           if ba_holds B \<noteq> [] \<and> ba_results B = [] then raised (HTTPException 402 ''billing hold recorded'')
           else returned (ba_results B, ba_holds B))) s))"
    proof (rule request_keeps [where J = "J", OF assms], rule both_bindr)
      show "both J (snd (commit_checked (S\<lparr>current := ba_db B\<rparr>)))" if "both J S" for S
        using that B by (intro both_commit_checked) (simp add: both_def)
    qed simp
    with run Inr show ?thesis by (simp add: usage_batch_def)
  qed
qed

end

definition meters_ok :: "nat \<Rightarrow> db \<Rightarrow> bool" where
  "meters_ok R s \<longleftrightarrow> metered R s \<and> ledger_ok s"

lemma observe_meters_ok: "meters_ok R s \<Longrightarrow> meters_ok R (snd (observe R now d s))"
  using observe_metered observe_ledger_ok unfolding meters_ok_def by (metis prod.collapse)

lemma record_hold_meters_ok: "meters_ok R s \<Longrightarrow> meters_ok R (snd (record_hold now b w n s))"
  unfolding meters_ok_def record_hold_def
  by (auto intro: metered_same ledger_ok_same simp: enqueue_frame)

interpretation meters: reading_keeper R "meters_ok R"
  by unfold_locales (rule observe_meters_ok, assumption, rule record_hold_meters_ok, assumption)

datatype usage_op = Single int usage_in | Batch int "usage_in list"
  | Poll int "panel \<Rightarrow> (int \<times> int option) list option"

fun usage_step :: "nat \<Rightarrow> usage_op \<Rightarrow> db \<Rightarrow> db" where
  "usage_step R (Single now d) s = snd (usage_api R now d s)"
| "usage_step R (Batch now ds) s = snd (usage_batch R now ds s)"
| "usage_step R (Poll now fetch) s = snd (poll R now fetch s)"

interpretation metering: step_system "usage_step R" "meters_ok R"
proof
  fix s x assume "meters_ok R s"
  then show "meters_ok R (usage_step R x s)"
    by (cases x) (simp_all add: meters.usage_api_keeps meters.usage_batch_keeps meters.poll_keeps)
qed

section \<open>Properties\<close>

text \<open>
  C16: whatever mix of single readings, batches and polls arrives, in whatever order and with whatever
  outcome, the ledger stays correct and no byte is metered twice or lost: a checkpoint is the counter
  at the last baseline plus the deltas accepted since, no delta is negative, and the number of
  suspicious readings it counts stays below the number that confirms a reset.
\<close>

theorem no_byte_is_metered_twice:
  assumes "metered R s" and "ledger_ok s"
  shows "ledger_ok (fold (usage_step R) ops s) \<and>
    (\<forall>i l n. checkpoint_of (fold (usage_step R) ops s) i = Some (l, n) \<longrightarrow>
       l = base (readings (fold (usage_step R) ops s) i) 0 + billed (readings (fold (usage_step R) ops s) i) 0 \<and>
       n < max 1 R) \<and>
    (\<forall>u \<in> set (usages (fold (usage_step R) ops s)). 0 \<le> use_delta_bytes u)"
proof -
  let ?s = "fold (usage_step R) ops s"
  have "meters_ok R ?s" using metering.run_inv [of R s ops] assms by (simp add: meters_ok_def)
  then have "ledger_ok ?s" and log: "\<And>i. log_ok R (readings ?s i) (checkpoint_of ?s i)"
    and deltas: "\<forall>u \<in> set (usages ?s). 0 \<le> use_delta_bytes u"
    unfolding meters_ok_def metered_def by blast+
  moreover have "l = base (readings ?s i) 0 + billed (readings ?s i) 0 \<and> n < max 1 R"
    if "checkpoint_of ?s i = Some (l, n)" for i l n
    using log [of i] that unfolding log_ok_def by blast
  ultimately show ?thesis by blast
qed

lemma climbs_descends:
  assumes "parents_older s"
  shows "climbs s i es \<Longrightarrow> distinct (map fst es) \<and> (\<forall>x \<in> set (map fst es). x \<le> i)"
proof (induction es arbitrary: i)
  case Nil
  then show ?case by simp
next
  case (Cons e es)
  obtain c p r where e: "e = (c, p, r)" by (cases e) auto
  with Cons.prems obtain org where h: "c = i" "get_organization s i = Some org" "org_parent_id org = Some p"
    "climbs s p es" by auto
  have "org \<in> set (organizations s)" "org_id org = i" using h(2) by (auto dest: lookup_SomeD)
  with h(3) assms have "p < i" by (auto simp: parents_older_def)
  with Cons.IH [OF h(4)] h(1) e show ?case by fastforce
qed

lemma usage_rows_shape:
  assumes "usage_rows s b delta = Inr rows"
  shows "\<exists>es. edges s (bnd_organization_id b) = Inr es \<and>
    map (\<lambda>x. (child_id x, parent_id x, rate_irr x)) rows = (if 0 < delta then es else []) \<and>
    (\<forall>x \<in> set rows. price_usage delta (rate_irr x) (coefficient_of s (bnd_panel_id b)) = Inr (amount_irr x))"
proof -
  obtain es where es: "edges s (bnd_organization_id b) = Inr es"
    "cascade delta es (coefficient_of s (bnd_panel_id b)) = Inr rows"
    using assms by (auto simp: usage_rows_def split: sum.splits)
  then show ?thesis
    using cascade_length [OF es(2)] cascade_amounts [OF es(2)] cascade_zero [of delta es]
    by (cases "0 < delta") auto
qed

text \<open>
  C17: an accepted reading bills every level of the tree exactly once. Between the organization of the
  binding and its root, each organization pays its parent the price of the whole delta at the rate of
  its own contract, all wallets move by the sum of those payments, one transaction per level is
  posted, and the checkpoint moves to the reading. This holds when the interval has not been billed
  before, that is when its keys are new.
\<close>

theorem accepted_reading_bills_every_level:
  assumes tree: "tree_ok s" and ok: "ledger_ok s"
    and b: "get_binding s (ui_binding_id d) = Some b" "get_organization s (bnd_organization_id b) \<noteq> None"
    and cp: "get_checkpoint s (ui_binding_id d) = Some cp" "chk_lifetime_bytes cp < ui_lifetime_bytes d"
    and new: "\<And>child. find_transaction s
      (usage_key (ui_binding_id d) (chk_lifetime_bytes cp) (ui_lifetime_bytes d) child) = None"
    and run: "observe R now d s = (Inr rows, s')"
  shows "edges s (bnd_organization_id b) = Inr (map (\<lambda>x. (child_id x, parent_id x, rate_irr x)) rows) \<and>
    length rows = depth_of s (bnd_organization_id b) \<and>
    (\<forall>x \<in> set rows. price_usage (ui_lifetime_bytes d - chk_lifetime_bytes cp) (rate_irr x)
       (coefficient_of s (bnd_panel_id b)) = Inr (amount_irr x)) \<and>
    (\<forall>w. wallet_of s' w = wallet_of s w + settlement_change rows w) \<and>
    length (transactions s') = length (transactions s) + length rows \<and>
    checkpoint_of s' (ui_binding_id d) = Some (ui_lifetime_bytes d, 0)"
  using run
proof (cases rule: observe_cases)
  case (accepted b' cp' rows' u s1)
  then have same: "b' = b" "cp' = cp" "rows' = rows" using b(1) cp(1) by simp_all
  have id: "bnd_id b = ui_binding_id d" using b(1) by (auto dest: lookup_SomeD)
  let ?delta = "ui_lifetime_bytes d - chk_lifetime_bytes cp"
  obtain es where es: "edges s (bnd_organization_id b) = Inr es"
    "map (\<lambda>x. (child_id x, parent_id x, rate_irr x)) rows = es"
    "\<forall>x \<in> set rows. price_usage ?delta (rate_irr x) (coefficient_of s (bnd_panel_id b)) = Inr (amount_irr x)"
    using usage_rows_shape [OF accepted(4)] cp(2) same by auto
  obtain org where org: "get_organization s (bnd_organization_id b) = Some org" using b(2) by blast
  obtain es' where es': "edges s (bnd_organization_id b) = Inr es'" "climbs s (bnd_organization_id b) es'"
    using edges_climbs [OF tree org] by blast
  with es have climb: "climbs s (bnd_organization_id b) es" by simp
  have "length es = depth_of s (bnd_organization_id b)"
    using climbs_ancestors [OF climb] tree org
    by (auto simp: tree_ok_def simp del: ancestor.simps intro!: depth_of_chain [symmetric])
  then have "length rows = depth_of s (bnd_organization_id b)" using es(2) by (metis length_map)
  have "distinct (map fst es)" using climbs_descends [OF _ climb] tree by (simp add: tree_ok_def)
  then have d: "distinct (map child_id rows)" using es(2) by (auto simp: comp_def)
  have keys: "\<forall>x \<in> set rows. find_transaction s
      (usage_key (bnd_id b) (chk_lifetime_bytes cp) (ui_lifetime_bytes d) (child_id x)) = None"
    using new by (simp add: id)
  have posts: "\<forall>w. wallet_of s1 w = wallet_of s w + settlement_change rows w"
    "length (transactions s1) = length (transactions s) + length rows"
    using settle_edges_posts [OF accepted(5) [unfolded same] ok d keys] by (auto dest: map_eq_imp_length_eq)
  have rest: "wallet_of s' = wallet_of s1" "transactions s' = transactions s1"
    using accepted(7) by (auto simp: wallet_of_def add_usage_def move_checkpoint_def)
  have "get_checkpoint s1 (ui_binding_id d) \<noteq> None"
    using ledger_only_simps(9) [OF settle_edges_only [OF accepted(5)]] cp(1) by simp
  then have "checkpoint_of s' (ui_binding_id d) = Some (ui_lifetime_bytes d, 0)"
    using accepted(7) by (simp add: checkpoint_of_simps)
  with es posts rest \<open>length rows = depth_of s (bnd_organization_id b)\<close> show ?thesis by simp
qed (use b cp in simp_all)

lemma enqueue_pending_distinct:
  "distinct (pending_keys (outbox_events s)) \<Longrightarrow> distinct (pending_keys (outbox_events (snd (enqueue now t a p s))))"
  by (auto simp: enqueue_def Let_def pending_keys_def waiting_def)

lemma observe_hold:
  assumes "observe R now d s = (Inl (BillingHold i w n), s1)"
  shows "\<exists>b. get_binding s (ui_binding_id d) = Some b \<and> i = bnd_id b \<and> w = bnd_organization_id b"
proof -
  have edges: "edges_from s c seen \<noteq> Inl (BillingHold i w n)" for c seen
  proof (induction s c seen rule: edges_from.induct)
    case (1 s cur seen)
    then show ?case by (subst edges_from.simps) (auto split: option.split sum.split)
  qed
  have casc: "cascade delta es c \<noteq> Inl (BillingHold i w n)" for delta es c
    by (induction delta es c rule: cascade.induct) (auto simp: price_usage_def Let_def split: sum.split if_splits)
  obtain b where b: "get_binding s (ui_binding_id d) = Some b"
    using assms by (auto simp: observe_def bindr_require_some split: option.splits)
  then have "\<exists>(cp :: checkpoint) rows. settle_edges now b (chk_lifetime_bytes cp) (ui_lifetime_bytes d) rows 0 s =
      (Inl (BillingHold i w n), s1)"
    using assms edges casc
    by (auto simp: observe_def bindr_require_some usage_rows_def edges_def Let_def bindr_Inl_iff
        split: option.splits sum.splits if_splits)
  then show ?thesis using settle_edges_hold b by blast
qed


end
