(* ===== verification/Usage_Cases.thy ===== *)
theory Usage_Cases
  imports Usage
begin

text \<open>
  Metering on a chain of three organizations: the witnesses of the properties of \<open>Usage\<close>, and two
  sequences of readings on which the bill is not what the readings say.
\<close>

section \<open>A chain of three organizations\<close>

definition chain_org :: "string \<Rightarrow> uid option \<Rightarrow> int \<Rightarrow> int \<Rightarrow> org_in" where
  "chain_org slug parent price credit = \<lparr>oi_name = slug, oi_slug = slug, oi_parent_id = parent,
     oi_price_per_gib_irr = Some price, oi_credit_limit_irr = credit\<rparr>"

definition chain_tree :: db where
  "chain_tree = snd (create_org 5 0 (chain_org ''leaf'' (Some 3) 300 2000)
     (snd (create_org 5 0 (chain_org ''mid'' (Some 1) 400 100)
     (snd (create_org 5 0 (chain_org ''top'' None 0 0) empty_db)))))"

definition chain_binding :: binding where
  "chain_binding = \<lparr>bnd_id = 21, bnd_organization_id = 5, bnd_panel_id = 20, bnd_pg_admin_id = 12,
     bnd_username = ''leaf'', bnd_status = ''active''\<rparr>"

definition chain_db :: db where
  "chain_db = chain_tree
     \<lparr>panels := [\<lparr>pan_id = 20, pan_name = ''P'', pan_base_url = ''https://p'', pan_vendor = ''pasarguard'',
       pan_api_key_ref = None, pan_owner_user_ref = None, pan_owner_pass_ref = None,
       pan_usage_coefficient = 1, pan_verify_tls = True, pan_status = ''active'', pan_saleable = True\<rparr>],
     bindings := [chain_binding],
     checkpoints := [\<lparr>chk_binding_id = 21, chk_lifetime_bytes = 0, chk_observed_at = 0, chk_anomaly_count = 0\<rparr>],
     usages := [\<lparr>use_binding_id = 21, use_lifetime_bytes = 0, use_delta_bytes = 0, use_status = ''baseline'',
       use_observed_at = 0\<rparr>],
     next_uid := 30\<rparr>"

definition reading_at :: "int \<Rightarrow> usage_in" where
  "reading_at n = \<lparr>ui_binding_id = 21, ui_lifetime_bytes = n, ui_observed_at = 0\<rparr>"

definition chain_rows :: "int \<Rightarrow> settlement list" where
  "chain_rows k =
     [\<lparr>child_id = 5, parent_id = 3, delta_bytes = k * GIB, rate_irr = 300, amount_irr = 300 * k\<rparr>,
      \<lparr>child_id = 3, parent_id = 1, delta_bytes = k * GIB, rate_irr = 400, amount_irr = 400 * k\<rparr>]"

lemma chain_price: "k \<in> {1, 2, 3} \<Longrightarrow> r \<in> {300, 400} \<Longrightarrow> price_usage (k * GIB) r 1 = Inr (r * k)"
  using price_usage_ideal [of "k * GIB" r 10000] by (auto simp: ideal_price_def GIB_def)

lemma chain_cascade: "k \<in> {1, 2, 3} \<Longrightarrow> cascade (k * GIB) [(5, 3, 300), (3, 1, 400)] 1 = Inr (chain_rows k)"
  using chain_price [of k 300] chain_price [of k 400] by (auto simp: chain_rows_def GIB_def)

lemma chain_facts:
  "edges chain_db 5 = Inr [(5, 3, 300), (3, 1, 400)]"
  "get_binding chain_db 21 = Some chain_binding" "get_organization chain_db 5 \<noteq> None"
  "coefficient_of chain_db 20 = 1"
  by code_simp+

lemma tree_ok_chain: "tree_ok chain_db"
proof -
  have "tree_ok chain_tree" unfolding chain_tree_def by (intro create_org_keeps_tree tree_ok_empty)
  moreover have "same_tree chain_tree chain_db"
    by (simp add: same_tree_def chain_db_def) code_simp
  ultimately show ?thesis using same_tree_ok by blast
qed

definition acct :: "uid \<Rightarrow> uid \<Rightarrow> int \<Rightarrow> account" where
  "acct i w n = \<lparr>acc_id = i, acc_owner_key = Org w, acc_balance_irr = n\<rparr>"

definition chain_member :: "uid \<Rightarrow> uid option \<Rightarrow> string \<Rightarrow> int \<Rightarrow> organization" where
  "chain_member i parent name credit = \<lparr>org_id = i, org_parent_id = parent, org_name = name, org_slug = name,
     org_status = ''active'', org_credit_limit_irr = credit, org_max_depth = 5, org_created_at = 0\<rparr>"

lemma chain_tables:
  "accounts chain_db = [acct 2 1 0, acct 4 3 0, acct 6 5 0]"
  "organizations chain_db = [chain_member 1 None ''top'' 0, chain_member 3 (Some 1) ''mid'' 100,
     chain_member 5 (Some 3) ''leaf'' 2000]"
  "transactions chain_db = []" "next_uid chain_db = 30" "outbox_events chain_db = []"
  by code_simp+

lemma ledger_ok_chain: "ledger_ok chain_db"
  using chain_tables by (simp add: ledger_ok_def acct_def)

lemma metered_chain: "metered 3 chain_db"
proof -
  have "readings chain_db i = (if i = 21 then [\<lparr>use_binding_id = 21, use_lifetime_bytes = 0, use_delta_bytes = 0,
      use_status = ''baseline'', use_observed_at = 0\<rparr>] else [])" for i
    by (simp add: readings_def chain_db_def)
  moreover have "checkpoint_of chain_db i = (if i = 21 then Some (0, 0) else None)" for i
    by (simp add: checkpoint_of_def chain_db_def)
  ultimately show ?thesis by (simp add: metered_def log_ok_def chain_db_def)
qed

lemma observe_accepting:
  assumes "get_binding s (ui_binding_id d) = Some b" "get_checkpoint s (ui_binding_id d) = Some cp"
    and "chk_lifetime_bytes cp \<le> ui_lifetime_bytes d"
    and "usage_rows s b (ui_lifetime_bytes d - chk_lifetime_bytes cp) = Inr rows"
  shows "observe R now d s =
    bindr (settle_edges now b (chk_lifetime_bytes cp) (ui_lifetime_bytes d) rows 0 s) (\<lambda>_ s.
      returned rows (add_usage d (ui_lifetime_bytes d - chk_lifetime_bytes cp) ''accepted'' (move_checkpoint d s)))"
proof -
  have "bnd_id b = ui_binding_id d" using assms(1) by (auto dest: lookup_SomeD)
  with assms show ?thesis by (simp add: observe_def bindr_require_some Let_def)
qed

text \<open>A reading of the chain, from a state whose checkpoint is at \<open>n\<close> GiB.\<close>

lemma chain_observe:
  fixes s :: db and cp :: checkpoint
  assumes "get_binding s 21 = Some chain_binding" "edges s 5 = Inr [(5, 3, 300), (3, 1, 400)]"
    "coefficient_of s 20 = 1" "get_checkpoint s 21 = Some cp" "chk_lifetime_bytes cp = 0" "k \<in> {1, 2, 3}"
  shows "observe R now (reading_at (k * GIB)) s =
    bindr (settle_edges now chain_binding 0 (k * GIB) (chain_rows k) 0 s) (\<lambda>_ s.
      returned (chain_rows k) (add_usage (reading_at (k * GIB)) (k * GIB) ''accepted''
        (move_checkpoint (reading_at (k * GIB)) s)))"
proof -
  have gib: "0 < GIB" by (simp add: GIB_def)
  have "usage_rows s chain_binding (k * GIB) = Inr (chain_rows k)"
    using assms(2,3) chain_cascade [OF assms(6)] by (simp add: usage_rows_def chain_binding_def)
  then show ?thesis
    using observe_accepting [where s = s and d = "reading_at (k * GIB)" and b = chain_binding and cp = cp and rows = "chain_rows k" and R = R and now = now]
      assms gib by (auto simp: reading_at_def)
qed

lemmas settle_simps = transfer_def transfer_locked_def account_def post_def find_transaction_def payer_error_def
  draw_def Let_def acct_def add_balance_def chain_member_def chain_rows_def chain_binding_def raised_def returned_def

definition paid :: "uid \<Rightarrow> int \<Rightarrow> uid \<Rightarrow> uid \<Rightarrow> uid \<Rightarrow> int \<Rightarrow> transaction" where
  "paid i k child debit credit n = \<lparr>tx_id = i, tx_idempotency_key = usage_key 21 0 (k * GIB) child,
     tx_kind = ''usage'', tx_reference = dec 21, tx_actor_id = None, tx_created_at = 1, tx_entries =
       [\<lparr>en_account_id = debit, en_side = ''debit'', en_amount_irr = n\<rparr>,
        \<lparr>en_account_id = credit, en_side = ''credit'', en_amount_irr = n\<rparr>]\<rparr>"

text \<open>One GiB is within everybody's credit.\<close>

definition chain_paid :: db where
  "chain_paid = chain_db\<lparr>accounts := [acct 2 1 400, acct 4 3 (- 100), acct 6 5 (- 300)],
     transactions := [paid 30 1 5 6 4 300, paid 31 1 3 4 2 400], next_uid := 32\<rparr>"

lemma chain_paid_runs: "settle_edges 1 chain_binding 0 (1 * GIB) (chain_rows 1) 0 chain_db = (Inr (), chain_paid)"
  by (simp add: settle_simps chain_tables chain_paid_def paid_def)

text \<open>Two GiB are not: the leaf has paid when the payment of the middle organization fails.\<close>

definition chain_held :: db where
  "chain_held = chain_db\<lparr>accounts := [acct 2 1 0, acct 4 3 600, acct 6 5 (- 600)],
     transactions := [paid 30 2 5 6 4 600], next_uid := 31\<rparr>"

lemma chain_held_runs:
  "settle_edges 1 chain_binding 0 (2 * GIB) (chain_rows 2) 0 chain_db = (Inl (BillingHold 21 5 600), chain_held)"
  by (simp add: settle_simps chain_tables chain_held_def paid_def)

lemma chain_base [simp]:
  "get_checkpoint chain_db 21 = Some \<lparr>chk_binding_id = 21, chk_lifetime_bytes = 0, chk_observed_at = 0,
     chk_anomaly_count = 0\<rparr>"
  by (simp add: chain_db_def)

lemma observe_one: "observe R 1 (reading_at (1 * GIB)) chain_db = (Inr (chain_rows 1),
    add_usage (reading_at (1 * GIB)) (1 * GIB) ''accepted'' (move_checkpoint (reading_at (1 * GIB)) chain_paid))"
  using chain_observe [where s = chain_db and k = 1 and R = R and now = 1, OF chain_facts(2,1,4) chain_base]
    chain_paid_runs by (simp add: returned_def)

lemma observe_two: "observe R 1 (reading_at (2 * GIB)) chain_db = (Inl (BillingHold 21 5 600), chain_held)"
  using chain_observe [where s = chain_db and k = 2 and R = R and now = 1, OF chain_facts(2,1,4) chain_base]
    chain_held_runs by simp

section \<open>Witnesses\<close>

theorem no_byte_is_metered_twice_witness:
  "ledger_ok (fold (usage_step 3) [Single 1 (reading_at (1 * GIB)), Batch 2 [reading_at (2 * GIB)]] chain_db)"
  using no_byte_is_metered_twice [OF metered_chain ledger_ok_chain] by blast

theorem accepted_reading_bills_every_level_witness:
  "\<exists>s'. observe 3 1 (reading_at (1 * GIB)) chain_db = (Inr (chain_rows 1), s') \<and>
     wallet_of s' (Org 5) = - 300 \<and> wallet_of s' (Org 3) = - 100 \<and> wallet_of s' (Org 1) = 400"
proof -
  let ?cp = "\<lparr>chk_binding_id = 21, chk_lifetime_bytes = 0, chk_observed_at = 0, chk_anomaly_count = 0\<rparr>"
  have b: "get_binding chain_db (ui_binding_id (reading_at (1 * GIB))) = Some chain_binding"
    "get_organization chain_db (bnd_organization_id chain_binding) \<noteq> None"
    using chain_facts(2,3) by (simp_all add: reading_at_def chain_binding_def)
  have cp: "get_checkpoint chain_db (ui_binding_id (reading_at (1 * GIB))) = Some ?cp"
    "chk_lifetime_bytes ?cp < ui_lifetime_bytes (reading_at (1 * GIB))"
    using chain_base by (simp_all add: reading_at_def GIB_def)
  have new: "find_transaction chain_db k = None" for k by (simp add: find_transaction_def chain_tables)
  have "wallet_of s' w = wallet_of chain_db w + settlement_change (chain_rows 1) w"
    if "observe 3 1 (reading_at (1 * GIB)) chain_db = (Inr (chain_rows 1), s')" for s' w
    using accepted_reading_bills_every_level [OF tree_ok_chain ledger_ok_chain b cp new that] by blast
  then show ?thesis unfolding observe_one
    by (auto simp: chain_tables wallet_of_def [of chain_db] acct_def settlement_change_def chain_rows_def)
qed


section \<open>Bills that do not match the readings\<close>

text \<open>A batch with one reading, as single steps.\<close>

lemma usage_batch_single:
  assumes "get_binding s (ui_binding_id d) \<noteq> None"
  shows "observe R now d s = (Inr rows, s1) \<Longrightarrow> distinct (pending_keys (outbox_events s1)) \<Longrightarrow>
      usage_batch R now [d] s = (Inr ([(ui_binding_id d, rows)], []), s1)"
    and "observe R now d s = (Inl (BillingHold b w n), s1) \<Longrightarrow>
      distinct (pending_keys (outbox_events (snd (record_hold now b w n s1)))) \<Longrightarrow>
      usage_batch R now [d] s =
        (Inl (HTTPException 402 ''billing hold recorded''), snd (record_hold now b w n s1))"
proof -
  have no: "\<not> unflushed_clash R s s d" by (auto simp: unflushed_clash_def split: option.split)
  note batch = usage_batch_def batch_item_def Let_def request_def open_session_def commit_checked_def commit_def
    raised_def returned_def
  show "observe R now d s = (Inr rows, s1) \<Longrightarrow> distinct (pending_keys (outbox_events s1)) \<Longrightarrow>
      usage_batch R now [d] s = (Inr ([(ui_binding_id d, rows)], []), s1)"
    using assms no by (simp add: batch)
  show "observe R now d s = (Inl (BillingHold b w n), s1) \<Longrightarrow>
      distinct (pending_keys (outbox_events (snd (record_hold now b w n s1)))) \<Longrightarrow>
      usage_batch R now [d] s =
        (Inl (HTTPException 402 ''billing hold recorded''), snd (record_hold now b w n s1))"
    using assms no by (simp add: batch)
qed

definition hold_event :: outbox where
  "hold_event = \<lparr>obx_id = 31, obx_topic = ''billing.hold_required'', obx_aggregate_id = 21,
     obx_payload = [(''organization_id'', JUid 5), (''amount_irr'', JInt 600)], obx_status = ''pending'',
     obx_attempts = 0, obx_next_attempt_at = 1, obx_claimed_by = None, obx_claimed_at = None,
     obx_completed_at = None, obx_last_error = None\<rparr>"

definition after_hold :: db where
  "after_hold = chain_held\<lparr>outbox_events := [hold_event], next_uid := 32\<rparr>"

lemma batch_two: "usage_batch R 1 [reading_at (2 * GIB)] chain_db =
    (Inl (HTTPException 402 ''billing hold recorded''), after_hold)"
proof -
  have "snd (record_hold 1 21 5 600 chain_held) = after_hold"
    by (simp add: record_hold_def enqueue_def chain_held_def chain_tables after_hold_def hold_event_def draw_def
        Let_def)
  moreover have "distinct (pending_keys (outbox_events after_hold))"
    by (simp add: after_hold_def hold_event_def pending_keys_def)
  moreover have "get_binding chain_db (ui_binding_id (reading_at (2 * GIB))) \<noteq> None"
    using chain_facts(2) by (simp add: reading_at_def)
  ultimately show ?thesis using usage_batch_single(2) [OF _ observe_two] by simp
qed

definition after_three :: db where
  "after_three = after_hold\<lparr>accounts := [acct 2 1 1200, acct 4 3 300, acct 6 5 (- 1500)],
     transactions := [paid 30 2 5 6 4 600, paid 32 3 5 6 4 900, paid 33 3 3 4 2 1200], next_uid := 34\<rparr>"

lemma settle_three: "settle_edges 1 chain_binding 0 (3 * GIB) (chain_rows 3) 0 after_hold = (Inr (), after_three)"
proof -
  have "GIB \<noteq> 0" by (simp add: GIB_def)
  then show ?thesis
    by (simp add: settle_simps chain_tables chain_held_def paid_def after_hold_def after_three_def)
qed

lemma after_hold_chain:
  "get_binding after_hold 21 = Some chain_binding" "edges after_hold 5 = Inr [(5, 3, 300), (3, 1, 400)]"
  "coefficient_of after_hold 20 = 1" "get_checkpoint after_hold 21 = get_checkpoint chain_db 21"
proof -
  have "same_tree chain_db after_hold" by (simp add: same_tree_def after_hold_def chain_held_def chain_tables)
  then show "edges after_hold 5 = Inr [(5, 3, 300), (3, 1, 400)]"
    using chain_facts(1) by (simp add: same_tree_edges)
  show "get_binding after_hold 21 = Some chain_binding" "coefficient_of after_hold 20 = 1"
    "get_checkpoint after_hold 21 = get_checkpoint chain_db 21"
    using chain_facts(2,4) by (simp_all add: after_hold_def chain_held_def coefficient_of_def)
qed

text \<open>
  C19: a batch keeps what a held reading had settled before it was refused, although the checkpoint
  does not move. On the chain whose leaf pays 300 per GiB, the reading of 2 GiB is held with the leaf
  already charged 600; the next reading, of 3 GiB in all, is accepted and charges the leaf for all
  3 GiB again. The leaf has then paid 1500 for traffic that costs it 900, while the same held reading
  sent on its own leaves no charge.
\<close>

theorem held_batch_bills_twice:
  "\<exists>s1 s2 rows. usage_batch R 1 [reading_at (2 * GIB)] chain_db =
      (Inl (HTTPException 402 ''billing hold recorded''), s1) \<and>
    usage_batch R 1 [reading_at (3 * GIB)] s1 = (Inr ([(21, rows)], []), s2) \<and>
    wallet_of chain_db (Org 5) - wallet_of s2 (Org 5) = 1500 \<and> price_usage (3 * GIB) 300 1 = Inr 900 \<and>
    wallet_of (snd (usage_api R 1 (reading_at (2 * GIB)) chain_db)) (Org 5) = wallet_of chain_db (Org 5)"
proof -
  let ?cp = "\<lparr>chk_binding_id = 21, chk_lifetime_bytes = 0, chk_observed_at = 0, chk_anomaly_count = 0\<rparr>"
  define s2 where "s2 = add_usage (reading_at (3 * GIB)) (3 * GIB) ''accepted''
    (move_checkpoint (reading_at (3 * GIB)) after_three)"
  have cp: "get_checkpoint after_hold 21 = Some ?cp" using after_hold_chain(4) chain_base by simp
  have "observe R 1 (reading_at (3 * GIB)) after_hold = (Inr (chain_rows 3), s2)"
    using chain_observe [where s = after_hold and k = 3 and R = R and now = 1, OF after_hold_chain(1-3) cp] settle_three
    by (simp add: returned_def s2_def)
  moreover have "get_binding after_hold (ui_binding_id (reading_at (3 * GIB))) \<noteq> None"
    using after_hold_chain(1) by (simp add: reading_at_def)
  moreover have "distinct (pending_keys (outbox_events s2))"
    by (simp add: s2_def add_usage_def move_checkpoint_def after_three_def after_hold_def hold_event_def pending_keys_def)
  ultimately have "usage_batch R 1 [reading_at (3 * GIB)] after_hold = (Inr ([(21, chain_rows 3)], []), s2)"
    using usage_batch_single(1) by (metis reading_at_def usage_in.select_convs(1))
  moreover have "wallet_of s2 (Org 5) = - 1500"
    by (simp add: s2_def add_usage_def move_checkpoint_def after_three_def wallet_of_def acct_def)
  moreover have "wallet_of chain_db (Org 5) = 0" by (simp add: wallet_of_def chain_tables acct_def)
  moreover have "price_usage (3 * GIB) 300 1 = Inr 900" using chain_price [of 3 300] by simp
  moreover have "wallet_of (snd (usage_api R 1 (reading_at (2 * GIB)) chain_db)) (Org 5) = 0"
  proof -
    have "distinct (pending_keys (outbox_events chain_db))" by (simp add: chain_tables pending_keys_def)
    then show ?thesis
      using observe_two enqueue_pending_distinct
      by (simp add: usage_api_def request_def usage_route_def in_session_def open_session_def rollback_def
          commit_checked_def commit_def Let_def raised_def returned_def record_hold_def wallet_of_def enqueue_frame
          chain_tables acct_def)
  qed
  ultimately show ?thesis using batch_two by auto
qed

text \<open>
  after a panel reset, traffic can go unbilled. The keys of a settlement name the binding, the
  interval of the counter and the payer, and a reset makes the counter run through the same numbers
  again. When an accepted reading closes an interval whose keys were all posted before, its bytes are
  counted as billed and the checkpoint moves, but no wallet does.
\<close>

theorem repeated_interval_is_free:
  assumes b: "get_binding s (ui_binding_id d) = Some b"
    and cp: "get_checkpoint s (ui_binding_id d) = Some cp" "chk_lifetime_bytes cp \<le> ui_lifetime_bytes d"
    and old: "\<And>x. x \<in> set rows \<Longrightarrow> find_transaction s
      (usage_key (ui_binding_id d) (chk_lifetime_bytes cp) (ui_lifetime_bytes d) (child_id x)) \<noteq> None"
    and run: "observe R now d s = (Inr rows, s')"
  shows "wallet_of s' = wallet_of s \<and> transactions s' = transactions s \<and>
    checkpoint_of s' (ui_binding_id d) = Some (ui_lifetime_bytes d, 0) \<and>
    billed (readings s' (ui_binding_id d)) 0 =
      billed (readings s (ui_binding_id d)) 0 + (ui_lifetime_bytes d - chk_lifetime_bytes cp)"
  using run
proof (cases rule: observe_cases)
  case (accepted b' cp' rows' u s1)
  then have same: "b' = b" "cp' = cp" "rows' = rows" using b cp(1) by simp_all
  have "bnd_id b = ui_binding_id d" using b by (auto dest: lookup_SomeD)
  with accepted(5) same old have "s1 = s" by (intro settle_edges_replayed) auto
  with accepted(7) same have s': "s' = add_usage d (ui_lifetime_bytes d - chk_lifetime_bytes cp) ''accepted''
      (move_checkpoint d s)" by simp
  have "wallet_of s' = wallet_of s" "transactions s' = transactions s"
    by (auto simp: s' wallet_of_def add_usage_def move_checkpoint_def)
  with cp(1) show ?thesis by (simp add: s' checkpoint_of_simps readings_add_usage)
qed (use b cp in simp_all)

theorem repeated_interval_is_free_witness:
  "\<exists>s'. observe 3 1 (reading_at (1 * GIB)) chain_paid = (Inr (chain_rows 1), s') \<and>
     wallet_of s' = wallet_of chain_paid \<and> billed (readings s' 21) 0 = GIB"
proof -
  let ?cp = "\<lparr>chk_binding_id = 21, chk_lifetime_bytes = 0, chk_observed_at = 0, chk_anomaly_count = 0\<rparr>"
  have "same_tree chain_db chain_paid" by (simp add: same_tree_def chain_paid_def chain_tables)
  then have e: "edges chain_paid 5 = Inr [(5, 3, 300), (3, 1, 400)]" using chain_facts(1) by (simp add: same_tree_edges)
  have b: "get_binding chain_paid 21 = Some chain_binding" "coefficient_of chain_paid 20 = 1"
    "get_checkpoint chain_paid 21 = Some ?cp" "readings chain_paid 21 = readings chain_db 21"
    using chain_facts(2,4) chain_base by (simp_all add: chain_paid_def coefficient_of_def readings_def)
  have old: "find_transaction chain_paid (usage_key 21 0 GIB (child_id x)) \<noteq> None" if "x \<in> set (chain_rows 1)" for x
    using that by (auto simp: chain_rows_def chain_paid_def paid_def find_transaction_def)
  have "settle_edges 1 chain_binding 0 (1 * GIB) (chain_rows 1) 0 chain_paid = (Inr (), chain_paid)"
    by (simp add: chain_rows_def chain_binding_def transfer_def chain_paid_def paid_def find_transaction_def returned_def)
  then obtain s' where run: "observe 3 1 (reading_at (1 * GIB)) chain_paid = (Inr (chain_rows 1), s')"
    using chain_observe [where s = chain_paid and k = 1 and R = 3 and now = 1, OF b(1) e b(2,3)]
    by (auto simp: returned_def)
  have "billed (readings chain_db 21) 0 = 0" by (simp add: readings_def chain_db_def)
  moreover have "wallet_of s' = wallet_of chain_paid \<and> transactions s' = transactions chain_paid \<and>
      checkpoint_of s' (ui_binding_id (reading_at (1 * GIB))) = Some (ui_lifetime_bytes (reading_at (1 * GIB)), 0) \<and>
      billed (readings s' (ui_binding_id (reading_at (1 * GIB)))) 0 =
        billed (readings chain_paid (ui_binding_id (reading_at (1 * GIB)))) 0 +
        (ui_lifetime_bytes (reading_at (1 * GIB)) - chk_lifetime_bytes ?cp)"
    by (rule repeated_interval_is_free [OF _ _ _ _ run, where b = chain_binding])
      (use b old in \<open>simp_all add: reading_at_def GIB_def\<close>)
  ultimately show ?thesis using run b(4) by (auto simp: reading_at_def)
qed

end
