(* ===== verification/Access.thy ===== *)
theory Access
  imports Hierarchy Outbox Rbac
begin

text \<open>
  Who may do what: the resolution of a caller's membership and role (\<open>app.py\<close>), the guards of the
  WebApp routes (\<open>web_api.py\<close>), the wrapper every call to a panel goes through, the first start of a
  workspace, and the machine routes that create bindings, panels and actors (\<open>api.py\<close>). The caller's
  identity is what \<open>verify_init_data\<close> returned. The panels and \<open>urlsplit\<close> are parameters.
\<close>

section \<open>Identity and role\<close>

record identity =
  user_id :: int
  first_name :: string

definition isdigit :: "string \<Rightarrow> bool" where
  "isdigit v \<longleftrightarrow> v \<noteq> [] \<and> list_all (\<lambda>c. c \<in> set ''0123456789'') v"

text \<open>\<open>ROOT_TELEGRAM_ID\<close> of the environment, as a string.\<close>

definition configured_root_id :: "string \<Rightarrow> int option" where
  "configured_root_id root_env = (if isdigit root_env then Some (int (undec root_env)) else None)"

definition pick_membership :: "string \<Rightarrow> db \<Rightarrow> uid \<Rightarrow> int \<Rightarrow> membership option" where
  "pick_membership root_env s actor_id telegram_id =
    (let root_org = setting s ''bootstrap_complete'';
         rows = sort_key (\<lambda>m. (mem_created_at m, mem_id m))
           (filter (\<lambda>m. mem_actor_id m = actor_id \<and> mem_status m = ''active'') (memberships s));
         preferred = (if configured_root_id root_env = Some telegram_id
           then filter (\<lambda>m. Some (mem_organization_id m) = root_org) rows else [])
     in case preferred @ rows of [] \<Rightarrow> None | m # _ \<Rightarrow> Some m)"

definition active_actor :: "db \<Rightarrow> int \<Rightarrow> actor option" where
  "active_actor s telegram_id = List.find (\<lambda>a. act_telegram_id a = telegram_id \<and> act_status a = ''active'') (actors s)"

text \<open>A membership references an existing organization (a foreign key); its absence would be a \<open>None\<close>.\<close>

definition membership_for :: "string \<Rightarrow> int \<Rightarrow> db \<Rightarrow> (actor \<times> membership \<times> organization, db) res" where
  "membership_for root_env telegram_id s =
    bindr (require_some (active_actor s telegram_id) (HTTPException 403 ''Telegram account is not linked'') s) (\<lambda>a s.
    bindr (require_some (pick_membership root_env s (act_id a) telegram_id)
        (HTTPException 403 ''active membership not found'') s) (\<lambda>m s.
    bindr (require_some (get_organization s (mem_organization_id m)) (TypeError ''NoneType'') s) (\<lambda>org s.
    returned (a, m, org) s)))"

definition effective_role :: "string \<Rightarrow> int \<Rightarrow> string option \<Rightarrow> string" where
  "effective_role root_env telegram_id membership_role =
    (if configured_root_id root_env = Some telegram_id then ''system_admin'' else normalize membership_role)"

definition role_for :: "string \<Rightarrow> int \<Rightarrow> db \<Rightarrow> (string, db) res" where
  "role_for root_env telegram_id s = bindr (membership_for root_env telegram_id s)
     (\<lambda>(a, m, org). returned (effective_role root_env telegram_id (Some (mem_role m))))"

definition require_permission ::
  "string \<Rightarrow> string \<Rightarrow> identity \<Rightarrow> db \<Rightarrow> (actor \<times> membership \<times> organization \<times> string, db) res" where
  "require_permission root_env permission ident s = bindr (membership_for root_env (user_id ident) s) (\<lambda>(a, m, org) s.
     let role = effective_role root_env (user_id ident) (Some (mem_role m)) in
     bindr (require (can (Some role) permission) (denial permission) s) (\<lambda>_. returned (a, m, org, role)))"

definition require_root :: "string \<Rightarrow> identity \<Rightarrow> db \<Rightarrow> (unit, db) res" where
  "require_root root_env ident s = (case configured_root_id root_env of
     None \<Rightarrow> raised (HTTPException 503 ''Telegram administrator is not configured'') s
   | Some r \<Rightarrow> require (user_id ident = r) (HTTPException 403 ''system administrator permission required'') s)"

definition optional_membership :: "int \<Rightarrow> db \<Rightarrow> (actor \<times> membership \<times> organization option) option" where
  "optional_membership telegram_id s = (case active_actor s telegram_id of
     None \<Rightarrow> None
   | Some a \<Rightarrow> (case List.find (\<lambda>m. mem_actor_id m = act_id a \<and> mem_status m = ''active'') (memberships s) of
       None \<Rightarrow> None
     | Some m \<Rightarrow> Some (a, m, get_organization s (mem_organization_id m))))"

definition manager ::
  "string \<Rightarrow> int \<Rightarrow> string \<Rightarrow> db \<Rightarrow> (actor \<times> membership \<times> organization, db) res" where
  "manager root_env telegram_id permission s = bindr (membership_for root_env telegram_id s) (\<lambda>(a, m, org) s.
     bindr (require (can (Some (effective_role root_env telegram_id (Some (mem_role m)))) permission)
        (denial permission) s) (\<lambda>_. returned (a, m, org)))"

section \<open>Panels\<close>

definition panel_is_mine :: "db \<Rightarrow> uid \<Rightarrow> uid \<Rightarrow> bool" where
  "panel_is_mine s panel_id organization_id =
     has (\<lambda>l. own_panel_id l = panel_id \<and> own_organization_id l = organization_id) (panel_owners s)"

definition is_bound :: "db \<Rightarrow> uid \<Rightarrow> uid \<Rightarrow> bool" where
  "is_bound s panel_id organization_id =
     has (\<lambda>b. bnd_panel_id b = panel_id \<and> bnd_organization_id b = organization_id) (bindings s)"

definition active_panel_if :: "bool \<Rightarrow> uid \<Rightarrow> db \<Rightarrow> (panel, db) res" where
  "active_panel_if allowed panel_id s = (case (if allowed then get_panel s panel_id else None) of
     None \<Rightarrow> raised (HTTPException 404 ''server not found'') s
   | Some p \<Rightarrow> if pan_status p \<noteq> ''active'' then raised (HTTPException 404 ''server not found'') s else returned p s)"

definition owned_panel :: "uid \<Rightarrow> uid \<Rightarrow> db \<Rightarrow> (panel, db) res" where
  "owned_panel panel_id organization_id s = active_panel_if (panel_is_mine s panel_id organization_id) panel_id s"

definition accessible_panel :: "uid \<Rightarrow> uid \<Rightarrow> db \<Rightarrow> (panel, db) res" where
  "accessible_panel panel_id organization_id s =
     active_panel_if (panel_is_mine s panel_id organization_id \<or> is_bound s panel_id organization_id) panel_id s"

definition org_binding :: "uid \<Rightarrow> uid \<Rightarrow> db \<Rightarrow> (binding, db) res" where
  "org_binding organization_id panel_id s = require_some
     (List.find (\<lambda>b. bnd_organization_id b = organization_id \<and> bnd_panel_id b = panel_id) (bindings s))
     (HTTPException 409 ''this organization has no billing binding on that server'') s"

text \<open>What a call to a panel can come back with: a value, an HTTP status that is an error, or nothing.\<close>

datatype 'a answer = Answer 'a | Status int | Unreachable

text \<open>
  The client is built inside the \<open>try\<close>, so an unsupported vendor counts as unreachable. Both ways the
  call is audited and committed.
\<close>

definition panel_operation ::
  "int \<Rightarrow> (panel \<Rightarrow> 'a answer) \<Rightarrow> panel \<Rightarrow> uid \<Rightarrow> string \<Rightarrow> uid option \<Rightarrow> (string \<times> json) list \<Rightarrow> session \<Rightarrow>
    ('a, session) res"
where
  "panel_operation now run p organization_id action actor_id metadata S =
    (let log = (\<lambda>what more. commit (S\<lparr>current := audit now what ''panel'' (Some (pan_id p)) actor_id
           (Some organization_id) (more @ metadata) (current S)\<rparr>))
     in case (if pan_vendor p \<in> set SUPPORTED_VENDORS then run p else Unreachable) of
       Answer v \<Rightarrow> returned v (log action [])
     | Status code \<Rightarrow> raised (HTTPException 502
           (if code = 401 \<or> code = 403 then ''the stored credentials were not accepted by PasarGuard''
            else ''the PasarGuard server refused this operation (HTTP '' @ pystr code @ '')''))
         (log (action @ ''.failed'') [(''status_code'', JInt code)])
     | Unreachable \<Rightarrow> raised (HTTPException 502 ''PasarGuard could not be reached'')
         (log (action @ ''.failed'') [(''unreachable'', JBool True)]))"

text \<open>\<open>int(owner)\<close> of a JSON value; numeric strings are plain digits.\<close>

definition json_int :: "json \<Rightarrow> int option" where
  "json_int j = (case j of JInt n \<Rightarrow> Some n | JBool b \<Rightarrow> Some (of_bool b)
     | JStr t \<Rightarrow> if isdigit t then Some (int (undec t)) else None | _ \<Rightarrow> None)"

definition subscriber_admin :: "json \<Rightarrow> int option" where
  "subscriber_admin row =
    (let inner = (case row of JObj fs \<Rightarrow> (case field ''user'' fs of None \<Rightarrow> row | Some r \<Rightarrow> r) | _ \<Rightarrow> row)
     in case inner of JObj fs \<Rightarrow> (case field ''admin_id'' fs of None \<Rightarrow> None | Some v \<Rightarrow> json_int v) | _ \<Rightarrow> None)"

definition assert_bound_subscriber ::
  "int \<Rightarrow> (panel \<Rightarrow> int \<Rightarrow> json answer) \<Rightarrow> panel \<Rightarrow> uid \<Rightarrow> binding \<Rightarrow> int \<Rightarrow> uid option \<Rightarrow> session \<Rightarrow> (unit, session) res"
where
  "assert_bound_subscriber now read_user p organization_id b subscriber actor_id S =
    bindr (panel_operation now (\<lambda>p. read_user p subscriber) p organization_id ''user.read'' actor_id
        [(''user_id'', JInt subscriber)] S) (\<lambda>row S.
      require (subscriber_admin row = Some (bnd_pg_admin_id b))
        (HTTPException 403 ''this subscriber does not belong to your panel'') S)"

definition enabled_flag :: "string \<Rightarrow> error + bool" where
  "enabled_flag v = (if v = ''enable'' then Inr True else if v = ''disable'' then Inr False
     else Inl (HTTPException 422 ''operation must be enable or disable''))"

text \<open>\<open>urlsplit\<close>, as far as the check reads it.\<close>

record split_url =
  url_scheme :: string
  url_hostname :: "string option"
  url_username :: "string option"
  url_password :: "string option"

definition truthy :: "string option \<Rightarrow> bool" where
  "truthy v \<longleftrightarrow> v \<noteq> None \<and> v \<noteq> Some []"

definition validate_panel_url :: "(string \<Rightarrow> split_url option) \<Rightarrow> string \<Rightarrow> 's \<Rightarrow> (unit, 's) res" where
  "validate_panel_url urlsplit url s = (case urlsplit url of
     None \<Rightarrow> raised (HTTPException 422 ''server URL is invalid'') s
   | Some parsed \<Rightarrow>
       if url_scheme parsed \<noteq> ''https'' then raised (HTTPException 422 ''server URL must use HTTPS'') s
       else if \<not> truthy (url_hostname parsed) then raised (HTTPException 422 ''server URL must include a hostname'') s
       else if truthy (url_username parsed) \<or> truthy (url_password parsed)
       then raised (HTTPException 422 ''credentials are not allowed in the server URL'') s
       else returned () s)"

section \<open>The first start\<close>

definition add_actor :: "int \<Rightarrow> string \<Rightarrow> db \<Rightarrow> actor \<times> db" where
  "add_actor telegram_id display_name s =
    (let a = \<lparr>act_id = next_uid s, act_telegram_id = telegram_id, act_display_name = display_name,
              act_status = ''active''\<rparr>
     in (a, draw (s\<lparr>actors := actors s @ [a]\<rparr>)))"

definition add_membership :: "int \<Rightarrow> uid \<Rightarrow> uid \<Rightarrow> string \<Rightarrow> db \<Rightarrow> db" where
  "add_membership now organization_id actor_id role s =
     draw (s\<lparr>memberships := memberships s @ [\<lparr>mem_id = next_uid s, mem_organization_id = organization_id,
       mem_actor_id = actor_id, mem_role = role, mem_status = ''active'', mem_created_at = now\<rparr>]\<rparr>)"

definition find_or_add_actor :: "int \<Rightarrow> string \<Rightarrow> db \<Rightarrow> actor \<times> db" where
  "find_or_add_actor telegram_id display_name s = (case lookup act_telegram_id telegram_id (actors s) of
     Some a \<Rightarrow> (a, s) | None \<Rightarrow> add_actor telegram_id display_name s)"

record bootstrap_in =
  bi_business_name :: string
  bi_slug :: string
  bi_setup_token :: string

definition bootstrap_workspace ::
  "string \<Rightarrow> int \<Rightarrow> bootstrap_in \<Rightarrow> identity \<Rightarrow> db \<Rightarrow> (uid \<times> uid, db) res" where
  "bootstrap_workspace expected now x ident = transact (\<lambda>s.
    bindr (require (\<not> (length expected < 32 \<or> expected \<noteq> bi_setup_token x))
        (HTTPException 401 ''invalid setup token'') s) (\<lambda>_ s.
    bindr (require (setting s ''bootstrap_complete'' = None)
        (HTTPException 409 ''workspace setup is already complete'') s) (\<lambda>_ s.
    bindr (require (\<not> slug_taken s (bi_slug x)) (HTTPException 409 ''slug exists'') s) (\<lambda>_ s.
      case add_organization now (bi_business_name x) (bi_slug x) None 0 None s of (org, s) \<Rightarrow>
      case find_or_add_actor (user_id ident) (first_name ident) s of (a, s) \<Rightarrow>
        returned (org_id org, act_id a)
          (audit now ''workspace.bootstrap'' ''organization'' (Some (org_id org)) (Some (act_id a)) (Some (org_id org))
             [(''slug'', JStr (org_slug org))]
             (put_setting ''bootstrap_complete'' (org_id org)
               (add_membership now (org_id org) (act_id a) ''reseller_admin'' s)))))))"

section \<open>Children of a reseller\<close>

record web_child_in =
  wc_name :: string
  wc_slug :: string
  wc_price_per_gib_irr :: int
  wc_credit_limit_irr :: int

definition web_create_child ::
  "string \<Rightarrow> int \<Rightarrow> int \<Rightarrow> web_child_in \<Rightarrow> identity \<Rightarrow> db \<Rightarrow> (uid, db) res" where
  "web_create_child root_env max_tree_depth now x ident = transact (\<lambda>s.
    bindr (manager root_env (user_id ident) ''manage_resellers'' s) (\<lambda>(a, m, parent) s.
    bindr (require (\<not> slug_taken s (wc_slug x)) (HTTPException 409 ''slug exists'') s) (\<lambda>_ s.
    bindr (assert_depth_allowed max_tree_depth parent s) (\<lambda>_ s.
      case add_organization now (wc_name x) (wc_slug x) (Some (org_id parent)) (wc_credit_limit_irr x)
          (Some (wc_price_per_gib_irr x)) s of (child, s) \<Rightarrow>
        returned (org_id child)
          (audit now ''organization.create'' ''organization'' (Some (org_id child)) (Some (act_id a))
             (Some (org_id parent))
             [(''slug'', JStr (org_slug child)), (''price_per_gib_irr'', JInt (wc_price_per_gib_irr x))] s)))))"

section \<open>Machine routes\<close>

definition list_orgs :: "db \<Rightarrow> (uid \<times> string \<times> uid option \<times> string) list" where
  "list_orgs s = map (\<lambda>org. (org_id org, org_name org, org_parent_id org, org_status org)) (organizations s)"

record panel_in =
  pi_name :: string
  pi_base_url :: string
  pi_usage_coefficient :: rat

definition rstrip_slash :: "string \<Rightarrow> string" where
  "rstrip_slash url = rev (dropWhile (\<lambda>c. c = CHR ''/'') (rev url))"

definition new_panel :: "uid \<Rightarrow> string \<Rightarrow> string \<Rightarrow> rat \<Rightarrow> bool \<Rightarrow> panel" where
  "new_panel i name url coefficient verify_tls = \<lparr>pan_id = i, pan_name = name, pan_base_url = url,
     pan_vendor = ''pasarguard'', pan_api_key_ref = None, pan_owner_user_ref = None, pan_owner_pass_ref = None,
     pan_usage_coefficient = numeric4 coefficient, pan_verify_tls = verify_tls,
     pan_status = ''active'', pan_saleable = False\<rparr>"

text \<open>The flush checks the constraint \<open>ck_panel_coefficient\<close> on the rounded value.\<close>

definition coefficient_ok :: "rat \<Rightarrow> bool" where
  "coefficient_ok c \<longleftrightarrow> 0 < numeric4 c \<and> numeric4 c \<le> 1000"

definition add_panel :: "panel \<Rightarrow> db \<Rightarrow> (unit, db) res" where
  "add_panel p s = bindr (require (coefficient_ok (pan_usage_coefficient p)) (IntegrityError ''panels'') s)
     (\<lambda>_ s. returned () (draw (s\<lparr>panels := panels s @ [p]\<rparr>)))"

text \<open>The panel is audited before it is flushed: its id is not there yet.\<close>

definition create_panel :: "(string \<Rightarrow> split_url option) \<Rightarrow> int \<Rightarrow> panel_in \<Rightarrow> db \<Rightarrow> (uid, db) res" where
  "create_panel urlsplit now x = transact (\<lambda>s.
    let url = rstrip_slash (pi_base_url x) in
    bindr (validate_panel_url urlsplit url s) (\<lambda>_ s.
      let i = next_uid s;
          s1 = audit now ''panel.create'' ''panel'' None None None
            [(''base_url'', JStr url), (''usage_coefficient'', JDecimal (pi_usage_coefficient x))] s
      in bindr (add_panel (new_panel i (pi_name x) url (pi_usage_coefficient x) True) s1) (\<lambda>_. returned i)))"

record binding_in =
  bn_organization_id :: uid
  bn_panel_id :: uid
  bn_pg_admin_id :: int
  bn_username :: string

text \<open>An organization has one binding at most, and a panel admin one binding at most: unique columns.\<close>

definition binding_clash :: "db \<Rightarrow> uid \<Rightarrow> uid \<Rightarrow> int \<Rightarrow> bool" where
  "binding_clash s organization_id panel_id admin = has (\<lambda>b. bnd_organization_id b = organization_id \<or>
     bnd_panel_id b = panel_id \<and> bnd_pg_admin_id b = admin) (bindings s)"

definition add_binding :: "uid \<Rightarrow> uid \<Rightarrow> int \<Rightarrow> string \<Rightarrow> db \<Rightarrow> (uid, db) res" where
  "add_binding organization_id panel_id admin username s =
     bindr (integers_stored [admin] s) (\<lambda>_ s.
     bindr (require (\<not> binding_clash s organization_id panel_id admin) (IntegrityError ''bindings'') s) (\<lambda>_ s.
       returned (next_uid s) (draw (s\<lparr>bindings := bindings s @ [\<lparr>bnd_id = next_uid s,
         bnd_organization_id = organization_id, bnd_panel_id = panel_id, bnd_pg_admin_id = admin,
         bnd_username = username, bnd_status = ''active''\<rparr>]\<rparr>))))"

definition create_binding :: "int \<Rightarrow> binding_in \<Rightarrow> db \<Rightarrow> (uid, db) res" where
  "create_binding now x = transact (\<lambda>s.
    bindr (require (get_organization s (bn_organization_id x) \<noteq> None \<and> get_panel s (bn_panel_id x) \<noteq> None)
        (HTTPException 404 ''org/panel not found'') s) (\<lambda>_ s.
      add_binding (bn_organization_id x) (bn_panel_id x) (bn_pg_admin_id x) (bn_username x)
        (audit now ''binding.create'' ''binding'' None None (Some (bn_organization_id x))
          [(''panel_id'', JUid (bn_panel_id x)), (''pg_admin_id'', JInt (bn_pg_admin_id x))] s)))"

record actor_bind_in =
  ab_telegram_id :: int
  ab_display_name :: string
  ab_organization_id :: uid
  ab_role :: string

definition bind_actor :: "int \<Rightarrow> actor_bind_in \<Rightarrow> db \<Rightarrow> (uid \<times> uid, db) res" where
  "bind_actor now x = transact (\<lambda>s.
    bindr (require (ab_role x \<in> set ASSIGNABLE_ROLES) (HTTPException 422 ''role'') s) (\<lambda>_ s.
    bindr (require (get_organization s (ab_organization_id x) \<noteq> None)
        (HTTPException 404 ''organization not found'') s) (\<lambda>_ s.
      case find_or_add_actor (ab_telegram_id x) (ab_display_name x) s of (a, s) \<Rightarrow>
      let s1 = (if has (\<lambda>m. mem_organization_id m = ab_organization_id x \<and> mem_actor_id m = act_id a) (memberships s)
                then s else add_membership now (ab_organization_id x) (act_id a) (ab_role x) s)
      in returned (act_id a, ab_organization_id x)
           (audit now ''actor.bind'' ''actor'' (Some (act_id a)) None (Some (ab_organization_id x))
             [(''telegram_id'', JInt (ab_telegram_id x)), (''role'', JStr (ab_role x))] s1))))"

definition fund_api :: "int \<Rightarrow> uid \<Rightarrow> int \<Rightarrow> string \<Rightarrow> db \<Rightarrow> (uid \<times> int, db) res" where
  "fund_api now w amount key = transact (\<lambda>s.
    bindr (require (0 < amount \<and> 8 \<le> length key \<and> length key \<le> 180) (HTTPException 422 ''amount'') s) (\<lambda>_ s.
    bindr (require (get_organization s w \<noteq> None) (HTTPException 404 ''organization not found'') s) (\<lambda>_ s.
    bindr (transfer now SYSTEM (Org w) amount key ''fund'' (dec w) False None s) (\<lambda>tx s.
      let s1 = audit now ''wallet.fund'' ''transaction'' (Some (tx_id tx)) None (Some w)
            [(''amount_irr'', JInt amount), (''idempotency_key'', JStr key)] s
      in returned (tx_id tx, fst (balance (Org w) s1)) s1))))"

definition wallet_api :: "uid \<Rightarrow> db \<Rightarrow> (int \<times> int \<times> int, db) res" where
  "wallet_api w s = bindr (require_some (get_organization s w) (HTTPException 404 ''organization not found'') s)
     (\<lambda>org s. let b = fst (balance (Org w) s) in returned (b, org_credit_limit_irr org, b + org_credit_limit_irr org) s)"


section \<open>Properties\<close>

lemma bindr_Inr_iff:
  "bindr m f = (Inr v, s') \<longleftrightarrow> (\<exists>w s1. m = (Inr w, s1) \<and> f w s1 = (Inr v, s'))"
  by (cases m; cases "fst m") (auto simp: bindr_def)

lemma require_iff [simp]: "require c e s = (Inr u, s') \<longleftrightarrow> c \<and> s' = s"
  and require_some_iff [simp]: "require_some x e s = (Inr v, s') \<longleftrightarrow> x = Some v \<and> s' = s"
  by (auto simp: require_def require_some_def split: option.split)

lemma active_actor_SomeD:
  "active_actor s tid = Some a \<Longrightarrow> a \<in> set (actors s) \<and> act_telegram_id a = tid \<and> act_status a = ''active''"
  by (auto simp: active_actor_def find_Some_iff)

lemma pick_membership_SomeD:
  assumes "pick_membership root_env s i tid = Some m"
  shows "m \<in> set (memberships s) \<and> mem_actor_id m = i \<and> mem_status m = ''active''"
proof -
  define rows where "rows = sort_key (\<lambda>m. (mem_created_at m, mem_id m))
    (filter (\<lambda>m. mem_actor_id m = i \<and> mem_status m = ''active'') (memberships s))"
  define preferred where "preferred = (if configured_root_id root_env = Some tid
     then filter (\<lambda>m. Some (mem_organization_id m) = setting s ''bootstrap_complete'') rows else [])"
  have "(case preferred @ rows of [] \<Rightarrow> None | m # _ \<Rightarrow> Some m) = Some m"
    using assms unfolding pick_membership_def Let_def rows_def preferred_def .
  then have "m \<in> set (preferred @ rows)" by (cases "preferred @ rows") auto
  then have "m \<in> set rows" by (auto simp: preferred_def split: if_splits)
  then show ?thesis by (simp add: rows_def)
qed

lemma membership_for_iff:
  "membership_for root_env tid s = (Inr (a, m, org), s') \<longleftrightarrow> s' = s \<and> active_actor s tid = Some a \<and>
     pick_membership root_env s (act_id a) tid = Some m \<and> get_organization s (mem_organization_id m) = Some org"
  by (auto simp: membership_for_def bindr_Inr_iff)

lemma manager_iff:
  "manager root_env tid permission s = (Inr (a, m, org), s') \<longleftrightarrow>
     membership_for root_env tid s = (Inr (a, m, org), s') \<and>
     can (Some (effective_role root_env tid (Some (mem_role m)))) permission"
  by (auto simp: manager_def bindr_Inr_iff membership_for_iff)

text \<open>
  C20: a guarded route runs only for somebody entitled to it. When the guard lets a caller through, the
  caller's account and membership are active, the organization is the membership's, nothing has
  changed, and the role that the matrix grants the permission to is the stored one or, for the
  configured root identity, the system administrator. Pricing and adjustments therefore need the root
  identity, or a membership row that itself says \<open>system_admin\<close>.
\<close>

theorem guard_is_sound:
  assumes "manager root_env tid permission s = (Inr (a, m, org), s')"
  shows "s' = s \<and> a \<in> set (actors s) \<and> act_telegram_id a = tid \<and> act_status a = ''active'' \<and>
    m \<in> set (memberships s) \<and> mem_actor_id m = act_id a \<and> mem_status m = ''active'' \<and>
    org_id org = mem_organization_id m \<and>
    (can (Some (mem_role m)) permission \<or> configured_root_id root_env = Some tid) \<and>
    (permission \<in> {''change_billing_coefficient'', ''decide_adjustment''} \<longrightarrow>
       configured_root_id root_env = Some tid \<or> mem_role m = ''system_admin'')"
proof -
  have parts: "s' = s" "active_actor s tid = Some a" "pick_membership root_env s (act_id a) tid = Some m"
    "get_organization s (mem_organization_id m) = Some org"
    "can (Some (effective_role root_env tid (Some (mem_role m)))) permission"
    using assms by (auto simp: manager_iff membership_for_iff)
  have role: "can (Some (mem_role m)) permission \<or> configured_root_id root_env = Some tid"
    using parts(5) by (auto simp: effective_role_def can_normalize split: if_splits)
  then have "permission \<in> {''change_billing_coefficient'', ''decide_adjustment''} \<longrightarrow>
      configured_root_id root_env = Some tid \<or> mem_role m = ''system_admin''"
    using privileged_role [of permission "mem_role m"] by blast
  with role parts active_actor_SomeD [OF parts(2)] pick_membership_SomeD [OF parts(3)] show ?thesis
    by (auto dest: lookup_SomeD)
qed

text \<open>
  access to servers is exact. A server is operated as its own by an organization exactly when it
  is active and the organization owns it, and as a buyer's exactly when it is active and owned by or
  bound to the organization. Every other request is answered 404 and changes nothing.
\<close>

theorem panel_access_is_exact:
  "(owned_panel i w s = (Inr p, s') \<longleftrightarrow>
      s' = s \<and> get_panel s i = Some p \<and> pan_status p = ''active'' \<and> panel_is_mine s i w) \<and>
   (accessible_panel i w s = (Inr q, s') \<longleftrightarrow>
      s' = s \<and> get_panel s i = Some q \<and> pan_status q = ''active'' \<and> (panel_is_mine s i w \<or> is_bound s i w)) \<and>
   (owned_panel i w s = (Inl e, s') \<longrightarrow> e = HTTPException 404 ''server not found'' \<and> s' = s) \<and>
   (accessible_panel i w s = (Inl e, s') \<longrightarrow> e = HTTPException 404 ''server not found'' \<and> s' = s)"
  by (auto simp: owned_panel_def accessible_panel_def active_panel_if_def split: option.splits if_splits)

text \<open>What adding rows of actors, memberships and settings leaves alone.\<close>

lemma same_tree_trans: "same_tree s t \<Longrightarrow> same_tree t u \<Longrightarrow> same_tree s u"
  by (simp add: same_tree_def)

lemma access_same_tree:
  "same_tree s (add_membership now w i r s)" "same_tree s (put_setting k v s)"
  "find_or_add_actor tid name s = (a, s') \<Longrightarrow> same_tree s s'"
  by (auto simp: same_tree_def add_membership_def put_setting_def find_or_add_actor_def add_actor_def Let_def
      split: option.splits)

lemma access_frame:
  "settings (add_membership now w i r s) = settings s" "actors (add_membership now w i r s) = actors s"
  "memberships (put_setting k v s) = memberships s" "actors (put_setting k v s) = actors s"
  by (simp_all add: add_membership_def put_setting_def)

lemma setting_audit [simp]: "setting (audit t a b c d e f s) k = setting s k"
  by (simp add: setting_def)

lemma bootstrap_Inr:
  assumes "bootstrap_workspace expected now x ident s = (Inr (w, i), s')"
  obtains org s1 a s2 where "32 \<le> length expected" "expected = bi_setup_token x"
    "setting s ''bootstrap_complete'' = None" "\<not> slug_taken s (bi_slug x)"
    "add_organization now (bi_business_name x) (bi_slug x) None 0 None s = (org, s1)"
    "find_or_add_actor (user_id ident) (first_name ident) s1 = (a, s2)" "w = org_id org" "i = act_id a"
    "s' = audit now ''workspace.bootstrap'' ''organization'' (Some w) (Some i) (Some w) [(''slug'', JStr (org_slug org))]
       (put_setting ''bootstrap_complete'' w (add_membership now w i ''reseller_admin'' s2))"
proof -
  obtain org s1 where org: "add_organization now (bi_business_name x) (bi_slug x) None 0 None s = (org, s1)" by fastforce
  obtain a s2 where a: "find_or_add_actor (user_id ident) (first_name ident) s1 = (a, s2)" by fastforce
  from assms org a show thesis
    by (intro that [of org s1 a s2])
      (auto simp: bootstrap_workspace_def transact_eq bindr_require returned_def raised_def split: if_splits)
qed

text \<open>
  a workspace is set up once. A successful setup keeps the tree correct, makes the caller an
  active member of the new root organization, and marks the setup as complete; after it every further
  setup is refused with 409, whoever sends the right token. If the caller is the configured root
  identity, every later request of theirs acts for that organization.
\<close>

theorem workspace_is_set_up_once:
  assumes ok: "tree_ok s" and run: "bootstrap_workspace expected now x ident s = (Inr (w, i), s')"
  shows "tree_ok s' \<and> get_organization s w = None \<and> get_organization s' w \<noteq> None \<and>
    (\<exists>m \<in> set (memberships s'). mem_organization_id m = w \<and> mem_actor_id m = i \<and> mem_status m = ''active'') \<and>
    (\<forall>later y ident'. bi_setup_token y = expected \<longrightarrow>
       bootstrap_workspace expected later y ident' s' =
         (Inl (HTTPException 409 ''workspace setup is already complete''), s')) \<and>
    (configured_root_id root_env = Some (user_id ident) \<longrightarrow>
       (\<exists>m. pick_membership root_env s' i (user_id ident) = Some m \<and> mem_organization_id m = w))"
  using run
proof (rule bootstrap_Inr)
  fix org s1 a s2
  assume parts: "32 \<le> length expected" "setting s ''bootstrap_complete'' = None"
    "add_organization now (bi_business_name x) (bi_slug x) None 0 None s = (org, s1)"
    "find_or_add_actor (user_id ident) (first_name ident) s1 = (a, s2)" "w = org_id org" "i = act_id a"
    "s' = audit now ''workspace.bootstrap'' ''organization'' (Some w) (Some i) (Some w) [(''slug'', JStr (org_slug org))]
       (put_setting ''bootstrap_complete'' w (add_membership now w i ''reseller_admin'' s2))"
  let ?m = "\<lparr>mem_id = next_uid s2, mem_organization_id = w, mem_actor_id = i, mem_role = ''reseller_admin'',
     mem_status = ''active'', mem_created_at = now\<rparr>"
  have same: "same_tree s1 s'"
  proof (rule same_tree_trans [OF access_same_tree(3) [OF parts(4)]])
    show "same_tree s2 s'" unfolding parts(7) by (simp add: same_tree_def add_membership_def put_setting_def)
  qed
  have "tree_ok s1" by (rule add_organization_tree [OF parts(3) ok]) simp
  with same have tree: "tree_ok s'" using same_tree_ok by blast
  have older: "parents_older s" using ok by (simp add: tree_ok_def)
  have w: "w = next_uid s" using parts(5) add_organization_state(2) [OF parts(3)] by simp
  have get: "get_organization s w = None" "get_organization s' w = Some org"
    using add_organization_get [OF parts(3) older] same w by (simp_all add: same_tree_def)
  have m: "memberships s' = memberships s2 @ [?m]" by (simp add: parts(7) access_frame) (simp add: add_membership_def)
  have set: "setting s' ''bootstrap_complete'' = Some w" by (simp add: parts(7) setting_put_setting)
  then have again: "bootstrap_workspace expected later y ident' s' =
      (Inl (HTTPException 409 ''workspace setup is already complete''), s')" if "bi_setup_token y = expected" for later y ident'
    using that parts(1) by (simp add: bootstrap_workspace_def transact_eq bindr_require raised_def)
  have root: "\<exists>m. pick_membership root_env s' i (user_id ident) = Some m \<and> mem_organization_id m = w"
    if r: "configured_root_id root_env = Some (user_id ident)"
  proof -
    define rows where "rows = sort_key (\<lambda>m. (mem_created_at m, mem_id m))
      (filter (\<lambda>m. mem_actor_id m = i \<and> mem_status m = ''active'') (memberships s'))"
    define preferred where "preferred = filter (\<lambda>m. Some (mem_organization_id m) = Some w) rows"
    have "?m \<in> set preferred" using m by (simp add: preferred_def rows_def)
    then obtain m' ms where p: "preferred = m' # ms" by (cases preferred) auto
    then have "m' \<in> set preferred" by simp
    then have "mem_organization_id m' = w" by (simp add: preferred_def)
    moreover have "pick_membership root_env s' i (user_id ident) = Some m'"
      using r set p unfolding pick_membership_def Let_def rows_def [symmetric] by (simp add: preferred_def)
    ultimately show ?thesis by blast
  qed
  show ?thesis using tree get again root m by auto
qed

lemma panel_operation_result:
  assumes "panel_operation now run p w action actor_id metadata S = (r, S')"
  shows "committed S' = current S' \<and>
    (\<exists>row. current S' = (current S)\<lparr>audit_logs := audit_logs (current S) @ [row]\<rparr> \<and> aud_target_id row = dec (pan_id p) \<and>
       aud_actor_id row = actor_id \<and> aud_organization_id row = Some w \<and>
       aud_action row = (case r of Inr _ \<Rightarrow> action | Inl _ \<Rightarrow> action @ ''.failed'')) \<and>
    (\<forall>v. r = Inr v \<longleftrightarrow> pan_vendor p \<in> set SUPPORTED_VENDORS \<and> run p = Answer v) \<and>
    (\<forall>e. r = Inl e \<longrightarrow> (\<exists>d. e = HTTPException 502 d))"
proof -
  define log where "log = (\<lambda>what more. commit (S\<lparr>current := audit now what ''panel'' (Some (pan_id p)) actor_id
     (Some w) (more @ metadata) (current S)\<rparr>))"
  have log: "committed (log what more) = current (log what more) \<and>
    (\<exists>row. current (log what more) = (current S)\<lparr>audit_logs := audit_logs (current S) @ [row]\<rparr> \<and>
       aud_target_id row = dec (pan_id p) \<and> aud_actor_id row = actor_id \<and> aud_organization_id row = Some w \<and>
       aud_action row = what)" for what more
    by (auto simp: log_def commit_def audit_def str_id_def intro!: exI)
  define ans where "ans = (if pan_vendor p \<in> set SUPPORTED_VENDORS then run p else Unreachable)"
  have answered: "pan_vendor p \<in> set SUPPORTED_VENDORS \<and> run p = Answer v \<longleftrightarrow> ans = Answer v" for v
    by (simp add: ans_def)
  have op: "panel_operation now run p w action actor_id metadata S = (case ans of
       Answer v \<Rightarrow> returned v (log action [])
     | Status code \<Rightarrow> raised (HTTPException 502
           (if code = 401 \<or> code = 403 then ''the stored credentials were not accepted by PasarGuard''
            else ''the PasarGuard server refused this operation (HTTP '' @ pystr code @ '')''))
         (log (action @ ''.failed'') [(''status_code'', JInt code)])
     | Unreachable \<Rightarrow> raised (HTTPException 502 ''PasarGuard could not be reached'')
         (log (action @ ''.failed'') [(''unreachable'', JBool True)]))"
    unfolding panel_operation_def Let_def log_def ans_def ..
  show ?thesis
    unfolding answered
    by (cases ans) (use assms [unfolded op] log in \<open>force simp: returned_def raised_def\<close>)+
qed

text \<open>
  a buyer only touches subscribers of its own panel admin, and every question to a panel leaves a
  trace. The check lets a subscriber pass exactly when the panel, asked about it, answers that its
  owner is the admin of the buyer's binding; it always commits exactly one audit row naming the
  panel, the actor and the organization, and touches nothing else; what it raises is 502 when the
  panel did not answer and 403 when the answer is another owner.
\<close>

theorem only_own_subscribers:
  assumes "assert_bound_subscriber now read_user p w b subscriber actor_id S = (r, S')"
  shows "(r = Inr () \<longleftrightarrow> pan_vendor p \<in> set SUPPORTED_VENDORS \<and>
      (\<exists>row. read_user p subscriber = Answer row \<and> subscriber_admin row = Some (bnd_pg_admin_id b))) \<and>
    (\<forall>e. r = Inl e \<longrightarrow> (\<exists>d. e = HTTPException 502 d \<or> e = HTTPException 403 d)) \<and>
    committed S' = current S' \<and>
    (\<exists>row. current S' = (current S)\<lparr>audit_logs := audit_logs (current S) @ [row]\<rparr> \<and>
       aud_target_id row = dec (pan_id p) \<and> aud_actor_id row = actor_id \<and> aud_organization_id row = Some w)"
proof -
  obtain r1 S1 where op: "panel_operation now (\<lambda>p. read_user p subscriber) p w ''user.read'' actor_id
      [(''user_id'', JInt subscriber)] S = (r1, S1)" by fastforce
  note res = panel_operation_result [OF op]
  show ?thesis
  proof (cases r1)
    case (Inl e)
    with assms op have "r = Inl e" "S' = S1" by (simp_all add: assert_bound_subscriber_def)
    with res Inl show ?thesis by auto
  next
    case (Inr row)
    with assms op have "(r, S') = require (subscriber_admin row = Some (bnd_pg_admin_id b))
        (HTTPException 403 ''this subscriber does not belong to your panel'') S1"
      by (simp add: assert_bound_subscriber_def)
    then have "S' = S1" and r: "r = (if subscriber_admin row = Some (bnd_pg_admin_id b) then Inr ()
        else Inl (HTTPException 403 ''this subscriber does not belong to your panel''))"
      by (auto simp: require_def split: if_splits)
    moreover have "pan_vendor p \<in> set SUPPORTED_VENDORS" "read_user p subscriber = Answer row" using res Inr by blast+
    ultimately show ?thesis using res by (auto split: if_splits)
  qed
qed

section \<open>Witnesses\<close>

definition sample_start :: db where
  "sample_start = snd (bootstrap_workspace (replicate 32 CHR ''t'') 0
     \<lparr>bi_business_name = ''North'', bi_slug = ''north'', bi_setup_token = replicate 32 CHR ''t''\<rparr>
     \<lparr>user_id = 77, first_name = ''Ann''\<rparr> empty_db)"

lemma sample_start_runs:
  "fst (bootstrap_workspace (replicate 32 CHR ''t'') 0
     \<lparr>bi_business_name = ''North'', bi_slug = ''north'', bi_setup_token = replicate 32 CHR ''t''\<rparr>
     \<lparr>user_id = 77, first_name = ''Ann''\<rparr> empty_db) = Inr (1, 3)"
  "(case fst (manager ''77'' 77 ''decide_adjustment'' sample_start) of Inr (a, m, org) \<Rightarrow> org_id org = 1 | Inl _ \<Rightarrow> False)"
  by code_simp+

theorem workspace_is_set_up_once_witness: "tree_ok sample_start"
proof -
  obtain r s' where run: "bootstrap_workspace (replicate 32 CHR ''t'') 0
     \<lparr>bi_business_name = ''North'', bi_slug = ''north'', bi_setup_token = replicate 32 CHR ''t''\<rparr>
     \<lparr>user_id = 77, first_name = ''Ann''\<rparr> empty_db = (r, s')" by fastforce
  with sample_start_runs(1) have r: "r = Inr (1, 3)" by simp
  from workspace_is_set_up_once [OF tree_ok_empty run [unfolded r]] run show ?thesis
    by (simp add: sample_start_def)
qed

theorem guard_is_sound_witness:
  "\<exists>a m org. manager ''77'' 77 ''decide_adjustment'' sample_start = (Inr (a, m, org), sample_start) \<and>
     act_telegram_id a = 77 \<and> org_id org = mem_organization_id m"
proof -
  obtain r s' where run: "manager ''77'' 77 ''decide_adjustment'' sample_start = (r, s')" by fastforce
  with sample_start_runs(2) obtain a m org where r: "r = Inr (a, m, org)" by (cases r) auto
  from guard_is_sound [OF run [unfolded r]] run r show ?thesis by blast
qed

theorem only_own_subscribers_witness:
  "fst (assert_bound_subscriber 0 (\<lambda>_ _. Answer (JObj [(''admin_id'', JInt 12)])) (new_panel 3 ''P'' ''https://p'' 1 True) 1
     \<lparr>bnd_id = 4, bnd_organization_id = 1, bnd_panel_id = 3, bnd_pg_admin_id = 12, bnd_username = ''u'',
       bnd_status = ''active''\<rparr> 9 None (open_session empty_db)) = Inr ()"
proof -
  let ?b = "\<lparr>bnd_id = 4, bnd_organization_id = 1, bnd_panel_id = 3, bnd_pg_admin_id = 12, bnd_username = ''u'',
       bnd_status = ''active''\<rparr>"
  let ?read = "\<lambda>_ _. Answer (JObj [(''admin_id'', JInt 12)])"
  obtain r S' where run: "assert_bound_subscriber 0 ?read (new_panel 3 ''P'' ''https://p'' 1 True) 1 ?b 9 None
      (open_session empty_db) = (r, S')" by fastforce
  have "subscriber_admin (JObj [(''admin_id'', JInt 12)]) = Some 12"
    by (simp add: subscriber_admin_def field_def json_int_def)
  with only_own_subscribers [OF run] run show ?thesis by (simp add: new_panel_def SUPPORTED_VENDORS_def)
qed

end
