(* ===== verification/Orders.thy ===== *)
theory Orders
  imports Access "HOL-Library.List_Lexorder" "HOL-Library.Char_ord"
begin

text \<open>
  The customer funnel of \<open>web_api.py\<close>: order a panel, get quoted, confirm, declare the payment, and the
  seller's decision, which turns a paid order into an organization with a funded wallet. The random
  slug candidates are a parameter. Functions that take the locked order row take its id here.
\<close>

section \<open>The life of an order\<close>

definition ORDER_FLOW :: "string \<Rightarrow> string list" where
  "ORDER_FLOW st = (case map_of
     [(''pending'', [''quoted'', ''rejected'', ''cancelled'']),
      (''quoted'', [''confirmed'', ''rejected'', ''cancelled'']),
      (''confirmed'', [''payment_declared'', ''rejected'', ''cancelled'']),
      (''payment_declared'', [''approved'', ''rejected'']),
      (''approved'', []), (''rejected'', []), (''cancelled'', [])] st of None \<Rightarrow> [] | Some next \<Rightarrow> next)"

definition order_rank :: "string \<Rightarrow> nat" where
  "order_rank st = (if st = ''pending'' then 0 else if st = ''quoted'' then 1 else if st = ''confirmed'' then 2
     else if st = ''payment_declared'' then 3 else 4)"

interpretation order_flow: status_flow ORDER_FLOW order_rank 4
  by unfold_locales (auto simp: ORDER_FLOW_def order_rank_def split: if_splits)

definition require_transition :: "panel_order \<Rightarrow> string \<Rightarrow> 's \<Rightarrow> (unit, 's) res" where
  "require_transition ord to_status = require (to_status \<in> set (ORDER_FLOW (ord_status ord)))
     (HTTPException 409 (''an order in status '' @ ord_status ord @ '' cannot become '' @ to_status))"

definition locked_order :: "uid \<Rightarrow> string \<Rightarrow> db \<Rightarrow> (panel_order, db) res" where
  "locked_order i to_status s =
    bindr (require_some (get_order s i) (HTTPException 404 ''order not found'') s) (\<lambda>ord s.
    bindr (require_transition ord to_status s) (\<lambda>_. returned ord))"

definition on_order :: "uid \<Rightarrow> (panel_order \<Rightarrow> panel_order) \<Rightarrow> db \<Rightarrow> db" where
  "on_order i f s = s\<lparr>panel_orders := modify ord_id i f (panel_orders s)\<rparr>"

section \<open>Rows as they are shown\<close>

text \<open>What a listing adds to a stored row; the columns are shown as they are.\<close>

record order_view =
  ov_order :: panel_order
  ov_panel_name :: "string option"
  ov_plan_name :: "string option"
  ov_duration_days :: "int option"

definition order_row :: "db \<Rightarrow> panel_order \<Rightarrow> order_view" where
  "order_row s ord =
    (let plan = (case ord_plan_id ord of None \<Rightarrow> None | Some i \<Rightarrow> get_plan s i)
     in \<lparr>ov_order = ord, ov_panel_name = map_option pan_name (get_panel s (ord_panel_id ord)),
         ov_plan_name = map_option plan_name plan, ov_duration_days = map_option plan_duration_days plan\<rparr>)"

record plan_view =
  pv_plan :: plan
  pv_panel_name :: "string option"
  pv_amount_irr :: int

definition plan_row :: "plan \<Rightarrow> string option \<Rightarrow> plan_view" where
  "plan_row p panel_name = \<lparr>pv_plan = p, pv_panel_name = panel_name, pv_amount_irr = plan_amount_irr p\<rparr>"

text \<open>\<open>order_by\<close> on a name column sorts by code points, and a sort keeps the order of equal keys.\<close>

definition on_sale :: "panel \<Rightarrow> bool" where
  "on_sale p \<longleftrightarrow> pan_status p = ''active'' \<and> pan_saleable p"

definition panel_saleable_rows :: "db \<Rightarrow> (uid \<times> string) list" where
  "panel_saleable_rows s = map (\<lambda>p. (pan_id p, pan_name p)) (sort_key pan_name (filter on_sale (panels s)))"

definition saleable_plan_rows :: "db \<Rightarrow> plan_view list" where
  "saleable_plan_rows s =
    (let names = map_of (map (\<lambda>p. (pan_id p, pan_name p)) (filter on_sale (panels s)));
         shelves = map cat_id (filter (\<lambda>c. cat_status c = ''active'') (plan_categories s))
     in map (\<lambda>p. plan_row p (names (plan_panel_id p)))
          (filter (\<lambda>p. names (plan_panel_id p) \<noteq> None \<and>
              (case plan_category_id p of None \<Rightarrow> True | Some c \<Rightarrow> c \<in> set shelves))
            (sort_key plan_price_per_gib_irr (filter (\<lambda>p. plan_status p = ''active'') (plans s)))))"

section \<open>Placing an order\<close>

definition order_permission :: "string \<Rightarrow> identity \<Rightarrow> string \<Rightarrow> db \<Rightarrow> (unit, db) res" where
  "order_permission root_env ident permission s = (case optional_membership (user_id ident) s of
     None \<Rightarrow> returned () s
   | Some (a, m, org) \<Rightarrow> require (can (Some (effective_role root_env (user_id ident) (Some (mem_role m)))) permission)
       (denial permission) s)"

definition requester_actor :: "db \<Rightarrow> int \<Rightarrow> actor option" where
  "requester_actor s telegram_id = lookup act_telegram_id telegram_id (actors s)"

definition unique_order_slug :: "string list \<Rightarrow> db \<Rightarrow> (string, db) res" where
  "unique_order_slug tokens s = require_some
     (List.find (\<lambda>c. \<not> has (\<lambda>r. ord_slug r = c) (panel_orders s) \<and> \<not> slug_taken s c)
        (map (\<lambda>t. ''panel-'' @ t) (take 20 tokens)))
     (HTTPException 500 ''unable to allocate an order slug'') s"

definition priced_plan :: "panel \<Rightarrow> uid option \<Rightarrow> db \<Rightarrow> (plan option, db) res" where
  "priced_plan p i s = (case i of
     None \<Rightarrow> returned None s
   | Some j \<Rightarrow> (case get_plan s j of
       None \<Rightarrow> raised (HTTPException 422 ''this plan is not on sale on this server'') s
     | Some pl \<Rightarrow>
         if plan_status pl \<noteq> ''active'' \<or> plan_panel_id pl \<noteq> pan_id p
         then raised (HTTPException 422 ''this plan is not on sale on this server'') s
         else (case plan_category_id pl of
           None \<Rightarrow> returned (Some pl) s
         | Some c \<Rightarrow> (case get_category s c of
             None \<Rightarrow> raised (HTTPException 422 ''this plan is not on sale'') s
           | Some shelf \<Rightarrow>
               if cat_status shelf \<noteq> ''active'' \<or> cat_organization_id shelf \<noteq> plan_organization_id pl
               then raised (HTTPException 422 ''this plan is not on sale'') s
               else returned (Some pl) s))))"

record order_in =
  oi_panel_id :: uid
  oi_plan_id :: "uid option"
  oi_business_name :: string
  oi_user_count :: int
  oi_daily_gib :: int
  oi_note :: string

definition new_order :: "int \<Rightarrow> uid \<Rightarrow> uid \<Rightarrow> uid \<Rightarrow> string \<Rightarrow> order_in \<Rightarrow> panel_order" where
  "new_order now i actor_id panel_id slug x =
    \<lparr>ord_id = i, ord_actor_id = actor_id, ord_panel_id = panel_id, ord_plan_id = None,
     ord_business_name = oi_business_name x, ord_slug = slug, ord_user_count = oi_user_count x,
     ord_daily_gib = oi_daily_gib x, ord_note = oi_note x, ord_status = ''pending'', ord_credit_limit_irr = 0,
     ord_price_per_gib_irr = 0, ord_amount_irr = 0, ord_payment_instructions = [], ord_admin_username = [],
     ord_pg_admin_id = None, ord_organization_id = None, ord_decided_by = None, ord_decided_at = None,
     ord_rejection_reason = [], ord_created_at = now\<rparr>"

text \<open>With a plan the catalog is the only price source.\<close>

definition price_by_plan :: "plan \<Rightarrow> panel_order \<Rightarrow> panel_order" where
  "price_by_plan pl ord = ord\<lparr>ord_plan_id := Some (plan_id pl), ord_user_count := plan_user_count pl,
     ord_daily_gib := plan_daily_gib pl, ord_price_per_gib_irr := plan_price_per_gib_irr pl,
     ord_amount_irr := plan_amount_irr pl,
     ord_credit_limit_irr := (if plan_credit_limit_irr pl = 0 then plan_amount_irr pl else plan_credit_limit_irr pl),
     ord_payment_instructions := plan_payment_instructions pl, ord_status := ''quoted''\<rparr>"

text \<open>
  The order is audited before it is flushed: neither its id nor the defaults of its columns are there yet, so
  an order without a plan is recorded without an amount.
\<close>

definition create_panel_order ::
  "string list \<Rightarrow> int \<Rightarrow> int \<Rightarrow> string \<Rightarrow> string \<Rightarrow> order_in \<Rightarrow> db \<Rightarrow> (panel_order, db) res"
where
  "create_panel_order tokens now telegram_id display_name via x s =
    (case get_panel s (oi_panel_id x) of
       None \<Rightarrow> raised (HTTPException 422 ''this server is not open for orders'') s
     | Some p \<Rightarrow>
        bindr (require (on_sale p)
          (HTTPException 422 ''this server is not open for orders'') s) (\<lambda>_ s.
        bindr (priced_plan p (oi_plan_id x) s) (\<lambda>pl s.
        case find_or_add_actor telegram_id (if oi_business_name x = [] then display_name else oi_business_name x) s of
          (a, s) \<Rightarrow>
        bindr (unique_order_slug tokens s) (\<lambda>slug s.
          let plain = new_order now (next_uid s) (act_id a) (pan_id p) slug x;
              ord = (case pl of None \<Rightarrow> plain | Some q \<Rightarrow> price_by_plan q plain)
          in bindr (bigints_stored [ord_amount_irr ord, ord_credit_limit_irr ord] s) (\<lambda>_ s.
            returned ord
            (audit now ''panel_order.create'' ''panel_order'' None (Some (act_id a)) None
              [(''panel_id'', JUid (pan_id p)), (''slug'', JStr slug), (''user_count'', JInt (ord_user_count ord)),
               (''daily_gib'', JInt (ord_daily_gib ord)), (''via'', JStr via), (''plan_id'', json_id (ord_plan_id ord)),
               (''amount_irr'', (case pl of None \<Rightarrow> JNull | Some q \<Rightarrow> JInt (ord_amount_irr ord)))]
              (draw (s\<lparr>panel_orders := panel_orders s @ [ord]\<rparr>))))))))"

definition create_order :: "string \<Rightarrow> string list \<Rightarrow> int \<Rightarrow> order_in \<Rightarrow> identity \<Rightarrow> db \<Rightarrow> (order_view, db) res" where
  "create_order root_env tokens now x ident = transact (\<lambda>s.
    bindr (order_permission root_env ident ''order_panel'' s) (\<lambda>_ s.
    bindr (create_panel_order tokens now (user_id ident) (first_name ident) ''webapp'' x s) (\<lambda>ord s.
      returned (order_row s ord) s)))"

definition order_options :: "string \<Rightarrow> identity \<Rightarrow> db \<Rightarrow> ((uid \<times> string) list \<times> plan_view list, db) res" where
  "order_options root_env ident s = bindr (order_permission root_env ident ''order_panel'' s) (\<lambda>_ s.
     returned (panel_saleable_rows s, saleable_plan_rows s) s)"

definition my_orders :: "string \<Rightarrow> identity \<Rightarrow> db \<Rightarrow> (order_view list, db) res" where
  "my_orders root_env ident s = bindr (order_permission root_env ident ''order_panel'' s) (\<lambda>_ s.
    returned (case requester_actor s (user_id ident) of
        None \<Rightarrow> []
      | Some a \<Rightarrow> map (order_row s) (take 50 (sort_key (\<lambda>ord. - ord_created_at ord)
          (filter (\<lambda>ord. ord_actor_id ord = act_id a) (panel_orders s))))) s)"

section \<open>The customer's steps\<close>

definition owned_order :: "uid \<Rightarrow> identity \<Rightarrow> string \<Rightarrow> db \<Rightarrow> (panel_order, db) res" where
  "owned_order i ident to_status s = bindr (locked_order i to_status s) (\<lambda>ord s.
    bindr (require (case requester_actor s (user_id ident) of None \<Rightarrow> False | Some a \<Rightarrow> ord_actor_id ord = act_id a)
      (HTTPException 403 ''this order does not belong to your account'') s) (\<lambda>_. returned ord))"

definition CUSTOMER_TRANSITIONS :: "string \<Rightarrow> string option" where
  "CUSTOMER_TRANSITIONS = map_of [(''confirmed'', ''panel_order.confirm''),
     (''payment_declared'', ''panel_order.payment_declared''), (''cancelled'', ''panel_order.cancel'')]"

definition advance_customer_order :: "int \<Rightarrow> panel_order \<Rightarrow> string \<Rightarrow> db \<Rightarrow> (unit, db) res" where
  "advance_customer_order now ord to_status s =
    bindr (require_transition ord to_status s) (\<lambda>_ s.
    bindr (require_some (CUSTOMER_TRANSITIONS to_status) (KeyError to_status) s) (\<lambda>action s.
      returned () (audit now action ''panel_order'' (Some (ord_id ord)) (Some (ord_actor_id ord))
        (ord_organization_id ord)
        (if to_status = ''payment_declared'' then [(''amount_irr'', JInt (ord_amount_irr ord))] else [])
        (on_order (ord_id ord) (\<lambda>r. r\<lparr>ord_status := to_status\<rparr>) s))))"

text \<open>\<open>confirm_order\<close>, \<open>declare_payment\<close> and \<open>cancel_order\<close> differ in the status they ask for.\<close>

definition customer_route :: "string \<Rightarrow> string \<Rightarrow> int \<Rightarrow> uid \<Rightarrow> identity \<Rightarrow> db \<Rightarrow> (unit, db) res" where
  "customer_route to_status root_env now i ident = transact (\<lambda>s.
    bindr (order_permission root_env ident ''order_panel'' s) (\<lambda>_ s.
    bindr (owned_order i ident to_status s) (\<lambda>ord. advance_customer_order now ord to_status)))"

definition confirm_order :: "string \<Rightarrow> int \<Rightarrow> uid \<Rightarrow> identity \<Rightarrow> db \<Rightarrow> (unit, db) res" where
  "confirm_order = customer_route ''confirmed''"

definition declare_payment :: "string \<Rightarrow> int \<Rightarrow> uid \<Rightarrow> identity \<Rightarrow> db \<Rightarrow> (unit, db) res" where
  "declare_payment = customer_route ''payment_declared''"

definition cancel_order :: "string \<Rightarrow> int \<Rightarrow> uid \<Rightarrow> identity \<Rightarrow> db \<Rightarrow> (unit, db) res" where
  "cancel_order = customer_route ''cancelled''"

section \<open>The seller's side\<close>

definition review_panels :: "db \<Rightarrow> uid \<Rightarrow> uid list" where
  "review_panels s w = map own_panel_id (filter (\<lambda>l. own_organization_id l = w) (panel_owners s))"

definition order_queue :: "string \<Rightarrow> string \<Rightarrow> identity \<Rightarrow> db \<Rightarrow> (order_view list, db) res" where
  "order_queue root_env status ident s =
    bindr (manager root_env (user_id ident) ''decide_orders'' s) (\<lambda>(a, m, org) s.
    bindr (require (status \<in> set ORDER_STATES) (HTTPException 422 ''unknown order status'') s) (\<lambda>_ s.
      returned (map (order_row s) (take 100 (sort_key ord_created_at
        (filter (\<lambda>ord. ord_status ord = status \<and> ord_panel_id ord \<in> set (review_panels s (org_id org)))
          (panel_orders s))))) s))"

definition assert_order_seller :: "panel_order \<Rightarrow> uid \<Rightarrow> db \<Rightarrow> (unit, db) res" where
  "assert_order_seller ord w s = require (panel_is_mine s (ord_panel_id ord) w)
     (HTTPException 403 ''this order was placed on another server'') s"

record quote_in =
  qi_amount_irr :: int
  qi_credit_limit_irr :: int
  qi_price_per_gib_irr :: int
  qi_payment_instructions :: string
  qi_pg_admin_id :: "int option"

definition quote_terms :: "quote_in \<Rightarrow> panel_order \<Rightarrow> panel_order" where
  "quote_terms x ord = ord\<lparr>ord_credit_limit_irr := qi_credit_limit_irr x,
     ord_price_per_gib_irr := qi_price_per_gib_irr x, ord_amount_irr := qi_amount_irr x,
     ord_payment_instructions := qi_payment_instructions x,
     ord_admin_username := (if ord_admin_username ord = [] then ''admin-'' @ ord_slug ord else ord_admin_username ord),
     ord_pg_admin_id := qi_pg_admin_id x, ord_status := ''quoted''\<rparr>"

text \<open>The columns of the quoted terms: three amounts and the id of the panel admin.\<close>

definition quote_stored :: "quote_in \<Rightarrow> db \<Rightarrow> (unit, db) res" where
  "quote_stored x s = bindr (bigints_stored [qi_amount_irr x, qi_credit_limit_irr x, qi_price_per_gib_irr x] s) (\<lambda>_.
     integers_stored (case qi_pg_admin_id x of None \<Rightarrow> [] | Some admin \<Rightarrow> [admin]))"

definition quote_fits :: "quote_in \<Rightarrow> bool" where
  "quote_fits x \<longleftrightarrow> fits_bigint (qi_amount_irr x) \<and> fits_bigint (qi_credit_limit_irr x) \<and>
     fits_bigint (qi_price_per_gib_irr x) \<and> (\<forall>admin. qi_pg_admin_id x = Some admin \<longrightarrow> fits_integer admin)"

lemma quote_stored_iff [simp]: "quote_stored x s = (Inr u, s') \<longleftrightarrow> quote_fits x \<and> s' = s"
  by (auto simp: quote_stored_def quote_fits_def bigints_stored_def integers_stored_def require_def raised_def split: option.split)

definition json_int_option :: "int option \<Rightarrow> json" where
  "json_int_option v = (case v of None \<Rightarrow> JNull | Some n \<Rightarrow> JInt n)"

definition quote_panel_order :: "int \<Rightarrow> quote_in \<Rightarrow> uid \<Rightarrow> uid \<Rightarrow> panel_order \<Rightarrow> db \<Rightarrow> (unit, db) res" where
  "quote_panel_order now x reviewer w ord s =
    bindr (assert_order_seller ord w s) (\<lambda>_ s.
    bindr (require_transition ord ''quoted'' s) (\<lambda>_ s.
    bindr (quote_stored x s) (\<lambda>_ s.
      returned () (audit now ''panel_order.quote'' ''panel_order'' (Some (ord_id ord)) (Some reviewer) (Some w)
        [(''amount_irr'', JInt (qi_amount_irr x)), (''credit_limit_irr'', JInt (qi_credit_limit_irr x)),
         (''price_per_gib_irr'', JInt (qi_price_per_gib_irr x)), (''pg_admin_id'', json_int_option (qi_pg_admin_id x))]
        (on_order (ord_id ord) (quote_terms x) s)))))"

text \<open>
  The seller's routes: the caller's organization reviews an order, whose row is locked on the way. Answers
  that only repeat the order's id and its new status are left out here and in the customer's routes.
\<close>

definition seller_route ::
  "string \<Rightarrow> string \<Rightarrow> (uid \<Rightarrow> uid \<Rightarrow> panel_order \<Rightarrow> db \<Rightarrow> ('a, db) res) \<Rightarrow> uid \<Rightarrow> identity \<Rightarrow> db \<Rightarrow> ('a, db) res"
where
  "seller_route to_status root_env decide i ident = transact (\<lambda>s.
    bindr (manager root_env (user_id ident) ''decide_orders'' s) (\<lambda>(a, m, org) s.
    bindr (locked_order i to_status s) (\<lambda>ord. decide (act_id a) (org_id org) ord)))"

definition quote_order :: "string \<Rightarrow> int \<Rightarrow> uid \<Rightarrow> quote_in \<Rightarrow> identity \<Rightarrow> db \<Rightarrow> (order_view, db) res" where
  "quote_order root_env now i x = seller_route ''quoted'' root_env (\<lambda>reviewer w ord s.
     bindr (quote_panel_order now x reviewer w ord s) (\<lambda>_ s. returned (order_row s (quote_terms x ord)) s)) i"

definition mark_rejected :: "string \<Rightarrow> uid \<Rightarrow> int \<Rightarrow> panel_order \<Rightarrow> panel_order" where
  "mark_rejected reason reviewer now r = r\<lparr>ord_status := ''rejected'', ord_rejection_reason := reason,
     ord_decided_by := Some reviewer, ord_decided_at := Some now\<rparr>"

definition reject_panel_order :: "int \<Rightarrow> string \<Rightarrow> uid \<Rightarrow> uid \<Rightarrow> panel_order \<Rightarrow> db \<Rightarrow> (unit, db) res" where
  "reject_panel_order now reason reviewer w ord s =
    bindr (assert_order_seller ord w s) (\<lambda>_ s.
    bindr (require_transition ord ''rejected'' s) (\<lambda>_ s.
      returned () (audit now ''panel_order.reject'' ''panel_order'' (Some (ord_id ord)) (Some reviewer) (Some w)
        [(''reason'', JStr reason)]
        (on_order (ord_id ord) (mark_rejected reason reviewer now) s))))"

definition reject_order :: "string \<Rightarrow> int \<Rightarrow> uid \<Rightarrow> string \<Rightarrow> identity \<Rightarrow> db \<Rightarrow> (unit, db) res" where
  "reject_order root_env now i reason = seller_route ''rejected'' root_env (reject_panel_order now reason) i"

section \<open>Approval\<close>

record approve_in =
  ap_pg_admin_id :: "int option"
  ap_admin_username :: "string option"

definition attach_account :: "approve_in option \<Rightarrow> panel_order \<Rightarrow> panel_order" where
  "attach_account attach ord = (case attach of None \<Rightarrow> ord | Some x \<Rightarrow>
     if ap_pg_admin_id x \<noteq> None \<and> ord_pg_admin_id ord = None
     then ord\<lparr>ord_pg_admin_id := ap_pg_admin_id x,
            ord_admin_username := take 80 (strip (case ap_admin_username x of None \<Rightarrow> [] | Some t \<Rightarrow> t))\<rparr>
     else ord)"

text \<open>
  The panel stays with the seller; a customer whose panel admin is known gets a binding to it. The
  unique columns of \<open>bindings\<close> are checked when the rows are flushed, inside the transfer.
\<close>

definition bind_customer :: "panel_order \<Rightarrow> uid \<Rightarrow> panel \<Rightarrow> db \<Rightarrow> (unit, db) res" where
  "bind_customer ord w p s = (case ord_pg_admin_id ord of
     None \<Rightarrow> returned () s
   | Some admin \<Rightarrow> bindr (add_binding w (pan_id p) admin
       (if ord_admin_username ord = [] then pystr admin else ord_admin_username ord) s) (\<lambda>_. returned ()))"

definition order_key :: "panel_order \<Rightarrow> string" where
  "order_key ord = ''panel-order:'' @ dec (ord_id ord)"

record approved_order =
  ao_organization_id :: uid
  ao_bound :: bool
  ao_panel_name :: string
  ao_balance_irr :: int

definition mark_approved :: "uid \<Rightarrow> uid \<Rightarrow> int \<Rightarrow> panel_order \<Rightarrow> panel_order" where
  "mark_approved w reviewer now r = r\<lparr>ord_status := ''approved'', ord_organization_id := Some w,
     ord_decided_by := Some reviewer, ord_decided_at := Some now\<rparr>"

text \<open>What follows the transfer: the order is closed, the approval recorded and announced.\<close>

definition finish_approval ::
  "int \<Rightarrow> uid \<Rightarrow> organization \<Rightarrow> panel \<Rightarrow> panel_order \<Rightarrow> db \<Rightarrow> (approved_order, db) res"
where
  "finish_approval now reviewer child p ord s =
    (let s1 = on_order (ord_id ord) (mark_approved (org_id child) reviewer now) s;
         s2 = audit now ''panel_order.approve'' ''panel_order'' (Some (ord_id ord)) (Some reviewer) (Some (org_id child))
            [(''amount_irr'', JInt (ord_amount_irr ord)), (''credit_limit_irr'', JInt (ord_credit_limit_irr ord)),
             (''price_per_gib_irr'', JInt (ord_price_per_gib_irr ord)), (''panel_id'', JUid (pan_id p)),
             (''slug'', JStr (org_slug child)), (''bound'', JBool (ord_pg_admin_id ord \<noteq> None))] s1;
         s3 = snd (enqueue now ''panel_order.approved'' (ord_id ord)
            [(''organization_id'', JUid (org_id child)), (''telegram_actor_id'', JUid (ord_actor_id ord))] s2)
     in returned \<lparr>ao_organization_id = org_id child, ao_bound = (ord_pg_admin_id ord \<noteq> None),
          ao_panel_name = pan_name p, ao_balance_irr = fst (balance (Org (org_id child)) s3)\<rparr> s3)"

definition approve_panel_order ::
  "int \<Rightarrow> int \<Rightarrow> approve_in option \<Rightarrow> uid \<Rightarrow> uid \<Rightarrow> panel_order \<Rightarrow> db \<Rightarrow> (approved_order, db) res"
where
  "approve_panel_order max_tree_depth now attach reviewer w ord0 s =
    bindr (assert_order_seller ord0 w s) (\<lambda>_ s.
    bindr (require_transition ord0 ''approved'' s) (\<lambda>_ s.
      let ord = attach_account attach ord0; s = on_order (ord_id ord0) (attach_account attach) s in
    bindr (require_some (get_panel s (ord_panel_id ord)) (TypeError ''NoneType'') s) (\<lambda>p s.
    bindr (require_some (get_organization s w) (TypeError ''NoneType'') s) (\<lambda>parent s.
    bindr (assert_depth_allowed max_tree_depth parent s) (\<lambda>_ s.
    bindr (require (\<not> slug_taken s (ord_slug ord)) (HTTPException 409 ''slug already exists'') s) (\<lambda>_ s.
      case add_organization now (ord_business_name ord) (ord_slug ord) (Some (org_id parent))
          (ord_credit_limit_irr ord) (Some (ord_price_per_gib_irr ord)) s of (child, s) \<Rightarrow>
    bindr (bind_customer ord (org_id child) p
        (add_membership now (org_id child) (ord_actor_id ord) ''customer'' s)) (\<lambda>_ s.
    bindr (transfer now SYSTEM (Org (org_id child)) (ord_amount_irr ord) (order_key ord) ''order-funded''
        (dec (ord_id ord)) False (Some reviewer) s) (\<lambda>_.
      finish_approval now reviewer child p ord))))))))"

definition approve_order ::
  "string \<Rightarrow> int \<Rightarrow> int \<Rightarrow> uid \<Rightarrow> approve_in \<Rightarrow> identity \<Rightarrow> db \<Rightarrow> (approved_order, db) res"
where
  "approve_order root_env max_tree_depth now i x =
     seller_route ''approved'' root_env (approve_panel_order max_tree_depth now (Some x)) i"

section \<open>The sale list\<close>

definition set_panel_saleable :: "string \<Rightarrow> int \<Rightarrow> uid \<Rightarrow> bool \<Rightarrow> identity \<Rightarrow> db \<Rightarrow> (bool, db) res" where
  "set_panel_saleable root_env now i saleable ident = transact (\<lambda>s.
    bindr (manager root_env (user_id ident) ''manage_servers'' s) (\<lambda>(a, m, org) s.
    bindr (owned_panel i (org_id org) s) (\<lambda>p s.
      returned saleable (audit now ''panel.saleable'' ''panel'' (Some (pan_id p)) (Some (act_id a)) (Some (org_id org))
        [(''saleable'', JBool saleable)]
        (s\<lparr>panels := modify pan_id (pan_id p) (\<lambda>p. p\<lparr>pan_saleable := saleable\<rparr>) (panels s)\<rparr>)))))"

section \<open>What a step does to an order\<close>

text \<open>
  \<open>identity_kept\<close>: who ordered what; \<open>terms_kept\<close>: the price that was quoted. A step leaves an order
  alone or moves it along \<open>ORDER_FLOW\<close>, and only the step out of \<open>pending\<close> sets the terms.
\<close>

definition identity_kept :: "panel_order \<Rightarrow> panel_order \<Rightarrow> bool" where
  "identity_kept a b \<longleftrightarrow> ord_id b = ord_id a \<and> ord_actor_id b = ord_actor_id a \<and> ord_panel_id b = ord_panel_id a \<and>
     ord_plan_id b = ord_plan_id a \<and> ord_business_name b = ord_business_name a \<and> ord_slug b = ord_slug a \<and>
     ord_user_count b = ord_user_count a \<and> ord_daily_gib b = ord_daily_gib a"

definition terms_kept :: "panel_order \<Rightarrow> panel_order \<Rightarrow> bool" where
  "terms_kept a b \<longleftrightarrow> ord_amount_irr b = ord_amount_irr a \<and> ord_credit_limit_irr b = ord_credit_limit_irr a \<and>
     ord_price_per_gib_irr b = ord_price_per_gib_irr a \<and> ord_payment_instructions b = ord_payment_instructions a"

definition order_moved :: "panel_order \<Rightarrow> panel_order \<Rightarrow> bool" where
  "order_moved a b \<longleftrightarrow> b = a \<or> ord_status b \<in> set (ORDER_FLOW (ord_status a)) \<and> identity_kept a b \<and>
     (ord_status a \<noteq> ''pending'' \<longrightarrow> terms_kept a b)"

definition orders_moved :: "db \<Rightarrow> db \<Rightarrow> bool" where
  "orders_moved s s' \<longleftrightarrow> (\<forall>i a. get_order s i = Some a \<longrightarrow> (\<exists>b. get_order s' i = Some b \<and> order_moved a b))"

text \<open>What the desk of the funnel writes besides: the orders, the actors it registers and the audit trail.\<close>

definition desk_only :: "db \<Rightarrow> db \<Rightarrow> bool" where
  "desk_only s s' \<longleftrightarrow> next_uid s \<le> next_uid s' \<and>
     s\<lparr>panel_orders := panel_orders s', actors := actors s', audit_logs := audit_logs s', next_uid := next_uid s'\<rparr> = s'"

lemma desk_only_simps:
  assumes "desk_only s s'"
  shows "organizations s' = organizations s" "closures s' = closures s" "contracts s' = contracts s"
    "accounts s' = accounts s" "transactions s' = transactions s" "panels s' = panels s"
    "panel_owners s' = panel_owners s" "plan_categories s' = plan_categories s" "plans s' = plans s"
    "bindings s' = bindings s" "memberships s' = memberships s" "outbox_events s' = outbox_events s"
    "settings s' = settings s" "next_uid s \<le> next_uid s'"
  using assms by (cases s; cases s'; simp add: desk_only_def)+

lemma orders_moved_refl: "orders_moved s s"
  and orders_moved_same: "panel_orders s' = panel_orders s \<Longrightarrow> orders_moved s s'"
  by (auto simp: orders_moved_def order_moved_def)

lemma orders_moved_append: "panel_orders s' = panel_orders s @ [ord] \<Longrightarrow> orders_moved s s'"
  by (auto simp: orders_moved_def order_moved_def lookup_append)

lemma orders_moved_modify:
  assumes "get_order s i = Some a" and "order_moved a (f a)" and "\<And>r. ord_id (f r) = ord_id r"
    and "panel_orders s' = modify ord_id i f (panel_orders s)"
  shows "orders_moved s s'"
  using assms by (auto simp: orders_moved_def order_moved_def lookup_modify)

lemma on_order_simps [simp]:
  "panel_orders (on_order i f s) = modify ord_id i f (panel_orders s)"
  "organizations (on_order i f s) = organizations s" "closures (on_order i f s) = closures s"
  "contracts (on_order i f s) = contracts s" "accounts (on_order i f s) = accounts s"
  "transactions (on_order i f s) = transactions s" "panels (on_order i f s) = panels s"
  "panel_owners (on_order i f s) = panel_owners s" "bindings (on_order i f s) = bindings s"
  "actors (on_order i f s) = actors s" "memberships (on_order i f s) = memberships s"
  "outbox_events (on_order i f s) = outbox_events s" "next_uid (on_order i f s) = next_uid s"
  "audit_logs (on_order i f s) = audit_logs s" "settings (on_order i f s) = settings s"
  "plans (on_order i f s) = plans s" "plan_categories (on_order i f s) = plan_categories s"
  by (simp_all add: on_order_def)

lemma locked_order_iff:
  "locked_order i to_status s = (Inr ord, s') \<longleftrightarrow>
     s' = s \<and> get_order s i = Some ord \<and> to_status \<in> set (ORDER_FLOW (ord_status ord))"
  by (auto simp: locked_order_def require_transition_def bindr_Inr_iff)

lemma transact_Inr: "transact f s = (Inr v, s') \<longleftrightarrow> f s = (Inr v, s')"
  by (auto simp: transact_eq split: prod.splits sum.splits)

lemma customer_route_Inr:
  assumes "customer_route to_status root_env now i ident s = (Inr u, s')"
  obtains ord a action where "get_order s i = Some ord" "to_status \<in> set (ORDER_FLOW (ord_status ord))"
    "requester_actor s (user_id ident) = Some a" "ord_actor_id ord = act_id a"
    "order_permission root_env ident ''order_panel'' s = (Inr (), s)" "CUSTOMER_TRANSITIONS to_status = Some action"
    "s' = audit now action ''panel_order'' (Some i) (Some (act_id a)) (ord_organization_id ord)
        (if to_status = ''payment_declared'' then [(''amount_irr'', JInt (ord_amount_irr ord))] else [])
        (on_order i (\<lambda>r. r\<lparr>ord_status := to_status\<rparr>) s)"
proof -
  have perm: "s1 = s" if "order_permission root_env ident ''order_panel'' s = (Inr (), s1)" for s1
    using that by (auto simp: order_permission_def split: option.splits prod.splits)
  from assms obtain s1 where p1: "order_permission root_env ident ''order_panel'' s = (Inr (), s1)"
    and rest: "bindr (owned_order i ident to_status s1) (\<lambda>ord. advance_customer_order now ord to_status) = (Inr u, s')"
    by (auto simp: customer_route_def transact_Inr bindr_Inr_iff)
  have s1: "s1 = s" by (rule perm [OF p1])
  from rest [unfolded s1] obtain ord a action where *: "get_order s i = Some ord"
    "to_status \<in> set (ORDER_FLOW (ord_status ord))"
    "requester_actor s (user_id ident) = Some a" "ord_actor_id ord = act_id a" "CUSTOMER_TRANSITIONS to_status = Some action"
    "s' = audit now action ''panel_order'' (Some (ord_id ord)) (Some (ord_actor_id ord)) (ord_organization_id ord)
        (if to_status = ''payment_declared'' then [(''amount_irr'', JInt (ord_amount_irr ord))] else [])
        (on_order (ord_id ord) (\<lambda>r. r\<lparr>ord_status := to_status\<rparr>) s)"
    by (auto simp: bindr_Inr_iff owned_order_def locked_order_iff
        advance_customer_order_def require_transition_def split: option.splits)
  then show thesis using lookup_SomeD [OF *(1)] p1 s1 by (auto intro!: that)
qed

lemma seller_route_Inr:
  assumes "seller_route to_status root_env decide i ident s = (Inr v, s')"
  obtains a m org ord where "manager root_env (user_id ident) ''decide_orders'' s = (Inr (a, m, org), s)"
    "get_order s i = Some ord" "ord_id ord = i" "to_status \<in> set (ORDER_FLOW (ord_status ord))"
    "decide (act_id a) (org_id org) ord s = (Inr v, s')"
proof -
  have same: "s1 = s" if "manager root_env (user_id ident) ''decide_orders'' s = (Inr (a, m, org), s1)" for a m org s1
    using that by (simp add: manager_iff membership_for_iff)
  from assms obtain a m org s1 where man: "manager root_env (user_id ident) ''decide_orders'' s = (Inr (a, m, org), s1)"
    and rest: "bindr (locked_order i to_status s1) (\<lambda>ord. decide (act_id a) (org_id org) ord) = (Inr v, s')"
    by (auto simp: seller_route_def transact_Inr bindr_Inr_iff)
  have s1: "s1 = s" by (rule same [OF man])
  from rest [unfolded s1] obtain ord where "get_order s i = Some ord" "to_status \<in> set (ORDER_FLOW (ord_status ord))"
    "decide (act_id a) (org_id org) ord s = (Inr v, s')" by (auto simp: bindr_Inr_iff locked_order_iff)
  then show thesis using man s1 lookup_SomeD by (metis that)
qed

section \<open>What an approval does\<close>

lemma add_organization_rest:
  assumes "add_organization now name slug parent credit price s = (org, s')"
  shows "panels s' = panels s" "panel_owners s' = panel_owners s" "bindings s' = bindings s"
    "actors s' = actors s" "memberships s' = memberships s" "panel_orders s' = panel_orders s"
    "outbox_events s' = outbox_events s" "settings s' = settings s" "transactions s' = transactions s"
    "wallet_of s' v = wallet_of s v" "ledger_ok s \<Longrightarrow> ledger_ok s'"
    "lookup acc_owner_key (Org (org_id org)) (accounts s') \<noteq> None" "plans s' = plans s"
    "plan_categories s' = plan_categories s"
proof -
  obtain s1 where s': "s' = snd (account (Org (org_id org)) s1)" and s1: "panels s1 = panels s" "panel_owners s1 = panel_owners s"
    "bindings s1 = bindings s" "actors s1 = actors s" "memberships s1 = memberships s"
    "panel_orders s1 = panel_orders s" "outbox_events s1 = outbox_events s" "settings s1 = settings s"
    "transactions s1 = transactions s" "accounts s1 = accounts s" "next_uid s \<le> next_uid s1"
    "plans s1 = plans s" "plan_categories s1 = plan_categories s"
    using assms by (auto simp: add_organization_def Let_def split: prod.splits)
  obtain a where acc: "account (Org (org_id org)) s1 = (a, s')" using s' by (metis prod.collapse)
  note frame = account_frame [OF acc]
  show "panels s' = panels s" "panel_owners s' = panel_owners s" "bindings s' = bindings s"
    "actors s' = actors s" "memberships s' = memberships s" "panel_orders s' = panel_orders s"
    "outbox_events s' = outbox_events s" "settings s' = settings s" "transactions s' = transactions s"
    "plans s' = plans s" "plan_categories s' = plan_categories s"
    using s1 frame by simp_all
  show "wallet_of s' v = wallet_of s v" using account_wallet [OF acc] s1(10) by (simp add: wallet_of_def)
  show "ledger_ok s \<Longrightarrow> ledger_ok s'"
    by (rule account_ledger_ok [OF ledger_ok_same acc]) (use s1 in simp_all)
  show "lookup acc_owner_key (Org (org_id org)) (accounts s') \<noteq> None" using account_found [OF acc] by simp
qed

lemma bind_customer_Inr:
  assumes "bind_customer ord w p s = (Inr u, s')"
  shows "\<exists>bs n. s' = s\<lparr>bindings := bindings s @ bs, next_uid := n\<rparr> \<and> next_uid s \<le> n \<and>
    (case ord_pg_admin_id ord of None \<Rightarrow> bs = [] | Some admin \<Rightarrow> \<exists>b. bs = [b] \<and> bnd_organization_id b = w \<and>
       bnd_panel_id b = pan_id p \<and> bnd_pg_admin_id b = admin \<and> bnd_status b = ''active'')"
proof (cases "ord_pg_admin_id ord")
  case None
  with assms have "s' = s" by (simp add: bind_customer_def)
  then show ?thesis using None by (intro exI [of _ "[]"] exI [of _ "next_uid s"]) simp
next
  case (Some admin)
  define b where "b = \<lparr>bnd_id = next_uid s, bnd_organization_id = w, bnd_panel_id = pan_id p, bnd_pg_admin_id = admin,
    bnd_username = (if ord_admin_username ord = [] then pystr admin else ord_admin_username ord), bnd_status = ''active''\<rparr>"
  from assms Some have "s' = s\<lparr>bindings := bindings s @ [b], next_uid := Suc (next_uid s)\<rparr>"
    by (auto simp: bind_customer_def add_binding_def bindr_Inr_iff draw_def b_def)
  then show ?thesis using Some by (intro exI [of _ "[b]"] exI [of _ "Suc (next_uid s)"]) (simp add: b_def)
qed

lemma attach_account_simps [simp]:
  "ord_id (attach_account x ord) = ord_id ord" "ord_status (attach_account x ord) = ord_status ord"
  "ord_panel_id (attach_account x ord) = ord_panel_id ord" "ord_slug (attach_account x ord) = ord_slug ord"
  "ord_actor_id (attach_account x ord) = ord_actor_id ord" "ord_amount_irr (attach_account x ord) = ord_amount_irr ord"
  "ord_credit_limit_irr (attach_account x ord) = ord_credit_limit_irr ord"
  "ord_price_per_gib_irr (attach_account x ord) = ord_price_per_gib_irr ord"
  "ord_business_name (attach_account x ord) = ord_business_name ord"
  "ord_plan_id (attach_account x ord) = ord_plan_id ord" "ord_user_count (attach_account x ord) = ord_user_count ord"
  "ord_daily_gib (attach_account x ord) = ord_daily_gib ord"
  "ord_payment_instructions (attach_account x ord) = ord_payment_instructions ord"
  by (auto simp: attach_account_def split: option.split)

lemma approve_Inr:
  assumes "approve_panel_order d now attach reviewer w ord0 s = (Inr r, s')"
  obtains p parent child s1 s2 tx s3 ord where "ord = attach_account attach ord0"
    "panel_is_mine s (ord_panel_id ord) w" "''approved'' \<in> set (ORDER_FLOW (ord_status ord))"
    "get_panel s (ord_panel_id ord) = Some p" "get_organization s w = Some parent"
    "int (depth_of s w) + 1 \<le> d" "\<not> slug_taken s (ord_slug ord)"
    "add_organization now (ord_business_name ord) (ord_slug ord) (Some w) (ord_credit_limit_irr ord)
       (Some (ord_price_per_gib_irr ord)) (on_order (ord_id ord) (attach_account attach) s) = (child, s1)"
    "bind_customer ord (org_id child) p (add_membership now (org_id child) (ord_actor_id ord) ''customer'' s1) = (Inr (), s2)"
    "transfer now SYSTEM (Org (org_id child)) (ord_amount_irr ord) (order_key ord) ''order-funded'' (dec (ord_id ord))
       False (Some reviewer) s2 = (Inr tx, s3)"
    "finish_approval now reviewer child p ord s3 = (Inr r, s')"
proof -
  define ord where "ord = attach_account attach ord0"
  let ?s0 = "on_order (ord_id ord) (attach_account attach) s"
  from assms obtain p parent where 1: "panel_is_mine s (ord_panel_id ord) w"
    "''approved'' \<in> set (ORDER_FLOW (ord_status ord))" "get_panel s (ord_panel_id ord) = Some p"
    "get_organization s w = Some parent"
    and rest: "bindr (assert_depth_allowed d parent ?s0) (\<lambda>_ s.
      bindr (require (\<not> slug_taken s (ord_slug ord)) (HTTPException 409 ''slug already exists'') s) (\<lambda>_ s.
      case add_organization now (ord_business_name ord) (ord_slug ord) (Some (org_id parent))
          (ord_credit_limit_irr ord) (Some (ord_price_per_gib_irr ord)) s of (child, s) \<Rightarrow>
      bindr (bind_customer ord (org_id child) p
        (add_membership now (org_id child) (ord_actor_id ord) ''customer'' s)) (\<lambda>_ s.
      bindr (transfer now SYSTEM (Org (org_id child)) (ord_amount_irr ord) (order_key ord) ''order-funded''
        (dec (ord_id ord)) False (Some reviewer) s) (\<lambda>_. finish_approval now reviewer child p ord)))) = (Inr r, s')"
    unfolding approve_panel_order_def Let_def ord_def [symmetric] assert_order_seller_def require_transition_def
      bindr_Inr_iff
    by (auto simp: ord_def)
  have w: "org_id parent = w" using lookup_SomeD [OF 1(4)] by simp
  obtain s4 where a: "assert_depth_allowed d parent ?s0 = (Inr (), s4)" using rest by (rule bindr_InrE) simp
  from assert_depth_allowed_Inr [OF a] have s4: "s4 = ?s0" and depth: "int (depth_of ?s0 w) + 1 \<le> d" using w by auto
  obtain child s1 where add: "add_organization now (ord_business_name ord) (ord_slug ord) (Some w)
      (ord_credit_limit_irr ord) (Some (ord_price_per_gib_irr ord)) ?s0 = (child, s1)" by fastforce
  note rest' = rest [unfolded a s4, simplified bindr_simps]
  have free: "\<not> slug_taken s (ord_slug ord)"
    using rest' by (auto simp: bindr_require slug_taken_def split: if_splits)
  then have "\<not> slug_taken ?s0 (ord_slug ord)" by (simp add: slug_taken_def)
  with rest' add w have "bindr (bind_customer ord (org_id child) p
        (add_membership now (org_id child) (ord_actor_id ord) ''customer'' s1)) (\<lambda>_ s.
      bindr (transfer now SYSTEM (Org (org_id child)) (ord_amount_irr ord) (order_key ord) ''order-funded''
        (dec (ord_id ord)) False (Some reviewer) s) (\<lambda>_. finish_approval now reviewer child p ord)) = (Inr r, s')"
    by (simp add: bindr_require)
  then obtain s2 tx s3 where 2:
    "bind_customer ord (org_id child) p (add_membership now (org_id child) (ord_actor_id ord) ''customer'' s1) = (Inr (), s2)"
    "transfer now SYSTEM (Org (org_id child)) (ord_amount_irr ord) (order_key ord) ''order-funded'' (dec (ord_id ord))
       False (Some reviewer) s2 = (Inr tx, s3)"
    "finish_approval now reviewer child p ord s3 = (Inr r, s')"
    by (auto elim!: bindr_InrE)
  have d: "depth_of ?s0 w = depth_of s w" by (simp add: depth_of_def)
  show thesis by (rule that [OF ord_def 1 depth [unfolded d] free add 2])
qed

lemma balance_is_wallet: "fst (balance owner s) = wallet_of s owner"
  by (rule account_cases [of owner s]) (simp_all add: balance_def wallet_of_def)

lemma on_order_ledger: "ledger_ok (on_order i f s) \<longleftrightarrow> ledger_ok s" "wallet_of (on_order i f s) v = wallet_of s v"
  by (simp_all add: ledger_ok_def wallet_of_def)

lemma on_order_tree: "same_tree s (on_order i f s)"
  by (simp add: same_tree_def)

lemma finish_approval_result:
  assumes "finish_approval now reviewer child p ord s = (Inr r, s')"
  shows "ao_organization_id r = org_id child" "ao_bound r = (ord_pg_admin_id ord \<noteq> None)" "ao_panel_name r = pan_name p"
    "ao_balance_irr r = wallet_of s' (Org (org_id child))"
    "panel_orders s' = modify ord_id (ord_id ord) (mark_approved (org_id child) reviewer now) (panel_orders s)"
    "memberships s' = memberships s" "bindings s' = bindings s" "accounts s' = accounts s"
    "transactions s' = transactions s" "same_tree s s'" "next_uid s \<le> next_uid s'" "wallet_of s' v = wallet_of s v"
    "panels s' = panels s" "panel_owners s' = panel_owners s" "actors s' = actors s" "plans s' = plans s"
    "plan_categories s' = plan_categories s"
  using assms by (auto simp: finish_approval_def Let_def balance_is_wallet enqueue_def same_tree_def wallet_of_def)

lemma approval_made:
  assumes run: "approve_panel_order d now attach reviewer w ord0 s = (Inr r, s')"
    and tree: "tree_ok s" and ok: "ledger_ok s" and stored: "get_order s (ord_id ord0) = Some ord0"
    and ord: "ord = attach_account attach ord0" and c: "c = ao_organization_id r"
  shows "tree_ok s' \<and> ledger_ok s' \<and> get_organization s c = None"
    and "\<exists>org. get_organization s' c = Some org \<and> org_parent_id org = Some w \<and> org_slug org = ord_slug ord \<and>
      org_credit_limit_irr org = ord_credit_limit_irr ord \<and> org_status org = ''active''"
    and "\<exists>es. edges s w = Inr es \<and> edges s' c = Inr ((c, w, ord_price_per_gib_irr ord) # es)"
    and "find_transaction s (order_key ord) = None \<Longrightarrow> wallet_of s' v = wallet_of s v +
      (if v = Org c then ord_amount_irr ord else 0) - (if v = SYSTEM then ord_amount_irr ord else 0)"
    and "ao_balance_irr r = wallet_of s' (Org c)"
    and "\<exists>m. memberships s' = memberships s @ [m] \<and> mem_organization_id m = c \<and>
      mem_actor_id m = ord_actor_id ord \<and> mem_role m = ''customer'' \<and> mem_status m = ''active''"
    and "ao_bound r \<longleftrightarrow> (\<exists>b. bindings s' = bindings s @ [b] \<and> bnd_organization_id b = c \<and>
      bnd_panel_id b = ord_panel_id ord \<and> Some (bnd_pg_admin_id b) = ord_pg_admin_id ord)"
    and "get_order s' (ord_id ord0) = Some (mark_approved c reviewer now ord)"
    and "panel_is_mine s (ord_panel_id ord) w" "int (depth_of s' c) \<le> d"
    and "panel_orders s' = modify ord_id (ord_id ord0) (mark_approved c reviewer now \<circ> attach_account attach) (panel_orders s)"
proof -
  from run obtain p parent child s1 s2 tx s3 where 0: "panel_is_mine s (ord_panel_id ord) w"
    "get_panel s (ord_panel_id ord) = Some p" "get_organization s w = Some parent" "int (depth_of s w) + 1 \<le> d"
    and add: "add_organization now (ord_business_name ord) (ord_slug ord) (Some w) (ord_credit_limit_irr ord)
       (Some (ord_price_per_gib_irr ord)) (on_order (ord_id ord) (attach_account attach) s) = (child, s1)"
    and bind: "bind_customer ord (org_id child) p (add_membership now (org_id child) (ord_actor_id ord) ''customer'' s1) = (Inr (), s2)"
    and pay: "transfer now SYSTEM (Org (org_id child)) (ord_amount_irr ord) (order_key ord) ''order-funded''
       (dec (ord_id ord)) False (Some reviewer) s2 = (Inr tx, s3)"
    and fin: "finish_approval now reviewer child p ord s3 = (Inr r, s')"
    unfolding ord by (rule approve_Inr) blast
  let ?s0 = "on_order (ord_id ord) (attach_account attach) s"
  note made = add_organization_state [OF add] and rest = add_organization_rest [OF add]
    and closed = finish_approval_result [OF fin]
  have tree0: "tree_ok ?s0" by (rule same_tree_ok [OF on_order_tree tree])
  have id: "c = org_id child" "org_id child = next_uid s" using c closed(1) made(2) by simp_all
  have older: "parents_older ?s0" using tree0 by (simp add: tree_ok_def)
  have parent: "get_organization ?s0 q \<noteq> None \<and> Some (ord_price_per_gib_irr ord) \<noteq> None" if "Some w = Some q" for q
    using that 0(3) by simp
  have tree1: "tree_ok s1" by (rule add_organization_tree [OF add tree0 parent])
  let ?m = "\<lparr>mem_id = next_uid s1, mem_organization_id = org_id child, mem_actor_id = ord_actor_id ord,
    mem_role = ''customer'', mem_status = ''active'', mem_created_at = now\<rparr>"
  from bind_customer_Inr [OF bind] obtain bs n where s2: "s2 = (add_membership now (org_id child) (ord_actor_id ord)
      ''customer'' s1)\<lparr>bindings := bindings s1 @ bs, next_uid := n\<rparr>" "next_uid s1 \<le> n"
    and bs: "case ord_pg_admin_id ord of None \<Rightarrow> bs = [] | Some admin \<Rightarrow> \<exists>b. bs = [b] \<and>
       bnd_organization_id b = org_id child \<and> bnd_panel_id b = pan_id p \<and> bnd_pg_admin_id b = admin \<and>
       bnd_status b = ''active''"
    by (auto simp: add_membership_def)
  have st2: "memberships s2 = memberships s1 @ [?m]" "bindings s2 = bindings s1 @ bs" "accounts s2 = accounts s1"
    "transactions s2 = transactions s1" "panel_orders s2 = panel_orders s1" "same_tree s1 s2" "next_uid s1 \<le> next_uid s2"
    using s2 by (simp_all add: add_membership_def same_tree_def)
  note only = ledger_only_simps [OF transfer_only [OF pay]]
  have "same_tree s2 s3" using only by (simp add: same_tree_def)
  then have same: "same_tree s1 s'" using st2(6) closed(10) by (blast intro: same_tree_trans)
  have ok1: "ledger_ok s1" by (rule rest(11)) (simp add: on_order_ledger ok)
  have ok2: "ledger_ok s2" by (rule ledger_ok_same [OF ok1]) (use st2 in simp_all)
  have ok3: "ledger_ok s3" using transfer_ledger_ok [OF ok2] pay by (metis snd_conv)
  have "ledger_ok s'" by (rule ledger_ok_same [OF ok3]) (use closed in simp_all)
  then show "tree_ok s' \<and> ledger_ok s' \<and> get_organization s c = None"
    using same_tree_ok [OF same tree1] add_organization_get(2) [OF add older] id by simp
  show "\<exists>org. get_organization s' c = Some org \<and> org_parent_id org = Some w \<and> org_slug org = ord_slug ord \<and>
      org_credit_limit_irr org = ord_credit_limit_irr ord \<and> org_status org = ''active''"
    using same add_organization_get(1) [OF add older] made id by (simp add: same_tree_def)
  show "\<exists>es. edges s w = Inr es \<and> edges s' c = Inr ((c, w, ord_price_per_gib_irr ord) # es)"
    using add_organization_edges [OF add tree0 parent] id
    by (auto simp: same_tree_edges [OF same] same_tree_edges [OF on_order_tree])
  show "int (depth_of s' c) \<le> d"
    using add_organization_edges [OF add tree0 parent] id 0(4)
    by (auto simp: same_tree_depth [OF same] same_tree_depth [OF on_order_tree])
  have w2: "wallet_of s2 v = wallet_of s v" for v using rest(10) st2(3) by (simp add: wallet_of_def)
  have no2: "find_transaction s2 (order_key ord) = find_transaction s (order_key ord)"
    using rest(9) st2(4) by (simp add: find_transaction_def)
  show "find_transaction s (order_key ord) = None \<Longrightarrow> wallet_of s' v = wallet_of s v +
      (if v = Org c then ord_amount_irr ord else 0) - (if v = SYSTEM then ord_amount_irr ord else 0)"
    by (rule transfer_outcome [OF ok2 pay]) (use w2 no2 closed(12) id in simp_all)
  show "ao_balance_irr r = wallet_of s' (Org c)" using closed(4) id by simp
  show "\<exists>m. memberships s' = memberships s @ [m] \<and> mem_organization_id m = c \<and>
      mem_actor_id m = ord_actor_id ord \<and> mem_role m = ''customer'' \<and> mem_status m = ''active''"
    using closed(6) only st2(1) rest(5) id by simp
  have "bindings s' = bindings s @ bs" using closed(7) only st2(2) rest(3) by simp
  moreover have "pan_id p = ord_panel_id ord" using lookup_SomeD [OF 0(2)] by simp
  ultimately show "ao_bound r \<longleftrightarrow> (\<exists>b. bindings s' = bindings s @ [b] \<and> bnd_organization_id b = c \<and>
      bnd_panel_id b = ord_panel_id ord \<and> Some (bnd_pg_admin_id b) = ord_pg_admin_id ord)"
    using bs closed(2) id by (auto split: option.splits)
  show orders: "panel_orders s' = modify ord_id (ord_id ord0) (mark_approved c reviewer now \<circ> attach_account attach) (panel_orders s)"
    using closed(5) only st2(5) rest(6) id
    by (simp add: ord modify_def comp_def)
  show "get_order s' (ord_id ord0) = Some (mark_approved c reviewer now ord)"
    unfolding orders using stored by (subst lookup_modify) (simp_all add: mark_approved_def ord)
  show "panel_is_mine s (ord_panel_id ord) w" by (rule 0(1))
qed

section \<open>The routes as steps\<close>

datatype order_op =
    Place "string list" int order_in identity
  | Confirm int uid identity
  | Declare int uid identity
  | Cancel int uid identity
  | Quote int uid quote_in identity
  | Reject int uid string identity
  | Approve int uid approve_in identity

fun order_step :: "string \<Rightarrow> int \<Rightarrow> order_op \<Rightarrow> db \<Rightarrow> db" where
  "order_step root_env d (Place tokens now x ident) s = snd (create_order root_env tokens now x ident s)"
| "order_step root_env d (Confirm now i ident) s = snd (confirm_order root_env now i ident s)"
| "order_step root_env d (Declare now i ident) s = snd (declare_payment root_env now i ident s)"
| "order_step root_env d (Cancel now i ident) s = snd (cancel_order root_env now i ident s)"
| "order_step root_env d (Quote now i x ident) s = snd (quote_order root_env now i x ident s)"
| "order_step root_env d (Reject now i reason ident) s = snd (reject_order root_env now i reason ident s)"
| "order_step root_env d (Approve now i x ident) s = snd (approve_order root_env d now i x ident s)"

lemma create_panel_order_Inr:
  assumes "create_panel_order tokens now telegram_id display_name via x s = (Inr ord, s')"
  obtains p pl a s1 slug where "get_panel s (oi_panel_id x) = Some p" "on_sale p"
    "priced_plan p (oi_plan_id x) s = (Inr pl, s)"
    "find_or_add_actor telegram_id (if oi_business_name x = [] then display_name else oi_business_name x) s = (a, s1)"
    "ord = (let plain = new_order now (next_uid s1) (act_id a) (pan_id p) slug x
       in case pl of None \<Rightarrow> plain | Some q \<Rightarrow> price_by_plan q plain)"
    "panel_orders s' = panel_orders s @ [ord]" "ord_id ord = next_uid s1" "desk_only s s'"
proof -
  have plan: "s1 = s" if "priced_plan p i s = (Inr pl, s1)" for p i pl s1
    using that by (auto simp: priced_plan_def split: option.splits if_splits)
  from assms obtain p where p: "get_panel s (oi_panel_id x) = Some p" "on_sale p"
    by (auto simp: create_panel_order_def bindr_Inr_iff split: option.splits)
  with assms obtain pl where pl: "priced_plan p (oi_plan_id x) s = (Inr pl, s)"
    by (auto simp: create_panel_order_def bindr_Inr_iff dest: plan split: option.splits)
  obtain a s1 where a: "find_or_add_actor telegram_id
      (if oi_business_name x = [] then display_name else oi_business_name x) s = (a, s1)" by fastforce
  have unchanged: "s2 = s1" if "unique_order_slug tokens s1 = (Inr slug, s2)" for slug s2
    using that by (simp add: unique_order_slug_def)
  from assms p pl a obtain slug s2 where slug: "unique_order_slug tokens s1 = (Inr slug, s2)"
    by (cases "unique_order_slug tokens s1"; cases "fst (unique_order_slug tokens s1)")
      (auto simp: create_panel_order_def bindr_require require_def)
  note slug' = slug [unfolded unchanged [OF slug]]
  let ?plain = "new_order now (next_uid s1) (act_id a) (pan_id p) slug x"
  have ord: "ord = (case pl of None \<Rightarrow> ?plain | Some q \<Rightarrow> price_by_plan q ?plain)"
    and s': "\<exists>row. s' = s1\<lparr>panel_orders := panel_orders s1 @ [ord], next_uid := Suc (next_uid s1),
        audit_logs := audit_logs s1 @ [row]\<rparr>"
    using assms p pl a slug'
    by (auto simp: create_panel_order_def bindr_require bindr_stored require_def Let_def audit_def draw_def split: if_splits)
  obtain A N where s1: "s1 = s\<lparr>actors := A, next_uid := N\<rparr>" "next_uid s \<le> N"
  proof (cases "lookup act_telegram_id telegram_id (actors s)")
    case None
    with a that show thesis by (auto simp: find_or_add_actor_def add_actor_def Let_def draw_def)
  next
    case (Some q)
    with a that [of "next_uid s" "actors s"] show thesis by (simp add: find_or_add_actor_def)
  qed
  from s' obtain row where "s' = s1\<lparr>panel_orders := panel_orders s1 @ [ord], next_uid := Suc (next_uid s1),
      audit_logs := audit_logs s1 @ [row]\<rparr>" by blast
  with s1 have only: "desk_only s s'" "panel_orders s' = panel_orders s @ [ord]"
    by (simp_all add: desk_only_def)
  have "ord_id ord = next_uid s1" unfolding ord by (simp add: new_order_def price_by_plan_def split: option.split)
  with that [OF p pl a _ only(2) _ only(1), of slug] ord show thesis by (simp add: Let_def)
qed

lemma desk_only_refl: "desk_only s s"
  and desk_only_trans: "desk_only s t \<Longrightarrow> desk_only t u \<Longrightarrow> desk_only s u"
proof -
  show "desk_only s s" by (simp add: desk_only_def)
  assume st: "desk_only s t" and tu: "desk_only t u"
  from st have t: "t = s\<lparr>panel_orders := panel_orders t, actors := actors t, audit_logs := audit_logs t, next_uid := next_uid t\<rparr>"
    by (simp add: desk_only_def)
  from tu have "u = t\<lparr>panel_orders := panel_orders u, actors := actors u, audit_logs := audit_logs u, next_uid := next_uid u\<rparr>"
    by (simp add: desk_only_def)
  then have "u = s\<lparr>panel_orders := panel_orders u, actors := actors u, audit_logs := audit_logs u, next_uid := next_uid u\<rparr>"
    by (subst (asm) t) simp
  with st tu show "desk_only s u" by (simp add: desk_only_def)
qed

lemma desk_only_order: "desk_only s (audit t a b c d e f (on_order i g s))"
  by (simp add: desk_only_def audit_def on_order_def)

text \<open>The three groups of routes, by what they change.\<close>

lemma create_order_moves:
  "orders_moved s (snd (create_order root_env tokens now x ident s)) \<and>
   desk_only s (snd (create_order root_env tokens now x ident s))"
  unfolding create_order_def
proof (rule transact_keeps)
  show "orders_moved s s \<and> desk_only s s" by (simp add: orders_moved_refl desk_only_refl)
next
  fix v s'
  assume "bindr (order_permission root_env ident ''order_panel'' s) (\<lambda>_ s.
    bindr (create_panel_order tokens now (user_id ident) (first_name ident) ''webapp'' x s) (\<lambda>ord s.
      returned (order_row s ord) s)) = (Inr v, s')"
  then obtain ord s1 where perm: "order_permission root_env ident ''order_panel'' s = (Inr (), s1)"
    and run: "create_panel_order tokens now (user_id ident) (first_name ident) ''webapp'' x s1 = (Inr ord, s')"
    by (auto simp: bindr_Inr_iff)
  have "s1 = s" using perm by (auto simp: order_permission_def split: option.splits prod.splits)
  with run show "orders_moved s s' \<and> desk_only s s'"
    by (elim create_panel_order_Inr) (blast intro: orders_moved_append)
qed

lemma customer_route_moves:
  assumes to: "to_status = ''confirmed'' \<or> to_status = ''payment_declared'' \<or> to_status = ''cancelled''"
  shows "orders_moved s (snd (customer_route to_status root_env now i ident s)) \<and>
    desk_only s (snd (customer_route to_status root_env now i ident s))"
proof (cases "customer_route to_status root_env now i ident s")
  case (Pair r s')
  show ?thesis
  proof (cases r)
    case (Inl e)
    with Pair have "s' = s" using transact_error unfolding customer_route_def by (metis fst_conv snd_conv)
    with Pair show ?thesis by (simp add: orders_moved_refl desk_only_refl)
  next
    case (Inr u)
    from Pair [unfolded Inr] show ?thesis
    proof (rule customer_route_Inr)
      fix ord a action
      assume *: "get_order s i = Some ord" "to_status \<in> set (ORDER_FLOW (ord_status ord))"
        and s': "s' = audit now action ''panel_order'' (Some i) (Some (act_id a)) (ord_organization_id ord)
        (if to_status = ''payment_declared'' then [(''amount_irr'', JInt (ord_amount_irr ord))] else [])
        (on_order i (\<lambda>r. r\<lparr>ord_status := to_status\<rparr>) s)"
      have "orders_moved s s'"
        by (rule orders_moved_modify [OF *(1), where f = "\<lambda>r. r\<lparr>ord_status := to_status\<rparr>"])
          (use * in \<open>simp_all add: s' order_moved_def identity_kept_def terms_kept_def\<close>)
      then show ?thesis using Pair s' by (simp add: desk_only_order)
    qed
  qed
qed

lemma seller_route_moves:
  assumes decide: "\<And>reviewer w ord v s s'. decide reviewer w ord s = (Inr v, s') \<Longrightarrow> get_order s i = Some ord \<Longrightarrow>
      to_status \<in> set (ORDER_FLOW (ord_status ord)) \<Longrightarrow> orders_moved s s' \<and> Q s s'"
    and Q: "Q s s"
  shows "orders_moved s (snd (seller_route to_status root_env decide i ident s)) \<and>
    Q s (snd (seller_route to_status root_env decide i ident s))"
proof (cases "seller_route to_status root_env decide i ident s")
  case (Pair r s')
  show ?thesis
  proof (cases r)
    case (Inl e)
    with Pair have "s' = s" using transact_error unfolding seller_route_def by (metis fst_conv snd_conv)
    with Pair Q show ?thesis by (simp add: orders_moved_refl)
  next
    case (Inr u)
    from Pair [unfolded Inr] show ?thesis by (rule seller_route_Inr) (use decide Pair in auto)
  qed
qed

lemma quote_moves:
  assumes "quote_panel_order now x reviewer w ord s = (Inr u, s')" "get_order s i = Some ord"
  shows "orders_moved s s' \<and> desk_only s s'"
proof -
  have id: "ord_id ord = i" using assms(2) by (auto dest: lookup_SomeD)
  from assms(1) have flow: "''quoted'' \<in> set (ORDER_FLOW (ord_status ord))"
    and s': "desk_only s s'" "panel_orders s' = modify ord_id i (quote_terms x) (panel_orders s)"
    by (auto simp: quote_panel_order_def assert_order_seller_def require_transition_def bindr_Inr_iff id desk_only_order)
  have "ord_status ord = ''pending''" using flow by (auto simp: ORDER_FLOW_def split: if_splits option.splits)
  then have "order_moved ord (quote_terms x ord)"
    by (simp add: order_moved_def quote_terms_def identity_kept_def ORDER_FLOW_def)
  with s' assms(2) show ?thesis
    by (auto intro!: orders_moved_modify [where f = "quote_terms x"] simp: quote_terms_def)
qed

lemma reject_moves:
  assumes "reject_panel_order now reason reviewer w ord s = (Inr u, s')" "get_order s i = Some ord"
  shows "orders_moved s s' \<and> desk_only s s'"
proof -
  let ?f = "mark_rejected reason reviewer now"
  have id: "ord_id ord = i" using assms(2) by (auto dest: lookup_SomeD)
  from assms(1) have flow: "''rejected'' \<in> set (ORDER_FLOW (ord_status ord))"
    and s': "desk_only s s'" "panel_orders s' = modify ord_id i ?f (panel_orders s)"
    by (auto simp: reject_panel_order_def assert_order_seller_def require_transition_def bindr_Inr_iff id desk_only_order)
  have "order_moved ord (?f ord)"
    using flow by (simp add: order_moved_def identity_kept_def terms_kept_def mark_rejected_def)
  with s' assms(2) show ?thesis
    by (auto intro!: orders_moved_modify [where f = ?f] simp: mark_rejected_def)
qed

lemma approve_marks:
  assumes "approve_panel_order d now attach reviewer w ord s = (Inr r, s')" "ord_id ord = i"
  shows "panel_is_mine s (ord_panel_id ord) w \<and>
    (\<exists>c. panel_orders s' = modify ord_id i (mark_approved c reviewer now \<circ> attach_account attach) (panel_orders s)) \<and>
    plans s' = plans s \<and> plan_categories s' = plan_categories s \<and> panels s' = panels s \<and>
    panel_owners s' = panel_owners s \<and> next_uid s \<le> next_uid s'"
proof (rule approve_Inr [OF assms(1)])
  fix p parent child s1 s2 tx s3 ord'
  assume o: "ord' = attach_account attach ord" and mine: "panel_is_mine s (ord_panel_id ord') w"
    and add: "add_organization now (ord_business_name ord') (ord_slug ord') (Some w) (ord_credit_limit_irr ord')
       (Some (ord_price_per_gib_irr ord')) (on_order (ord_id ord') (attach_account attach) s) = (child, s1)"
    and bind: "bind_customer ord' (org_id child) p (add_membership now (org_id child) (ord_actor_id ord') ''customer'' s1) = (Inr (), s2)"
    and pay: "transfer now SYSTEM (Org (org_id child)) (ord_amount_irr ord') (order_key ord') ''order-funded''
       (dec (ord_id ord')) False (Some reviewer) s2 = (Inr tx, s3)"
    and fin: "finish_approval now reviewer child p ord' s3 = (Inr r, s')"
  note frame = finish_approval_result [OF fin] ledger_only_simps [OF transfer_only [OF pay]] add_organization_rest [OF add]
  have s2: "panel_orders s2 = panel_orders s1" "plans s2 = plans s1" "plan_categories s2 = plan_categories s1"
    "panels s2 = panels s1" "panel_owners s2 = panel_owners s1" "next_uid s1 \<le> next_uid s2"
    using bind_customer_Inr [OF bind] by (auto simp: add_membership_def)
  then have "panel_orders s' = modify ord_id i (mark_approved (org_id child) reviewer now \<circ> attach_account attach) (panel_orders s)"
    using frame by (simp add: o assms(2) modify_def comp_def)
  moreover have "next_uid s \<le> next_uid s'" using frame s2(6) add_organization_state(9) [OF add] by simp
  ultimately show ?thesis using mine o s2 frame by auto
qed

lemma approve_moves:
  assumes run: "approve_panel_order d now attach reviewer w ord s = (Inr r, s')" and get: "get_order s i = Some ord"
    and flow: "''approved'' \<in> set (ORDER_FLOW (ord_status ord))"
  shows "orders_moved s s'"
proof -
  have id: "ord_id ord = i" using get by (auto dest: lookup_SomeD)
  from approve_marks [OF run id] obtain c where
    c: "panel_orders s' = modify ord_id i (mark_approved c reviewer now \<circ> attach_account attach) (panel_orders s)" by blast
  have "order_moved ord ((mark_approved c reviewer now \<circ> attach_account attach) ord)"
    using flow by (simp add: order_moved_def identity_kept_def terms_kept_def mark_approved_def)
  with c get show ?thesis
    by (intro orders_moved_modify [where f = "mark_approved c reviewer now \<circ> attach_account attach"])
      (simp_all add: mark_approved_def)
qed

lemma customer_steps_move:
  "orders_moved s (snd (confirm_order root_env now i ident s)) \<and> desk_only s (snd (confirm_order root_env now i ident s))"
  "orders_moved s (snd (declare_payment root_env now i ident s)) \<and> desk_only s (snd (declare_payment root_env now i ident s))"
  "orders_moved s (snd (cancel_order root_env now i ident s)) \<and> desk_only s (snd (cancel_order root_env now i ident s))"
  unfolding confirm_order_def declare_payment_def cancel_order_def by (simp_all add: customer_route_moves)

lemma seller_steps_move:
  shows quote_order_moves: "orders_moved s (snd (quote_order root_env now i x ident s)) \<and>
      desk_only s (snd (quote_order root_env now i x ident s))"
    and reject_order_moves: "orders_moved s (snd (reject_order root_env now i reason ident s)) \<and>
      desk_only s (snd (reject_order root_env now i reason ident s))"
    and approve_order_moves: "orders_moved s (snd (approve_order root_env d now i y ident s)) \<and> True"
proof -
  show "orders_moved s (snd (quote_order root_env now i x ident s)) \<and> desk_only s (snd (quote_order root_env now i x ident s))"
    unfolding quote_order_def by (rule seller_route_moves) (auto simp: bindr_Inr_iff dest: quote_moves intro: desk_only_refl)
  show "orders_moved s (snd (reject_order root_env now i reason ident s)) \<and>
      desk_only s (snd (reject_order root_env now i reason ident s))"
    unfolding reject_order_def by (rule seller_route_moves) (auto dest: reject_moves intro: desk_only_refl)
  show "orders_moved s (snd (approve_order root_env d now i y ident s)) \<and> True"
    unfolding approve_order_def by (rule seller_route_moves [where Q = "\<lambda>_ _. True"]) (auto dest: approve_moves)
qed

lemma order_step_moves: "orders_moved s (order_step root_env d x s)"
  by (cases x) (simp_all add: create_order_moves customer_steps_move quote_order_moves reject_order_moves approve_order_moves [simplified])

lemma order_step_desk: "\<forall>now i y ident. x \<noteq> Approve now i y ident \<Longrightarrow> desk_only s (order_step root_env d x s)"
  by (cases x) (simp_all add: create_order_moves customer_steps_move quote_order_moves reject_order_moves)

section \<open>Properties\<close>

lemma order_moved_trace:
  assumes "order_moved a b"
  shows "\<exists>bs. order_flow.walk (ord_status a) bs \<and> ord_status b = last (ord_status a # bs)"
proof (cases "b = a")
  case True
  then show ?thesis by (intro exI [of _ "[]"]) simp
next
  case False
  with assms show ?thesis by (intro exI [of _ "[ord_status b]"]) (simp add: order_moved_def)
qed

lemma walk_append:
  "order_flow.walk a bs \<Longrightarrow> order_flow.walk (last (a # bs)) cs \<Longrightarrow> order_flow.walk a (bs @ cs)"
  by (induction bs arbitrary: a) (auto split: if_splits)

lemma kept_refl [simp]: "identity_kept a a" "terms_kept a a"
  by (simp_all add: identity_kept_def terms_kept_def)

lemma kept_trans:
  "identity_kept a b \<Longrightarrow> identity_kept b c \<Longrightarrow> identity_kept a c"
  "terms_kept a b \<Longrightarrow> terms_kept b c \<Longrightarrow> terms_kept a c"
  by (simp_all add: identity_kept_def terms_kept_def)

lemma never_back_to_pending: "\<not> ''pending'' \<in> set (ORDER_FLOW st)"
  by (auto simp: ORDER_FLOW_def split: option.splits if_splits)

text \<open>
  C21: an order only moves forward, and its price never changes after it was quoted. Whatever requests
  the routes of the funnel serve, in any order, the statuses a stored order goes through are a walk of
  \<open>ORDER_FLOW\<close>, so there are at most four changes of status and an approved, rejected or cancelled order
  stays exactly as it is; who ordered what never changes, and amount, credit, price per GiB and payment
  instructions are frozen as soon as the order has left \<open>pending\<close>.
\<close>

theorem orders_only_move_forward:
  assumes "get_order s i = Some a"
  shows "\<exists>b bs. get_order (fold (order_step root_env d) ops s) i = Some b \<and>
    order_flow.walk (ord_status a) bs \<and> ord_status b = last (ord_status a # bs) \<and> length bs \<le> 4 \<and>
    identity_kept a b \<and> (ord_status a \<noteq> ''pending'' \<longrightarrow> terms_kept a b) \<and>
    (ord_status a \<in> {''approved'', ''rejected'', ''cancelled''} \<longrightarrow> b = a)"
proof -
  have "\<exists>b bs. get_order (fold (order_step root_env d) ops s) i = Some b \<and>
    order_flow.walk (ord_status a) bs \<and> ord_status b = last (ord_status a # bs) \<and>
    identity_kept a b \<and> (ord_status a \<noteq> ''pending'' \<longrightarrow> terms_kept a b) \<and>
    (ORDER_FLOW (ord_status a) = [] \<longrightarrow> b = a)"
    using assms
  proof (induction ops arbitrary: s a)
    case Nil
    then show ?case by (intro exI [of _ a] exI [of _ "[]"]) simp
  next
    case (Cons x ops)
    from order_step_moves Cons.prems obtain b where b: "get_order (order_step root_env d x s) i = Some b"
      and mv: "order_moved a b" unfolding orders_moved_def by blast
    from order_moved_trace [OF mv] obtain bs where bs: "order_flow.walk (ord_status a) bs"
      "ord_status b = last (ord_status a # bs)" by blast
    from Cons.IH [OF b] obtain c cs where c: "get_order (fold (order_step root_env d) ops (order_step root_env d x s)) i = Some c"
      "order_flow.walk (ord_status b) cs" "ord_status c = last (ord_status b # cs)" "identity_kept b c"
      "ord_status b \<noteq> ''pending'' \<longrightarrow> terms_kept b c" "ORDER_FLOW (ord_status b) = [] \<longrightarrow> c = b" by blast
    have walk: "order_flow.walk (ord_status a) (bs @ cs)" "ord_status c = last (ord_status a # bs @ cs)"
      using walk_append [OF bs(1)] bs(2) c(2,3) by (auto split: if_splits)
    have "identity_kept a c" using mv c(4) by (auto simp: order_moved_def intro: kept_trans)
    moreover have "ord_status a \<noteq> ''pending'' \<longrightarrow> terms_kept a c"
      using mv c(5) never_back_to_pending by (fastforce simp: order_moved_def intro: kept_trans)
    moreover have "ORDER_FLOW (ord_status a) = [] \<longrightarrow> c = a" using mv c(6) by (auto simp: order_moved_def)
    ultimately show ?case using c(1) walk by (intro exI [of _ c] exI [of _ "bs @ cs"]) simp
  qed
  then obtain b bs where *: "get_order (fold (order_step root_env d) ops s) i = Some b"
    "order_flow.walk (ord_status a) bs" "ord_status b = last (ord_status a # bs)"
    "identity_kept a b" "ord_status a \<noteq> ''pending'' \<longrightarrow> terms_kept a b" "ORDER_FLOW (ord_status a) = [] \<longrightarrow> b = a" by blast
  moreover have "length bs \<le> 4" using order_flow.walk_length [OF *(2)] by simp
  moreover have "ord_status a \<in> {''approved'', ''rejected'', ''cancelled''} \<longrightarrow> b = a"
    using *(6) by (auto simp: ORDER_FLOW_def)
  ultimately show ?thesis by blast
qed

lemma approved_from: "''approved'' \<in> set (ORDER_FLOW st) \<longleftrightarrow> st = ''payment_declared''"
  by (auto simp: ORDER_FLOW_def split: if_splits option.splits)

lemma terminal_is_refused:
  assumes "get_order s i = Some ord" and "to_status \<notin> set (ORDER_FLOW (ord_status ord))"
  shows "snd (seller_route to_status root_env decide i ident s) = s \<and>
    (\<exists>e. fst (seller_route to_status root_env decide i ident s) = Inl e)"
proof (cases "seller_route to_status root_env decide i ident s")
  case (Pair r s')
  show ?thesis
  proof (cases r)
    case (Inl e)
    with Pair show ?thesis using transact_error unfolding seller_route_def by (metis fst_conv snd_conv)
  next
    case (Inr u)
    from Pair [unfolded Inr] show ?thesis by (rule seller_route_Inr) (use assms in simp)
  qed
qed

text \<open>
  C22: approving a paid order opens exactly one account, funded with exactly the amount that was quoted.
  It succeeds only for a reviewer whose organization owns the ordered panel and only after the payment
  was declared; it creates a new organization under the seller with the ordered slug and the quoted
  credit, one contract above the seller at the quoted price, one customer membership for the
  requester, and moves the amount from \<open>SYSTEM\<close> to the new wallet and nothing else; tree and ledger stay
  correct, and a second approval of the order is refused without effect. The tree and the ledger are in order
  before, and no transaction bears the idempotency key of this order yet.
\<close>

theorem approval_opens_one_funded_account:
  assumes run: "approve_order root_env d now i x ident s = (Inr r, s')" and tree: "tree_ok s" and ok: "ledger_ok s"
    and fresh: "find_transaction s (''panel-order:'' @ dec i) = None" and c: "c = ao_organization_id r"
  shows "\<exists>a m org ord child. manager root_env (user_id ident) ''decide_orders'' s = (Inr (a, m, org), s) \<and>
    get_order s i = Some ord \<and> ord_status ord = ''payment_declared'' \<and> panel_is_mine s (ord_panel_id ord) (org_id org) \<and>
    get_organization s c = None \<and> get_organization s' c = Some child \<and> org_parent_id child = Some (org_id org) \<and>
    org_slug child = ord_slug ord \<and> org_credit_limit_irr child = ord_credit_limit_irr ord \<and>
    (\<exists>es. edges s (org_id org) = Inr es \<and> edges s' c = Inr ((c, org_id org, ord_price_per_gib_irr ord) # es)) \<and>
    (\<forall>v. wallet_of s' v = wallet_of s v + (if v = Org c then ord_amount_irr ord else 0)
       - (if v = SYSTEM then ord_amount_irr ord else 0)) \<and>
    (\<exists>k. memberships s' = memberships s @ [k] \<and> mem_organization_id k = c \<and> mem_actor_id k = ord_actor_id ord \<and>
       mem_role k = ''customer'') \<and>
    tree_ok s' \<and> ledger_ok s' \<and>
    snd (approve_order root_env d later i y other s') = s' \<and>
    (\<exists>e. fst (approve_order root_env d later i y other s') = Inl e)"
proof -
  from run obtain a m org ord where man: "manager root_env (user_id ident) ''decide_orders'' s = (Inr (a, m, org), s)"
    and get: "get_order s i = Some ord" and id: "ord_id ord = i" and flow: "''approved'' \<in> set (ORDER_FLOW (ord_status ord))"
    and step: "approve_panel_order d now (Some x) (act_id a) (org_id org) ord s = (Inr r, s')"
    unfolding approve_order_def by (rule seller_route_Inr)
  note made = approval_made [OF step tree ok _ refl c, unfolded id, OF get]
  have stored: "get_order s' i = Some (mark_approved c (act_id a) now (attach_account (Some x) ord))" by (rule made(8))
  have "''approved'' \<notin> set (ORDER_FLOW (ord_status (mark_approved c (act_id a) now (attach_account (Some x) ord))))"
    by (simp add: mark_approved_def approved_from)
  note again = terminal_is_refused [OF stored this, of root_env "approve_panel_order d later (Some y)" other]
  have key: "find_transaction s (order_key (attach_account (Some x) ord)) = None"
    using fresh id by (simp add: order_key_def)
  from made(2) obtain child where child: "get_organization s' c = Some child" "org_parent_id child = Some (org_id org)"
    "org_slug child = ord_slug ord" "org_credit_limit_irr child = ord_credit_limit_irr ord" by auto
  show ?thesis
    using man get flow child made(1,3,6,9) made(4) [OF key] again
    by (intro exI [of _ a] exI [of _ m] exI [of _ org] exI [of _ ord] exI [of _ child])
      (auto simp: approved_from approve_order_def)
qed

text \<open>
  C23: nothing is minted before an approval. Any sequence of requests to the funnel without an approval -
  orders placed, confirmed, declared paid, cancelled, quoted, rejected, or refused - leaves every table
  but the orders, the registered actors and the audit trail as it was: no organization, contract,
  account, ledger transaction, membership, binding or event comes out of chat traffic.
\<close>

theorem nothing_is_minted_before_approval:
  assumes "\<And>x now i y ident. x \<in> set ops \<Longrightarrow> x \<noteq> Approve now i y ident"
  shows "desk_only s (fold (order_step root_env d) ops s)"
  using assms
proof (induction ops arbitrary: s)
  case Nil
  then show ?case by (simp add: desk_only_refl)
next
  case (Cons x ops)
  have "desk_only s (order_step root_env d x s)" by (rule order_step_desk) (use Cons.prems in auto)
  moreover have "desk_only (order_step root_env d x s) (fold (order_step root_env d) ops (order_step root_env d x s))"
    by (rule Cons.IH) (use Cons.prems in auto)
  ultimately show ?case by (auto intro: desk_only_trans)
qed

lemma customer_route_changed:
  assumes "get_order s i = Some a" and "get_order (snd (customer_route to_status root_env now j ident s)) i = Some b"
    and "b \<noteq> a"
  shows "j = i \<and> ord_status b = to_status \<and>
    (\<exists>q. requester_actor s (user_id ident) = Some q \<and> ord_actor_id a = act_id q)"
proof (cases "customer_route to_status root_env now j ident s")
  case (Pair r s')
  show ?thesis
  proof (cases r)
    case (Inl e)
    with Pair have "s' = s" using transact_error unfolding customer_route_def by (metis fst_conv snd_conv)
    with Pair assms show ?thesis by simp
  next
    case (Inr u)
    from Pair [unfolded Inr] show ?thesis
      by (rule customer_route_Inr) (use assms Pair in \<open>auto simp: lookup_modify split: if_splits\<close>)
  qed
qed

lemma seller_route_changed:
  assumes "get_order s i = Some a" and "get_order (snd (seller_route to_status root_env decide j ident s)) i = Some b"
    and "b \<noteq> a"
    and decide: "\<And>reviewer w ord v s'. decide reviewer w ord s = (Inr v, s') \<Longrightarrow> get_order s j = Some ord \<Longrightarrow>
      to_status \<in> set (ORDER_FLOW (ord_status ord)) \<Longrightarrow>
      panel_is_mine s (ord_panel_id ord) w \<and>
      (\<exists>f. panel_orders s' = modify ord_id j f (panel_orders s) \<and> (\<forall>q. ord_id (f q) = ord_id q \<and> ord_plan_id (f q) = ord_plan_id q \<and> ord_status (f q) = to_status))"
  shows "j = i \<and> ord_status b = to_status \<and> (\<exists>q m org.
    manager root_env (user_id ident) ''decide_orders'' s = (Inr (q, m, org), s) \<and>
    panel_is_mine s (ord_panel_id a) (org_id org))"
proof (cases "seller_route to_status root_env decide j ident s")
  case (Pair r s')
  show ?thesis
  proof (cases r)
    case (Inl e)
    with Pair have "s' = s" using transact_error unfolding seller_route_def by (metis fst_conv snd_conv)
    with Pair assms show ?thesis by simp
  next
    case (Inr u)
    from Pair [unfolded Inr] show ?thesis
    proof (rule seller_route_Inr)
      fix q m org ord
      assume man: "manager root_env (user_id ident) ''decide_orders'' s = (Inr (q, m, org), s)"
        and ord: "get_order s j = Some ord" "to_status \<in> set (ORDER_FLOW (ord_status ord))"
        and run: "decide (act_id q) (org_id org) ord s = (Inr u, s')"
      from decide [OF run ord] obtain f where mine: "panel_is_mine s (ord_panel_id ord) (org_id org)"
        and f: "panel_orders s' = modify ord_id j f (panel_orders s)" "\<And>q. ord_id (f q) = ord_id q" "\<And>q. ord_status (f q) = to_status"
        by blast
      have "j = i" using assms(1-3) Pair f(1,2) by (auto simp: lookup_modify split: if_splits)
      then show ?thesis using assms(1-3) Pair f ord(1) mine man by (auto simp: lookup_modify split: if_splits)
    qed
  qed
qed

lemma placing_changes_no_order:
  assumes "get_order s i = Some a"
  shows "get_order (snd (create_order root_env tokens now y ident s)) i = Some a"
  unfolding create_order_def
proof (rule transact_keeps)
  show "get_order s i = Some a" by (rule assms)
next
  fix v s'
  assume "bindr (order_permission root_env ident ''order_panel'' s) (\<lambda>_ s.
    bindr (create_panel_order tokens now (user_id ident) (first_name ident) ''webapp'' y s) (\<lambda>ord s.
      returned (order_row s ord) s)) = (Inr v, s')"
  then obtain s1 ord where perm: "order_permission root_env ident ''order_panel'' s = (Inr (), s1)"
    and run: "create_panel_order tokens now (user_id ident) (first_name ident) ''webapp'' y s1 = (Inr ord, s')"
    by (auto simp: bindr_Inr_iff)
  have "s1 = s" using perm by (auto simp: order_permission_def split: option.splits prod.splits)
  from run [unfolded this] have "panel_orders s' = panel_orders s @ [ord]" by (rule create_panel_order_Inr)
  with assms show "get_order s' i = Some a" by (simp add: lookup_append)
qed

lemma quote_marks:
  assumes "quote_panel_order now x reviewer w ord s = (Inr v, s')" "get_order s j = Some ord"
  shows "panel_is_mine s (ord_panel_id ord) w \<and>
    (\<exists>f. panel_orders s' = modify ord_id j f (panel_orders s) \<and> (\<forall>q. ord_id (f q) = ord_id q \<and> ord_plan_id (f q) = ord_plan_id q \<and> ord_status (f q) = ''quoted''))"
proof -
  have "panel_is_mine s (ord_panel_id ord) w" "panel_orders s' = modify ord_id j (quote_terms x) (panel_orders s)"
    using assms by (auto simp: quote_panel_order_def assert_order_seller_def require_transition_def bindr_Inr_iff dest: lookup_SomeD)
  then show ?thesis by (intro conjI exI [of _ "quote_terms x"]) (simp_all add: quote_terms_def)
qed

lemma reject_marks:
  assumes "reject_panel_order now reason reviewer w ord s = (Inr v, s')" "get_order s j = Some ord"
  shows "panel_is_mine s (ord_panel_id ord) w \<and>
    (\<exists>f. panel_orders s' = modify ord_id j f (panel_orders s) \<and> (\<forall>q. ord_id (f q) = ord_id q \<and> ord_plan_id (f q) = ord_plan_id q \<and> ord_status (f q) = ''rejected''))"
proof -
  have "panel_is_mine s (ord_panel_id ord) w"
    "panel_orders s' = modify ord_id j (mark_rejected reason reviewer now) (panel_orders s)"
    using assms by (auto simp: reject_panel_order_def assert_order_seller_def require_transition_def bindr_Inr_iff dest: lookup_SomeD)
  then show ?thesis by (intro conjI exI [of _ "mark_rejected reason reviewer now"]) (simp_all add: mark_rejected_def)
qed

lemma approve_marks_status:
  assumes "approve_panel_order d now attach reviewer w ord s = (Inr v, s')" "get_order s j = Some ord"
  shows "panel_is_mine s (ord_panel_id ord) w \<and>
    (\<exists>f. panel_orders s' = modify ord_id j f (panel_orders s) \<and> (\<forall>q. ord_id (f q) = ord_id q \<and> ord_plan_id (f q) = ord_plan_id q \<and> ord_status (f q) = ''approved''))"
proof -
  have "ord_id ord = j" using assms(2) by (auto dest: lookup_SomeD)
  from approve_marks [OF assms(1) this] obtain c where "panel_is_mine s (ord_panel_id ord) w"
    "panel_orders s' = modify ord_id j (mark_approved c reviewer now \<circ> attach_account attach) (panel_orders s)" by blast
  then show ?thesis
    by (intro conjI exI [of _ "mark_approved c reviewer now \<circ> attach_account attach"]) (simp_all add: mark_approved_def)
qed

text \<open>
  C24: each side moves its own steps only. When a request changes a stored order, it is either one of the
  requester's three steps - confirm, declare the payment, cancel - sent by the Telegram account that
  placed the order, or a quote, a rejection or an approval by a caller who may decide orders for the
  organization that owns the ordered panel. No other request changes it.
\<close>

theorem each_side_moves_its_own_steps:
  assumes "get_order s i = Some a" and "get_order (order_step root_env d x s) i = Some b" and "b \<noteq> a"
  shows "(\<exists>ident q. ((\<exists>now. x = Confirm now i ident) \<and> ord_status b = ''confirmed'' \<or>
        (\<exists>now. x = Declare now i ident) \<and> ord_status b = ''payment_declared'' \<or>
        (\<exists>now. x = Cancel now i ident) \<and> ord_status b = ''cancelled'') \<and>
      requester_actor s (user_id ident) = Some q \<and> ord_actor_id a = act_id q) \<or>
    (\<exists>ident q m org. ((\<exists>now y. x = Quote now i y ident) \<and> ord_status b = ''quoted'' \<or>
        (\<exists>now reason. x = Reject now i reason ident) \<and> ord_status b = ''rejected'' \<or>
        (\<exists>now y. x = Approve now i y ident) \<and> ord_status b = ''approved'') \<and>
      manager root_env (user_id ident) ''decide_orders'' s = (Inr (q, m, org), s) \<and>
      panel_is_mine s (ord_panel_id a) (org_id org))"
proof -
  let ?seller = "\<lambda>ident. \<exists>q m org. manager root_env (user_id ident) ''decide_orders'' s = (Inr (q, m, org), s) \<and>
    panel_is_mine s (ord_panel_id a) (org_id org)"
  show ?thesis
  proof (cases x)
    case (Place tokens now y ident)
    with assms placing_changes_no_order [OF assms(1)] show ?thesis by simp
  next
    case (Confirm now j ident)
    with assms have "j = i \<and> ord_status b = ''confirmed'' \<and> (\<exists>q. requester_actor s (user_id ident) = Some q \<and> ord_actor_id a = act_id q)"
      by (intro customer_route_changed [OF assms(1) _ assms(3)]) (simp add: confirm_order_def)
    with Confirm show ?thesis by blast
  next
    case (Declare now j ident)
    with assms have "j = i \<and> ord_status b = ''payment_declared'' \<and> (\<exists>q. requester_actor s (user_id ident) = Some q \<and> ord_actor_id a = act_id q)"
      by (intro customer_route_changed [OF assms(1) _ assms(3)]) (simp add: declare_payment_def)
    with Declare show ?thesis by blast
  next
    case (Cancel now j ident)
    with assms have "j = i \<and> ord_status b = ''cancelled'' \<and> (\<exists>q. requester_actor s (user_id ident) = Some q \<and> ord_actor_id a = act_id q)"
      by (intro customer_route_changed [OF assms(1) _ assms(3)]) (simp add: cancel_order_def)
    with Cancel show ?thesis by blast
  next
    case (Quote now j y ident)
    then have "get_order (snd (quote_order root_env now j y ident s)) i = Some b" using assms(2) by simp
    then have "j = i \<and> ord_status b = ''quoted'' \<and> ?seller ident" unfolding quote_order_def
      by (rule seller_route_changed [OF assms(1) _ assms(3)]) (auto simp: bindr_Inr_iff dest: quote_marks)
    with Quote show ?thesis by blast
  next
    case (Reject now j reason ident)
    then have "get_order (snd (seller_route ''rejected'' root_env (reject_panel_order now reason) j ident s)) i = Some b"
      using assms(2) by (simp add: reject_order_def)
    then have "j = i \<and> ord_status b = ''rejected'' \<and> ?seller ident"
      by (rule seller_route_changed [OF assms(1) _ assms(3)]) (rule reject_marks)
    with Reject show ?thesis by blast
  next
    case (Approve now j y ident)
    then have "get_order (snd (seller_route ''approved'' root_env (approve_panel_order d now (Some y)) j ident s)) i = Some b"
      using assms(2) by (simp add: approve_order_def)
    then have "j = i \<and> ord_status b = ''approved'' \<and> ?seller ident"
      by (rule seller_route_changed [OF assms(1) _ assms(3)]) (rule approve_marks_status)
    with Approve show ?thesis by blast
  qed
qed

section \<open>The funnel can be walked to its end\<close>

lemma setting_on_order [simp]: "setting (on_order i f s) k = setting s k"
  by (simp add: setting_def)

lemma pick_membership_audit_order [simp]:
  "pick_membership root_env (audit t a b c e f g (on_order i h s)) = pick_membership root_env s"
  by (intro ext) (simp add: pick_membership_def)

lemma membership_for_audit_order:
  "membership_for root_env tid (audit t a b c e f g (on_order i h s)) =
    (fst (membership_for root_env tid s), audit t a b c e f g (on_order i h s))"
  by (simp add: membership_for_def active_actor_def bindr_def require_some_def returned_def split: option.split)

lemma manager_audit_order:
  "manager root_env tid perm (audit t a b c e f g (on_order i h s)) =
    (fst (manager root_env tid perm s), audit t a b c e f g (on_order i h s))"
  unfolding manager_def membership_for_audit_order
  by (cases "membership_for root_env tid s"; cases "fst (membership_for root_env tid s)")
    (auto simp: bindr_def require_def returned_def split: prod.split)

lemma order_permission_audit_order:
  "order_permission root_env ident perm (audit t a b c e f g (on_order i h s)) =
    (fst (order_permission root_env ident perm s), audit t a b c e f g (on_order i h s))"
  by (auto simp: order_permission_def optional_membership_def active_actor_def require_def returned_def split: option.split)

lemma customer_route_runs:
  assumes "order_permission root_env ident ''order_panel'' s = (Inr (), s)" "get_order s i = Some ord"
    "to_status \<in> set (ORDER_FLOW (ord_status ord))" "requester_actor s (user_id ident) = Some q" "ord_actor_id ord = act_id q"
    "CUSTOMER_TRANSITIONS to_status = Some action"
  shows "snd (customer_route to_status root_env now i ident s) =
    audit now action ''panel_order'' (Some i) (Some (act_id q)) (ord_organization_id ord)
      (if to_status = ''payment_declared'' then [(''amount_irr'', JInt (ord_amount_irr ord))] else [])
      (on_order i (\<lambda>r. r\<lparr>ord_status := to_status\<rparr>) s)"
proof -
  have "ord_id ord = i" using assms(2) by (auto dest: lookup_SomeD)
  then show ?thesis unfolding customer_route_def using assms
    by (simp add: transact_eq owned_order_def locked_order_def bindr_require_some bindr_require require_transition_def
        advance_customer_order_def returned_def)
qed

lemma transfer_from_system:
  assumes "amount > 0"
  shows "\<exists>tx. fst (transfer now SYSTEM target amount key kind ref False actor_id s) = Inr tx"
proof (rule transfer_cases [of amount now SYSTEM target key kind ref False actor_id s])
  fix sa s1 ta s2
  assume found: "lookup acc_owner_key SYSTEM (accounts s2) = Some sa" and key: "find_transaction s2 key = None"
    and eq: "transfer now SYSTEM target amount key kind ref False actor_id s =
      transfer_locked now (acc_id sa) (acc_id ta) SYSTEM amount key kind ref False actor_id s2"
  have "lookup acc_id (acc_id sa) (accounts s2) \<noteq> None" using lookup_SomeD [OF found] by (auto simp: lookup_None_iff)
  then show ?thesis unfolding eq using key by (auto simp: transfer_locked_def post_def Let_def split: option.split)
qed (use assms in simp_all)

lemma assert_depth_audit_order:
  "assert_depth_allowed d q (on_order i f s) = (fst (assert_depth_allowed d q s), on_order i f s)"
  by (simp add: assert_depth_allowed_def effective_depth_limit_def depth_of_def bindr_def require_def raised_def returned_def
      split: option.split)

text \<open>The panel admin an order brings, if it brings one, fits its column and is bound to nobody on that panel.\<close>

definition account_free :: "panel_order \<Rightarrow> db \<Rightarrow> bool" where
  "account_free ord s \<longleftrightarrow> (\<forall>admin. ord_pg_admin_id ord = Some admin \<longrightarrow> fits_integer admin \<and>
     \<not> has (\<lambda>b. bnd_panel_id b = ord_panel_id ord \<and> bnd_pg_admin_id b = admin) (bindings s))"

lemma bind_customer_runs:
  assumes "account_free ord s" and "\<not> has (\<lambda>b. bnd_organization_id b = w) (bindings s)" and "pan_id p = ord_panel_id ord"
  shows "\<exists>s'. bind_customer ord w p s = (Inr (), s')"
  using assms by (auto simp: bind_customer_def add_binding_def account_free_def binding_clash_def has_def bindr_stored
      bindr_require returned_def split: option.split)

lemma approve_panel_order_runs:
  assumes mine: "panel_is_mine s (ord_panel_id ord) w" and paid: "ord_status ord = ''payment_declared''"
    and p: "get_panel s (ord_panel_id ord) = Some p" and org: "get_organization s w = Some org"
    and depth: "fst (assert_depth_allowed d org s) = Inr ()" and slug: "\<not> slug_taken s (ord_slug ord)"
    and free: "account_free (attach_account attach ord) s" and amount: "ord_amount_irr ord > 0"
    and older: "parents_older s" and keys: "\<forall>b \<in> set (bindings s). get_organization s (bnd_organization_id b) \<noteq> None"
  shows "\<exists>r. fst (approve_panel_order d now attach reviewer w ord s) = Inr r"
proof -
  let ?s0 = "on_order (ord_id ord) (attach_account attach) s"
  let ?o = "attach_account attach ord"
  have slug0: "\<not> slug_taken ?s0 (ord_slug ord)" using slug by (simp add: slug_taken_def)
  obtain child s1 where add: "add_organization now (ord_business_name ord) (ord_slug ord) (Some (org_id org))
      (ord_credit_limit_irr ord) (Some (ord_price_per_gib_irr ord)) ?s0 = (child, s1)" by fastforce
  let ?s2 = "add_membership now (org_id child) (ord_actor_id ord) ''customer'' s1"
  have child: "get_organization s (org_id child) = None"
    using add_organization_state(2) [OF add] older by (auto simp: parents_older_def lookup_None_iff)
  have same: "bindings ?s2 = bindings s" using add_organization_rest(3) [OF add] by (simp add: add_membership_def)
  have "account_free ?o ?s2" using free by (simp add: account_free_def same)
  moreover have "\<not> has (\<lambda>b. bnd_organization_id b = org_id child) (bindings ?s2)"
    using keys child by (auto simp: same has_def)
  moreover have "pan_id p = ord_panel_id ?o" using lookup_SomeD [OF p] by simp
  ultimately obtain s3 where bound: "bind_customer ?o (org_id child) p ?s2 = (Inr (), s3)" using bind_customer_runs by metis
  have "approve_panel_order d now attach reviewer w ord s =
    bindr (transfer now SYSTEM (Org (org_id child)) (ord_amount_irr ord) (order_key ?o) ''order-funded''
        (dec (ord_id ord)) False (Some reviewer) s3) (\<lambda>_. finish_approval now reviewer child p ?o)"
    unfolding approve_panel_order_def assert_order_seller_def require_transition_def Let_def bindr_require
      bindr_require_some assert_depth_audit_order
    using mine paid p org depth slug0 add bound
    by (simp add: approved_from bindr_require)
  moreover obtain tx s4 where "transfer now SYSTEM (Org (org_id child)) (ord_amount_irr ord) (order_key ?o) ''order-funded''
        (dec (ord_id ord)) False (Some reviewer) s3 = (Inr tx, s4)"
    using transfer_from_system [OF amount] by (metis prod.collapse)
  ultimately show ?thesis by (simp add: finish_approval_def Let_def)
qed

lemma approve_bound:
  assumes "approve_panel_order d now attach reviewer w ord s = (Inr r, s')"
  shows "ao_bound r = (ord_pg_admin_id (attach_account attach ord) \<noteq> None)"
  using assms by (rule approve_Inr) (simp add: finish_approval_result(2))

text \<open>
  C25: the funnel leads to an open account. Take a quoted order with a positive amount, a requester who may order
  and placed it, and a seller who may decide orders, owns the panel and may still open a child at this depth. When
  the requester confirms the order and declares the payment and the seller approves it, with or without the form
  that names the panel admin, the order ends approved, with a new organization that holds the amount and, when the
  order or the form names an admin, is bound to that admin. What must be free is free: the slug and the key of the
  funding are unused, and the admin, if there is one, fits its column and is not bound on that panel. The tree and
  the ledger are in order, and every binding belongs to an organization, as its foreign key demands.
\<close>

theorem quoted_order_can_complete:
  assumes get: "get_order s i = Some ord" and st: "ord_status ord = ''quoted''" and amount: "ord_amount_irr ord > 0"
    and free: "account_free (attach_account (Some x) ord) s" and slug: "\<not> slug_taken s (ord_slug ord)"
    and buyer: "order_permission root_env customer ''order_panel'' s = (Inr (), s)"
      "requester_actor s (user_id customer) = Some q" "ord_actor_id ord = act_id q"
    and seller: "manager root_env (user_id reviewer) ''decide_orders'' s = (Inr (a, m, org), s)"
    and mine: "panel_is_mine s (ord_panel_id ord) (org_id org)" and p: "get_panel s (ord_panel_id ord) = Some p"
    and depth: "fst (assert_depth_allowed d org s) = Inr ()"
    and tree: "tree_ok s" and ok: "ledger_ok s" and fresh: "find_transaction s (order_key ord) = None"
    and keys: "\<forall>b \<in> set (bindings s). get_organization s (bnd_organization_id b) \<noteq> None"
    and s': "s' = fold (order_step root_env d) [Confirm t1 i customer, Declare t2 i customer, Approve t3 i x reviewer] s"
  shows "\<exists>b c. get_order s' i = Some b \<and> ord_status b = ''approved'' \<and> ord_organization_id b = Some c \<and>
    get_organization s c = None \<and> get_organization s' c \<noteq> None \<and>
    wallet_of s' (Org c) = wallet_of s (Org c) + ord_amount_irr ord \<and>
    (\<forall>admin. ord_pg_admin_id (attach_account (Some x) ord) = Some admin \<longrightarrow>
      (\<exists>k. bindings s' = bindings s @ [k] \<and> bnd_organization_id k = c \<and> bnd_panel_id k = ord_panel_id ord \<and>
        bnd_pg_admin_id k = admin))"
proof -
  define ord1 where "ord1 = ord\<lparr>ord_status := ''confirmed''\<rparr>"
  define ord2 where "ord2 = ord\<lparr>ord_status := ''payment_declared''\<rparr>"
  define s1 where "s1 = snd (customer_route ''confirmed'' root_env t1 i customer s)"
  define s2 where "s2 = snd (customer_route ''payment_declared'' root_env t2 i customer s1)"
  have id: "ord_id ord = i" using get by (auto dest: lookup_SomeD)
  have s1: "s1 = audit t1 ''panel_order.confirm'' ''panel_order'' (Some i) (Some (act_id q)) (ord_organization_id ord) []
      (on_order i (\<lambda>r. r\<lparr>ord_status := ''confirmed''\<rparr>) s)"
    unfolding s1_def using customer_route_runs [OF buyer(1) get _ buyer(2,3)] st
    by (simp add: ORDER_FLOW_def CUSTOMER_TRANSITIONS_def)
  have get1: "get_order s1 i = Some ord1" using get by (simp add: s1 lookup_modify ord1_def)
  have s2: "s2 = audit t2 ''panel_order.payment_declared'' ''panel_order'' (Some i) (Some (act_id q))
      (ord_organization_id ord) [(''amount_irr'', JInt (ord_amount_irr ord))]
      (on_order i (\<lambda>r. r\<lparr>ord_status := ''payment_declared''\<rparr>) s1)"
    unfolding s2_def using customer_route_runs [OF _ get1, of root_env customer "''payment_declared''" q _ t2] buyer
    by (simp add: ORDER_FLOW_def CUSTOMER_TRANSITIONS_def s1 order_permission_audit_order requester_actor_def ord1_def)
  have get2: "get_order s2 i = Some ord2" using get1 by (simp add: s2 lookup_modify ord1_def ord2_def)
  have desk: "same_tree s s2" "ledger_ok s2" "wallet_of s2 v = wallet_of s v" "find_transaction s2 k = find_transaction s k"
    "panel_is_mine s2 j w = panel_is_mine s j w" "get_panel s2 j = get_panel s j" "slug_taken s2 u = slug_taken s u" for v k j w u
    using ok by (auto simp: s2 s1 same_tree_def ledger_ok_def wallet_of_def find_transaction_def panel_is_mine_def slug_taken_def)
  have man: "manager root_env (user_id reviewer) ''decide_orders'' s2 = (Inr (a, m, org), s2)"
    using seller by (simp add: s2 s1 manager_audit_order)
  have org: "get_organization s2 (org_id org) = Some org"
    using seller desk(1) lookup_SomeD [of org_id "mem_organization_id m" "organizations s" org]
    by (auto simp: manager_iff membership_for_iff same_tree_def)
  have "fst (assert_depth_allowed d org s2) = fst (assert_depth_allowed d org s)"
    using desk(1) by (simp add: assert_depth_allowed_def effective_depth_limit_def depth_of_def same_tree_def bindr_def
        require_def raised_def returned_def split: option.split)
  with depth have depth2: "fst (assert_depth_allowed d org s2) = Inr ()" by simp
  have admin: "ord_pg_admin_id (attach_account (Some x) ord2) = ord_pg_admin_id (attach_account (Some x) ord)"
    by (simp add: attach_account_def ord2_def)
  have rows: "bindings s2 = bindings s" by (simp add: s2 s1)
  have free2: "account_free (attach_account (Some x) ord2) s2"
    using free admin by (simp add: account_free_def rows ord2_def)
  have tree2: "parents_older s2" using same_tree_ok [OF desk(1) tree] by (simp add: tree_ok_def)
  have keys2: "\<forall>b \<in> set (bindings s2). get_organization s2 (bnd_organization_id b) \<noteq> None"
    using keys desk(1) by (simp add: rows same_tree_def)
  from approve_panel_order_runs [OF _ _ _ org depth2 _ free2 _ tree2 keys2, where now = t3 and reviewer = "act_id a"] mine p slug amount
  obtain r where "fst (approve_panel_order d t3 (Some x) (act_id a) (org_id org) ord2 s2) = Inr r"
    by (auto simp: desk ord2_def)
  then obtain s3 where run: "approve_panel_order d t3 (Some x) (act_id a) (org_id org) ord2 s2 = (Inr r, s3)"
    by (metis prod.collapse)
  have "locked_order i ''approved'' s2 = (Inr ord2, s2)" using get2 by (simp add: locked_order_iff approved_from ord2_def)
  with run man have "seller_route ''approved'' root_env (approve_panel_order d t3 (Some x)) i reviewer s2 = (Inr r, s3)"
    by (simp add: seller_route_def transact_Inr)
  then have s3: "s' = s3"
    by (simp add: s' approve_order_def confirm_order_def declare_payment_def s1_def s2_def)
  have id2: "ord_id ord2 = i" using id by (simp add: ord2_def)
  have key: "find_transaction s2 (order_key (attach_account (Some x) ord2)) = None"
    using fresh by (simp add: desk order_key_def ord2_def)
  note made = approval_made [OF run same_tree_ok [OF desk(1) tree] desk(2) _ refl refl, unfolded id2, OF get2]
  have "\<exists>k. bindings s' = bindings s @ [k] \<and> bnd_organization_id k = ao_organization_id r \<and>
      bnd_panel_id k = ord_panel_id ord \<and> bnd_pg_admin_id k = n"
    if "ord_pg_admin_id (attach_account (Some x) ord) = Some n" for n
    using made(7) approve_bound [OF run] that by (auto simp: s3 admin [unfolded ord2_def] rows ord2_def)
  then show ?thesis
    using made(1,2,8) made(4) [OF key, of "Org (ao_organization_id r)"] desk(1)
    by (auto simp: s3 mark_approved_def desk(3) same_tree_def ord2_def)
qed

end
