(* ===== verification/Funding.thy ===== *)
theory Funding
  imports Orders
begin

text \<open>
  Money that enters the tree by decision (\<open>web_api.py\<close>): funding requests of resellers and who decides
  them, the root administrator's resellers, the adjustments that need an approval, and the audit view.
\<close>

section \<open>Funding requests\<close>

text \<open>The bounds of \<open>FundingRequestIn\<close> are checked before the route runs.\<close>

definition web_funding_request :: "string \<Rightarrow> int \<Rightarrow> int \<Rightarrow> identity \<Rightarrow> db \<Rightarrow> (uid, db) res" where
  "web_funding_request root_env now amount ident = transact (\<lambda>s.
    bindr (require (0 < amount \<and> amount \<le> 10000000000000) (HTTPException 422 ''amount_irr'') s) (\<lambda>_ s.
    bindr (manager root_env (user_id ident) ''request_funding'' s) (\<lambda>(a, m, org) s.
      let r = \<lparr>fun_id = next_uid s, fun_organization_id = org_id org, fun_actor_id = act_id a, fun_amount_irr = amount,
               fun_status = ''pending'', fun_decided_by = None, fun_decided_at = None, fun_created_at = now\<rparr>
      in returned (fun_id r) (audit now ''funding_request.create'' ''funding_request'' None (Some (act_id a))
           (Some (org_id org)) [(''amount_irr'', JInt amount)]
           (draw (s\<lparr>funding_requests := funding_requests s @ [r]\<rparr>))))))"

abbreviation get_funding :: "db \<Rightarrow> uid \<Rightarrow> funding_request option" where
  "get_funding s i \<equiv> lookup fun_id i (funding_requests s)"

text \<open>The join with organization and actor drops a request whose rows are missing.\<close>

definition pending_funding_rows :: "db \<Rightarrow> uid \<Rightarrow> bool \<Rightarrow> (funding_request \<times> organization \<times> actor) list" where
  "pending_funding_rows s branch_id include_rootless = take 100
    (List.map_filter (\<lambda>r. case (get_organization s (fun_organization_id r), lookup act_id (fun_actor_id r) (actors s)) of
         (Some org, Some a) \<Rightarrow>
           if org_parent_id org = Some branch_id \<or> include_rootless \<and> org_parent_id org = None
           then Some (r, org, a) else None
       | _ \<Rightarrow> None)
      (sort_key fun_created_at (filter (\<lambda>r. fun_status r = ''pending'') (funding_requests s))))"

definition on_funding :: "uid \<Rightarrow> (funding_request \<Rightarrow> funding_request) \<Rightarrow> db \<Rightarrow> db" where
  "on_funding i f s = s\<lparr>funding_requests := modify fun_id i f (funding_requests s)\<rparr>"

definition funding_key :: "uid \<Rightarrow> string" where
  "funding_key i = ''funding-request:'' @ dec i"

definition mark_funding :: "string \<Rightarrow> uid \<Rightarrow> int \<Rightarrow> funding_request \<Rightarrow> funding_request" where
  "mark_funding status actor_id now r = r\<lparr>fun_status := status, fun_decided_by := Some actor_id, fun_decided_at := Some now\<rparr>"

definition decide_funding_request ::
  "int \<Rightarrow> uid \<Rightarrow> uid \<Rightarrow> uid \<Rightarrow> string \<Rightarrow> bool \<Rightarrow> db \<Rightarrow> (string, db) res"
where
  "decide_funding_request now actor_id branch_id i decision allow_rootless = transact (\<lambda>s.
    bindr (require (decision = ''approve'' \<or> decision = ''reject'') (HTTPException 422 ''decision must be approve or reject'') s) (\<lambda>_ s.
    bindr (require_some (get_funding s i) (HTTPException 404 ''funding request not found'') s) (\<lambda>r s.
    bindr (require (fun_status r = ''pending'') (HTTPException 409 ''funding request is already processed'') s) (\<lambda>_ s.
    bindr (require_some (get_organization s (fun_organization_id r)) (HTTPException 404 ''organization not found'') s) (\<lambda>child s.
    bindr (require (org_parent_id child = Some branch_id \<or> allow_rootless \<and> org_parent_id child = None)
        (HTTPException 403 ''this request belongs to another reseller branch'') s) (\<lambda>_ s.
    bindr (if decision = ''approve'' then
         bindr (transfer now SYSTEM (Org (fun_organization_id r)) (fun_amount_irr r) (funding_key i) ''fund'' (dec i)
           False (Some actor_id) s) (\<lambda>_. returned ''approved'')
       else returned ''rejected'' s) (\<lambda>status s.
      returned status (audit now (''funding_request.'' @ decision) ''funding_request'' (Some i) (Some actor_id)
        (Some (fun_organization_id r)) [(''amount_irr'', JInt (fun_amount_irr r)), (''decided_by'', JUid actor_id)]
        (on_funding i (mark_funding status actor_id now) s)))))))))"

definition branch_funding_requests ::
  "string \<Rightarrow> identity \<Rightarrow> db \<Rightarrow> ((funding_request \<times> organization \<times> actor) list, db) res" where
  "branch_funding_requests root_env ident s = bindr (manager root_env (user_id ident) ''decide_funding'' s)
     (\<lambda>(a, m, org) s. returned (pending_funding_rows s (org_id org) False) s)"

definition branch_decide_funding :: "string \<Rightarrow> int \<Rightarrow> uid \<Rightarrow> string \<Rightarrow> identity \<Rightarrow> db \<Rightarrow> (string, db) res" where
  "branch_decide_funding root_env now i decision ident s = bindr (manager root_env (user_id ident) ''decide_funding'' s)
     (\<lambda>(a, m, org). decide_funding_request now (act_id a) (org_id org) i decision False)"

definition admin_funding_requests ::
  "string \<Rightarrow> identity \<Rightarrow> db \<Rightarrow> ((funding_request \<times> organization \<times> actor) list, db) res" where
  "admin_funding_requests root_env ident s = bindr (require_root root_env ident s) (\<lambda>_ s.
     bindr (membership_for root_env (user_id ident) s) (\<lambda>(a, m, org) s.
       returned (pending_funding_rows s (org_id org) True) s))"

definition admin_decide_funding :: "string \<Rightarrow> int \<Rightarrow> uid \<Rightarrow> string \<Rightarrow> identity \<Rightarrow> db \<Rightarrow> (string, db) res" where
  "admin_decide_funding root_env now i decision ident s = bindr (membership_for root_env (user_id ident) s) (\<lambda>(a, m, org) s.
     bindr (require_root root_env ident s) (\<lambda>_. decide_funding_request now (act_id a) (org_id org) i decision True))"

section \<open>The root administrator\<close>

record overview =
  ov_organizations :: nat
  ov_active_organizations :: nat
  ov_panels :: nat
  ov_actors :: nat
  ov_pending_funding :: nat
  ov_bindings :: nat

definition count :: "('r \<Rightarrow> bool) \<Rightarrow> 'r list \<Rightarrow> nat" where
  "count P rs = length (filter P rs)"

definition admin_overview :: "string \<Rightarrow> identity \<Rightarrow> db \<Rightarrow> (overview, db) res" where
  "admin_overview root_env ident s = bindr (require_root root_env ident s) (\<lambda>_ s.
     bindr (membership_for root_env (user_id ident) s) (\<lambda>_ s.
       returned \<lparr>ov_organizations = count (\<lambda>_. True) (organizations s),
         ov_active_organizations = count (\<lambda>r. org_status r = ''active'') (organizations s),
         ov_panels = count (\<lambda>r. pan_status r = ''active'') (panels s),
         ov_actors = count (\<lambda>r. act_status r = ''active'') (actors s),
         ov_pending_funding = count (\<lambda>r. fun_status r = ''pending'') (funding_requests s),
         ov_bindings = count (\<lambda>r. bnd_status r = ''active'') (bindings s)\<rparr> s))"

record reseller_view =
  rv_organization :: organization
  rv_telegram_id :: "int option"
  rv_balance_irr :: int
  rv_price_per_gib_irr :: int

definition admin_resellers :: "string \<Rightarrow> identity \<Rightarrow> db \<Rightarrow> (reseller_view list, db) res" where
  "admin_resellers root_env ident s = bindr (require_root root_env ident s) (\<lambda>_ s.
     bindr (membership_for root_env (user_id ident) s) (\<lambda>(a, m, root_org) s.
       returned (map (\<lambda>org. \<lparr>rv_organization = org,
           rv_telegram_id = map_option act_telegram_id (List.find (\<lambda>a. has (\<lambda>k. mem_actor_id k = act_id a \<and>
             mem_organization_id k = org_id org \<and> mem_status k = ''active'') (memberships s)) (actors s)),
           rv_balance_irr = (case lookup acc_owner_key (Org (org_id org)) (accounts s) of
              None \<Rightarrow> 0 | Some w \<Rightarrow> acc_balance_irr w),
           rv_price_per_gib_irr = (case active_contract s (org_id org) of None \<Rightarrow> 0 | Some c \<Rightarrow> con_price_per_gib_irr c)\<rparr>)
         (take 200 (sort_key (\<lambda>org. - org_created_at org)
           (filter (\<lambda>org. org_parent_id org = Some (org_id root_org)) (organizations s))))) s))"

record admin_reseller_in =
  ar_name :: string
  ar_slug :: string
  ar_telegram_id :: int
  ar_price_per_gib_irr :: int
  ar_credit_limit_irr :: int

text \<open>The reseller's Telegram account: registered now, or woken up, keeping a name it already has.\<close>

definition wake_actor :: "int \<Rightarrow> string \<Rightarrow> db \<Rightarrow> actor \<times> db" where
  "wake_actor telegram_id name s = (case lookup act_telegram_id telegram_id (actors s) of
     None \<Rightarrow> add_actor telegram_id name s
   | Some a \<Rightarrow>
       let b = a\<lparr>act_status := ''active'', act_display_name := (if act_display_name a = [] then name else act_display_name a)\<rparr>
       in (b, s\<lparr>actors := modify act_id (act_id a) (\<lambda>_. b) (actors s)\<rparr>))"

definition admin_create_reseller ::
  "string \<Rightarrow> int \<Rightarrow> int \<Rightarrow> admin_reseller_in \<Rightarrow> identity \<Rightarrow> db \<Rightarrow> (uid \<times> int, db) res"
where
  "admin_create_reseller root_env max_tree_depth now x ident = transact (\<lambda>s.
    bindr (membership_for root_env (user_id ident) s) (\<lambda>(a, m, parent) s.
    bindr (require_root root_env ident s) (\<lambda>_ s.
    bindr (assert_depth_allowed max_tree_depth parent s) (\<lambda>_ s.
    bindr (require (\<not> slug_taken s (ar_slug x)) (HTTPException 409 ''slug already exists'') s) (\<lambda>_ s.
    bindr (require (case lookup act_telegram_id (ar_telegram_id x) (actors s) of None \<Rightarrow> True
          | Some t \<Rightarrow> \<not> has (\<lambda>k. mem_actor_id k = act_id t \<and> mem_status k = ''active'') (memberships s))
        (HTTPException 409 ''Telegram account is already linked'') s) (\<lambda>_ s.
      case add_organization now (ar_name x) (ar_slug x) (Some (org_id parent)) (ar_credit_limit_irr x)
          (Some (ar_price_per_gib_irr x)) s of (child, s) \<Rightarrow>
      case wake_actor (ar_telegram_id x) (ar_name x) s of (target, s) \<Rightarrow>
        returned (org_id child, act_telegram_id target)
          (audit now ''reseller.create'' ''organization'' (Some (org_id child)) (Some (act_id a)) (Some (org_id child))
            [(''parent_id'', JUid (org_id parent)), (''slug'', JStr (org_slug child)),
             (''telegram_id'', JInt (act_telegram_id target)), (''price_per_gib_irr'', JInt (ar_price_per_gib_irr x)),
             (''credit_limit_irr'', JInt (ar_credit_limit_irr x))]
            (add_membership now (org_id child) (act_id target) ''reseller_admin'' s))))))))"

definition set_org_status :: "uid \<Rightarrow> string \<Rightarrow> db \<Rightarrow> db" where
  "set_org_status i status s = s\<lparr>organizations := modify org_id i (\<lambda>r. r\<lparr>org_status := status\<rparr>) (organizations s)\<rparr>"

definition admin_set_reseller_status :: "string \<Rightarrow> int \<Rightarrow> uid \<Rightarrow> identity \<Rightarrow> db \<Rightarrow> (string, db) res" where
  "admin_set_reseller_status root_env now i ident = transact (\<lambda>s.
    bindr (membership_for root_env (user_id ident) s) (\<lambda>(a, m, parent) s.
    bindr (require_root root_env ident s) (\<lambda>_ s.
      case get_organization s i of
        None \<Rightarrow> raised (HTTPException 404 ''reseller not found'') s
      | Some child \<Rightarrow>
          if org_parent_id child \<noteq> Some (org_id parent) then raised (HTTPException 404 ''reseller not found'') s
          else let status = (if org_status child = ''active'' then ''suspended'' else ''active'') in
            returned status (audit now (if status = ''suspended'' then ''reseller.suspend'' else ''reseller.activate'')
              ''organization'' (Some i) (Some (act_id a)) (Some i) [] (set_org_status i status s)))))"

section \<open>Adjustments and their approval\<close>

definition ADJUST :: string where
  "ADJUST = ''wallet.adjust''"

abbreviation get_approval :: "db \<Rightarrow> uid \<Rightarrow> approval_request option" where
  "get_approval s i \<equiv> lookup apr_id i (approval_requests s)"

definition on_approval :: "uid \<Rightarrow> (approval_request \<Rightarrow> approval_request) \<Rightarrow> db \<Rightarrow> db" where
  "on_approval i f s = s\<lparr>approval_requests := modify apr_id i f (approval_requests s)\<rparr>"

definition mark_expired :: "int \<Rightarrow> approval_request \<Rightarrow> approval_request" where
  "mark_expired now r = r\<lparr>apr_status := ''expired'', apr_decided_at := Some now\<rparr>"

text \<open>An expired request is closed and committed before the call raises.\<close>

definition locked_pending_approval ::
  "int \<Rightarrow> uid \<Rightarrow> 'w session_scheme \<Rightarrow> (approval_request, 'w session_scheme) res" where
  "locked_pending_approval now i S =
    bindr (require_some (get_approval (current S) i) (HTTPException 404 ''approval request not found'') S) (\<lambda>r S.
    bindr (require (apr_status r = ''pending'') (HTTPException 409 ''approval request is already decided'') S) (\<lambda>_ S.
      if apr_expires_at r \<le> now
      then raised (HTTPException 410 ''approval request expired'')
        (commit (S\<lparr>current := on_approval i (mark_expired now) (current S)\<rparr>))
      else returned r S))"

definition approval_key :: "uid \<Rightarrow> string" where
  "approval_key i = ''approval:'' @ dec i"

text \<open>\<open>except ValueError\<close>: a refused transfer is answered with status 409.\<close>

definition as_conflict :: "('a, 's) res \<Rightarrow> ('a, 's) res" where
  "as_conflict m = (case m of (Inl (ValueError text), s) \<Rightarrow> raised (HTTPException 409 text) s | _ \<Rightarrow> m)"

lemma as_conflict_Inr [simp]: "as_conflict m = (Inr v, s') \<longleftrightarrow> m = (Inr v, s')"
  by (auto simp: as_conflict_def split: prod.splits sum.splits error.splits)

definition apply_wallet_adjustment :: "int \<Rightarrow> approval_request \<Rightarrow> uid \<Rightarrow> db \<Rightarrow> (unit, db) res" where
  "apply_wallet_adjustment now r actor_id s =
    bindr (require_some (get_organization s (apr_target_id r)) (HTTPException 404 ''organization not found'') s) (\<lambda>org s.
      let amount = apr_amount_irr r;
          moved = (if amount > 0
            then transfer now SYSTEM (Org (org_id org)) amount (approval_key (apr_id r)) ''adjustment'' (dec (apr_id r))
              False (Some actor_id) s
            else transfer now (Org (org_id org)) SYSTEM (- amount) (approval_key (apr_id r)) ''adjustment''
              (dec (apr_id r)) True (Some actor_id) s)
      in bindr (as_conflict moved) (\<lambda>_ s.
        returned () (audit now ''adjustment.apply'' ''organization'' (Some (org_id org)) (Some actor_id) (Some (org_id org))
          [(''amount_irr'', JInt amount), (''note'', JStr (apr_note r)), (''approval_id'', JUid (apr_id r))] s)))"

definition APPROVAL_APPLICATORS :: "string \<Rightarrow> (int \<Rightarrow> approval_request \<Rightarrow> uid \<Rightarrow> db \<Rightarrow> (unit, db) res) option" where
  "APPROVAL_APPLICATORS action = (if action = ADJUST then Some apply_wallet_adjustment else None)"

record adjustment_in =
  ai_organization_id :: uid
  ai_amount_irr :: int
  ai_note :: string

definition new_approval :: "int \<Rightarrow> int \<Rightarrow> uid \<Rightarrow> uid \<Rightarrow> uid option \<Rightarrow> adjustment_in \<Rightarrow> approval_request" where
  "new_approval ttl now i requester approver x =
    \<lparr>apr_id = i, apr_requester_id = requester, apr_approver_id = approver, apr_action = ADJUST,
     apr_target_id = ai_organization_id x, apr_amount_irr = ai_amount_irr x, apr_note = ai_note x,
     apr_status = ''pending'', apr_expires_at = now + ttl, apr_decided_at = None, apr_decision_note = None,
     apr_created_at = now\<rparr>"

definition mark_executed :: "int \<Rightarrow> uid \<Rightarrow> string \<Rightarrow> approval_request \<Rightarrow> approval_request" where
  "mark_executed now approver text r = r\<lparr>apr_status := ''executed'', apr_approver_id := Some approver,
     apr_decided_at := Some now, apr_decision_note := Some text\<rparr>"

definition mark_refused :: "int \<Rightarrow> uid \<Rightarrow> string \<Rightarrow> approval_request \<Rightarrow> approval_request" where
  "mark_refused now approver text r = r\<lparr>apr_status := ''rejected'', apr_approver_id := Some approver,
     apr_decided_at := Some now, apr_decision_note := Some text\<rparr>"

text \<open>The root administrator's own request is applied at once, anybody else's waits for a decision.\<close>

definition request_adjustment ::
  "string \<Rightarrow> int \<Rightarrow> int \<Rightarrow> adjustment_in \<Rightarrow> identity \<Rightarrow> db \<Rightarrow> (uid \<times> string \<times> int option, db) res"
where
  "request_adjustment root_env ttl now x ident = transact (\<lambda>s.
    bindr (membership_for root_env (user_id ident) s) (\<lambda>(a, m, org) s.
    bindr (require (can (Some (effective_role root_env (user_id ident) (Some (mem_role m)))) ''request_adjustment'')
       (denial ''request_adjustment'') s) (\<lambda>_ s.
    bindr (require_some (get_organization s (ai_organization_id x)) (HTTPException 404 ''organization not found'') s) (\<lambda>target s.
    bindr (require (org_id org = org_id target \<or> org_parent_id target = Some (org_id org))
       (HTTPException 403 ''adjustment is limited to your own subtree'') s) (\<lambda>_ s.
      let own = configured_root_id root_env = Some (user_id ident);
          r = new_approval ttl now (next_uid s) (act_id a) (if own then Some (act_id a) else None) x;
          s1 = draw (s\<lparr>approval_requests := approval_requests s @ [r]\<rparr>)
      in if own
         then bindr (apply_wallet_adjustment now r (act_id a) s1) (\<lambda>_ s.
           let s2 = on_approval (apr_id r) (mark_executed now (act_id a) (ai_note x)) s
           in returned (apr_id r, ''executed'', Some (fst (balance (Org (org_id target)) s2))) s2)
         else returned (apr_id r, ''pending'', None)
           (audit now ''adjustment.request'' ''organization'' (Some (org_id target)) (Some (act_id a)) (Some (org_id org))
             [(''amount_irr'', JInt (ai_amount_irr x)), (''note'', JStr (ai_note x))] s1))))))"

definition list_approvals :: "string \<Rightarrow> identity \<Rightarrow> db \<Rightarrow> (approval_request list, db) res" where
  "list_approvals root_env ident s = bindr (require_root root_env ident s) (\<lambda>_ s.
     bindr (membership_for root_env (user_id ident) s) (\<lambda>_ s.
       returned (take 200 (sort_key apr_created_at (filter (\<lambda>r. apr_status r = ''pending'') (approval_requests s)))) s))"

definition settle_approval :: "int \<Rightarrow> string \<Rightarrow> approval_request \<Rightarrow> uid \<Rightarrow> db \<Rightarrow> (string, db) res" where
  "settle_approval now decision r actor_id s =
    bindr (if decision = ''reject''
       then returned ''rejected'' (on_approval (apr_id r) (mark_refused now actor_id ''rejected by system administrator'') s)
       else (case APPROVAL_APPLICATORS (apr_action r) of
           None \<Rightarrow> raised (HTTPException 422 (''no applicator registered for '' @ apr_action r)) s
         | Some applicator \<Rightarrow> bindr (applicator now r actor_id s) (\<lambda>_ s.
             returned ''executed'' (on_approval (apr_id r) (mark_executed now actor_id ''approved by system administrator'') s))))
      (\<lambda>status s. returned status (snd (enqueue now ''approval.granted'' (apr_id r)
           [(''action'', JStr (apr_action r)), (''status'', JStr status)]
         (audit now (''approval.'' @ decision) ''approval_request'' (Some (apr_id r)) (Some actor_id) None
           [(''action'', JStr (apr_action r)), (''target_id'', JUid (apr_target_id r)),
            (''payload'', JObj [(''amount_irr'', JInt (apr_amount_irr r)), (''note'', JStr (apr_note r))])] s))))"

definition decide_approval :: "string \<Rightarrow> int \<Rightarrow> uid \<Rightarrow> string \<Rightarrow> identity \<Rightarrow> db \<Rightarrow> (string, db) res" where
  "decide_approval root_env now i decision ident = request (\<lambda>S.
    bindr (in_session (membership_for root_env (user_id ident)) S) (\<lambda>(a, m, org) S.
    bindr (in_session (require_root root_env ident) S) (\<lambda>_ S.
    bindr (require (decision = ''approve'' \<or> decision = ''reject'')
       (HTTPException 422 ''decision must be approve or reject'') S) (\<lambda>_ S.
    bindr (locked_pending_approval now i S) (\<lambda>r S.
    bindr (in_session (settle_approval now decision r (act_id a)) S) (\<lambda>status S. returned status (commit S)))))))"

section \<open>The audit view\<close>

record audit_view =
  av_row :: audit_log
  av_actor :: "string option"
  av_organization :: "string option"

definition in_subtree :: "db \<Rightarrow> uid \<Rightarrow> uid option \<Rightarrow> bool" where
  "in_subtree s w i = (case i of None \<Rightarrow> False
     | Some j \<Rightarrow> has (\<lambda>c. clo_ancestor_id c = w \<and> clo_descendant_id c = j) (closures s))"

definition web_audit :: "string \<Rightarrow> int \<Rightarrow> identity \<Rightarrow> db \<Rightarrow> (audit_view list, db) res" where
  "web_audit root_env limit ident s = bindr (manager root_env (user_id ident) ''view_audit'' s) (\<lambda>(a, m, org) s.
     bindr (require (\<not> (limit < 1 \<or> limit > 200)) (HTTPException 422 ''limit must be between 1 and 200'') s) (\<lambda>_ s.
       let mine = (\<lambda>r. configured_root_id root_env = Some (user_id ident) \<or> in_subtree s (org_id org) (aud_organization_id r))
       in returned (map (\<lambda>r. \<lparr>av_row = r,
            av_actor = (case aud_actor_id r of None \<Rightarrow> None | Some j \<Rightarrow> map_option act_display_name (lookup act_id j (actors s))),
            av_organization = (case aud_organization_id r of None \<Rightarrow> None | Some j \<Rightarrow> map_option org_name (get_organization s j))\<rparr>)
          (take (nat limit) (sort_key (\<lambda>r. - aud_created_at r) (filter mine (audit_logs s))))) s))"

section \<open>What funding promises\<close>

text \<open>
  The abstract vault: wallets, and requests with their organization, amount and status. A step asks,
  approves - the amount moves from \<open>SYSTEM\<close> to the organization - or rejects, or changes nothing.
\<close>

record vault =
  v_wallet :: "owner \<Rightarrow> int"
  v_request :: "uid \<Rightarrow> (uid \<times> int \<times> string) option"

definition pay :: "uid \<Rightarrow> int \<Rightarrow> (owner \<Rightarrow> int) \<Rightarrow> owner \<Rightarrow> int" where
  "pay w n f v = f v + (if v = Org w then n else 0) - (if v = SYSTEM then n else 0)"

inductive vault_step :: "vault \<Rightarrow> vault \<Rightarrow> bool" where
  refuse: "vault_step v v"
| ask: "v_request v i = None \<Longrightarrow> n > 0 \<Longrightarrow>
    vault_step v (v\<lparr>v_request := (v_request v)(i \<mapsto> (w, n, ''pending''))\<rparr>)"
| approve: "v_request v i = Some (w, n, ''pending'') \<Longrightarrow> n > 0 \<Longrightarrow>
    vault_step v (v\<lparr>v_wallet := pay w n (v_wallet v), v_request := (v_request v)(i \<mapsto> (w, n, ''approved''))\<rparr>)"
| reject: "v_request v i = Some (w, n, ''pending'') \<Longrightarrow>
    vault_step v (v\<lparr>v_request := (v_request v)(i \<mapsto> (w, n, ''rejected''))\<rparr>)"

inductive_cases vault_stepE: "vault_step v v'"

definition vault_of :: "db \<Rightarrow> vault" where
  "vault_of s = \<lparr>v_wallet = wallet_of s, v_request = (\<lambda>i. map_option
     (\<lambda>r. (fun_organization_id r, fun_amount_irr r, fun_status r)) (get_funding s i))\<rparr>"

lemma vault_step_decided:
  "vault_step v v' \<Longrightarrow> v_request v i = Some (w, n, st) \<Longrightarrow> st \<noteq> ''pending'' \<Longrightarrow> v_request v' i = Some (w, n, st)"
  by (elim vault_stepE) (auto split: if_splits)

lemma vault_decided:
  "vault_step\<^sup>*\<^sup>* v v' \<Longrightarrow> v_request v i = Some (w, n, st) \<Longrightarrow> st \<noteq> ''pending'' \<Longrightarrow> v_request v' i = Some (w, n, st)"
  by (induction rule: rtranclp_induct) (auto dest: vault_step_decided)

text \<open>What the tables have to satisfy for the code to follow the vault.\<close>

definition funding_ok :: "db \<Rightarrow> bool" where
  "funding_ok s \<longleftrightarrow> ledger_ok s \<and> (\<forall>r \<in> set (funding_requests s). fun_id r < next_uid s) \<and>
     (\<forall>r \<in> set (funding_requests s). fun_status r = ''pending'' \<longrightarrow>
        0 < fun_amount_irr r \<and> find_transaction s (funding_key (fun_id r)) = None) \<and>
     (\<forall>i \<ge> next_uid s. find_transaction s (funding_key i) = None) \<and>
     distinct (map fun_id (funding_requests s))"

datatype funding_op =
    Ask int int identity
  | BranchDecide int uid string identity
  | AdminDecide int uid string identity

fun funding_step :: "string \<Rightarrow> funding_op \<Rightarrow> db \<Rightarrow> db" where
  "funding_step root_env (Ask now amount ident) s = snd (web_funding_request root_env now amount ident s)"
| "funding_step root_env (BranchDecide now i decision ident) s = snd (branch_decide_funding root_env now i decision ident s)"
| "funding_step root_env (AdminDecide now i decision ident) s = snd (admin_decide_funding root_env now i decision ident s)"

lemma funding_key_inj [simp]: "funding_key i = funding_key j \<longleftrightarrow> i = j"
  by (simp add: funding_key_def)

lemma decide_funding_Inr:
  assumes "decide_funding_request now a w i decision rootless s = (Inr st, s')"
  obtains r child s1 where "get_funding s i = Some r" "fun_status r = ''pending''"
    "get_organization s (fun_organization_id r) = Some child"
    "org_parent_id child = Some w \<or> rootless \<and> org_parent_id child = None"
    "decision = ''approve'' \<and> st = ''approved'' \<and> (\<exists>tx. transfer now SYSTEM (Org (fun_organization_id r))
        (fun_amount_irr r) (funding_key i) ''fund'' (dec i) False (Some a) s = (Inr tx, s1)) \<or>
     decision = ''reject'' \<and> st = ''rejected'' \<and> s1 = s"
    "s' = audit now (''funding_request.'' @ decision) ''funding_request'' (Some i) (Some a) (Some (fun_organization_id r))
        [(''amount_irr'', JInt (fun_amount_irr r)), (''decided_by'', JUid a)] (on_funding i (mark_funding st a now) s1)"
proof -
  from assms obtain r child where 1: "decision = ''approve'' \<or> decision = ''reject''" "get_funding s i = Some r"
    "fun_status r = ''pending''" "get_organization s (fun_organization_id r) = Some child"
    "org_parent_id child = Some w \<or> rootless \<and> org_parent_id child = None"
    and rest: "bindr (if decision = ''approve'' then
         bindr (transfer now SYSTEM (Org (fun_organization_id r)) (fun_amount_irr r) (funding_key i) ''fund'' (dec i)
           False (Some a) s) (\<lambda>_. returned ''approved'')
       else returned ''rejected'' s) (\<lambda>status s.
      returned status (audit now (''funding_request.'' @ decision) ''funding_request'' (Some i) (Some a)
        (Some (fun_organization_id r)) [(''amount_irr'', JInt (fun_amount_irr r)), (''decided_by'', JUid a)]
        (on_funding i (mark_funding status a now) s))) = (Inr st, s')"
    unfolding decide_funding_request_def transact_Inr bindr_Inr_iff by auto
  show thesis
  proof (cases "decision = ''approve''")
    case True
    with rest obtain tx s1 where "transfer now SYSTEM (Org (fun_organization_id r)) (fun_amount_irr r) (funding_key i)
        ''fund'' (dec i) False (Some a) s = (Inr tx, s1)" "st = ''approved''"
      "s' = audit now (''funding_request.'' @ decision) ''funding_request'' (Some i) (Some a) (Some (fun_organization_id r))
        [(''amount_irr'', JInt (fun_amount_irr r)), (''decided_by'', JUid a)] (on_funding i (mark_funding st a now) s1)"
      by (auto simp: bindr_Inr_iff)
    with 1 True that [of r child s1] show thesis by blast
  next
    case False
    with rest have "st = ''rejected''" "s' = audit now (''funding_request.'' @ decision) ''funding_request'' (Some i) (Some a)
        (Some (fun_organization_id r)) [(''amount_irr'', JInt (fun_amount_irr r)), (''decided_by'', JUid a)]
        (on_funding i (mark_funding st a now) s)" by auto
    with 1 False that [of r child s] show thesis by blast
  qed
qed

lemma on_funding_simps [simp]:
  "accounts (on_funding i f s) = accounts s" "transactions (on_funding i f s) = transactions s"
  "next_uid (on_funding i f s) = next_uid s" "organizations (on_funding i f s) = organizations s"
  "funding_requests (on_funding i f s) = modify fun_id i f (funding_requests s)"
  by (simp_all add: on_funding_def)

lemma mark_funding_simps [simp]:
  "fun_id (mark_funding st a now r) = fun_id r" "fun_organization_id (mark_funding st a now r) = fun_organization_id r"
  "fun_amount_irr (mark_funding st a now r) = fun_amount_irr r" "fun_status (mark_funding st a now r) = st"
  by (simp_all add: mark_funding_def)

lemma find_transaction_append:
  "find_transaction s k = None \<Longrightarrow> transactions s' = transactions s @ [tx] \<Longrightarrow>
    find_transaction s' k = (if tx_idempotency_key tx = k then Some tx else None)"
  by (simp add: find_transaction_def lookup_append)

lemma marked_funding_ok:
  assumes ok: "funding_ok s" and i: "i < next_uid s" and st: "st \<noteq> ''pending''" and ledger: "ledger_ok s'"
    and same: "next_uid s \<le> next_uid s'" "\<And>k. k \<noteq> funding_key i \<Longrightarrow> find_transaction s' k = find_transaction s k"
    and rows: "funding_requests s' = modify fun_id i (mark_funding st a now) (funding_requests s)"
  shows "funding_ok s'"
  unfolding funding_ok_def rows using assms by (auto simp: set_modify funding_ok_def)

lemma vault_marked:
  assumes "get_funding s i = Some r" and "funding_requests s' = modify fun_id i (mark_funding st a now) (funding_requests s)"
  shows "v_request (vault_of s') = (v_request (vault_of s))(i \<mapsto> (fun_organization_id r, fun_amount_irr r, st))"
  using assms by (auto simp: vault_of_def lookup_modify fun_eq_iff)

lemma approve_simulates:
  assumes ok: "funding_ok s" and get: "get_funding s i = Some r" and pending: "fun_status r = ''pending''"
    and pay: "transfer now SYSTEM (Org (fun_organization_id r)) (fun_amount_irr r) (funding_key i) ''fund'' (dec i) False
      (Some a) s = (Inr tx, s1)"
    and rows: "funding_requests s' = modify fun_id i (mark_funding ''approved'' a now) (funding_requests s1)"
      "transactions s' = transactions s1" "accounts s' = accounts s1" "next_uid s' = next_uid s1"
  shows "vault_step (vault_of s) (vault_of s') \<and> funding_ok s'"
proof -
  have r: "r \<in> set (funding_requests s)" "fun_id r = i" using get by (auto dest: lookup_SomeD)
  then have n: "0 < fun_amount_irr r" and free: "find_transaction s (funding_key i) = None" "i < next_uid s"
    and ledger: "ledger_ok s" using ok pending by (auto simp: funding_ok_def)
  note only = ledger_only_simps [OF transfer_only [OF pay]]
  note posted = transfer_fresh [OF ledger pay free(1)]
  have reqs: "funding_requests s' = modify fun_id i (mark_funding ''approved'' a now) (funding_requests s)"
    using rows(1) only by simp
  have "v_wallet (vault_of s') = pay (fun_organization_id r) (fun_amount_irr r) (v_wallet (vault_of s))"
    using posted(5) by (auto simp: vault_of_def pay_def wallet_of_def rows(3) fun_eq_iff)
  then have "vault_of s' = (vault_of s)\<lparr>v_wallet := pay (fun_organization_id r) (fun_amount_irr r) (v_wallet (vault_of s)),
      v_request := (v_request (vault_of s))(i \<mapsto> (fun_organization_id r, fun_amount_irr r, ''approved''))\<rparr>"
    using vault_marked [OF get reqs] by simp
  moreover have "v_request (vault_of s) i = Some (fun_organization_id r, fun_amount_irr r, ''pending'')"
    using get pending by (simp add: vault_of_def)
  moreover have "funding_ok s'"
  proof (rule marked_funding_ok [OF ok free(2) _ _ _ _ reqs])
    have "ledger_ok s1" using transfer_ledger_ok [OF ledger] pay by (metis snd_conv)
    then show "ledger_ok s'" by (rule ledger_ok_same) (simp_all add: rows)
    show "find_transaction s' k = find_transaction s k" if "k \<noteq> funding_key i" for k
      using posted(2,3) that by (simp add: find_transaction_def rows(2) lookup_append split: option.split)
  qed (use only rows in simp_all)
  ultimately show ?thesis using vault_step.approve n by metis
qed

lemma decide_simulates:
  assumes ok: "funding_ok s" and run: "decide_funding_request now a w i decision rootless s = (Inr st, s')"
  shows "vault_step (vault_of s) (vault_of s') \<and> funding_ok s'"
proof (rule decide_funding_Inr [OF run])
  fix r child s1
  assume get: "get_funding s i = Some r" and pending: "fun_status r = ''pending''"
    and how: "decision = ''approve'' \<and> st = ''approved'' \<and> (\<exists>tx. transfer now SYSTEM (Org (fun_organization_id r))
        (fun_amount_irr r) (funding_key i) ''fund'' (dec i) False (Some a) s = (Inr tx, s1)) \<or>
     decision = ''reject'' \<and> st = ''rejected'' \<and> s1 = s"
    and "s' = audit now (''funding_request.'' @ decision) ''funding_request'' (Some i) (Some a) (Some (fun_organization_id r))
        [(''amount_irr'', JInt (fun_amount_irr r)), (''decided_by'', JUid a)] (on_funding i (mark_funding st a now) s1)"
  then have rows: "funding_requests s' = modify fun_id i (mark_funding st a now) (funding_requests s1)"
    "transactions s' = transactions s1" "accounts s' = accounts s1" "next_uid s' = next_uid s1" by simp_all
  have i: "i < next_uid s" and ledger: "ledger_ok s" using ok get by (auto simp: funding_ok_def dest: lookup_SomeD)
  from how show "vault_step (vault_of s) (vault_of s') \<and> funding_ok s'"
  proof (elim disjE conjE exE)
    fix tx assume "st = ''approved''" and "transfer now SYSTEM (Org (fun_organization_id r))
        (fun_amount_irr r) (funding_key i) ''fund'' (dec i) False (Some a) s = (Inr tx, s1)"
    with approve_simulates [OF ok get pending] rows show ?thesis by blast
  next
    assume st: "st = ''rejected''" "s1 = s"
    then have "v_wallet (vault_of s') = v_wallet (vault_of s)" using rows by (simp add: vault_of_def wallet_of_def fun_eq_iff)
    then have "vault_of s' = (vault_of s)\<lparr>v_request := (v_request (vault_of s))(i \<mapsto> (fun_organization_id r, fun_amount_irr r, ''rejected''))\<rparr>"
      using vault_marked [OF get, of s' st a now] rows st by simp
    moreover have "v_request (vault_of s) i = Some (fun_organization_id r, fun_amount_irr r, ''pending'')"
      using get pending by (simp add: vault_of_def)
    moreover have "funding_ok s'"
    proof (rule marked_funding_ok [OF ok i])
      show "ledger_ok s'" by (rule ledger_ok_same [OF ledger]) (use rows st in simp_all)
    qed (use rows st in \<open>auto simp: find_transaction_def\<close>)
    ultimately show ?thesis using vault_step.reject by metis
  qed
qed

lemma manager_state: "manager root_env tid p s = (Inr (a, m, org), s') \<Longrightarrow> s' = s"
  and membership_for_state: "membership_for root_env tid s = (Inr (a, m, org), s') \<Longrightarrow> s' = s"
  by (simp_all add: manager_iff membership_for_iff)

lemma ask_simulates:
  assumes ok: "funding_ok s" and run: "web_funding_request root_env now amount ident s = (Inr i, s')"
  shows "vault_step (vault_of s) (vault_of s') \<and> funding_ok s'"
proof -
  from run obtain a m org s1 where amount: "0 < amount"
    and man: "manager root_env (user_id ident) ''request_funding'' s = (Inr (a, m, org), s1)"
    and s1: "s' = audit now ''funding_request.create'' ''funding_request'' None (Some (act_id a)) (Some (org_id org))
      [(''amount_irr'', JInt amount)] (draw (s1\<lparr>funding_requests := funding_requests s1 @
        [\<lparr>fun_id = next_uid s1, fun_organization_id = org_id org, fun_actor_id = act_id a, fun_amount_irr = amount,
          fun_status = ''pending'', fun_decided_by = None, fun_decided_at = None, fun_created_at = now\<rparr>]\<rparr>))"
    by (auto simp: web_funding_request_def transact_Inr bindr_Inr_iff Let_def)
  have s': "funding_requests s' = funding_requests s @ [\<lparr>fun_id = next_uid s, fun_organization_id = org_id org,
      fun_actor_id = act_id a, fun_amount_irr = amount, fun_status = ''pending'', fun_decided_by = None,
      fun_decided_at = None, fun_created_at = now\<rparr>]"
    "accounts s' = accounts s" "transactions s' = transactions s" "next_uid s' = Suc (next_uid s)"
    using s1 manager_state [OF man] by simp_all
  have new: "get_funding s (next_uid s) = None" using ok by (auto simp: funding_ok_def lookup_None_iff)
  have "vault_of s' = (vault_of s)\<lparr>v_request := (v_request (vault_of s))(next_uid s \<mapsto> (org_id org, amount, ''pending''))\<rparr>"
    using new by (auto simp: vault_of_def s' lookup_append wallet_of_def fun_eq_iff split: option.split)
  moreover have "v_request (vault_of s) (next_uid s) = None" using new by (simp add: vault_of_def)
  moreover have "ledger_ok s'" by (rule ledger_ok_same [of s]) (use ok s' in \<open>simp_all add: funding_ok_def\<close>)
  then have "funding_ok s'" using ok amount by (auto simp: funding_ok_def s' find_transaction_def)
  ultimately show ?thesis using vault_step.ask amount by metis
qed

lemma decide_refused:
  assumes "decide_funding_request now a w i decision rootless s = (r, s')" and "funding_ok s"
  shows "vault_step (vault_of s) (vault_of s') \<and> funding_ok s'"
proof (cases r)
  case (Inl e)
  have "s' = s" by (rule transact_Inl [OF assms(1) [unfolded Inl decide_funding_request_def]])
  with assms(2) show ?thesis by (simp add: vault_step.refuse)
next
  case (Inr st)
  with assms show ?thesis by (auto dest: decide_simulates)
qed

lemma guarded_decision:
  assumes ok: "funding_ok s"
    and run: "bindr (guard s) (\<lambda>(a, m, org). decide_funding_request now (act_id a) (org_id org) i decision rootless) = (r, s')"
    and guard: "\<And>q s1. guard s = (q, s1) \<Longrightarrow> s1 = s"
  shows "vault_step (vault_of s) (vault_of s') \<and> funding_ok s'"
proof (cases "guard s")
  case (Pair q s1)
  with guard have s1: "s1 = s" by blast
  show ?thesis
  proof (cases q)
    case (Inl e)
    with run Pair s1 ok show ?thesis by (simp add: vault_step.refuse)
  next
    case (Inr x)
    obtain a m org where "x = (a, m, org)" by (cases x) auto
    with run Pair s1 Inr have "decide_funding_request now (act_id a) (org_id org) i decision rootless s = (r, s')" by simp
    from decide_refused [OF this ok] show ?thesis .
  qed
qed

lemma manager_reads: "manager root_env tid p s = (q, s1) \<Longrightarrow> s1 = s"
  and membership_for_reads: "membership_for root_env tid s = (q', s2) \<Longrightarrow> s2 = s"
  by (auto simp: manager_def membership_for_def bindr_def require_def require_some_def returned_def
      split: option.splits if_splits prod.splits sum.splits)

lemma require_root_reads: "require_root root_env ident s = (q, s1) \<Longrightarrow> s1 = s"
  by (auto simp: require_root_def require_def split: option.splits if_splits)

lemma funding_step_simulates:
  assumes ok: "funding_ok s"
  shows "vault_step (vault_of s) (vault_of (funding_step root_env x s)) \<and> funding_ok (funding_step root_env x s)"
proof (cases x)
  case (Ask now amount ident)
  obtain r s' where run: "web_funding_request root_env now amount ident s = (r, s')" by fastforce
  show ?thesis
  proof (cases r)
    case (Inl e)
    have "s' = s" by (rule transact_Inl [OF run [unfolded Inl web_funding_request_def]])
    with run Ask ok show ?thesis by (simp add: vault_step.refuse)
  next
    case (Inr i)
    with run Ask ask_simulates [OF ok] show ?thesis by simp
  qed
next
  case (BranchDecide now i decision ident)
  obtain r s' where run: "branch_decide_funding root_env now i decision ident s = (r, s')" by fastforce
  let ?guard = "manager root_env (user_id ident) ''decide_funding''"
  from guarded_decision [where guard = ?guard, OF ok run [unfolded branch_decide_funding_def] manager_reads] run BranchDecide
  show ?thesis by simp
next
  case (AdminDecide now i decision ident)
  obtain r s' where run: "admin_decide_funding root_env now i decision ident s = (r, s')" by fastforce
  let ?guard = "\<lambda>s. bindr (membership_for root_env (user_id ident) s) (\<lambda>x s.
    bindr (require_root root_env ident s) (\<lambda>_. returned x))"
  have "bindr (?guard s) (\<lambda>(a, m, org). decide_funding_request now (act_id a) (org_id org) i decision True) = (r, s')"
    using run unfolding admin_decide_funding_def
    by (auto simp: bindr_def returned_def split: prod.splits sum.splits)
  moreover have "s1 = s" if "?guard s = (q, s1)" for q s1
    using that by (auto simp: bindr_def returned_def split: prod.splits sum.splits dest: membership_for_reads require_root_reads)
  ultimately have "vault_step (vault_of s) (vault_of s') \<and> funding_ok s'"
    by (rule guarded_decision [where guard = ?guard, OF ok])
  with run AdminDecide show ?thesis by simp
qed

interpretation funding: step_system "funding_step root_env" funding_ok
  by unfold_locales (use funding_step_simulates in blast)

section \<open>Properties\<close>

text \<open>
  C27: funding refines the vault. Whatever requests and decisions the three routes serve, by whomever and
  in any order, the wallets and requests of the database move as a sequence of steps of the abstract
  vault: a request appears as pending with a positive amount, an approval moves exactly that amount from
  \<open>SYSTEM\<close> to the requesting organization and marks it approved, a rejection moves nothing, and whatever was
  decided never changes again - so no request is ever paid twice.
\<close>

theorem funding_refines_the_vault:
  assumes ok: "funding_ok s"
  shows "vault_step\<^sup>*\<^sup>* (vault_of s) (vault_of (fold (funding_step root_env) ops s)) \<and>
    funding_ok (fold (funding_step root_env) ops s) \<and>
    (\<forall>i r. get_funding s i = Some r \<and> fun_status r \<noteq> ''pending'' \<longrightarrow>
       (\<exists>q. get_funding (fold (funding_step root_env) ops s) i = Some q \<and> fun_status q = fun_status r \<and>
          fun_amount_irr q = fun_amount_irr r))"
proof -
  have steps: "vault_step\<^sup>*\<^sup>* (vault_of s) (vault_of (fold (funding_step root_env) ops s))"
    using ok
  proof (induction ops arbitrary: s)
    case (Cons x ops)
    from funding_step_simulates [OF Cons.prems, of root_env x] Cons.IH show ?case
      by (auto intro: converse_rtranclp_into_rtranclp)
  qed simp
  have "\<exists>q. get_funding (fold (funding_step root_env) ops s) i = Some q \<and> fun_status q = fun_status r \<and>
      fun_amount_irr q = fun_amount_irr r" if "get_funding s i = Some r" "fun_status r \<noteq> ''pending''" for i r
    using vault_decided [OF steps, of i "fun_organization_id r" "fun_amount_irr r" "fun_status r"] that
    by (auto simp: vault_of_def)
  with steps funding.run_inv [OF ok] show ?thesis by blast
qed

lemma on_approval_simps [simp]:
  "accounts (on_approval i f s) = accounts s" "transactions (on_approval i f s) = transactions s"
  "next_uid (on_approval i f s) = next_uid s" "organizations (on_approval i f s) = organizations s"
  "approval_requests (on_approval i f s) = modify apr_id i f (approval_requests s)"
  "wallet_of (on_approval i f s) v = wallet_of s v"
  by (simp_all add: on_approval_def wallet_of_def)

text \<open>What an applied adjustment did to the ledger, in the direction of its sign.\<close>

lemma apply_wallet_adjustment_Inr:
  assumes run: "apply_wallet_adjustment now q a s = (Inr u, s')" and ok: "ledger_ok s"
    and fresh: "find_transaction s (approval_key (apr_id q)) = None"
  shows "ledger_ok s'" and "approval_requests s' = approval_requests s"
    and "wallet_of s' v = wallet_of s v + (if v = Org (apr_target_id q) then apr_amount_irr q else 0)
       - (if v = SYSTEM then apr_amount_irr q else 0)"
    and "apr_amount_irr q < 0 \<Longrightarrow> payer_error (Org (apr_target_id q)) (wallet_of s (Org (apr_target_id q))) (- apr_amount_irr q) s = None"
    and "get_organization s (apr_target_id q) \<noteq> None" "next_uid s \<le> next_uid s'" "apr_amount_irr q \<noteq> 0"
proof -
  let ?n = "apr_amount_irr q" and ?k = "approval_key (apr_id q)"
  from run obtain org tx s1 where org: "get_organization s (apr_target_id q) = Some org"
    and moved: "(if ?n > 0 then transfer now SYSTEM (Org (org_id org)) ?n ?k ''adjustment'' (dec (apr_id q)) False (Some a) s
      else transfer now (Org (org_id org)) SYSTEM (- ?n) ?k ''adjustment'' (dec (apr_id q)) True (Some a) s) = (Inr tx, s1)"
    and s': "accounts s' = accounts s1" "transactions s' = transactions s1" "next_uid s' = next_uid s1"
      "approval_requests s' = approval_requests s1"
    by (auto simp: apply_wallet_adjustment_def bindr_Inr_iff Let_def)
  have id: "org_id org = apr_target_id q" using org by (auto dest: lookup_SomeD)
  have w: "wallet_of s' v = wallet_of s1 v" for v using s' by (simp add: wallet_of_def)
  have "ledger_ok s1" using moved transfer_ledger_ok [OF ok] by (metis snd_conv)
  then show "ledger_ok s'" by (rule ledger_ok_same) (use s' in simp_all)
  have "ledger_only s s1" using moved by (auto split: if_splits dest: transfer_only)
  then show "approval_requests s' = approval_requests s" "next_uid s \<le> next_uid s'"
    using s' by (simp_all add: ledger_only_simps)
  show "get_organization s (apr_target_id q) \<noteq> None" using org by simp
  show "wallet_of s' v = wallet_of s v + (if v = Org (apr_target_id q) then ?n else 0) - (if v = SYSTEM then ?n else 0)"
    using moved w id transfer_fresh(5) [OF ok _ fresh] by (auto split: if_splits)
  show "payer_error (Org (apr_target_id q)) (wallet_of s (Org (apr_target_id q))) (- ?n) s = None" if "?n < 0"
    using moved id that transfer_fresh(4) [OF ok _ fresh] by (auto split: if_splits)
  show "?n \<noteq> 0" using moved transfer_fresh(1) [OF ok _ fresh] by (fastforce split: if_splits)
qed

lemma require_root_iff:
  "require_root root_env ident s = (Inr u, s') \<longleftrightarrow> s' = s \<and> configured_root_id root_env = Some (user_id ident)"
  by (auto simp: require_root_def require_def split: option.split)

lemma open_session_simps [simp]: "current (open_session s) = s" "committed (open_session s) = s"
  by (simp_all add: open_session_def)

text \<open>The locked part of a decision: refused, refused because the request expired, or settled.\<close>

lemma locked_decision_cases:
  assumes run: "request (\<lambda>S. bindr (locked_pending_approval now i S) (\<lambda>q S.
      bindr (in_session (settle_approval now decision q a) S) (\<lambda>st S. returned st (commit S)))) s = (r, s')"
  obtains (refused) e where "r = Inl e" "s' = s"
  | (expired) q where "r = Inl (HTTPException 410 ''approval request expired'')" "get_approval s i = Some q"
      "apr_status q = ''pending''" "apr_expires_at q \<le> now" "s' = on_approval i (mark_expired now) s"
  | (settled) q st where "r = Inr st" "get_approval s i = Some q" "apr_status q = ''pending''" "now < apr_expires_at q"
      "settle_approval now decision q a s = (Inr st, s')"
proof (cases "get_approval s i")
  case None
  with run have "\<exists>e. r = Inl e \<and> s' = s"
    by (auto simp: request_def locked_pending_approval_def bindr_require_some raised_def)
  then show thesis using refused by blast
next
  case (Some q)
  consider "apr_status q \<noteq> ''pending''" | "apr_status q = ''pending''" "apr_expires_at q \<le> now"
    | "apr_status q = ''pending''" "now < apr_expires_at q" by fastforce
  then show thesis
  proof cases
    case 1
    with run Some have "\<exists>e. r = Inl e \<and> s' = s"
      by (auto simp: request_def locked_pending_approval_def bindr_require_some bindr_require raised_def)
    then show thesis using refused by blast
  next
    case 2
    with run Some have "r = Inl (HTTPException 410 ''approval request expired'') \<and> s' = on_approval i (mark_expired now) s"
      by (auto simp: request_def locked_pending_approval_def bindr_require_some bindr_require raised_def commit_def)
    then show thesis using expired Some 2 by blast
  next
    case 3
    then have lock: "locked_pending_approval now i (open_session s) = (Inr q, open_session s)"
      using Some by (simp add: locked_pending_approval_def bindr_require_some bindr_require returned_def)
    obtain st s1 where st: "settle_approval now decision q a s = (st, s1)" by fastforce
    with run lock have "case st of Inl e \<Rightarrow> r = Inl e \<and> s' = s | Inr v \<Rightarrow> r = Inr v \<and> s' = s1"
      by (auto simp: request_def in_session_def commit_def returned_def split: sum.splits)
    then show thesis using refused settled [OF _ Some 3] st by (cases st) auto
  qed
qed

text \<open>Only the root administrator gets that far, with a valid decision.\<close>

lemma decide_approval_guarded:
  assumes run: "decide_approval root_env now i decision ident s = (r, s')"
  obtains (refused) e where "r = Inl e" "s' = s"
  | (guarded) a m org where "membership_for root_env (user_id ident) s = (Inr (a, m, org), s)"
      "configured_root_id root_env = Some (user_id ident)" "decision = ''approve'' \<or> decision = ''reject''"
      "request (\<lambda>S. bindr (locked_pending_approval now i S) (\<lambda>q S.
         bindr (in_session (settle_approval now decision q (act_id a)) S) (\<lambda>st S. returned st (commit S)))) s = (r, s')"
proof -
  have mem: "snd (membership_for root_env (user_id ident) s) = s" and root: "snd (require_root root_env ident s) = s"
    using membership_for_reads require_root_reads by (metis prod.collapse)+
  have reads: "in_session (membership_for root_env (user_id ident)) (open_session s) =
      (fst (membership_for root_env (user_id ident) s), open_session s)"
    "in_session (require_root root_env ident) (open_session s) = (fst (require_root root_env ident s), open_session s)"
    using mem root by (cases "membership_for root_env (user_id ident) s"; cases "require_root root_env ident s";
      simp add: in_session_def open_session_def)+
  show thesis
  proof (cases "fst (membership_for root_env (user_id ident) s)")
    case (Inl e)
    with run show thesis by (intro refused [of e]) (auto simp: decide_approval_def request_def reads)
  next
    case (Inr x)
    obtain a m org where x: "x = (a, m, org)" by (cases x) auto
    show thesis
    proof (cases "configured_root_id root_env = Some (user_id ident) \<and> (decision = ''approve'' \<or> decision = ''reject'')")
      case False
      then have "\<exists>e. r = Inl e \<and> s' = s" using run Inr x
        by (auto simp: decide_approval_def request_def reads bindr_require require_root_def
            require_def raised_def split: option.splits if_splits)
      then show thesis using refused by blast
    next
      case True
      then have "fst (require_root root_env ident s) = Inr ()" by (simp add: require_root_def require_def)
      moreover have "membership_for root_env (user_id ident) s = (Inr (a, m, org), s)" using Inr x mem by (metis prod.collapse)
      ultimately show thesis using run Inr x True
        by (intro guarded) (simp_all add: decide_approval_def request_def reads bindr_require)
    qed
  qed
qed


lemma mark_status [simp]:
  "apr_id (mark_executed now a note' q) = apr_id q" "apr_status (mark_executed now a note' q) = ''executed''"
  "apr_id (mark_refused now a note' q) = apr_id q" "apr_status (mark_refused now a note' q) = ''rejected''"
  "apr_id (mark_expired now q) = apr_id q" "apr_status (mark_expired now q) = ''expired''"
  by (simp_all add: mark_executed_def mark_refused_def mark_expired_def)

lemma enqueue_requests [simp]:
  "approval_requests (snd (enqueue now t i p s)) = approval_requests s"
  "wallet_of (snd (enqueue now t i p s)) v = wallet_of s v"
  by (simp_all add: enqueue_def Let_def wallet_of_def)

lemma settle_approval_Inr:
  assumes run: "settle_approval now decision q a s = (Inr st, s')" and ok: "ledger_ok s"
    and fresh: "find_transaction s (approval_key (apr_id q)) = None" and q: "get_approval s (apr_id q) = Some q"
  shows "ledger_ok s'" and "\<exists>q'. get_approval s' (apr_id q) = Some q' \<and> apr_status q' = st"
    and "decision = ''reject'' \<and> st = ''rejected'' \<and> (\<forall>v. wallet_of s' v = wallet_of s v) \<or>
      decision \<noteq> ''reject'' \<and> st = ''executed'' \<and> apr_amount_irr q \<noteq> 0 \<and>
      get_organization s (apr_target_id q) \<noteq> None \<and>
      (\<forall>v. wallet_of s' v = pay (apr_target_id q) (apr_amount_irr q) (wallet_of s) v) \<and>
      (apr_amount_irr q < 0 \<longrightarrow> payer_error (Org (apr_target_id q))
         (wallet_of s (Org (apr_target_id q))) (- apr_amount_irr q) s = None)"
proof -
  define tail where "tail st' s1 = snd (enqueue now ''approval.granted'' (apr_id q)
      [(''action'', JStr (apr_action q)), (''status'', JStr st')]
      (audit now (''approval.'' @ decision) ''approval_request'' (Some (apr_id q)) (Some a) None
        [(''action'', JStr (apr_action q)), (''target_id'', JUid (apr_target_id q)),
         (''payload'', JObj [(''amount_irr'', JInt (apr_amount_irr q)), (''note'', JStr (apr_note q))])] s1))" for st' s1
  have tail: "approval_requests (tail st' s1) = approval_requests s1" "wallet_of (tail st' s1) v = wallet_of s1 v"
    "ledger_ok s1 \<Longrightarrow> ledger_ok (tail st' s1)" for st' s1 v
    unfolding tail_def by (auto simp: wallet_of_def enqueue_def Let_def intro: ledger_ok_same [of s1])
  consider (no) "decision = ''reject''" "st = ''rejected''"
      "s' = tail st (on_approval (apr_id q) (mark_refused now a ''rejected by system administrator'') s)"
    | (yes) u s1 where "decision \<noteq> ''reject''" "st = ''executed''" "apply_wallet_adjustment now q a s = (Inr u, s1)"
      "s' = tail st (on_approval (apr_id q) (mark_executed now a ''approved by system administrator'') s1)"
    using run by (auto simp: settle_approval_def APPROVAL_APPLICATORS_def bindr_Inr_iff tail_def split: if_splits)
  then have "ledger_ok s' \<and> (\<exists>q'. get_approval s' (apr_id q) = Some q' \<and> apr_status q' = st) \<and>
     (decision = ''reject'' \<and> st = ''rejected'' \<and> (\<forall>v. wallet_of s' v = wallet_of s v) \<or>
      decision \<noteq> ''reject'' \<and> st = ''executed'' \<and> apr_amount_irr q \<noteq> 0 \<and>
      get_organization s (apr_target_id q) \<noteq> None \<and>
      (\<forall>v. wallet_of s' v = pay (apr_target_id q) (apr_amount_irr q) (wallet_of s) v) \<and>
      (apr_amount_irr q < 0 \<longrightarrow> payer_error (Org (apr_target_id q))
         (wallet_of s (Org (apr_target_id q))) (- apr_amount_irr q) s = None))"
  proof cases
    case no
    have "ledger_ok s'" unfolding no(3) by (rule tail(3), rule ledger_ok_same [OF ok]) simp_all
    with no q show ?thesis by (simp add: tail lookup_modify)
  next
    case yes
    note applied = apply_wallet_adjustment_Inr [OF yes(3) ok fresh]
    have "ledger_ok s'" unfolding yes(4) by (rule tail(3), rule ledger_ok_same [OF applied(1)]) simp_all
    moreover have "wallet_of s' v = wallet_of s1 v" for v using yes(4) by (simp add: tail)
    ultimately show ?thesis using yes q applied by (simp add: tail lookup_modify pay_def)
  qed
  then show "ledger_ok s'" "\<exists>q'. get_approval s' (apr_id q) = Some q' \<and> apr_status q' = st"
    "decision = ''reject'' \<and> st = ''rejected'' \<and> (\<forall>v. wallet_of s' v = wallet_of s v) \<or>
      decision \<noteq> ''reject'' \<and> st = ''executed'' \<and> apr_amount_irr q \<noteq> 0 \<and>
      get_organization s (apr_target_id q) \<noteq> None \<and>
      (\<forall>v. wallet_of s' v = pay (apr_target_id q) (apr_amount_irr q) (wallet_of s) v) \<and>
      (apr_amount_irr q < 0 \<longrightarrow> payer_error (Org (apr_target_id q))
         (wallet_of s (Org (apr_target_id q))) (- apr_amount_irr q) s = None)" by blast+
qed

lemma decided_is_refused:
  assumes "get_approval s i = Some q" and "apr_status q \<noteq> ''pending''"
  shows "\<exists>e. decide_approval root_env now i decision ident s = (Inl e, s)"
proof -
  obtain r s' where run: "decide_approval root_env now i decision ident s = (r, s')" by fastforce
  show ?thesis
  proof (rule decide_approval_guarded [OF run])
    fix a m org
    assume "request (\<lambda>S. bindr (locked_pending_approval now i S) (\<lambda>q S.
         bindr (in_session (settle_approval now decision q (act_id a)) S) (\<lambda>st S. returned st (commit S)))) s = (r, s')"
    then show ?thesis by (rule locked_decision_cases) (use run assms in auto)
  qed (use run in blast)
qed

text \<open>
  an adjustment is decided once. When a decision on an approval request raises, nothing has changed,
  except that an expired request is closed as expired. When it returns, the caller is the configured root
  administrator and the request was pending and not expired; it now carries the returned status. A
  rejection moved no money; an execution moved exactly the signed amount between the target's wallet and
  \<open>SYSTEM\<close>, and a debit only within the target's credit; the ledger stays balanced. And whoever tries again
  later, with whatever decision, is refused without effect.
\<close>

theorem adjustment_is_decided_once:
  assumes run: "decide_approval root_env now i decision ident s = (r, s')"
    and ok: "ledger_ok s" and fresh: "find_transaction s (approval_key i) = None"
  shows "case r of
      Inl e \<Rightarrow> s' = s \<or> (e = HTTPException 410 ''approval request expired'' \<and> s' = on_approval i (mark_expired now) s \<and>
        (\<exists>q. get_approval s i = Some q \<and> apr_status q = ''pending'' \<and> apr_expires_at q \<le> now))
    | Inr st \<Rightarrow> configured_root_id root_env = Some (user_id ident) \<and> ledger_ok s' \<and>
        (\<exists>q. get_approval s i = Some q \<and> apr_status q = ''pending'' \<and> now < apr_expires_at q \<and>
          (\<exists>q'. get_approval s' i = Some q' \<and> apr_status q' = st) \<and>
          (decision = ''reject'' \<and> st = ''rejected'' \<and> (\<forall>v. wallet_of s' v = wallet_of s v) \<or>
           decision = ''approve'' \<and> st = ''executed'' \<and> apr_amount_irr q \<noteq> 0 \<and>
           (\<forall>v. wallet_of s' v = pay (apr_target_id q) (apr_amount_irr q) (wallet_of s) v) \<and>
           (apr_amount_irr q < 0 \<longrightarrow> payer_error (Org (apr_target_id q))
              (wallet_of s (Org (apr_target_id q))) (- apr_amount_irr q) s = None))) \<and>
        (\<forall>now' d ident'. \<exists>e. decide_approval root_env now' i d ident' s' = (Inl e, s'))"
proof (rule decide_approval_guarded [OF run])
  fix a m org
  assume root: "configured_root_id root_env = Some (user_id ident)" and dec: "decision = ''approve'' \<or> decision = ''reject''"
    and rest: "request (\<lambda>S. bindr (locked_pending_approval now i S) (\<lambda>q S.
       bindr (in_session (settle_approval now decision q (act_id a)) S) (\<lambda>st S. returned st (commit S)))) s = (r, s')"
  show ?thesis
  proof (rule locked_decision_cases [OF rest])
    fix q st
    assume q: "r = Inr st" "get_approval s i = Some q" "apr_status q = ''pending''" "now < apr_expires_at q"
      and settled: "settle_approval now decision q (act_id a) s = (Inr st, s')"
    have i: "apr_id q = i" using q(2) by (auto dest: lookup_SomeD)
    note end_state = settle_approval_Inr [OF settled ok, unfolded i, OF fresh q(2)]
    from end_state(3) have "st \<noteq> ''pending''" by auto
    with end_state(2) have "\<exists>e. decide_approval root_env now' i d ident' s' = (Inl e, s')" for now' d ident'
      using decided_is_refused by blast
    with end_state q root dec show ?thesis by auto
  qed auto
qed simp


text \<open>A listing that stops early leaves out only what comes later in its order.\<close>

lemma not_taken:
  assumes "x \<in> set xs" and "x \<notin> set (take n (sort_key f xs))"
  shows "length (take n (sort_key f xs)) = n" and "y \<in> set (take n (sort_key f xs)) \<Longrightarrow> f y \<le> f x"
proof -
  have "x \<in> set (take n (sort_key f xs) @ drop n (sort_key f xs))" using assms(1) by simp
  then have x: "x \<in> set (drop n (sort_key f xs))" using assms(2) by (metis UnE set_append)
  then have "drop n (sort_key f xs) \<noteq> []" by auto
  then show "length (take n (sort_key f xs)) = n" by simp
  have "sorted (map f (take n (sort_key f xs)) @ map f (drop n (sort_key f xs)))"
    by (metis append_take_drop_id map_append sorted_sort_key)
  then show "f y \<le> f x" if "y \<in> set (take n (sort_key f xs))" using x that by (auto simp: sorted_append)
qed

lemma in_subtree_iff:
  assumes "closure_exact s"
  shows "in_subtree s w i \<longleftrightarrow> (\<exists>j n. i = Some j \<and> get_organization s j \<noteq> None \<and> ancestor s n j = Some w)"
proof (cases i)
  case (Some j)
  have "has (\<lambda>c. clo_ancestor_id c = w \<and> clo_descendant_id c = j) (closures s) \<longleftrightarrow>
      (\<exists>n. \<lparr>clo_ancestor_id = w, clo_descendant_id = j, clo_depth = n\<rparr> \<in> set (closures s))"
    by (auto simp: has_def) (metis closure.surjective old.unit.exhaust, force)
  also have "\<dots> \<longleftrightarrow> (\<exists>n. get_organization s j \<noteq> None \<and> ancestor s n j = Some w)"
    using assms by (simp add: closure_exact_def)
  finally show ?thesis using Some by (simp add: in_subtree_def)
qed (simp add: in_subtree_def)

text \<open>
  the audit view. Reading it changes nothing, and needs the permission and a limit between 1 and 200.
  Every row shown is a row of the trail which, unless the caller is the root administrator, belongs to an
  organization of the reseller's own subtree - the organization itself or one that reaches it by following
  parents; and when such a row is left out, the view is full of rows that are not older.
\<close>

theorem audit_shows_own_subtree:
  assumes tree: "tree_ok s" and run: "web_audit root_env limit ident s = (Inr views, s')"
  shows "s' = s \<and> 1 \<le> limit \<and> limit \<le> 200 \<and> int (length views) \<le> limit \<and>
    (\<exists>a m org. manager root_env (user_id ident) ''view_audit'' s = (Inr (a, m, org), s) \<and>
      (let mine = (\<lambda>r. configured_root_id root_env = Some (user_id ident) \<or>
         (\<exists>j n. aud_organization_id r = Some j \<and> get_organization s j \<noteq> None \<and> ancestor s n j = Some (org_id org)))
       in (\<forall>v \<in> set views. av_row v \<in> set (audit_logs s) \<and> mine (av_row v)) \<and>
          (\<forall>r \<in> set (audit_logs s). mine r \<and> r \<notin> av_row ` set views \<longrightarrow> int (length views) = limit \<and>
             (\<forall>v \<in> set views. aud_created_at r \<le> aud_created_at (av_row v)))))"
proof -
  from run obtain a m org s1 where man: "manager root_env (user_id ident) ''view_audit'' s = (Inr (a, m, org), s1)"
    and limit: "\<not> (limit < 1 \<or> limit > 200)" and s': "s' = s1"
    and rows: "map av_row views = take (nat limit) (sort_key (\<lambda>r. - aud_created_at r)
      (filter (\<lambda>r. configured_root_id root_env = Some (user_id ident) \<or> in_subtree s1 (org_id org) (aud_organization_id r))
        (audit_logs s1)))"
    unfolding web_audit_def by (auto simp: bindr_Inr_iff Let_def comp_def)
  have s1: "s1 = s" by (rule manager_state [OF man])
  have exact: "closure_exact s" using tree by (simp add: tree_ok_def)
  define mine where "mine r \<longleftrightarrow> configured_root_id root_env = Some (user_id ident) \<or>
    (\<exists>j n. aud_organization_id r = Some j \<and> get_organization s j \<noteq> None \<and> ancestor s n j = Some (org_id org))" for r :: audit_log
  have shown: "map av_row views = take (nat limit) (sort_key (\<lambda>r. - aud_created_at r) (filter mine (audit_logs s)))"
    using rows unfolding s1 by (simp add: mine_def [abs_def] in_subtree_iff [OF exact])
  have "length views \<le> nat limit" using arg_cong [OF shown, of length] by simp
  then have "int (length views) \<le> limit" using limit by linarith
  moreover have "av_row v \<in> set (audit_logs s) \<and> mine (av_row v)" if "v \<in> set views" for v
  proof -
    have "av_row v \<in> set (map av_row views)" using that by simp
    then show ?thesis unfolding shown by (auto dest: in_set_takeD)
  qed
  moreover have "int (length views) = limit \<and> (\<forall>v \<in> set views. aud_created_at r \<le> aud_created_at (av_row v))"
    if "r \<in> set (audit_logs s)" "mine r" "r \<notin> av_row ` set views" for r
  proof -
    have r: "r \<in> set (filter mine (audit_logs s))" "r \<notin> set (take (nat limit) (sort_key (\<lambda>r. - aud_created_at r) (filter mine (audit_logs s))))"
      using that shown by (simp_all flip: set_map)
    note not_taken [OF r, folded shown]
    then have "length views = nat limit" "\<forall>v \<in> set views. - aud_created_at (av_row v) \<le> - aud_created_at r" by simp_all
    then show ?thesis using limit by simp
  qed
  ultimately have "s' = s \<and> 1 \<le> limit \<and> limit \<le> 200 \<and> int (length views) \<le> limit \<and>
      (\<forall>v \<in> set views. av_row v \<in> set (audit_logs s) \<and> mine (av_row v)) \<and>
      (\<forall>r \<in> set (audit_logs s). mine r \<and> r \<notin> av_row ` set views \<longrightarrow> int (length views) = limit \<and>
         (\<forall>v \<in> set views. aud_created_at r \<le> aud_created_at (av_row v)))"
    using limit s' s1 by simp
  then show ?thesis using man unfolding s1 mine_def [abs_def] Let_def by blast
qed

end
