(* ===== verification/Catalog.thy ===== *)
theory Catalog
  imports Orders
begin

text \<open>
  The plan catalog of \<open>web_api.py\<close>: the shelves and published plans of a seller, who keeps them, and what
  an order for a plan costs.
\<close>

section \<open>Shelves\<close>

record plan_category_in =
  ci_name :: string
  ci_description :: string

record plan_in =
  pl_panel_id :: uid
  pl_category_id :: "uid option"
  pl_name :: string
  pl_description :: string
  pl_price_per_gib_irr :: int
  pl_daily_gib :: int
  pl_duration_days :: int
  pl_user_count :: int
  pl_credit_limit_irr :: int
  pl_payment_instructions :: string

definition catalog_shelf :: "uid \<Rightarrow> uid \<Rightarrow> db \<Rightarrow> (plan_category, db) res" where
  "catalog_shelf i w s = require_some
     (case get_category s i of None \<Rightarrow> None | Some c \<Rightarrow> if cat_organization_id c \<noteq> w then None else Some c)
     (HTTPException 404 ''category not found'') s"

definition catalog_plan :: "uid \<Rightarrow> uid \<Rightarrow> db \<Rightarrow> (plan, db) res" where
  "catalog_plan i w s = require_some
     (case get_plan s i of None \<Rightarrow> None | Some p \<Rightarrow> if plan_organization_id p \<noteq> w then None else Some p)
     (HTTPException 404 ''plan not found'') s"

record catalog_view =
  cv_categories :: "(plan_category \<times> nat) list"
  cv_plans :: "plan_view list"

definition web_catalog :: "string \<Rightarrow> identity \<Rightarrow> db \<Rightarrow> (catalog_view, db) res" where
  "web_catalog root_env ident s = bindr (manager root_env (user_id ident) ''manage_catalog'' s) (\<lambda>(a, m, org) s.
     let categories = sort_key cat_name (filter (\<lambda>c. cat_organization_id c = org_id org) (plan_categories s));
         names = map_of (map (\<lambda>p. (pan_id p, pan_name p))
           (filter (\<lambda>p. panel_is_mine s (pan_id p) (org_id org)) (panels s)));
         rows = sort_key plan_price_per_gib_irr (filter (\<lambda>p. plan_organization_id p = org_id org) (plans s))
     in returned \<lparr>cv_categories = map (\<lambda>c. (c, length (filter (\<lambda>p. plan_category_id p = Some (cat_id c)) rows))) categories,
          cv_plans = map (\<lambda>p. plan_row p (names (plan_panel_id p))) rows\<rparr> s)"

definition shelf_named :: "db \<Rightarrow> uid \<Rightarrow> string \<Rightarrow> uid option \<Rightarrow> bool" where
  "shelf_named s w name other = has (\<lambda>c. cat_organization_id c = w \<and> cat_name c = name \<and> Some (cat_id c) \<noteq> other)
     (plan_categories s)"

text \<open>The new row is audited before it is flushed.\<close>

definition create_plan_category :: "int \<Rightarrow> uid \<Rightarrow> uid \<Rightarrow> plan_category_in \<Rightarrow> db \<Rightarrow> (plan_category, db) res" where
  "create_plan_category now w actor_id x s =
    bindr (require (\<not> shelf_named s w (ci_name x) None) (HTTPException 409 ''a category with this name exists'') s) (\<lambda>_ s.
      let c = \<lparr>cat_id = next_uid s, cat_organization_id = w, cat_name = ci_name x, cat_description = ci_description x,
               cat_status = ''active''\<rparr>
      in returned c (audit now ''plan_category.create'' ''plan_category'' None (Some actor_id) (Some w)
           [(''name'', JStr (ci_name x))] (draw (s\<lparr>plan_categories := plan_categories s @ [c]\<rparr>))))"

text \<open>Every catalog route resolves the caller's organization first and commits once at its end.\<close>

definition catalog_route :: "string \<Rightarrow> (uid \<Rightarrow> uid \<Rightarrow> db \<Rightarrow> ('a, db) res) \<Rightarrow> identity \<Rightarrow> db \<Rightarrow> ('a, db) res" where
  "catalog_route root_env body ident = transact (\<lambda>s.
     bindr (manager root_env (user_id ident) ''manage_catalog'' s) (\<lambda>(a, m, org). body (org_id org) (act_id a)))"

definition web_create_category ::
  "string \<Rightarrow> int \<Rightarrow> plan_category_in \<Rightarrow> identity \<Rightarrow> db \<Rightarrow> (plan_category, db) res" where
  "web_create_category root_env now x = catalog_route root_env (\<lambda>w a. create_plan_category now w a x)"

definition web_update_category ::
  "string \<Rightarrow> int \<Rightarrow> uid \<Rightarrow> plan_category_in \<Rightarrow> identity \<Rightarrow> db \<Rightarrow> (unit, db) res" where
  "web_update_category root_env now i x = catalog_route root_env (\<lambda>w a s.
     bindr (catalog_shelf i w s) (\<lambda>c s.
     bindr (require (\<not> shelf_named s w (ci_name x) (Some (cat_id c)))
       (HTTPException 409 ''a category with this name exists'') s) (\<lambda>_ s.
       returned () (audit now ''plan_category.update'' ''plan_category'' (Some (cat_id c)) (Some a) (Some w)
         [(''name'', JStr (ci_name x))]
         (s\<lparr>plan_categories := modify cat_id (cat_id c)
            (\<lambda>r. r\<lparr>cat_name := ci_name x, cat_description := ci_description x\<rparr>) (plan_categories s)\<rparr>)))))"

text \<open>Closing a shelf hides every plan on it; the plans themselves stay as they were.\<close>

definition set_catalog_status :: "int \<Rightarrow> uid \<Rightarrow> uid \<Rightarrow> string \<Rightarrow> uid \<Rightarrow> string \<Rightarrow> db \<Rightarrow> (string, db) res" where
  "set_catalog_status now w actor_id kind target_id status s =
    bindr (require (status = ''active'' \<or> status = ''inactive'') (HTTPException 422 ''status must be active or inactive'') s) (\<lambda>_ s.
    if kind = ''category'' then bindr (catalog_shelf target_id w s) (\<lambda>c s.
      returned status (audit now ''plan_category.status'' ''plan_category'' (Some target_id) (Some actor_id) (Some w)
        [(''status'', JStr status)]
        (s\<lparr>plan_categories := modify cat_id (cat_id c) (\<lambda>r. r\<lparr>cat_status := status\<rparr>) (plan_categories s)\<rparr>)))
    else if kind = ''plan'' then bindr (catalog_plan target_id w s) (\<lambda>p s.
      returned status (audit now ''plan.status'' ''plan'' (Some target_id) (Some actor_id) (Some w)
        [(''status'', JStr status)]
        (s\<lparr>plans := modify plan_id (plan_id p) (\<lambda>r. r\<lparr>plan_status := status\<rparr>) (plans s)\<rparr>)))
    else raised (KeyError kind) s)"

definition web_category_status :: "string \<Rightarrow> int \<Rightarrow> uid \<Rightarrow> string \<Rightarrow> identity \<Rightarrow> db \<Rightarrow> (string, db) res" where
  "web_category_status root_env now i status =
     catalog_route root_env (\<lambda>w a. set_catalog_status now w a ''category'' i status)"

definition web_delete_category :: "string \<Rightarrow> int \<Rightarrow> uid \<Rightarrow> identity \<Rightarrow> db \<Rightarrow> (uid, db) res" where
  "web_delete_category root_env now i = catalog_route root_env (\<lambda>w a s.
     bindr (catalog_shelf i w s) (\<lambda>c s.
     bindr (require (\<not> has (\<lambda>p. plan_category_id p = Some (cat_id c)) (plans s))
       (HTTPException 409 ''this category still has plans'') s) (\<lambda>_ s.
       returned i (audit now ''plan_category.delete'' ''plan_category'' (Some i) (Some a) (Some w) []
         (s\<lparr>plan_categories := filter (\<lambda>r. cat_id r \<noteq> cat_id c) (plan_categories s)\<rparr>)))))"

section \<open>Plans\<close>

text \<open>A plan may only sit on a server the seller owns, and on a shelf of their own.\<close>

definition validated_plan :: "plan_in \<Rightarrow> uid \<Rightarrow> db \<Rightarrow> (panel, db) res" where
  "validated_plan x w s = bindr (case pl_category_id x of
       None \<Rightarrow> returned () s
     | Some c \<Rightarrow> bindr (catalog_shelf c w s) (\<lambda>_. returned ())) (\<lambda>_. owned_panel (pl_panel_id x) w)"

definition plan_of :: "uid \<Rightarrow> uid \<Rightarrow> uid \<Rightarrow> string \<Rightarrow> plan_in \<Rightarrow> plan" where
  "plan_of i w panel_id status x = \<lparr>plan_id = i, plan_organization_id = w, plan_panel_id = panel_id,
     plan_category_id = pl_category_id x, plan_name = pl_name x, plan_description = pl_description x,
     plan_price_per_gib_irr = pl_price_per_gib_irr x, plan_daily_gib = pl_daily_gib x,
     plan_duration_days = pl_duration_days x, plan_user_count = pl_user_count x,
     plan_credit_limit_irr = pl_credit_limit_irr x, plan_payment_instructions = pl_payment_instructions x,
     plan_status = status\<rparr>"

definition plan_stored :: "plan_in \<Rightarrow> db \<Rightarrow> (unit, db) res" where
  "plan_stored x s = bindr (bigints_stored [pl_price_per_gib_irr x, pl_credit_limit_irr x] s) (\<lambda>_.
     integers_stored [pl_daily_gib x, pl_duration_days x, pl_user_count x])"

definition plan_fits :: "plan_in \<Rightarrow> bool" where
  "plan_fits x \<longleftrightarrow> fits_bigint (pl_price_per_gib_irr x) \<and> fits_bigint (pl_credit_limit_irr x) \<and>
     fits_integer (pl_daily_gib x) \<and> fits_integer (pl_duration_days x) \<and> fits_integer (pl_user_count x)"

lemma plan_stored_iff [simp]: "plan_stored x s = (Inr u, s') \<longleftrightarrow> plan_fits x \<and> s' = s"
  by (auto simp: plan_stored_def plan_fits_def bigints_stored_def integers_stored_def require_def raised_def)

definition create_catalog_plan :: "int \<Rightarrow> uid \<Rightarrow> uid \<Rightarrow> plan_in \<Rightarrow> db \<Rightarrow> (plan, db) res" where
  "create_catalog_plan now w actor_id x s =
    bindr (validated_plan x w s) (\<lambda>p s.
      let pl = plan_of (next_uid s) w (pan_id p) ''active'' x
      in bindr (plan_stored x s) (\<lambda>_ s.
         returned pl (audit now ''plan.create'' ''plan'' None (Some actor_id) (Some w)
           [(''panel_id'', JUid (pan_id p)), (''name'', JStr (pl_name x)), (''amount_irr'', JInt (plan_amount_irr pl))]
           (draw (s\<lparr>plans := plans s @ [pl]\<rparr>)))))"

definition web_create_plan :: "string \<Rightarrow> int \<Rightarrow> plan_in \<Rightarrow> identity \<Rightarrow> db \<Rightarrow> (plan_view, db) res" where
  "web_create_plan root_env now x = catalog_route root_env (\<lambda>w a s.
     bindr (create_catalog_plan now w a x s) (\<lambda>pl s.
     bindr (require_some (get_panel s (plan_panel_id pl)) (TypeError ''NoneType'') s) (\<lambda>p.
       returned (plan_row pl (Some (pan_name p))))))"

definition web_update_plan :: "string \<Rightarrow> int \<Rightarrow> uid \<Rightarrow> plan_in \<Rightarrow> identity \<Rightarrow> db \<Rightarrow> (plan_view, db) res" where
  "web_update_plan root_env now i x = catalog_route root_env (\<lambda>w a s.
     bindr (catalog_plan i w s) (\<lambda>old s.
     bindr (validated_plan x w s) (\<lambda>p s.
       let pl = plan_of (plan_id old) (plan_organization_id old) (pan_id p) (plan_status old) x
       in bindr (plan_stored x s) (\<lambda>_ s. returned (plan_row pl (Some (pan_name p)))
            (audit now ''plan.update'' ''plan'' (Some (plan_id old)) (Some a) (Some w)
              [(''panel_id'', JUid (pan_id p)), (''name'', JStr (pl_name x)), (''amount_irr'', JInt (plan_amount_irr pl))]
              (s\<lparr>plans := modify plan_id (plan_id old) (\<lambda>_. pl) (plans s)\<rparr>))))))"

definition web_plan_status :: "string \<Rightarrow> int \<Rightarrow> uid \<Rightarrow> string \<Rightarrow> identity \<Rightarrow> db \<Rightarrow> (string, db) res" where
  "web_plan_status root_env now i status = catalog_route root_env (\<lambda>w a. set_catalog_status now w a ''plan'' i status)"

text \<open>An order keeps its price history, so a plan that was ever bought is only ever closed.\<close>

definition web_delete_plan :: "string \<Rightarrow> int \<Rightarrow> uid \<Rightarrow> identity \<Rightarrow> db \<Rightarrow> (uid, db) res" where
  "web_delete_plan root_env now i = catalog_route root_env (\<lambda>w a s.
     bindr (catalog_plan i w s) (\<lambda>p s.
     bindr (require (\<not> has (\<lambda>ord. ord_plan_id ord = Some (plan_id p)) (panel_orders s))
       (HTTPException 409 ''this plan has orders and can only be closed'') s) (\<lambda>_ s.
       returned i (audit now ''plan.delete'' ''plan'' (Some i) (Some a) (Some w) []
         (s\<lparr>plans := filter (\<lambda>r. plan_id r \<noteq> plan_id p) (plans s)\<rparr>)))))"

section \<open>A consistent catalog\<close>

definition shelf_ok :: "db \<Rightarrow> plan \<Rightarrow> bool" where
  "shelf_ok s p \<longleftrightarrow> (case plan_category_id p of None \<Rightarrow> True | Some c \<Rightarrow>
     (case get_category s c of None \<Rightarrow> False | Some shelf \<Rightarrow> cat_organization_id shelf = plan_organization_id p))"

definition catalog_ok :: "db \<Rightarrow> bool" where
  "catalog_ok s \<longleftrightarrow> distinct (map cat_id (plan_categories s)) \<and> distinct (map plan_id (plans s)) \<and>
     (\<forall>c \<in> set (plan_categories s). cat_id c < next_uid s) \<and> (\<forall>p \<in> set (plans s). plan_id p < next_uid s) \<and>
     distinct (map (\<lambda>c. (cat_organization_id c, cat_name c)) (plan_categories s)) \<and>
     (\<forall>p \<in> set (plans s). panel_is_mine s (plan_panel_id p) (plan_organization_id p) \<and>
        get_panel s (plan_panel_id p) \<noteq> None \<and> shelf_ok s p) \<and>
     (\<forall>ord \<in> set (panel_orders s). \<forall>j. ord_plan_id ord = Some j \<longrightarrow> get_plan s j \<noteq> None)"

definition same_catalog :: "db \<Rightarrow> db \<Rightarrow> bool" where
  "same_catalog s s' \<longleftrightarrow> plans s' = plans s \<and> plan_categories s' = plan_categories s \<and> panels s' = panels s \<and>
     panel_owners s' = panel_owners s \<and> next_uid s \<le> next_uid s' \<and>
     (\<forall>ord \<in> set (panel_orders s'). ord_plan_id ord \<in> ord_plan_id ` set (panel_orders s) \<or>
        (case ord_plan_id ord of None \<Rightarrow> True | Some j \<Rightarrow> get_plan s j \<noteq> None))"

lemma same_catalog_ok:
  assumes ok: "catalog_ok s" and same: "same_catalog s s'"
  shows "catalog_ok s'"
proof -
  have eq: "plans s' = plans s" "plan_categories s' = plan_categories s" "panels s' = panels s"
    "panel_owners s' = panel_owners s" "next_uid s \<le> next_uid s'" using same by (simp_all add: same_catalog_def)
  have "shelf_ok s' = shelf_ok s" "panel_is_mine s' = panel_is_mine s"
    using eq by (auto simp: shelf_ok_def panel_is_mine_def fun_eq_iff split: option.split)
  moreover have "get_plan s j \<noteq> None" if "ord \<in> set (panel_orders s')" "ord_plan_id ord = Some j" for ord j
  proof -
    from same that consider q where "q \<in> set (panel_orders s)" "ord_plan_id q = Some j" | "get_plan s j \<noteq> None"
      unfolding same_catalog_def by force
    then show ?thesis using ok by cases (auto simp: catalog_ok_def)
  qed
  ultimately show ?thesis using ok eq unfolding catalog_ok_def
    by (intro conjI ballI allI impI) (auto intro: order.strict_trans2)
qed

lemma catalog_ok_audit [simp]: "catalog_ok (audit t a b c d e f s) \<longleftrightarrow> catalog_ok s"
  by (simp add: catalog_ok_def shelf_ok_def panel_is_mine_def cong: option.case_cong)

lemma catalog_shelf_iff:
  "catalog_shelf i w s = (Inr c, s') \<longleftrightarrow> s' = s \<and> get_category s i = Some c \<and> cat_organization_id c = w"
  by (auto simp: catalog_shelf_def split: option.split)

lemma catalog_plan_iff:
  "catalog_plan i w s = (Inr p, s') \<longleftrightarrow> s' = s \<and> get_plan s i = Some p \<and> plan_organization_id p = w"
  by (auto simp: catalog_plan_def split: option.split)

lemma owned_panel_iff:
  "owned_panel i w s = (Inr p, s') \<longleftrightarrow>
     s' = s \<and> get_panel s i = Some p \<and> pan_status p = ''active'' \<and> panel_is_mine s i w"
  by (auto simp: owned_panel_def active_panel_if_def split: option.split)

lemma validated_plan_iff:
  "validated_plan x w s = (Inr p, s') \<longleftrightarrow> owned_panel (pl_panel_id x) w s = (Inr p, s') \<and>
     (case pl_category_id x of None \<Rightarrow> True | Some c \<Rightarrow>
       (case get_category s c of None \<Rightarrow> False | Some shelf \<Rightarrow> cat_organization_id shelf = w))"
  by (auto simp: validated_plan_def bindr_Inr_iff catalog_shelf_iff split: option.split)

lemma catalog_route_keeps:
  assumes "\<And>w a v s'. body w a s = (Inr v, s') \<Longrightarrow> P s'" and "P s"
  shows "P (snd (catalog_route root_env body ident s))"
  unfolding catalog_route_def
proof (rule transact_keeps)
  fix v s'
  assume "bindr (manager root_env (user_id ident) ''manage_catalog'' s) (\<lambda>(a, m, org). body (org_id org) (act_id a)) = (Inr v, s')"
  then obtain a m org s1 where man: "manager root_env (user_id ident) ''manage_catalog'' s = (Inr (a, m, org), s1)"
    and run: "body (org_id org) (act_id a) s1 = (Inr v, s')" by (auto simp: bindr_Inr_iff)
  have "s1 = s" using man by (simp add: manager_iff membership_for_iff)
  with run show "P s'" by (auto intro: assms(1))
qed (rule assms(2))

lemma lookup_remove:
  "lookup key k (filter (\<lambda>r. key r \<noteq> j) rs) = (if k = j then None else lookup key k rs)"
  by (induction rs) auto

lemma distinct_modify:
  assumes "distinct (map key rs)" and "distinct (map g rs)" and "\<And>r. r \<in> set rs \<Longrightarrow> key r \<noteq> k \<Longrightarrow> g r \<noteq> v"
    and "\<And>r. r \<in> set rs \<Longrightarrow> key r = k \<Longrightarrow> g (f r) = v"
  shows "distinct (map g (modify key k f rs))"
  using assms
proof (induction rs)
  case Nil
  then show ?case by simp
next
  case (Cons r rs)
  then have IH: "distinct (map g (modify key k f rs))" by simp
  show ?case
  proof (cases "key r = k")
    case True
    then have "\<forall>q \<in> set rs. key q \<noteq> k" using Cons.prems(1) by (auto simp: image_iff)
    then have "modify key k f rs = rs" by (simp add: modify_absent lookup_None_iff)
    then show ?thesis using True Cons.prems \<open>\<forall>q \<in> set rs. key q \<noteq> k\<close> by (auto simp: image_iff)
  next
    case False
    then have "g r \<noteq> v" using Cons.prems(3) by simp
    moreover have "g q = v \<or> g q \<in> g ` set rs" if "q \<in> set (modify key k f rs)" for q
      using that Cons.prems(4) by (auto simp: modify_def)
    ultimately show ?thesis using IH False Cons.prems(2) by auto (metis)
  qed
qed

text \<open>Changes of shelves.\<close>

lemma add_shelf_ok:
  assumes ok: "catalog_ok s" and free: "\<not> shelf_named s w name None" and c: "cat_id c = next_uid s"
    "cat_organization_id c = w" "cat_name c = name"
  shows "catalog_ok (draw (s\<lparr>plan_categories := plan_categories s @ [c]\<rparr>))"
proof -
  let ?s = "draw (s\<lparr>plan_categories := plan_categories s @ [c]\<rparr>)"
  have "shelf_ok ?s p" if "shelf_ok s p" for p
    using that by (auto simp: shelf_ok_def lookup_append split: option.splits)
  then show ?thesis using ok free c
    by (auto simp: catalog_ok_def panel_is_mine_def shelf_named_def)
qed

lemma change_shelf_ok:
  assumes ok: "catalog_ok s" and keep: "\<And>c. cat_id (f c) = cat_id c \<and> cat_organization_id (f c) = cat_organization_id c"
    and names: "distinct (map (\<lambda>c. (cat_organization_id c, cat_name c)) (modify cat_id i f (plan_categories s)))"
  shows "catalog_ok (s\<lparr>plan_categories := modify cat_id i f (plan_categories s)\<rparr>)"
proof -
  let ?s = "s\<lparr>plan_categories := modify cat_id i f (plan_categories s)\<rparr>"
  have "shelf_ok ?s p = shelf_ok s p" for p
    using keep by (auto simp: shelf_ok_def lookup_modify split: option.split)
  moreover have "cat_id c < next_uid s" if "c \<in> set (modify cat_id i f (plan_categories s))" for c
    using that ok keep by (auto simp: modify_def catalog_ok_def)
  ultimately show ?thesis using ok keep names by (simp add: catalog_ok_def panel_is_mine_def)
qed

lemma remove_shelf_ok:
  assumes ok: "catalog_ok s" and unused: "\<not> has (\<lambda>p. plan_category_id p = Some i) (plans s)"
  shows "catalog_ok (s\<lparr>plan_categories := filter (\<lambda>r. cat_id r \<noteq> i) (plan_categories s)\<rparr>)"
proof -
  let ?s = "s\<lparr>plan_categories := filter (\<lambda>r. cat_id r \<noteq> i) (plan_categories s)\<rparr>"
  have "shelf_ok ?s p" if "shelf_ok s p" "p \<in> set (plans s)" for p
    using that unused by (auto simp: shelf_ok_def lookup_remove split: option.splits)
  then show ?thesis using ok
    by (simp add: catalog_ok_def panel_is_mine_def distinct_map inj_on_def)
qed

text \<open>Changes of plans.\<close>

lemma add_plan_ok:
  assumes ok: "catalog_ok s" and p: "plan_id p = next_uid s" "panel_is_mine s (plan_panel_id p) (plan_organization_id p)"
    "get_panel s (plan_panel_id p) \<noteq> None" "shelf_ok s p"
  shows "catalog_ok (draw (s\<lparr>plans := plans s @ [p]\<rparr>))"
proof -
  have "shelf_ok (draw (s\<lparr>plans := plans s @ [p]\<rparr>)) q = shelf_ok s q" for q
    by (simp add: shelf_ok_def cong: option.case_cong)
  with ok p show ?thesis
    by (auto simp: catalog_ok_def panel_is_mine_def lookup_append less_Suc_eq split: option.splits)
qed

lemma change_plan_ok:
  assumes ok: "catalog_ok s" and id: "\<And>q. plan_id q = i \<Longrightarrow> plan_id (f q) = i"
    and new: "\<And>q. q \<in> set (plans s) \<Longrightarrow> plan_id q = i \<Longrightarrow> panel_is_mine s (plan_panel_id (f q)) (plan_organization_id (f q)) \<and>
      get_panel s (plan_panel_id (f q)) \<noteq> None \<and> shelf_ok s (f q)"
  shows "catalog_ok (s\<lparr>plans := modify plan_id i f (plans s)\<rparr>)"
proof -
  let ?s = "s\<lparr>plans := modify plan_id i f (plans s)\<rparr>"
  have shelf: "shelf_ok ?s q = shelf_ok s q" for q by (simp add: shelf_ok_def cong: option.case_cong)
  have get: "get_plan ?s j \<noteq> None \<longleftrightarrow> get_plan s j \<noteq> None" for j using id by (auto simp: lookup_modify)
  have ids: "map plan_id (modify plan_id i f (plans s)) = map plan_id (plans s)" using id by simp
  have row: "plan_id p < next_uid s \<and> panel_is_mine s (plan_panel_id p) (plan_organization_id p) \<and>
      get_panel s (plan_panel_id p) \<noteq> None \<and> shelf_ok s p" if "p \<in> set (modify plan_id i f (plans s))" for p
    using that ok new id by (auto simp: modify_def catalog_ok_def split: if_splits)
  show ?thesis using ok row get ids unfolding catalog_ok_def by (simp add: shelf panel_is_mine_def)
qed

lemma remove_plan_ok:
  assumes ok: "catalog_ok s" and unused: "\<not> has (\<lambda>ord. ord_plan_id ord = Some i) (panel_orders s)"
  shows "catalog_ok (s\<lparr>plans := filter (\<lambda>r. plan_id r \<noteq> i) (plans s)\<rparr>)"
proof -
  have "shelf_ok (s\<lparr>plans := filter (\<lambda>r. plan_id r \<noteq> i) (plans s)\<rparr>) q = shelf_ok s q" for q
    by (simp add: shelf_ok_def cong: option.case_cong)
  with ok unused show ?thesis
    by (auto simp: catalog_ok_def panel_is_mine_def lookup_remove distinct_map inj_on_def)
qed

lemmas catalog_route_ok = catalog_route_keeps [where P = catalog_ok]

lemma rename_shelf_ok:
  assumes ok: "catalog_ok s" and c: "get_category s i = Some c" "cat_organization_id c = w"
    and free: "\<not> shelf_named s w name (Some (cat_id c))"
  shows "catalog_ok (s\<lparr>plan_categories := modify cat_id (cat_id c)
    (\<lambda>r. r\<lparr>cat_name := name, cat_description := text\<rparr>) (plan_categories s)\<rparr>)"
proof (rule change_shelf_ok [OF ok])
  have one: "q = c" if "q \<in> set (plan_categories s)" "cat_id q = cat_id c" for q
    using that c(1) ok lookup_unique [of cat_id "plan_categories s" q] lookup_SomeD [OF c(1)]
    by (auto simp: catalog_ok_def)
  show "distinct (map (\<lambda>c. (cat_organization_id c, cat_name c)) (modify cat_id (cat_id c)
     (\<lambda>r. r\<lparr>cat_name := name, cat_description := text\<rparr>) (plan_categories s)))"
    by (rule distinct_modify [where v = "(w, name)"])
      (use ok c free one in \<open>auto simp: catalog_ok_def shelf_named_def\<close>)
qed simp

lemma shelf_status_ok:
  assumes "catalog_ok s"
  shows "catalog_ok (s\<lparr>plan_categories := modify cat_id i (\<lambda>r. r\<lparr>cat_status := st\<rparr>) (plan_categories s)\<rparr>)"
  by (rule change_shelf_ok [OF assms]) (use assms in \<open>simp_all add: catalog_ok_def\<close>)

lemma plan_status_ok:
  assumes "catalog_ok s"
  shows "catalog_ok (s\<lparr>plans := modify plan_id i (\<lambda>r. r\<lparr>plan_status := st\<rparr>) (plans s)\<rparr>)"
proof (rule change_plan_ok [OF assms])
  fix q assume "q \<in> set (plans s)"
  moreover have "shelf_ok s (q\<lparr>plan_status := st\<rparr>) = shelf_ok s q" by (simp add: shelf_ok_def cong: option.case_cong)
  ultimately show "panel_is_mine s (plan_panel_id (q\<lparr>plan_status := st\<rparr>)) (plan_organization_id (q\<lparr>plan_status := st\<rparr>)) \<and>
      get_panel s (plan_panel_id (q\<lparr>plan_status := st\<rparr>)) \<noteq> None \<and> shelf_ok s (q\<lparr>plan_status := st\<rparr>)"
    using assms by (simp add: catalog_ok_def)
qed simp

lemma set_catalog_status_ok:
  "set_catalog_status now w a kind i st s = (Inr v, s') \<Longrightarrow> catalog_ok s \<Longrightarrow> catalog_ok s'"
  by (auto simp: set_catalog_status_def bindr_Inr_iff catalog_shelf_iff catalog_plan_iff split: if_splits
      intro!: shelf_status_ok plan_status_ok)

lemma placed_plan:
  assumes "validated_plan x w s = (Inr p, s')"
  shows "s' = s \<and> panel_is_mine s (pan_id p) w \<and> get_panel s (pan_id p) = Some p \<and>
    shelf_ok s (plan_of j w (pan_id p) st x)"
proof -
  from assms have own: "owned_panel (pl_panel_id x) w s = (Inr p, s')"
    and shelf: "case pl_category_id x of None \<Rightarrow> True | Some c \<Rightarrow>
       (case get_category s c of None \<Rightarrow> False | Some shelf \<Rightarrow> cat_organization_id shelf = w)"
    by (simp_all add: validated_plan_iff)
  then have "pan_id p = pl_panel_id x" by (auto simp: owned_panel_iff dest: lookup_SomeD)
  with own shelf show ?thesis by (simp add: owned_panel_iff shelf_ok_def plan_of_def cong: option.case_cong)
qed

lemma new_plan_ok:
  assumes ok: "catalog_ok s" and run: "create_catalog_plan now w a x s = (Inr pl, s')"
  shows "catalog_ok s'"
proof -
  from run obtain p where p: "validated_plan x w s = (Inr p, s)"
    and s': "catalog_ok s' = catalog_ok (draw (s\<lparr>plans := plans s @ [plan_of (next_uid s) w (pan_id p) ''active'' x]\<rparr>))"
    by (auto simp: create_catalog_plan_def bindr_Inr_iff Let_def validated_plan_iff owned_panel_iff)
  from placed_plan [OF p, of "next_uid s" "''active''"] show ?thesis unfolding s'
    by (intro add_plan_ok [OF ok]) (simp_all add: plan_of_def)
qed

lemma edit_plan_ok:
  assumes ok: "catalog_ok s" and old: "plan_organization_id old = w" and p: "validated_plan x w s = (Inr p, s1)"
  shows "catalog_ok (s1\<lparr>plans := modify plan_id (plan_id old)
    (\<lambda>_. plan_of (plan_id old) (plan_organization_id old) (pan_id p) (plan_status old) x) (plans s1)\<rparr>)"
proof -
  have "s1 = s" using placed_plan [OF p] by blast
  with placed_plan [OF p, of "plan_id old" "plan_status old"] old show ?thesis
    by (simp, intro change_plan_ok [OF ok]) (simp_all add: plan_of_def)
qed

lemma catalog_routes_ok:
  assumes ok: "catalog_ok s"
  shows "catalog_ok (snd (web_create_category root_env now c ident s))"
    and "catalog_ok (snd (web_update_category root_env now i c ident s))"
    and "catalog_ok (snd (web_category_status root_env now i st ident s))"
    and "catalog_ok (snd (web_delete_category root_env now i ident s))"
    and "catalog_ok (snd (web_create_plan root_env now x ident s))"
    and "catalog_ok (snd (web_update_plan root_env now i x ident s))"
    and "catalog_ok (snd (web_plan_status root_env now i st ident s))"
    and "catalog_ok (snd (web_delete_plan root_env now i ident s))"
proof -
  show "catalog_ok (snd (web_create_category root_env now c ident s))" unfolding web_create_category_def
    by (rule catalog_route_ok [OF _ ok])
      (auto simp: create_plan_category_def bindr_Inr_iff Let_def intro!: add_shelf_ok [OF ok])
  show "catalog_ok (snd (web_update_category root_env now i c ident s))" unfolding web_update_category_def
    by (rule catalog_route_ok [OF _ ok]) (auto simp: bindr_Inr_iff catalog_shelf_iff intro!: rename_shelf_ok [OF ok])
  show "catalog_ok (snd (web_category_status root_env now i st ident s))" unfolding web_category_status_def
    by (rule catalog_route_ok [OF set_catalog_status_ok [OF _ ok] ok])
  show "catalog_ok (snd (web_delete_category root_env now i ident s))" unfolding web_delete_category_def
    by (rule catalog_route_ok [OF _ ok]) (auto simp: bindr_Inr_iff catalog_shelf_iff intro!: remove_shelf_ok ok dest: lookup_SomeD)
  show "catalog_ok (snd (web_create_plan root_env now x ident s))" unfolding web_create_plan_def
    by (rule catalog_route_ok [OF _ ok]) (auto simp: bindr_Inr_iff elim!: new_plan_ok [OF ok])
  show "catalog_ok (snd (web_update_plan root_env now i x ident s))" unfolding web_update_plan_def
    by (rule catalog_route_ok [OF _ ok])
      (auto simp: bindr_Inr_iff catalog_plan_iff Let_def placed_plan intro!: edit_plan_ok [OF ok])
  show "catalog_ok (snd (web_plan_status root_env now i st ident s))" unfolding web_plan_status_def
    by (rule catalog_route_ok [OF set_catalog_status_ok [OF _ ok] ok])
  show "catalog_ok (snd (web_delete_plan root_env now i ident s))" unfolding web_delete_plan_def
    by (rule catalog_route_ok [OF _ ok]) (auto simp: bindr_Inr_iff catalog_plan_iff intro!: remove_plan_ok ok dest: lookup_SomeD)
qed

text \<open>The funnel touches the catalog only by referring to plans that exist.\<close>

lemma same_catalog_refl: "same_catalog s s"
  by (simp add: same_catalog_def)

lemma same_catalog_modify:
  assumes "plans s' = plans s" "plan_categories s' = plan_categories s" "panels s' = panels s" "panel_owners s' = panel_owners s"
    "next_uid s \<le> next_uid s'" and "panel_orders s' = modify ord_id i f (panel_orders s)"
    and "\<And>q. ord_plan_id (f q) = ord_plan_id q"
  shows "same_catalog s s'"
  using assms by (auto simp: same_catalog_def modify_def)

lemma customer_route_catalog: "same_catalog s (snd (customer_route to_status root_env now i ident s))"
proof (cases "customer_route to_status root_env now i ident s")
  case (Pair r s')
  show ?thesis
  proof (cases r)
    case (Inl e)
    with Pair have "s' = s" using transact_error unfolding customer_route_def by (metis fst_conv snd_conv)
    with Pair show ?thesis by (simp add: same_catalog_refl)
  next
    case (Inr u)
    from Pair [unfolded Inr] show ?thesis
      by (rule customer_route_Inr)
        (use Pair in \<open>auto intro!: same_catalog_modify [where f = "\<lambda>r. r\<lparr>ord_status := to_status\<rparr>"]\<close>)
  qed
qed

lemma seller_route_catalog:
  assumes "\<And>reviewer w ord v s'. decide reviewer w ord s = (Inr v, s') \<Longrightarrow> get_order s i = Some ord \<Longrightarrow> same_catalog s s'"
  shows "same_catalog s (snd (seller_route to_status root_env decide i ident s))"
proof (cases "seller_route to_status root_env decide i ident s")
  case (Pair r s')
  show ?thesis
  proof (cases r)
    case (Inl e)
    with Pair have "s' = s" using transact_error unfolding seller_route_def by (metis fst_conv snd_conv)
    with Pair show ?thesis by (simp add: same_catalog_refl)
  next
    case (Inr u)
    from Pair [unfolded Inr] show ?thesis by (rule seller_route_Inr) (use assms Pair in auto)
  qed
qed

lemma decisions_catalog:
  shows "quote_panel_order now x reviewer w ord s = (Inr v, s') \<Longrightarrow> get_order s i = Some ord \<Longrightarrow> same_catalog s s'"
    and "reject_panel_order now reason reviewer w ord s = (Inr v, s') \<Longrightarrow> get_order s i = Some ord \<Longrightarrow> same_catalog s s'"
    and "approve_panel_order d now attach reviewer w ord s = (Inr r, s') \<Longrightarrow> get_order s i = Some ord \<Longrightarrow> same_catalog s s'"
proof -
  assume run: "quote_panel_order now x reviewer w ord s = (Inr v, s')" and get: "get_order s i = Some ord"
  from quote_marks [OF this] desk_only_simps [of s s'] quote_moves [OF run get] show "same_catalog s s'"
    by (auto intro: same_catalog_modify)
next
  assume run: "reject_panel_order now reason reviewer w ord s = (Inr v, s')" and get: "get_order s i = Some ord"
  from reject_marks [OF this] desk_only_simps [of s s'] reject_moves [OF run get] show "same_catalog s s'"
    by (auto intro: same_catalog_modify)
next
  assume run: "approve_panel_order d now attach reviewer w ord s = (Inr r, s')" and get: "get_order s i = Some ord"
  have "ord_id ord = i" using get by (auto dest: lookup_SomeD)
  from approve_marks [OF run this] show "same_catalog s s'"
    by (auto intro!: same_catalog_modify simp: mark_approved_def)
qed

lemma panel_order_catalog:
  assumes "create_panel_order tokens now telegram_id display_name medium x s = (Inr ord, s')"
  shows "same_catalog s s'"
  using assms
proof (rule create_panel_order_Inr)
  fix p pl a s2 slug
  assume pl: "priced_plan p (oi_plan_id x) s = (Inr pl, s)"
    and ord: "ord = (let plain = new_order now (next_uid s2) (act_id a) (pan_id p) slug x
       in case pl of None \<Rightarrow> plain | Some q \<Rightarrow> price_by_plan q plain)"
    and app: "panel_orders s' = panel_orders s @ [ord]" and desk: "desk_only s s'"
  have "get_plan s (plan_id q) = Some q" if "pl = Some q" for q
    using pl that by (auto simp: priced_plan_def split: option.splits if_splits dest: lookup_SomeD)
  then have "case ord_plan_id ord of None \<Rightarrow> True | Some j \<Rightarrow> get_plan s j \<noteq> None"
    using ord by (auto simp: Let_def new_order_def price_by_plan_def split: option.splits)
  then show "same_catalog s s'" using app desk_only_simps [OF desk] by (simp add: same_catalog_def)
qed

lemma create_order_catalog: "same_catalog s (snd (create_order root_env tokens now x ident s))"
  unfolding create_order_def
proof (rule transact_keeps)
  fix v s'
  assume "bindr (order_permission root_env ident ''order_panel'' s) (\<lambda>_ s.
    bindr (create_panel_order tokens now (user_id ident) (first_name ident) ''webapp'' x s) (\<lambda>ord s.
      returned (order_row s ord) s)) = (Inr v, s')"
  then obtain s1 ord where perm: "order_permission root_env ident ''order_panel'' s = (Inr (), s1)"
    and run: "create_panel_order tokens now (user_id ident) (first_name ident) ''webapp'' x s1 = (Inr ord, s')"
    by (auto simp: bindr_Inr_iff)
  have "s1 = s" using perm by (auto simp: order_permission_def split: option.splits prod.splits)
  with panel_order_catalog [OF run] show "same_catalog s s'" by simp
qed (rule same_catalog_refl)

lemma order_step_catalog: "same_catalog s (order_step root_env d x s)"
proof (cases x)
  case (Quote now i y ident)
  show ?thesis unfolding Quote order_step.simps quote_order_def
    by (rule seller_route_catalog) (auto simp: bindr_Inr_iff dest: decisions_catalog(1))
next
  case (Reject now i reason ident)
  show ?thesis unfolding Reject order_step.simps reject_order_def
    by (rule seller_route_catalog) (rule decisions_catalog(2))
next
  case (Approve now i y ident)
  show ?thesis unfolding Approve order_step.simps approve_order_def
    by (rule seller_route_catalog) (rule decisions_catalog(3))
qed (simp_all add: create_order_catalog confirm_order_def declare_payment_def cancel_order_def customer_route_catalog)

section \<open>The catalog and the funnel as a system of steps\<close>

datatype catalog_op =
    NewShelf int plan_category_in identity
  | EditShelf int uid plan_category_in identity
  | ShelfStatus int uid string identity
  | DropShelf int uid identity
  | NewPlan int plan_in identity
  | EditPlan int uid plan_in identity
  | PlanStatus int uid string identity
  | DropPlan int uid identity
  | Funnel order_op

fun catalog_step :: "string \<Rightarrow> int \<Rightarrow> catalog_op \<Rightarrow> db \<Rightarrow> db" where
  "catalog_step root_env d (NewShelf now x ident) s = snd (web_create_category root_env now x ident s)"
| "catalog_step root_env d (EditShelf now i x ident) s = snd (web_update_category root_env now i x ident s)"
| "catalog_step root_env d (ShelfStatus now i st ident) s = snd (web_category_status root_env now i st ident s)"
| "catalog_step root_env d (DropShelf now i ident) s = snd (web_delete_category root_env now i ident s)"
| "catalog_step root_env d (NewPlan now x ident) s = snd (web_create_plan root_env now x ident s)"
| "catalog_step root_env d (EditPlan now i x ident) s = snd (web_update_plan root_env now i x ident s)"
| "catalog_step root_env d (PlanStatus now i st ident) s = snd (web_plan_status root_env now i st ident s)"
| "catalog_step root_env d (DropPlan now i ident) s = snd (web_delete_plan root_env now i ident s)"
| "catalog_step root_env d (Funnel x) s = order_step root_env d x s"

lemma catalog_step_ok: "catalog_ok s \<Longrightarrow> catalog_ok (catalog_step root_env d x s)"
  by (cases x) (simp_all add: catalog_routes_ok same_catalog_ok [OF _ order_step_catalog])

interpretation catalog: step_system "catalog_step root_env d" catalog_ok
  by unfold_locales (rule catalog_step_ok)

section \<open>Properties\<close>

text \<open>
  C26: the catalog stays consistent. After any sequence of catalog edits and funnel requests, served in
  any order: no seller has two shelves of the same name, every plan sits on a server its seller owns
  and on no shelf but the seller's own, and every order still finds the plan it was priced from, because
  a bought plan is never deleted and a shelf with plans is never removed.
\<close>

theorem catalog_stays_consistent:
  assumes "catalog_ok s"
  shows "catalog_ok (fold (catalog_step root_env d) ops s)"
  using assms by (rule catalog.run_inv)

lemma map_of_on_sale:
  assumes "distinct (map pan_id ps)"
  shows "map_of (map (\<lambda>p. (pan_id p, pan_name p)) (filter on_sale ps)) i =
    (case lookup pan_id i ps of None \<Rightarrow> None | Some p \<Rightarrow> if on_sale p then Some (pan_name p) else None)"
  using assms
proof (induction ps)
  case (Cons p ps)
  then show ?case by (auto simp: lookup_None_iff image_iff split: option.split) (metis lookup_SomeD)+
qed simp

text \<open>
  what is listed can be bought, and what can be bought is listed. In a consistent catalog a plan is
  offered by \<open>saleable_plan_rows\<close> exactly when its panel is on sale and \<open>priced_plan\<close>, the check an order
  goes through, accepts it.
\<close>

theorem listed_plans_are_orderable:
  assumes ok: "catalog_ok s" and p: "p \<in> set (plans s)" and ids: "distinct (map pan_id (panels s))"
  shows "p \<in> pv_plan ` set (saleable_plan_rows s) \<longleftrightarrow>
    (\<exists>q. get_panel s (plan_panel_id p) = Some q \<and> on_sale q \<and> priced_plan q (Some (plan_id p)) s = (Inr (Some p), s))"
proof -
  have get: "get_plan s (plan_id p) = Some p" using ok p by (simp add: catalog_ok_def lookup_unique)
  have shelf: "shelf_ok s p" using ok p by (simp add: catalog_ok_def)
  have cats: "distinct (map cat_id (plan_categories s))" using ok by (simp add: catalog_ok_def)
  have open_shelf: "i \<in> set (map cat_id (filter (\<lambda>c. cat_status c = ''active'') (plan_categories s))) \<longleftrightarrow>
      (\<exists>c. get_category s i = Some c \<and> cat_status c = ''active'')" for i
    using cats by (auto simp: lookup_distinct_iff)
  have pid: "pan_id q = plan_panel_id p" if "get_panel s (plan_panel_id p) = Some q" for q
    using that by (auto dest: lookup_SomeD)
  have priced: "priced_plan q (Some (plan_id p)) s = (Inr (Some p), s) \<longleftrightarrow> plan_status p = ''active'' \<and>
      plan_panel_id p = pan_id q \<and> (case plan_category_id p of None \<Rightarrow> True
        | Some c \<Rightarrow> \<exists>k. get_category s c = Some k \<and> cat_status k = ''active'')" for q
    using get shelf by (auto simp: priced_plan_def shelf_ok_def split: option.splits)
  have "p \<in> pv_plan ` set (saleable_plan_rows s) \<longleftrightarrow> plan_status p = ''active'' \<and>
      (\<exists>q. get_panel s (plan_panel_id p) = Some q \<and> on_sale q) \<and> (case plan_category_id p of None \<Rightarrow> True
        | Some c \<Rightarrow> \<exists>k. get_category s c = Some k \<and> cat_status k = ''active'')"
    unfolding saleable_plan_rows_def Let_def open_shelf
    using p by (auto simp: plan_row_def map_of_on_sale [OF ids] image_iff split: option.splits if_splits)
  then show ?thesis unfolding priced using pid by auto
qed

text \<open>
  the catalog is the only price source of a plan order. An order for a plan is quoted at once, with
  the plan's volume, duration and rate multiplied out, its credit (or the amount when the plan names
  none), its user count and instructions; the numbers the client sent have no influence.
\<close>

theorem plan_order_is_priced_by_the_catalog:
  assumes run: "create_panel_order tokens now telegram_id display_name via x s = (Inr ord, s')"
    and plan: "oi_plan_id x = Some j"
  shows "\<exists>p. get_plan s j = Some p \<and> plan_panel_id p = oi_panel_id x \<and> plan_status p = ''active'' \<and>
    ord_status ord = ''quoted'' \<and> ord_plan_id ord = Some j \<and>
    ord_amount_irr ord = plan_price_per_gib_irr p * plan_daily_gib p * plan_duration_days p \<and>
    ord_price_per_gib_irr ord = plan_price_per_gib_irr p \<and> ord_user_count ord = plan_user_count p \<and>
    ord_daily_gib ord = plan_daily_gib p \<and> ord_payment_instructions ord = plan_payment_instructions p \<and>
    ord_credit_limit_irr ord = (if plan_credit_limit_irr p = 0 then ord_amount_irr ord else plan_credit_limit_irr p) \<and>
    create_panel_order tokens now telegram_id display_name via (x\<lparr>oi_user_count := u, oi_daily_gib := g\<rparr>) s = (Inr ord, s')"
proof (rule create_panel_order_Inr [OF run])
  fix q pl a s1 slug
  assume q: "get_panel s (oi_panel_id x) = Some q" and pl: "priced_plan q (oi_plan_id x) s = (Inr pl, s)"
    and ord: "ord = (let plain = new_order now (next_uid s1) (act_id a) (pan_id q) slug x
       in case pl of None \<Rightarrow> plain | Some q \<Rightarrow> price_by_plan q plain)"
  from pl plan obtain p where p: "pl = Some p" "get_plan s j = Some p" "plan_status p = ''active''" "plan_panel_id p = pan_id q"
    by (auto simp: priced_plan_def split: option.splits if_splits)
  have "plan_id p = j" "pan_id q = oi_panel_id x" using p(2) q by (auto dest: lookup_SomeD)
  moreover have "create_panel_order tokens now telegram_id display_name via (x\<lparr>oi_user_count := u, oi_daily_gib := g\<rparr>) s =
      create_panel_order tokens now telegram_id display_name via x s"
    using plan by (simp add: create_panel_order_def priced_plan_def new_order_def price_by_plan_def raised_def
        bindr_require bindr_require_some Let_def
        split: option.split prod.split)
  ultimately show ?thesis using run ord p by (simp add: price_by_plan_def plan_amount_irr_def)
qed

end
