(* ===== verification/Orders_Cases.thy ===== *)
theory Orders_Cases
  imports Catalog
begin

text \<open>
  A small shop on which the properties of the funnel and of the catalog are applied: one seller with one
  server on sale and one published plan, and a customer who orders it.
\<close>

definition shop_base :: db where
  "shop_base = snd (add_organization 0 ''North'' ''north'' None 0 None empty_db)"

definition seller_identity :: identity where
  "seller_identity = \<lparr>user_id = 77, first_name = ''Ann''\<rparr>"

definition buyer_identity :: identity where
  "buyer_identity = \<lparr>user_id = 88, first_name = ''Bob''\<rparr>"

definition shop_panel :: panel where
  "shop_panel = (new_panel 10 ''Mother'' ''https://p.example'' 1 True)\<lparr>pan_saleable := True\<rparr>"

definition shop_plan :: plan where
  "shop_plan = \<lparr>plan_id = 11, plan_organization_id = 1, plan_panel_id = 10, plan_category_id = None,
     plan_name = ''Small'', plan_description = [], plan_price_per_gib_irr = 500, plan_daily_gib = 2,
     plan_duration_days = 30, plan_user_count = 5, plan_credit_limit_irr = 0, plan_payment_instructions = ''card'',
     plan_status = ''active''\<rparr>"

definition shop :: db where
  "shop = shop_base\<lparr>panels := [shop_panel], panel_owners := [\<lparr>own_panel_id = 10, own_organization_id = 1\<rparr>],
     actors := [\<lparr>act_id = 12, act_telegram_id = 77, act_display_name = ''Ann'', act_status = ''active''\<rparr>],
     memberships := [\<lparr>mem_id = 13, mem_organization_id = 1, mem_actor_id = 12, mem_role = ''reseller_admin'',
       mem_status = ''active'', mem_created_at = 0\<rparr>],
     settings := [(''bootstrap_complete'', 1)], plans := [shop_plan], next_uid := 20\<rparr>"

definition shop_order_in :: order_in where
  "shop_order_in = \<lparr>oi_panel_id = 10, oi_plan_id = Some 11, oi_business_name = ''Shop'', oi_user_count = 1,
     oi_daily_gib = 1, oi_note = []\<rparr>"

definition quoted_shop :: db where
  "quoted_shop = snd (create_order ''77'' [''ab''] 1 shop_order_in buyer_identity shop)"

definition declared_shop :: db where
  "declared_shop = fold (order_step ''77'' 5) [Confirm 2 21 buyer_identity, Declare 3 21 buyer_identity] quoted_shop"

lemma shop_base_runs: "map_option org_slug (get_organization shop_base 1) = Some ''north''" "next_uid shop_base = 3"
  by code_simp+

lemma tree_ok_shop: "tree_ok shop"
  by (rule same_tree_ok [OF _ tree_ok_north, folded shop_base_def])
    (simp add: same_tree_def shop_def shop_base_runs)

lemma ledger_ok_shop_base: "ledger_ok shop_base"
proof -
  have "ledger_ok empty_db" by (simp add: ledger_ok_def empty_db_def)
  then show ?thesis
    using add_organization_rest(11) [of 0 "''North''" "''north''" None 0 None empty_db] unfolding shop_base_def
    by (metis prod.collapse)
qed

lemma ledger_ok_shop: "ledger_ok shop"
  by (rule ledger_ok_same [OF ledger_ok_shop_base]) (simp_all add: shop_def shop_base_runs)

lemma quoted_shop_facts:
  "map_option ord_status (get_order quoted_shop 21) = Some ''quoted''"
  "map_option ord_amount_irr (get_order quoted_shop 21) = Some 30000"
  "map_option ord_slug (get_order quoted_shop 21) = Some ''panel-ab''"
  "map_option ord_actor_id (get_order quoted_shop 21) = Some 20"
  "map_option ord_panel_id (get_order quoted_shop 21) = Some 10"
  "map_option ord_pg_admin_id (get_order quoted_shop 21) = Some None"
  "map_option act_id (requester_actor quoted_shop 88) = Some 20"
  "transactions quoted_shop = []"
  "panel_is_mine quoted_shop 10 1" "\<not> slug_taken quoted_shop ''panel-ab''"
  "map_option pan_id (get_panel quoted_shop 10) = Some 10"
  "optional_membership 88 quoted_shop = None"
  by code_simp+

lemma seller_decides:
  "(case fst (manager ''77'' 77 ''decide_orders'' quoted_shop) of Inr (a, m, org) \<Rightarrow> org_id org = 1 \<and>
      fst (assert_depth_allowed 5 org quoted_shop) = Inr () | Inl _ \<Rightarrow> False)"
  "(case fst (manager ''77'' 77 ''decide_orders'' declared_shop) of Inr (a, m, org) \<Rightarrow> org_id org = 1 | Inl _ \<Rightarrow> False)"
  by code_simp+

lemma desk_quoted: "desk_only shop quoted_shop"
  using create_order_moves unfolding quoted_shop_def by blast

lemma desk_declared: "desk_only quoted_shop declared_shop"
  unfolding declared_shop_def fold_simps comp_def id_def
  by (rule desk_only_trans [OF order_step_desk order_step_desk]) simp_all

lemma desk_keeps_invariants:
  assumes "desk_only s s'"
  shows "tree_ok s \<Longrightarrow> tree_ok s'" and "ledger_ok s \<Longrightarrow> ledger_ok s'"
  using desk_only_simps [OF assms] by (auto intro: same_tree_ok ledger_ok_same simp: same_tree_def)

lemma shop_invariants: "tree_ok quoted_shop" "ledger_ok quoted_shop" "tree_ok declared_shop" "ledger_ok declared_shop"
  using desk_keeps_invariants [OF desk_quoted] desk_keeps_invariants [OF desk_declared] tree_ok_shop ledger_ok_shop by blast+

lemma approval_runs:
  "(case fst (approve_order ''77'' 5 4 21 \<lparr>ap_pg_admin_id = Some 9, ap_admin_username = None\<rparr> seller_identity declared_shop)
    of Inr r \<Rightarrow> ao_balance_irr r = 30000 \<and> ao_bound r | Inl _ \<Rightarrow> False)"
  "transactions declared_shop = []"
  by code_simp+

lemma declared_amount:
  "map_option ord_amount_irr (get_order declared_shop 21) = Some 30000" by code_simp

lemma confirmed_shop:
  "map_option ord_status (get_order (order_step ''77'' 5 (Confirm 2 21 buyer_identity) quoted_shop) 21) = Some ''confirmed''"
  by code_simp

lemma catalog_ok_quoted: "catalog_ok quoted_shop"
proof -
  have "catalog_ok shop"
    by (simp add: catalog_ok_def shop_def shop_plan_def shelf_ok_def panel_is_mine_def shop_panel_def new_panel_def
        shop_base_def add_organization_def Let_def empty_db_def account_def draw_def)
  then show ?thesis unfolding quoted_shop_def by (rule same_catalog_ok [OF _ create_order_catalog])
qed

lemma shop_listing:
  "plans quoted_shop = [shop_plan]" "map pan_id (panels quoted_shop) = [10]"
  "pv_plan ` set (saleable_plan_rows quoted_shop) = {shop_plan}"
proof -
  show "plans quoted_shop = [shop_plan]" "map pan_id (panels quoted_shop) = [10]" 
    using desk_only_simps [OF desk_quoted] by (simp_all add: shop_def shop_panel_def new_panel_def)
  have "map pv_plan (saleable_plan_rows quoted_shop) = [shop_plan]" by code_simp
  then show "pv_plan ` set (saleable_plan_rows quoted_shop) = {shop_plan}" by (metis list.set(1) list.set(2) list.set_map)
qed

lemma shop_order_runs:
  "\<exists>ord s'. create_panel_order [''ab''] 1 88 ''Bob'' ''webapp'' shop_order_in shop = (Inr ord, s')" "get_plan shop 11 = Some shop_plan"
proof -
  have "(case fst (create_panel_order [''ab''] 1 88 ''Bob'' ''webapp'' shop_order_in shop) of Inr _ \<Rightarrow> True | Inl _ \<Rightarrow> False)"
    by code_simp
  then show "\<exists>ord s'. create_panel_order [''ab''] 1 88 ''Bob'' ''webapp'' shop_order_in shop = (Inr ord, s')"
    by (cases "create_panel_order [''ab''] 1 88 ''Bob'' ''webapp'' shop_order_in shop";
      cases "fst (create_panel_order [''ab''] 1 88 ''Bob'' ''webapp'' shop_order_in shop)") auto
  show "get_plan shop 11 = Some shop_plan" by (simp add: shop_def shop_plan_def)
qed

text \<open>The properties applied.\<close>

theorem orders_only_move_forward_witness:
  "\<exists>b. get_order (fold (order_step ''77'' 5) [Cancel 2 21 buyer_identity, Confirm 3 21 buyer_identity] quoted_shop) 21 = Some b"
proof -
  obtain a where "get_order quoted_shop 21 = Some a" using quoted_shop_facts(1) by auto
  from orders_only_move_forward [OF this] show ?thesis by blast
qed

theorem approval_opens_one_funded_account_witness:
  "\<exists>c s'. get_organization declared_shop c = None \<and> get_organization s' c \<noteq> None \<and>
     wallet_of s' (Org c) = wallet_of declared_shop (Org c) + 30000 \<and> ledger_ok s'"
proof -
  let ?x = "\<lparr>ap_pg_admin_id = Some 9, ap_admin_username = None\<rparr>"
  obtain r s' where run: "approve_order ''77'' 5 4 21 ?x seller_identity declared_shop = (Inr r, s')"
    using approval_runs(1) by (cases "approve_order ''77'' 5 4 21 ?x seller_identity declared_shop";
      cases "fst (approve_order ''77'' 5 4 21 ?x seller_identity declared_shop)") auto
  have "find_transaction declared_shop (''panel-order:'' @ dec 21) = None"
    using approval_runs(2) by (simp add: find_transaction_def)
  from approval_opens_one_funded_account [OF run shop_invariants(3,4) this refl, of 5 ?x buyer_identity]
  obtain ord where ord: "get_order declared_shop 21 = Some ord"
    and made: "get_organization declared_shop (ao_organization_id r) = None" "get_organization s' (ao_organization_id r) \<noteq> None"
      "wallet_of s' (Org (ao_organization_id r)) = wallet_of declared_shop (Org (ao_organization_id r)) + ord_amount_irr ord"
      "ledger_ok s'" by auto
  have "ord_amount_irr ord = 30000" using ord declared_amount by simp
  with made show ?thesis by auto
qed

theorem nothing_is_minted_before_approval_witness:
  "desk_only quoted_shop (fold (order_step ''77'' 5) [Confirm 2 21 buyer_identity] quoted_shop)"
  by (rule nothing_is_minted_before_approval) auto

theorem each_side_moves_its_own_steps_witness:
  "requester_actor quoted_shop 88 \<noteq> None"
proof -
  obtain a where a: "get_order quoted_shop 21 = Some a" "ord_status a = ''quoted''" using quoted_shop_facts(1) by auto
  obtain b where b: "get_order (order_step ''77'' 5 (Confirm 2 21 buyer_identity) quoted_shop) 21 = Some b" "ord_status b = ''confirmed''"
    using confirmed_shop by auto
  from a b have "b \<noteq> a" by auto
  from each_side_moves_its_own_steps [OF a(1) b(1) this] show ?thesis by (auto simp: buyer_identity_def)
qed

lemma quoted_shop_bindings: "bindings quoted_shop = []"
  by code_simp

theorem quoted_order_can_complete_witness:
  "\<exists>b. get_order (fold (order_step ''77'' 5) [Confirm 2 21 buyer_identity, Declare 3 21 buyer_identity,
      Approve 4 21 \<lparr>ap_pg_admin_id = Some 9, ap_admin_username = None\<rparr> seller_identity] quoted_shop) 21 = Some b \<and>
    ord_status b = ''approved''"
proof -
  obtain ord where ord: "get_order quoted_shop 21 = Some ord" "ord_status ord = ''quoted''" "ord_amount_irr ord = 30000"
    "ord_slug ord = ''panel-ab''" "ord_actor_id ord = 20" "ord_panel_id ord = 10" "ord_pg_admin_id ord = None"
    using quoted_shop_facts(1-6) by auto
  obtain q where q: "requester_actor quoted_shop (user_id buyer_identity) = Some q" "ord_actor_id ord = act_id q"
    using quoted_shop_facts(7) ord(5) by (auto simp: buyer_identity_def)
  have buyer: "order_permission ''77'' buyer_identity ''order_panel'' quoted_shop = (Inr (), quoted_shop)"
    using quoted_shop_facts(12) by (simp add: order_permission_def buyer_identity_def returned_def)
  obtain a m org t where man: "manager ''77'' (user_id seller_identity) ''decide_orders'' quoted_shop = (Inr (a, m, org), t)"
    and org: "org_id org = 1" "fst (assert_depth_allowed 5 org quoted_shop) = Inr ()"
    using seller_decides(1) unfolding seller_identity_def identity.simps
    by (cases "manager ''77'' 77 ''decide_orders'' quoted_shop"; cases "fst (manager ''77'' 77 ''decide_orders'' quoted_shop)") auto
  have t: "t = quoted_shop" using man by (simp add: manager_iff membership_for_iff)
  obtain p where p: "get_panel quoted_shop (ord_panel_id ord) = Some p" using quoted_shop_facts(11) ord(6) by auto
  have "find_transaction quoted_shop (order_key ord) = None" using quoted_shop_facts(8) by (simp add: find_transaction_def)
  moreover have "account_free (attach_account (Some \<lparr>ap_pg_admin_id = Some 9, ap_admin_username = None\<rparr>) ord) quoted_shop"
    by (simp add: account_free_def quoted_shop_bindings attach_account_def ord(7) fits_integer_def has_def)
  ultimately show ?thesis
    using quoted_order_can_complete [OF ord(1,2) _ _ _ buyer q man [unfolded t] _ p org(2) shop_invariants(1,2) _ _ refl]
      ord org quoted_shop_facts(9,10) quoted_shop_bindings by fastforce
qed

theorem catalog_stays_consistent_witness:
  "catalog_ok (fold (catalog_step ''77'' 5) [PlanStatus 5 11 ''inactive'' seller_identity, DropPlan 6 11 seller_identity] quoted_shop)"
  by (rule catalog_stays_consistent [OF catalog_ok_quoted])

theorem listed_plans_are_orderable_witness:
  "\<exists>q. get_panel quoted_shop 10 = Some q \<and> on_sale q"
proof -
  have "shop_plan \<in> set (plans quoted_shop)" "distinct (map pan_id (panels quoted_shop))"
    "shop_plan \<in> pv_plan ` set (saleable_plan_rows quoted_shop)" using shop_listing by simp_all
  with listed_plans_are_orderable [OF catalog_ok_quoted this(1,2)] show ?thesis by (auto simp: shop_plan_def)
qed

theorem plan_order_is_priced_by_the_catalog_witness:
  "\<exists>ord s'. create_panel_order [''ab''] 1 88 ''Bob'' ''webapp'' (shop_order_in\<lparr>oi_user_count := 9, oi_daily_gib := 9\<rparr>) shop =
     (Inr ord, s') \<and> ord_amount_irr ord = 500 * 2 * 30"
proof -
  obtain ord s' where run: "create_panel_order [''ab''] 1 88 ''Bob'' ''webapp'' shop_order_in shop = (Inr ord, s')"
    and "get_plan shop 11 = Some shop_plan" using shop_order_runs by auto
  with plan_order_is_priced_by_the_catalog [OF run, of 11 9 9] show ?thesis
    by (auto simp: shop_order_in_def shop_plan_def)
qed
end
