(* ===== verification/Funding_Cases.thy ===== *)
theory Funding_Cases
  imports Funding Orders_Cases
begin

text \<open>
  The properties of funding, approvals and the audit view on a small tree: a root organization with one
  reseller below it, the root administrator (Telegram account 77) and the reseller's administrator (88).
\<close>

definition branch_base :: db where
  "branch_base = snd (add_organization 0 ''East'' ''east'' (Some 1) 0 (Some 500) shop_base)"

definition branch :: db where
  "branch = branch_base\<lparr>actors := [\<lparr>act_id = 30, act_telegram_id = 77, act_display_name = ''Ann'', act_status = ''active''\<rparr>,
         \<lparr>act_id = 31, act_telegram_id = 88, act_display_name = ''Bob'', act_status = ''active''\<rparr>],
       memberships := [\<lparr>mem_id = 32, mem_organization_id = 1, mem_actor_id = 30, mem_role = ''system_admin'',
           mem_status = ''active'', mem_created_at = 0\<rparr>,
         \<lparr>mem_id = 33, mem_organization_id = 3, mem_actor_id = 31, mem_role = ''reseller_admin'',
           mem_status = ''active'', mem_created_at = 0\<rparr>],
       settings := [(''bootstrap_complete'', 1)], next_uid := 40\<rparr>"

text \<open>The reseller asks for 900; then wants an adjustment of 250, to be decided by the root administrator.\<close>

definition asked :: db where
  "asked = funding_step ''77'' (Ask 1 900 buyer_identity) branch"

definition adjusting :: db where
  "adjusting = snd (request_adjustment ''77'' 60 2 \<lparr>ai_organization_id = 3, ai_amount_irr = 250, ai_note = ''gift''\<rparr>
     buyer_identity branch)"

lemma branch_runs:
  "map org_id (organizations branch) = [1, 3]" "next_uid branch = 40" "funding_requests branch = []"
  "transactions branch = []" "map acc_id (accounts branch) = [2, 4]"
  by code_simp+

lemma asked_runs:
  "map (\<lambda>r. (fun_id r, fun_amount_irr r, fun_status r)) (funding_requests asked) = [(40, 900, ''pending'')]"
  "transactions asked = []"
  "map (\<lambda>r. (fun_id r, fun_status r)) (funding_requests (fold (funding_step ''77'') [AdminDecide 2 40 ''approve'' seller_identity,
      BranchDecide 3 40 ''reject'' seller_identity] asked)) = [(40, ''approved'')]"
  by code_simp+

lemma adjusting_runs:
  "map (\<lambda>q. (apr_id q, apr_status q, apr_amount_irr q)) (approval_requests adjusting) = [(40, ''pending'', 250)]"
  "fst (decide_approval ''77'' 3 40 ''approve'' seller_identity adjusting) = Inr ''executed''"
  "map apr_status (approval_requests (snd (decide_approval ''77'' 99 40 ''approve'' seller_identity adjusting))) = [''expired'']"
  by code_simp+


lemma branch_base_runs:
  "next_uid branch_base = 5"
  by code_simp

lemma branch_invariants: "tree_ok branch" "ledger_ok branch"
proof -
  obtain child where add: "add_organization 0 ''East'' ''east'' (Some 1) 0 (Some 500) shop_base = (child, branch_base)"
    unfolding branch_base_def by (metis prod.collapse)
  have "tree_ok shop_base" using tree_ok_north by (simp add: shop_base_def)
  then have "tree_ok branch_base" by (rule add_organization_tree [OF add]) (use shop_base_runs(1) in auto)
  then show "tree_ok branch" by (rule same_tree_ok [rotated]) (simp add: same_tree_def branch_def branch_base_runs)
  have "ledger_ok branch_base" using add_organization_rest(11) [OF add] ledger_ok_shop_base by blast
  then show "ledger_ok branch" by (rule ledger_ok_same) (simp_all add: branch_def branch_base_runs)
qed

lemma funding_ok_branch: "funding_ok branch"
  using branch_invariants(2) by (simp add: funding_ok_def branch_runs find_transaction_def)

lemma funding_ok_asked: "funding_ok asked"
  unfolding asked_def using funding_step_simulates [OF funding_ok_branch] by blast

lemma adjusting_invariants: "tree_ok adjusting" "ledger_ok adjusting"
proof -
  have "organizations adjusting = organizations branch" "closures adjusting = closures branch"
    "contracts adjusting = contracts branch" "next_uid branch \<le> next_uid adjusting"
    "accounts adjusting = accounts branch" "transactions adjusting = transactions branch"
    by code_simp+
  then show "tree_ok adjusting" "ledger_ok adjusting"
    using same_tree_ok [OF _ branch_invariants(1)] ledger_ok_same [OF branch_invariants(2)] by (simp_all add: same_tree_def)
qed

theorem funding_refines_the_vault_witness:
  "\<exists>q. get_funding (fold (funding_step ''77'') [BranchDecide 3 40 ''reject'' seller_identity, AdminDecide 4 40 ''reject'' seller_identity]
      (funding_step ''77'' (AdminDecide 2 40 ''approve'' seller_identity) asked)) 40 = Some q \<and> fun_status q = ''approved''"
proof -
  let ?s = "funding_step ''77'' (AdminDecide 2 40 ''approve'' seller_identity) asked"
  have ok: "funding_ok ?s" using funding_step_simulates [OF funding_ok_asked] by blast
  have "map_option fun_status (get_funding ?s 40) = Some ''approved''" by code_simp
  then obtain r where "get_funding ?s 40 = Some r" "fun_status r = ''approved''" by auto
  with funding_refines_the_vault [OF ok, of "''77''" "[BranchDecide 3 40 ''reject'' seller_identity, AdminDecide 4 40 ''reject'' seller_identity]"]
  show ?thesis by fastforce
qed

theorem adjustment_is_decided_once_witness:
  "wallet_of (snd (decide_approval ''77'' 3 40 ''approve'' seller_identity adjusting)) (Org 3) = wallet_of adjusting (Org 3) + 250"
proof -
  obtain s' where run: "decide_approval ''77'' 3 40 ''approve'' seller_identity adjusting = (Inr ''executed'', s')"
    using adjusting_runs(2) by (metis prod.collapse)
  have "transactions adjusting = []" by code_simp
  then have "find_transaction adjusting (approval_key 40) = None" by (simp add: find_transaction_def)
  from adjustment_is_decided_once [OF run adjusting_invariants(2) this] obtain q where
    q: "get_approval adjusting 40 = Some q" and
    w: "wallet_of s' (Org 3) = pay (apr_target_id q) (apr_amount_irr q) (wallet_of adjusting) (Org 3)" by auto
  have "map_option (\<lambda>q. (apr_target_id q, apr_amount_irr q)) (get_approval adjusting 40) = Some (3, 250)" by code_simp
  with q have "apr_target_id q = 3" "apr_amount_irr q = 250" by simp_all
  with w run show ?thesis by (simp add: pay_def)
qed

theorem audit_shows_own_subtree_witness:
  "\<exists>views s'. web_audit ''77'' 10 buyer_identity adjusting = (Inr views, s') \<and> length views = 1 \<and> s' = adjusting"
proof -
  have "(case fst (web_audit ''77'' 10 buyer_identity adjusting) of Inr v \<Rightarrow> length v = 1 | Inl _ \<Rightarrow> False)" by code_simp
  then obtain views s' where run: "web_audit ''77'' 10 buyer_identity adjusting = (Inr views, s')" "length views = 1"
    by (cases "web_audit ''77'' 10 buyer_identity adjusting"; cases "fst (web_audit ''77'' 10 buyer_identity adjusting)") auto
  with audit_shows_own_subtree [OF adjusting_invariants(1) run(1)] show ?thesis by blast
qed

end
