(* ===== verification/Guardrails.thy ===== *)
theory Guardrails
  imports Access "HOL-Library.AList"
begin

text \<open>
  What stands in front of the routes: request budgets, metrics and safe logging (\<open>observability.py\<close>), the
  check of Telegram's signature (\<open>telegram_auth.py\<close>) and the middleware (\<open>main.py\<close>). HMAC, the query and
  JSON parsers and the clock are parameters; times of the monotonic clock are integers of some unit.
\<close>

section \<open>Request budgets\<close>

text \<open>The admitted times per caller, oldest first.\<close>

type_synonym hits = "(string \<times> int list) list"

definition hits_of :: "string \<Rightarrow> hits \<Rightarrow> int list" where
  "hits_of key table = (case map_of table key of None \<Rightarrow> [] | Some h \<Rightarrow> h)"

definition allow :: "int \<Rightarrow> int \<Rightarrow> int \<Rightarrow> string \<Rightarrow> hits \<Rightarrow> bool \<times> hits" where
  "allow limit window now key table =
    (if limit \<le> 0 then (True, table)
     else let h = dropWhile (\<lambda>t. now - t > window) (hits_of key table)
          in if int (length h) \<ge> limit then (False, AList.update key h table)
             else let table' = AList.update key (h @ [now]) table
                  in (True, if int (length table') > 50000 then [] else table'))"

definition reset_limiter :: "hits \<Rightarrow> hits" where
  "reset_limiter table = []"

text \<open>A limiter at work on requests, each with its time and caller; it keeps what it admitted.\<close>

definition serve :: "int \<Rightarrow> int \<Rightarrow> int \<times> string \<Rightarrow> hits \<times> (int \<times> string) list \<Rightarrow> hits \<times> (int \<times> string) list" where
  "serve limit window = (\<lambda>(now, key) (table, trace). case allow limit window now key table of
     (ok, table') \<Rightarrow> (table', trace @ (if ok then [(now, key)] else [])))"

definition served :: "int \<Rightarrow> int \<Rightarrow> (int \<times> string) list \<Rightarrow> hits \<times> (int \<times> string) list" where
  "served limit window requests = fold (serve limit window) requests ([], [])"

definition admitted_at :: "string \<Rightarrow> (int \<times> string) list \<Rightarrow> int list" where
  "admitted_at key trace = map fst (filter (\<lambda>r. snd r = key) trace)"

definition in_span :: "int \<Rightarrow> int \<Rightarrow> int list \<Rightarrow> nat" where
  "in_span a b ts = length (filter (\<lambda>t. a \<le> t \<and> t \<le> b) ts)"

section \<open>Metrics\<close>

text \<open>Counters and gauges: name and sorted labels, with the kind of each name; latencies per path.\<close>

record latency =
  la_buckets :: "nat list"
  la_millis :: int
  la_count :: nat

record metrics =
  counters :: "((string \<times> (string \<times> string) list) \<times> int) list"
  kinds :: "(string \<times> string) list"
  latencies :: "(string \<times> latency) list"

definition label_key :: "(string \<times> string) list \<Rightarrow> (string \<times> string) list" where
  "label_key labels = sort_key fst labels"

definition inc :: "string \<Rightarrow> (string \<times> string) list \<Rightarrow> int \<Rightarrow> metrics \<Rightarrow> metrics" where
  "inc name labels n m = (let k = (name, label_key labels) in
     m\<lparr>counters := AList.update k ((case map_of (counters m) k of None \<Rightarrow> 0 | Some c \<Rightarrow> c) + n) (counters m),
       kinds := AList.update name ''counter'' (kinds m)\<rparr>)"

definition gauge :: "string \<Rightarrow> int \<Rightarrow> (string \<times> string) list \<Rightarrow> metrics \<Rightarrow> metrics" where
  "gauge name n labels m = m\<lparr>counters := AList.update (name, label_key labels) n (counters m),
     kinds := AList.update name ''gauge'' (kinds m)\<rparr>"

definition LATENCY_BUCKETS :: "rat list" where
  "LATENCY_BUCKETS = [1 / 20, 1 / 10, 1 / 4, 1 / 2, 1, 5 / 2, 5, 10]"

definition bucket_index :: "rat \<Rightarrow> nat" where
  "bucket_index seconds = min (length (takeWhile (\<lambda>limit. limit < seconds) LATENCY_BUCKETS)) (length LATENCY_BUCKETS - 1)"

definition observe_latency :: "string \<Rightarrow> string \<Rightarrow> rat \<Rightarrow> metrics \<Rightarrow> metrics" where
  "observe_latency method path seconds m =
    (let l = (case map_of (latencies m) path of None \<Rightarrow> \<lparr>la_buckets = replicate (length LATENCY_BUCKETS) 0, la_millis = 0, la_count = 0\<rparr>
          | Some l \<Rightarrow> l);
         i = bucket_index seconds;
         l' = l\<lparr>la_buckets := (la_buckets l)[i := la_buckets l ! i + 1], la_millis := la_millis l + \<lfloor>seconds * 1000\<rfloor>, la_count := la_count l + 1\<rparr>
     in inc ''http_requests_total'' [(''method'', method), (''path'', path)] 1 (m\<lparr>latencies := AList.update path l' (latencies m)\<rparr>))"

text \<open>The histogram of a path as it is exposed: cumulative counts for each limit, then the total for \<open>+Inf\<close>.\<close>

fun running :: "nat \<Rightarrow> nat list \<Rightarrow> nat list" where
  "running n [] = []"
| "running n (x # xs) = (n + x) # running (n + x) xs"

definition exposed :: "latency \<Rightarrow> (rat \<times> nat) list \<times> nat" where
  "exposed l = (zip LATENCY_BUCKETS (running 0 (la_buckets l)), la_count l)"

section \<open>Safe logging\<close>

definition lower :: "string \<Rightarrow> string" where
  "lower t = map (\<lambda>c. if 65 \<le> (of_char c :: nat) \<and> (of_char c :: nat) \<le> 90 then char_of ((of_char c :: nat) + 32) else c) t"

fun contains :: "string \<Rightarrow> string \<Rightarrow> bool" where
  "contains needle [] = (needle = [])"
| "contains needle (c # t) = (take (length needle) (c # t) = needle \<or> contains needle t)"

definition secret_words :: "string list" where
  "secret_words = [''apikey'', ''api_key'', ''api-key'', ''password'', ''passwd'', ''secret'', ''token'', ''initdata'',
     ''init_data'', ''init-data'', ''authorization'', ''cookie'']"

definition SECRET_KEY :: "string \<Rightarrow> bool" where
  "SECRET_KEY key = list_ex (\<lambda>w. contains w (lower key)) secret_words"

text \<open>\<open>str_of\<close> is \<open>str\<close> on the values of a trace context.\<close>

definition safe_log_context :: "('v \<Rightarrow> string) \<Rightarrow> (string \<times> 'v) list \<Rightarrow> (string \<times> (string + 'v)) list" where
  "safe_log_context str_of values = map (\<lambda>(key, v).
     (key, if SECRET_KEY key then Inl (''<'' @ dec (length (str_of v)) @ '' chars>'') else Inr v)) values"

section \<open>What a budget guarantees\<close>

lemma admitted_at_simps [simp]:
  "admitted_at key [] = []" "admitted_at key (xs @ ys) = admitted_at key xs @ admitted_at key ys"
  "admitted_at key [(t, k)] = (if k = key then [t] else [])"
  by (simp_all add: admitted_at_def)

lemma in_span_simps [simp]:
  "in_span a b [] = 0" "in_span a b (xs @ ys) = in_span a b xs + in_span a b ys"
  "in_span a b (t # ts) = (if a \<le> t \<and> t \<le> b then 1 else 0) + in_span a b ts"
  by (simp_all add: in_span_def)

lemma in_span_none: "(\<And>t. t \<in> set ts \<Longrightarrow> t < a \<or> b < t) \<Longrightarrow> in_span a b ts = 0"
  by (force simp: in_span_def filter_empty_conv)

lemma in_span_all: "(\<And>t. t \<in> set ts \<Longrightarrow> a \<le> t \<and> t \<le> b) \<Longrightarrow> in_span a b ts = length ts"
  by (simp add: in_span_def)

lemma in_span_le: "in_span a b ts \<le> length ts"
  by (simp add: in_span_def)

lemma hits_of_update [simp]: "hits_of k (AList.update key h table) = (if k = key then h else hits_of k table)"
  by (simp add: hits_of_def update_conv')

lemma dropWhile_old:
  assumes "sorted h" and "t \<in> set (dropWhile (\<lambda>t. now - t > (window::int)) h)"
  shows "now - window \<le> t"
proof -
  let ?d = "dropWhile (\<lambda>t. now - t > window) h"
  have "?d \<noteq> []" using assms(2) by (metis empty_iff list.set(1))
  then have hd: "\<not> now - hd ?d > window" by (metis hd_dropWhile)
  have "sorted ?d" using assms(1) by (rule sorted_dropWhile)
  then have "hd ?d \<le> t" using assms(2) by (cases ?d) auto
  with hd show ?thesis by simp
qed

text \<open>The table knows what was admitted, up to what has left every future window.\<close>

definition budget_ok :: "int \<Rightarrow> int \<Rightarrow> string set \<Rightarrow> int \<Rightarrow> hits \<Rightarrow> (int \<times> string) list \<Rightarrow> bool" where
  "budget_ok limit window keys now table trace \<longleftrightarrow> distinct (map fst table) \<and> fst ` set table \<subseteq> keys \<and>
     (\<forall>k. sorted (admitted_at k trace) \<and> (\<forall>t \<in> set (admitted_at k trace). t \<le> now) \<and>
       (\<exists>old. admitted_at k trace = old @ hits_of k table \<and> (\<forall>t \<in> set old. t < now - window)) \<and>
       (\<forall>a. int (in_span a (a + window) (admitted_at k trace)) \<le> limit))"

lemma budget_okE:
  assumes "budget_ok limit window keys now table trace"
  obtains old where "admitted_at k trace = old @ hits_of k table" "\<forall>t \<in> set old. t < now - window"
    "sorted (admitted_at k trace)" "\<forall>t \<in> set (admitted_at k trace). t \<le> now"
    "\<And>a. int (in_span a (a + window) (admitted_at k trace)) \<le> limit"
  using assms unfolding budget_ok_def by (elim conjE allE [where x = k]) blast

lemma recent_hits:
  assumes ok: "budget_ok limit window keys T table trace" and now: "T \<le> now" and window: "0 \<le> window"
  shows "\<exists>old. admitted_at k trace = old @ dropWhile (\<lambda>t. now - t > window) (hits_of k table) \<and> (\<forall>t \<in> set old. t < now - window)"
    and "in_span (now - window) now (admitted_at k trace) = length (dropWhile (\<lambda>t. now - t > window) (hits_of k table))"
proof -
  let ?h = "dropWhile (\<lambda>t. now - t > window) (hits_of k table)"
  obtain old where old: "admitted_at k trace = old @ hits_of k table" "\<forall>t \<in> set old. t < T - window"
    and sorted: "sorted (admitted_at k trace)" and le: "\<forall>t \<in> set (admitted_at k trace). t \<le> T"
    by (rule budget_okE [OF ok, of k])
  define gone where "gone = takeWhile (\<lambda>t. now - t > window) (hits_of k table)"
  have split: "admitted_at k trace = (old @ gone) @ ?h" using old(1) by (simp add: gone_def)
  have less: "t < now - window" if "t \<in> set (old @ gone)" for t
    using that old(2) now by (auto simp: gone_def dest!: set_takeWhileD)
  with split show "\<exists>old. admitted_at k trace = old @ ?h \<and> (\<forall>t \<in> set old. t < now - window)" by blast
  have "sorted (hits_of k table)" using sorted old(1) by (simp add: sorted_append)
  moreover have "t \<le> now" if "t \<in> set ?h" for t
  proof -
    have "t \<in> set (admitted_at k trace)" using set_dropWhileD [OF that] old(1) by simp
    with le now show ?thesis by fastforce
  qed
  ultimately have "now - window \<le> t \<and> t \<le> now" if "t \<in> set ?h" for t
    using dropWhile_old that by blast
  then have "in_span (now - window) now ?h = length ?h" by (intro in_span_all) blast
  moreover have "in_span (now - window) now (old @ gone) = 0" using less by (intro in_span_none) blast
  ultimately show "in_span (now - window) now (admitted_at k trace) = length ?h" unfolding split by simp
qed

lemma budget_step:
  assumes ok: "budget_ok limit window keys T table trace" and now: "T \<le> now" and window: "0 \<le> window" and limit: "0 < limit"
    and keys: "key \<in> keys" "finite keys" "card keys \<le> 50000"
    and step: "serve limit window (now, key) (table, trace) = (table', trace')"
  shows "budget_ok limit window keys now table' trace'"
    and "trace' = trace @ (if int (in_span (now - window) now (admitted_at key trace)) < limit then [(now, key)] else [])"
proof -
  let ?h = "dropWhile (\<lambda>t. now - t > window) (hits_of key table)"
  let ?adm = "int (length ?h) < limit"
  have count: "in_span (now - window) now (admitted_at key trace) = length ?h" by (rule recent_hits(2) [OF ok now window])
  have t: "distinct (map fst table)" "fst ` set table \<subseteq> keys" using ok by (simp_all add: budget_ok_def)
  define new where "new = AList.update key (if ?adm then ?h @ [now] else ?h) table"
  have dist: "distinct (map fst new)" unfolding new_def using t(1) by (rule distinct_update)
  have "fst ` set new = insert key (fst ` set table)"
    unfolding new_def by (simp add: update_conv' flip: dom_map_of_conv_image_fst)
  then have sub: "fst ` set new \<subseteq> keys" using t(2) keys(1) by simp
  have "length new = card (fst ` set new)" using dist by (metis distinct_card length_map set_map)
  also have "\<dots> \<le> card keys" using sub keys(2) by (simp add: card_mono)
  finally have "length new \<le> 50000" using keys(3) by simp
  then have st: "table' = new" "trace' = trace @ (if ?adm then [(now, key)] else [])"
    using step limit by (auto simp: serve_def allow_def Let_def new_def split: if_splits)
  then show "trace' = trace @ (if int (in_span (now - window) now (admitted_at key trace)) < limit then [(now, key)] else [])"
    by (simp add: count)
  show "budget_ok limit window keys now table' trace'"
    unfolding budget_ok_def
  proof (intro conjI allI)
    show "distinct (map fst table')" "fst ` set table' \<subseteq> keys" using dist sub st by simp_all
    fix k
    obtain old' where old': "admitted_at k trace = old' @ hits_of k table" "\<forall>t \<in> set old'. t < T - window"
      and k: "sorted (admitted_at k trace)" "\<forall>t \<in> set (admitted_at k trace). t \<le> T"
      "\<And>a. int (in_span a (a + window) (admitted_at k trace)) \<le> limit" by (rule budget_okE [OF ok, of k]) blast
    have trace': "admitted_at k trace' = admitted_at k trace @ (if ?adm \<and> k = key then [now] else [])" using st(2) by simp
    show "sorted (admitted_at k trace')" "\<forall>t \<in> set (admitted_at k trace'). t \<le> now"
      using k(1,2) now unfolding trace' by (auto simp: sorted_append)
    obtain old where old: "admitted_at k trace = old @ dropWhile (\<lambda>t. now - t > window) (hits_of k table)" "\<forall>t \<in> set old. t < now - window"
      using recent_hits(1) [OF ok now window] by blast
    show "\<exists>old. admitted_at k trace' = old @ hits_of k table' \<and> (\<forall>t \<in> set old. t < now - window)"
    proof (cases "k = key")
      case True
      with old st(1) trace' show ?thesis by (intro exI [of _ old]) (auto simp: new_def)
    next
      case False
      with old' st(1) trace' now show ?thesis by (intro exI [of _ old']) (fastforce simp: new_def)
    qed
    show "int (in_span a (a + window) (admitted_at k trace')) \<le> limit" for a
    proof (cases "?adm \<and> k = key \<and> a \<le> now \<and> now \<le> a + window")
      case True
      have "in_span a (a + window) old = 0" using old(2) True by (intro in_span_none) force
      then have "in_span a (a + window) (admitted_at k trace) \<le> length ?h" using old(1) True in_span_le by simp
      with True show ?thesis unfolding trace' by simp
    next
      case False
      then have "in_span a (a + window) (admitted_at k trace') = in_span a (a + window) (admitted_at k trace)" unfolding trace' by auto
      with k(3) show ?thesis by simp
    qed
  qed
qed

lemma served_snoc: "served limit window (rs @ [r]) = serve limit window r (served limit window rs)"
  by (simp add: served_def)

lemma served_ok:
  assumes "sorted (map fst rs)" and "0 < limit" "0 \<le> window" and keys: "snd ` set rs \<subseteq> keys" "finite keys" "card keys \<le> 50000"
    and "\<And>t. t \<in> fst ` set rs \<Longrightarrow> t \<le> now"
  shows "budget_ok limit window keys now (fst (served limit window rs)) (snd (served limit window rs))"
  using assms
proof (induction rs arbitrary: now rule: rev_induct)
  case Nil
  then show ?case by (simp add: served_def budget_ok_def hits_of_def)
next
  case (snoc r rs)
  obtain t key where r: "r = (t, key)" by (cases r)
  obtain table trace where before: "served limit window rs = (table, trace)" by fastforce
  obtain table' trace' where after: "serve limit window (t, key) (table, trace) = (table', trace')" by fastforce
  have "budget_ok limit window keys t table trace"
    using snoc.IH [of t] snoc.prems r before by (auto simp: sorted_append)
  then have "budget_ok limit window keys t table' trace'"
    by (rule budget_step(1) [OF _ order_refl _ _ _ _ _ after]) (use snoc.prems r in auto)
  moreover have "t \<le> now" using snoc.prems(7) r by auto
  ultimately have "budget_ok limit window keys now table' trace'" by (fastforce simp: budget_ok_def)
  then show ?case by (simp add: served_snoc before r after)
qed

text \<open>
  C33: a budget is exact. Among requests in the order of their times, from at most 50000 callers, a
  request is admitted exactly when fewer than \<open>limit\<close> requests of the same caller were admitted in the
  window that ends with it, whatever the others do; hence no window of that length, wherever it starts,
  ever holds more than \<open>limit\<close> admitted requests of one caller.
\<close>

theorem budget_is_exact:
  assumes order: "sorted (map fst (requests @ [(now, key)]))" and callers: "card (snd ` set (requests @ [(now, key)])) \<le> 50000"
    and limit: "0 < limit" "0 \<le> window" and before: "served limit window requests = (table, trace)"
  shows "(fst (allow limit window now key table) \<longleftrightarrow> int (in_span (now - window) now (admitted_at key trace)) < limit) \<and>
    (\<forall>k a. int (in_span a (a + window) (admitted_at k (snd (served limit window (requests @ [(now, key)]))))) \<le> limit)"
proof -
  let ?keys = "snd ` set (requests @ [(now, key)])"
  have now: "t \<le> now" if "t \<in> fst ` set requests" for t using order that by (auto simp: sorted_append)
  have "budget_ok limit window ?keys now (fst (served limit window requests)) (snd (served limit window requests))"
    by (rule served_ok) (use order callers limit now in \<open>auto simp: sorted_append\<close>)
  then have ok: "budget_ok limit window ?keys now table trace" by (simp add: before)
  have "fst (allow limit window now key table) \<longleftrightarrow> int (in_span (now - window) now (admitted_at key trace)) < limit"
    using recent_hits(2) [OF ok order_refl limit(2), of key] limit(1) by (simp add: allow_def Let_def)
  moreover obtain table' trace' where after: "serve limit window (now, key) (table, trace) = (table', trace')" by fastforce
  have "budget_ok limit window ?keys now table' trace'"
    by (rule budget_step(1) [OF ok order_refl limit(2,1) _ _ _ after]) (use callers in auto)
  then have "int (in_span a (a + window) (admitted_at k trace')) \<le> limit" for k a by (rule budget_okE [where k = k])
  ultimately show ?thesis by (simp add: served_snoc before after)
qed

text \<open>A histogram counts every request in exactly one bucket: its last bucket shows the total.\<close>

definition histogram_ok :: "latency \<Rightarrow> bool" where
  "histogram_ok l \<longleftrightarrow> length (la_buckets l) = length LATENCY_BUCKETS \<and> sum_list (la_buckets l) = la_count l"

lemma bucket_index_less: "bucket_index seconds < length LATENCY_BUCKETS"
  by (simp add: bucket_index_def LATENCY_BUCKETS_def)

lemma running_Nil_iff [simp]: "running n xs = [] \<longleftrightarrow> xs = []"
  by (cases xs) auto

lemma running_last: "xs \<noteq> [] \<Longrightarrow> last (running n xs) = n + sum_list xs"
proof (induction n xs rule: running.induct)
  case (2 n x xs)
  then show ?case by (cases xs) auto
qed simp

lemma observe_latency_histogram:
  assumes "\<And>p l. map_of (latencies m) p = Some l \<Longrightarrow> histogram_ok l"
    and "map_of (latencies (observe_latency method path seconds m)) p = Some l"
  shows "histogram_ok l \<and> last (running 0 (la_buckets l)) = la_count l"
proof -
  have bumped: "sum_list (bs[i := Suc (bs ! i)]) = Suc (sum_list bs)" if "i < length bs" for i and bs :: "nat list"
    using that elem_le_sum_list [OF that] by (simp add: sum_list_update)
  have fresh: "sum_list ((replicate n 0)[i := Suc 0]) = Suc 0" if "i < n" for i n
    using bumped [of i "replicate n 0"] that by simp
  have ok: "histogram_ok l"
    using assms bucket_index_less [of seconds]
    by (auto simp: observe_latency_def inc_def Let_def update_conv' histogram_ok_def bumped fresh
        split: if_splits option.splits)
  then have "la_buckets l \<noteq> []" by (auto simp: histogram_ok_def LATENCY_BUCKETS_def)
  with ok show ?thesis by (simp add: running_last histogram_ok_def)
qed

section \<open>Telegram's signature\<close>

text \<open>
  The standard library as far as it is used here: the key derivation and digest, the query string parser and
  the JSON parser. Strings outside ASCII make \<open>compare_digest\<close> raise \<open>TypeError\<close>.
\<close>

record telegram_lib =
  tl_hmac :: "string \<Rightarrow> string \<Rightarrow> string" \<comment> \<open>key, message\<close>
  tl_hex :: "string \<Rightarrow> string"
  tl_parse_qsl :: "string \<Rightarrow> (string \<times> string) list"
  tl_loads :: "string \<Rightarrow> json option"

definition compare_digest :: "string \<Rightarrow> string \<Rightarrow> error + bool" where
  "compare_digest a b = (if list_all (\<lambda>c. (of_char c :: nat) < 128) (a @ b) then Inr (a = b)
     else Inl (TypeError ''comparing strings with non-ASCII characters is not supported''))"

text \<open>\<open>int\<close> on a string: blanks around, a sign, digits with single underscores between them.\<close>

fun digit_groups :: "string \<Rightarrow> string \<Rightarrow> string list" where
  "digit_groups g [] = [g]"
| "digit_groups g (c # t) = (if c = CHR ''_'' then g # digit_groups [] t else digit_groups (g @ [c]) t)"

definition unsigned :: "string \<Rightarrow> nat option" where
  "unsigned t = (let gs = digit_groups [] t in if list_all isdigit gs then Some (undec (concat gs)) else None)"

definition py_int :: "string \<Rightarrow> int option" where
  "py_int v = (case strip v of
     [] \<Rightarrow> None
   | c # t \<Rightarrow> if c = CHR ''-'' then map_option (\<lambda>n. - int n) (unsigned t)
       else map_option int (unsigned (if c = CHR ''+'' then t else c # t)))"

text \<open>\<open>TelegramAuthError\<close> is a \<open>ValueError\<close>; a failed \<open>int\<close> raises a plain one, which nobody catches.\<close>

datatype auth_error = Telegram_Auth string | Other_Error error

record telegram_identity =
  ti_user_id :: int
  ti_first_name :: json
  ti_last_name :: json
  ti_username :: json
  ti_auth_date :: int

fun join :: "string \<Rightarrow> string list \<Rightarrow> string" where
  "join sep [] = []"
| "join sep [x] = x"
| "join sep (x # y # xs) = x @ sep @ join sep (y # xs)"

definition data_check :: "(string \<times> string) list \<Rightarrow> string" where
  "data_check values = join [char_of (10::nat)] (map (\<lambda>(k, v). k @ ''='' @ v) (sort_key fst values))"

definition field_or :: "json \<Rightarrow> string \<Rightarrow> (string \<times> json) list \<Rightarrow> json" where
  "field_or d k fs = (case field k fs of None \<Rightarrow> d | Some v \<Rightarrow> v)"

text \<open>\<open>dict(parse_qsl(...))\<close>: a later field replaces an earlier one of the same name.\<close>

definition init_values :: "telegram_lib \<Rightarrow> string \<Rightarrow> (string \<times> string) list" where
  "init_values lib init_data = fold (\<lambda>(k, v). AList.update k v) (tl_parse_qsl lib init_data) []"

text \<open>\<open>int(user["id"])\<close> with the four exceptions that are caught.\<close>

definition declared_id :: "json option \<Rightarrow> int option" where
  "declared_id user = (case user of
     Some (JObj fs) \<Rightarrow> (case field ''id'' fs of
        Some (JInt n) \<Rightarrow> Some n | Some (JBool b) \<Rightarrow> Some (of_bool b) | Some (JStr t) \<Rightarrow> py_int t | _ \<Rightarrow> None)
   | _ \<Rightarrow> None)"

definition verify_init_data ::
  "telegram_lib \<Rightarrow> string \<Rightarrow> string \<Rightarrow> int \<Rightarrow> int \<Rightarrow> auth_error + telegram_identity"
where
  "verify_init_data lib init_data bot_token max_age_seconds now =
    (if init_data = [] \<or> bot_token = [] then Inl (Telegram_Auth ''Telegram authentication unavailable'')
     else let pairs = init_values lib init_data;
              values = AList.delete ''hash'' pairs
          in case map_of pairs ''hash'' of
            None \<Rightarrow> Inl (Telegram_Auth ''missing Telegram hash'')
          | Some received \<Rightarrow>
              if received = [] then Inl (Telegram_Auth ''missing Telegram hash'')
              else let key = tl_hmac lib ''WebAppData'' bot_token;
                       expected = tl_hex lib (tl_hmac lib key (data_check values))
                   in case compare_digest expected received of
                     Inl e \<Rightarrow> Inl (Other_Error e)
                   | Inr False \<Rightarrow> Inl (Telegram_Auth ''invalid Telegram signature'')
                   | Inr True \<Rightarrow>
                       (case py_int (case map_of values ''auth_date'' of None \<Rightarrow> ''0'' | Some t \<Rightarrow> t) of
                          None \<Rightarrow> Inl (Other_Error (ValueError ''invalid literal for int()''))
                        | Some auth_date \<Rightarrow>
                            if auth_date \<le> 0 \<or> now - auth_date > max_age_seconds \<or> auth_date > now + 30
                            then Inl (Telegram_Auth ''expired Telegram session'')
                            else let user = Option.bind (map_of values ''user'') (tl_loads lib)
                                 in case (declared_id user, user) of
                                   (Some i, Some (JObj fs)) \<Rightarrow> Inr \<lparr>ti_user_id = i,
                                     ti_first_name = field_or (JStr []) ''first_name'' fs,
                                     ti_last_name = field_or JNull ''last_name'' fs,
                                     ti_username = field_or JNull ''username'' fs, ti_auth_date = auth_date\<rparr>
                                 | _ \<Rightarrow> Inl (Telegram_Auth ''invalid Telegram user'')))"

text \<open>What a caller claims to be, unchecked; for the budget only.\<close>

definition declared_user_id :: "telegram_lib \<Rightarrow> string \<Rightarrow> int option" where
  "declared_user_id lib init_data = (if init_data = [] then None
     else declared_id (Option.bind (map_of (init_values lib init_data) ''user'') (tl_loads lib)))"

definition web_identity :: "telegram_lib \<Rightarrow> string \<Rightarrow> string \<Rightarrow> int \<Rightarrow> error + telegram_identity" where
  "web_identity lib init_data bot_token now = (case verify_init_data lib init_data bot_token 3600 now of
     Inl (Telegram_Auth text) \<Rightarrow> Inl (HTTPException 401 text)
   | Inl (Other_Error e) \<Rightarrow> Inl e
   | Inr identity \<Rightarrow> Inr identity)"

section \<open>Middleware\<close>

text \<open>What the middleware reads of a request. Header names are the ones the code asks for.\<close>

record web_request =
  wr_method :: string
  wr_path :: string
  wr_headers :: "(string \<times> string) list"
  wr_client :: "string option"

text \<open>Header names are compared without case.\<close>

definition header :: "string \<Rightarrow> web_request \<Rightarrow> string" where
  "header name rq = (case List.find (\<lambda>(k, v). lower k = lower name) (wr_headers rq) of None \<Rightarrow> [] | Some (k, v) \<Rightarrow> v)"

definition WRITE_METHODS :: "string list" where
  "WRITE_METHODS = [''POST'', ''PUT'', ''PATCH'', ''DELETE'']"

text \<open>\<open>digest\<close> is the hexadecimal SHA-256 of a string.\<close>

definition caller_key :: "telegram_lib \<Rightarrow> (string \<Rightarrow> string) \<Rightarrow> bool \<Rightarrow> web_request \<Rightarrow> string" where
  "caller_key lib digest trust_proxy rq =
    (let forwarded = (if trust_proxy then strip (takeWhile (\<lambda>c. c \<noteq> CHR '','') (header ''x-forwarded-for'' rq)) else []);
         peer = (if forwarded \<noteq> [] then forwarded else case wr_client rq of None \<Rightarrow> ''unknown'' | Some h \<Rightarrow> h)
     in case declared_user_id lib (header ''x-telegram-init-data'' rq) of
          Some i \<Rightarrow> peer @ '':telegram-'' @ pystr i
        | None \<Rightarrow> let key = header ''x-control-key'' rq
            in if key = [] then peer else peer @ '':key-'' @ take 16 (digest key))"

text \<open>A response, with its headers; the body is not modelled.\<close>

record response =
  re_status :: nat
  re_headers :: "(string \<times> string) list"

definition SECURITY_HEADERS :: "(string \<times> string) list" where
  "SECURITY_HEADERS = [(''X-Content-Type-Options'', ''nosniff''), (''X-Frame-Options'', ''DENY''),
     (''Referrer-Policy'', ''no-referrer''),
     (''Content-Security-Policy'', ''default-src ''@ [char_of (39::nat)] @ ''self'' @ [char_of (39::nat)] @
        ''; frame-ancestors '' @ [char_of (39::nat)] @ ''none'' @ [char_of (39::nat)] @
        ''; base-uri '' @ [char_of (39::nat)] @ ''self'' @ [char_of (39::nat)]),
     (''Permissions-Policy'', ''geolocation=(), microphone=(), camera=()'')]"

text \<open>The state of the process: the two limiters, the metrics, and the journal of failures and slow requests.\<close>

record process =
  write_hits :: hits
  anon_hits :: hits
  measured :: metrics
  journal :: "(string \<times> string \<times> nat \<times> int) list" \<comment> \<open>request id, path, status, milliseconds\<close>

record guard_config =
  WRITE_LIMIT :: int
  ANON_LIMIT :: int
  SLOW_REQUEST_SECONDS :: rat
  TRUST_PROXY :: bool

definition request_id :: "string \<Rightarrow> web_request \<Rightarrow> string" where
  "request_id uuid rq = (let t = take 64 (header ''x-request-id'' rq) in if t = [] then uuid else t)"

text \<open>
  \<open>guard_rails\<close>: \<open>now\<close> is the clock in seconds, \<open>uuid\<close> a fresh identifier, \<open>call_next\<close> the rest of the
  application: the route template it matched, the time it took, and its response or what it raised.
  The last part of the result is whether the application was called.
\<close>

definition guard_rails ::
  "guard_config \<Rightarrow> telegram_lib \<Rightarrow> (string \<Rightarrow> string) \<Rightarrow> int \<Rightarrow> string \<Rightarrow> web_request \<Rightarrow>
    (string option \<times> rat \<times> (error + response)) \<Rightarrow> process \<Rightarrow> (error + response) \<times> process \<times> bool"
where
  "guard_rails cfg lib digest now uuid rq call_next P =
    (let key = caller_key lib digest (TRUST_PROXY cfg) rq;
         writing = wr_method rq \<in> set WRITE_METHODS;
         (ok, table) = (if writing then allow (WRITE_LIMIT cfg) 60 now key (write_hits P) else allow (ANON_LIMIT cfg) 60 now key (anon_hits P));
         P1 = (if writing then P\<lparr>write_hits := table\<rparr> else P\<lparr>anon_hits := table\<rparr>)
     in if \<not> ok then (Inr \<lparr>re_status = 429, re_headers = [(''Retry-After'', ''60'')]\<rparr>,
            P1\<lparr>measured := inc ''http_rate_limited_total'' [(''path'', wr_path rq)] 1 (measured P1)\<rparr>, False)
        else case call_next of
          (_, _, Inl e) \<Rightarrow> (Inl e,
             P1\<lparr>measured := inc ''http_errors_total'' [(''path'', wr_path rq)] 1 (measured P1)\<rparr>, True)
        | (route, duration, Inr answer) \<Rightarrow>
            let label = (case route of None \<Rightarrow> ''<unmatched>'' | Some p \<Rightarrow> p);
                i = request_id uuid rq
            in (Inr (answer\<lparr>re_headers := fold (\<lambda>(name, v). AList.update name v)
                   ((''X-Request-Id'', i) # SECURITY_HEADERS) (re_headers answer)\<rparr>),
                P1\<lparr>measured := inc ''http_responses_total'' [(''path'', label), (''status'', dec (re_status answer))] 1
                     (observe_latency (wr_method rq) label duration (measured P1)),
                   journal := journal P1 @ (if 400 \<le> re_status answer \<or> SLOW_REQUEST_SECONDS cfg < duration
                     then [(i, label, re_status answer, \<lfloor>duration * 1000\<rfloor>)] else [])\<rparr>, True))"

text \<open>Only the configured administrator gets through to the bootstrap route.\<close>

definition protect_initial_bootstrap ::
  "telegram_lib \<Rightarrow> string \<Rightarrow> string \<Rightarrow> int \<Rightarrow> web_request \<Rightarrow> error option" \<comment> \<open>\<open>None\<close>: the application is called\<close>
where
  "protect_initial_bootstrap lib root_env bot_token now rq =
    (if wr_method rq = ''POST'' \<and> wr_path rq = ''/v1/onboarding/bootstrap''
     then case configured_root_id root_env of
         None \<Rightarrow> Some (HTTPException 503 ''ROOT_TELEGRAM_ID is not configured'')
       | Some admin_id \<Rightarrow> (case verify_init_data lib (header ''X-Telegram-Init-Data'' rq) bot_token 3600 now of
             Inl (Telegram_Auth text) \<Rightarrow> Some (HTTPException 401 text)
           | Inl (Other_Error e) \<Rightarrow> Some e
           | Inr identity \<Rightarrow> if ti_user_id identity \<noteq> admin_id
               then Some (HTTPException 403 ''only the configured Telegram administrator can initialize this workspace'') else None)
     else None)"

text \<open>The bootstrap route behind the middleware: the identity it gets is the verified one.\<close>

definition bootstrap_request ::
  "telegram_lib \<Rightarrow> string \<Rightarrow> string \<Rightarrow> string \<Rightarrow> int \<Rightarrow> bootstrap_in \<Rightarrow> web_request \<Rightarrow> db \<Rightarrow> (uid \<times> uid, db) res"
where
  "bootstrap_request lib root_env bot_token expected now x rq s =
    (case protect_initial_bootstrap lib root_env bot_token now rq of
       Some e \<Rightarrow> raised e s
     | None \<Rightarrow> (case web_identity lib (header ''X-Telegram-Init-Data'' rq) bot_token now of
         Inl e \<Rightarrow> raised e s
       | Inr identity \<Rightarrow> bootstrap_workspace expected now x
           \<lparr>user_id = ti_user_id identity, first_name = (case ti_first_name identity of JStr t \<Rightarrow> t | _ \<Rightarrow> [])\<rparr> s))"

section \<open>Health and metrics\<close>

text \<open>The view \<open>ledger_imbalance\<close>: the accounts whose balance is not the sum of their entries.\<close>

datatype health = Healthy int | Degraded nat int

definition drifted :: "db \<Rightarrow> int list" where
  "drifted s = filter (\<lambda>d. d \<noteq> 0) (map (\<lambda>a. acc_balance_irr a - entries_balance (acc_id a) (transactions s)) (accounts s))"

definition health :: "int \<Rightarrow> db \<Rightarrow> metrics \<Rightarrow> health \<times> metrics" where
  "health now s m = (let n = length (drifted s); m' = gauge ''ledger_drift_accounts'' (int n) [] m
     in (if n > 0 then Degraded n (sum_list (drifted s)) else Healthy now, m'))"

definition scrape :: "string \<Rightarrow> string \<Rightarrow> metrics \<Rightarrow> error + metrics" where
  "scrape expected token m = (if expected = [] then Inl (HTTPException 503 ''METRICS_TOKEN is not configured'')
     else case compare_digest expected token of
       Inl e \<Rightarrow> Inl e
     | Inr ok \<Rightarrow> if ok then Inr m else Inl (HTTPException 401 ''invalid metrics token''))"

section \<open>What the guards promise\<close>

text \<open>Init data signed with the bot's token: the hash covers every other field.\<close>

definition signed_by :: "telegram_lib \<Rightarrow> string \<Rightarrow> string \<Rightarrow> bool" where
  "signed_by lib bot_token init_data \<longleftrightarrow> map_of (init_values lib init_data) ''hash'' =
     Some (tl_hex lib (tl_hmac lib (tl_hmac lib ''WebAppData'' bot_token)
       (data_check (AList.delete ''hash'' (init_values lib init_data)))))"

lemma verify_init_data_Inr:
  assumes "verify_init_data lib init_data bot_token max_age now = Inr identity"
  shows "bot_token \<noteq> []" "signed_by lib bot_token init_data"
    "declared_user_id lib init_data = Some (ti_user_id identity)"
    "0 < ti_auth_date identity" "now - max_age \<le> ti_auth_date identity" "ti_auth_date identity \<le> now + 30"
    "map_of (init_values lib init_data) ''auth_date'' = Some t \<Longrightarrow> py_int t = Some (ti_auth_date identity)"
  using assms
  by (auto simp: verify_init_data_def signed_by_def declared_user_id_def compare_digest_def Let_def map_of_delete delete_conv'
      py_int_def split: if_splits option.splits sum.splits bool.splits json.splits)

lemma find_or_add_actor_in:
  "find_or_add_actor tid name s = (a, s') \<Longrightarrow> act_telegram_id a = tid \<and> a \<in> set (actors s')"
  by (auto simp: find_or_add_actor_def add_actor_def Let_def draw_def split: option.splits dest: lookup_SomeD)

text \<open>
  C34: the workspace is claimed with Telegram's word for the administrator. When a bootstrap request behind the
  middleware succeeds, a root administrator is configured and its account is the one named in the
  init data, which is signed with the bot's token, not older than an hour and at most 30 seconds ahead; the
  workspace had not been set up, now is, and belongs to the actor with that Telegram account.
\<close>

theorem workspace_is_claimed_by_the_signed_root:
  assumes run: "bootstrap_request lib root_env bot_token expected now x rq s = (Inr (w, i), s')"
    and route: "wr_method rq = ''POST''" "wr_path rq = ''/v1/onboarding/bootstrap''"
  shows "\<exists>admin_id auth_date a. configured_root_id root_env = Some admin_id \<and>
    declared_user_id lib (header ''X-Telegram-Init-Data'' rq) = Some admin_id \<and>
    bot_token \<noteq> [] \<and> signed_by lib bot_token (header ''X-Telegram-Init-Data'' rq) \<and>
    Option.bind (map_of (init_values lib (header ''X-Telegram-Init-Data'' rq)) ''auth_date'') py_int = Some auth_date \<and>
    now - 3600 \<le> auth_date \<and> auth_date \<le> now + 30 \<and>
    setting s ''bootstrap_complete'' = None \<and> setting s' ''bootstrap_complete'' = Some w \<and>
    a \<in> set (actors s') \<and> act_id a = i \<and> act_telegram_id a = admin_id"
proof -
  let ?init = "header ''X-Telegram-Init-Data'' rq"
  from run route obtain admin_id identity where admin_id: "configured_root_id root_env = Some admin_id"
    and verified: "verify_init_data lib ?init bot_token 3600 now = Inr identity" "ti_user_id identity = admin_id"
    and boot: "bootstrap_workspace expected now x \<lparr>user_id = ti_user_id identity,
        first_name = (case ti_first_name identity of JStr t \<Rightarrow> t | _ \<Rightarrow> [])\<rparr> s = (Inr (w, i), s')"
    by (auto simp: bootstrap_request_def protect_initial_bootstrap_def web_identity_def
        split: option.splits sum.splits auth_error.splits if_splits)
  note id = verify_init_data_Inr [OF verified(1)]
  obtain t where t: "map_of (init_values lib ?init) ''auth_date'' = Some t"
  proof (cases "map_of (init_values lib ?init) ''auth_date''")
    case None
    then have "map_of (AList.delete ''hash'' (init_values lib ?init)) ''auth_date'' = None" by (simp add: delete_conv')
    with verified(1) show ?thesis
      by (auto simp: verify_init_data_def Let_def py_int_def unsigned_def isdigit_def strip_def isspace_def undec_def
          split: if_splits option.splits sum.splits bool.splits)
  qed (rule that)
  from boot show ?thesis
  proof (rule bootstrap_Inr)
    fix org s1 a s2
    assume free: "setting s ''bootstrap_complete'' = None" and actor: "i = act_id a"
      and found: "find_or_add_actor (user_id \<lparr>user_id = ti_user_id identity,
          first_name = (case ti_first_name identity of JStr t \<Rightarrow> t | _ \<Rightarrow> [])\<rparr>)
        (first_name \<lparr>user_id = ti_user_id identity, first_name = (case ti_first_name identity of JStr t \<Rightarrow> t | _ \<Rightarrow> [])\<rparr>) s1 = (a, s2)"
      and s': "s' = audit now ''workspace.bootstrap'' ''organization'' (Some w) (Some i) (Some w) [(''slug'', JStr (org_slug org))]
        (put_setting ''bootstrap_complete'' w (add_membership now w i ''reseller_admin'' s2))"
    have "a \<in> set (actors s')" "act_telegram_id a = admin_id"
      using find_or_add_actor_in [OF found] verified(2) unfolding s' by (simp_all add: access_frame) 
    moreover have "setting s' ''bootstrap_complete'' = Some w" unfolding s' by (simp add: setting_put_setting)
    ultimately show ?thesis using admin_id id(1-6) id(7) [OF t] t verified(2) free actor 
      by (intro exI [of _ admin_id] exI [of _ "ti_auth_date identity"] exI [of _ a]) auto
  qed
qed

lemma health_is_the_ledger: "ledger_ok s \<Longrightarrow> fst (health now s m) = Healthy now"
  by (auto simp: health_def drifted_def Let_def ledger_ok_def filter_empty_conv)

text \<open>A request over its budget is answered without calling the application, which it cannot reach by other means.\<close>

lemma over_budget_is_not_served:
  assumes "guard_rails cfg lib digest now uuid rq call_next P = (r, P', called)"
  shows "called \<longleftrightarrow> fst (if wr_method rq \<in> set WRITE_METHODS
      then allow (WRITE_LIMIT cfg) 60 now (caller_key lib digest (TRUST_PROXY cfg) rq) (write_hits P)
      else allow (ANON_LIMIT cfg) 60 now (caller_key lib digest (TRUST_PROXY cfg) rq) (anon_hits P))"
    and "\<not> called \<Longrightarrow> r = Inr \<lparr>re_status = 429, re_headers = [(''Retry-After'', ''60'')]\<rparr>"
  using assms by (auto simp: guard_rails_def Let_def split: prod.splits if_splits option.splits sum.splits)

section \<open>Witnesses\<close>

theorem budget_is_exact_witness:
  "\<not> fst (allow 2 60 30 ''a'' (fst (served 2 60 [(0, ''a''), (5, ''b''), (10, ''a'')])))"
proof -
  obtain table trace where before: "served 2 60 [(0, ''a''), (5, ''b''), (10, ''a'')] = (table, trace)" by fastforce
  have "map_option length (Some (admitted_at ''a'' (snd (served 2 60 [(0, ''a''), (5, ''b''), (10, ''a'')])))) = Some 2 \<and>
    in_span (30 - 60) 30 (admitted_at ''a'' (snd (served 2 60 [(0, ''a''), (5, ''b''), (10, ''a'')]))) = 2" by code_simp
  moreover have "card (snd ` set ([(0, ''a''), (5, ''b''), (10, ''a'')] @ [(30::int, ''a'')])) \<le> 50000"
    by (rule order_trans [OF card_image_le]) (auto intro: order_trans [OF card_length])
  ultimately show ?thesis
    using budget_is_exact [of "[(0, ''a''), (5, ''b''), (10, ''a'')]" 30 "''a''" 2 60 table trace] before by simp
qed

definition test_lib :: telegram_lib where
  "test_lib = \<lparr>tl_hmac = (\<lambda>k m. take 1 m), tl_hex = (\<lambda>d. d),
     tl_parse_qsl = (\<lambda>q. [(''auth_date'', ''1000''), (''user'', q), (''hash'', ''a'')]),
     tl_loads = (\<lambda>t. Some (JObj [(''id'', JInt 77), (''first_name'', JStr t)]))\<rparr>"

definition test_request :: web_request where
  "test_request = \<lparr>wr_method = ''POST'', wr_path = ''/v1/onboarding/bootstrap'',
     wr_headers = [(''x-telegram-init-data'', ''Ann'')], wr_client = None\<rparr>"

definition test_bootstrap :: bootstrap_in where
  "test_bootstrap = \<lparr>bi_business_name = ''North'', bi_slug = ''north'', bi_setup_token = replicate 32 CHR ''t''\<rparr>"

lemma bootstrap_runs:
  "fst (bootstrap_request test_lib ''77'' ''bot'' (replicate 32 CHR ''t'') 1010 test_bootstrap test_request empty_db) = Inr (1, 3)"
  by code_simp

theorem workspace_is_claimed_by_the_signed_root_witness:
  "declared_user_id test_lib (header ''X-Telegram-Init-Data'' test_request) = Some 77"
proof -
  obtain s' where run: "bootstrap_request test_lib ''77'' ''bot'' (replicate 32 CHR ''t'') 1010 test_bootstrap test_request empty_db =
      (Inr (1, 3), s')" using bootstrap_runs by (metis prod.collapse)
  have "configured_root_id ''77'' = Some 77" by code_simp
  with workspace_is_claimed_by_the_signed_root [OF run] show ?thesis by (auto simp: test_request_def)
qed

end
