(* ===== verification/Gateway.thy ===== *)
theory Gateway
  imports Guardrails
begin

text \<open>
  The Telegram webhook in front of the update stream (\<open>telegram_gateway.py\<close>), with Redis as a table of
  expiring keys and a stream, and the schema migrations (\<open>migrate.py\<close>). The text of updates other than
  \<open>update_id\<close> is not looked at.
\<close>

section \<open>The webhook\<close>

text \<open>The keys with the time they expire, and every update ever appended (Redis trims the old ones).\<close>

record redis =
  rd_keys :: "(string \<times> int) list"
  rd_stream :: "json list"

definition live :: "int \<Rightarrow> string \<Rightarrow> redis \<Rightarrow> bool" where
  "live now key R = (case map_of (rd_keys R) key of None \<Rightarrow> False | Some t \<Rightarrow> now < t)"

text \<open>\<open>SET key 1 EX seconds NX\<close>: whether it was set.\<close>

definition set_nx :: "int \<Rightarrow> string \<Rightarrow> int \<Rightarrow> redis \<Rightarrow> bool \<times> redis" where
  "set_nx now key seconds R = (if live now key R then (False, R)
     else (True, R\<lparr>rd_keys := AList.update key (now + seconds) (rd_keys R)\<rparr>))"

definition delete_key :: "string \<Rightarrow> redis \<Rightarrow> redis" where
  "delete_key key R = R\<lparr>rd_keys := AList.delete key (rd_keys R)\<rparr>"

text \<open>\<open>str\<close> of the identifier; \<open>shown\<close> is \<open>str\<close> on lists and objects.\<close>

definition update_id :: "(json \<Rightarrow> string) \<Rightarrow> (string \<times> json) list \<Rightarrow> string" where
  "update_id shown fs = (case field ''update_id'' fs of
     None \<Rightarrow> []
   | Some (JInt n) \<Rightarrow> pystr n
   | Some (JStr t) \<Rightarrow> t
   | Some JNull \<Rightarrow> ''None''
   | Some (JBool b) \<Rightarrow> (if b then ''True'' else ''False'')
   | Some v \<Rightarrow> shown v)"

datatype webhook_answer = Queued | Duplicate

definition dedupe_key :: "string \<Rightarrow> string" where
  "dedupe_key i = ''tg:update:'' @ i"

text \<open>
  What becomes of a call to Redis: it is answered, or it takes effect although its reply is lost, or it never
  arrives. The caller sees an exception in the last two cases and cannot tell them apart.
\<close>

datatype reply = Answered | Lost | Failed_Call

definition call :: "reply \<Rightarrow> string \<Rightarrow> (redis \<Rightarrow> 'a \<times> redis) \<Rightarrow> redis \<Rightarrow> ('a, redis) res" where
  "call rep what run R = (case rep of
      Answered \<Rightarrow> (Inr (fst (run R)), snd (run R))
    | Lost \<Rightarrow> (Inl (RuntimeError what), snd (run R))
    | Failed_Call \<Rightarrow> (Inl (RuntimeError what), R))"

text \<open>
  \<open>token\<close> is the header with the secret, \<open>body\<close> the parsed body; \<open>sets\<close>, \<open>appends\<close> and \<open>deletes\<close> say what
  becomes of the three calls. What \<open>xadd\<close> raises is raised again, unless the deletion raises itself.
\<close>

definition webhook ::
  "string \<Rightarrow> (json \<Rightarrow> string) \<Rightarrow> int \<Rightarrow> string \<Rightarrow> json option \<Rightarrow> reply \<Rightarrow> reply \<Rightarrow> reply \<Rightarrow> redis \<Rightarrow>
    (webhook_answer, redis) res"
where
  "webhook secret shown now token body sets appends deletes R =
    bindr (case (if secret = [] then Inr False else compare_digest secret token) of
        Inl e \<Rightarrow> raised e R
      | Inr ok \<Rightarrow> require ok (HTTPException 401 ''invalid webhook secret'') R) (\<lambda>_ R.
    bindr (require_some body (ValueError ''JSON'') R) (\<lambda>update R.
      case update of
        JObj fs \<Rightarrow> (let i = update_id shown fs in
          bindr (require (i \<noteq> []) (HTTPException 422 ''missing update_id'') R) (\<lambda>_ R.
          bindr (call sets ''set'' (set_nx now (dedupe_key i) 86400) R) (\<lambda>was_set R.
            if \<not> was_set then returned Duplicate R
            else case call appends ''xadd'' (\<lambda>R. ((), R\<lparr>rd_stream := rd_stream R @ [update]\<rparr>)) R of
                (Inr _, R) \<Rightarrow> returned Queued R
              | (Inl e, R) \<Rightarrow> bindr (call deletes ''delete'' (\<lambda>R. ((), delete_key (dedupe_key i) R)) R) (\<lambda>_. raised e))))
      | _ \<Rightarrow> raised (AttributeError ''get'') R))"

section \<open>Migrations\<close>

text \<open>
  One transaction: the files not yet recorded run in the order of their names; \<open>run\<close> executes a script.
  What is raised rolls everything back.
\<close>

record 'd schema =
  schema_data :: 'd
  schema_migrations :: "string list"

fun migrate_files :: "(string \<Rightarrow> 'd \<Rightarrow> error + 'd) \<Rightarrow> string list \<Rightarrow> (string \<times> string) list \<Rightarrow> 'd schema \<Rightarrow> error + 'd schema" where
  "migrate_files run applied [] M = Inr M"
| "migrate_files run applied ((name, script) # files) M =
    (if name \<in> set applied then migrate_files run applied files M
     else case run script (schema_data M) of
       Inl e \<Rightarrow> Inl e
     | Inr d \<Rightarrow> migrate_files run applied files \<lparr>schema_data = d, schema_migrations = schema_migrations M @ [name]\<rparr>)"

definition run_migrations ::
  "(string \<Rightarrow> 'd \<Rightarrow> error + 'd) \<Rightarrow> (string \<times> string) list \<Rightarrow> 'd schema \<Rightarrow> (unit, 'd schema) res" where
  "run_migrations run directory M =
    (case migrate_files run (schema_migrations M) (sort_key fst directory) M of
       Inl e \<Rightarrow> raised e M | Inr M' \<Rightarrow> returned () M')"

section \<open>Deliveries\<close>

record delivery =
  dl_now :: int
  dl_token :: string
  dl_body :: "json option"
  dl_sets :: reply
  dl_appends :: reply
  dl_deletes :: reply

definition webhook_step :: "string \<Rightarrow> (json \<Rightarrow> string) \<Rightarrow> delivery \<Rightarrow> redis \<Rightarrow> redis" where
  "webhook_step secret shown d R =
    snd (webhook secret shown (dl_now d) (dl_token d) (dl_body d) (dl_sets d) (dl_appends d) (dl_deletes d) R)"

text \<open>A delivery with the right secret, of an update with the identifier \<open>i\<close>.\<close>

definition carries :: "string \<Rightarrow> (json \<Rightarrow> string) \<Rightarrow> string \<Rightarrow> json option \<Rightarrow> string \<Rightarrow> bool" where
  "carries secret shown token body i \<longleftrightarrow> secret \<noteq> [] \<and> compare_digest secret token = Inr True \<and> i \<noteq> [] \<and>
     (\<exists>fs. body = Some (JObj fs) \<and> update_id shown fs = i)"

definition names_update :: "(json \<Rightarrow> string) \<Rightarrow> string \<Rightarrow> json \<Rightarrow> bool" where
  "names_update shown i u = (case u of JObj fs \<Rightarrow> update_id shown fs = i | _ \<Rightarrow> False)"

definition queued :: "(json \<Rightarrow> string) \<Rightarrow> string \<Rightarrow> redis \<Rightarrow> nat" where
  "queued shown i R = length (filter (names_update shown i) (rd_stream R))"

lemma webhook_carried:
  assumes "carries secret shown token body i"
  shows "snd (webhook secret shown now token body sets appends deletes R) =
    (if sets = Failed_Call \<or> live now (dedupe_key i) R then R
     else let R1 = R\<lparr>rd_keys := AList.update (dedupe_key i) (now + 86400) (rd_keys R)\<rparr>;
              R2 = (if appends = Failed_Call then R1 else R1\<lparr>rd_stream := rd_stream R1 @ [the body]\<rparr>)
          in if sets = Lost then R1
             else if appends = Answered \<or> deletes = Failed_Call then R2
             else delete_key (dedupe_key i) R2)"
proof -
  obtain fs where fs: "secret \<noteq> []" "compare_digest secret token = Inr True" "i \<noteq> []" "body = Some (JObj fs)" "update_id shown fs = i"
    using assms by (auto simp: carries_def)
  have "webhook secret shown now token body sets appends deletes R =
      bindr (call sets ''set'' (set_nx now (dedupe_key i) 86400) R) (\<lambda>was_set R.
            if \<not> was_set then returned Duplicate R
            else case call appends ''xadd'' (\<lambda>R. ((), R\<lparr>rd_stream := rd_stream R @ [JObj fs]\<rparr>)) R of
                (Inr _, R) \<Rightarrow> returned Queued R
              | (Inl e, R) \<Rightarrow> bindr (call deletes ''delete'' (\<lambda>R. ((), delete_key (dedupe_key i) R)) R) (\<lambda>_. raised e))"
    using fs by (simp add: webhook_def require_def require_some_def Let_def)
  then show ?thesis
    by (cases sets; cases appends; cases deletes) (simp_all add: call_def set_nx_def fs Let_def)
qed

lemma webhook_other:
  assumes "\<And>i. \<not> carries secret shown token body i"
  shows "\<exists>e. webhook secret shown now token body sets appends deletes R = (Inl e, R)"
  using assms
  by (auto simp: webhook_def carries_def bindr_require bindr_require_some raised_def require_def Let_def
      split: sum.splits option.splits json.splits if_splits)

text \<open>
  What is known of one update after some deliveries within a day: \<open>lost\<close> of its appends took effect without a
  reply, \<open>tried\<close> says whether an append could have taken effect, \<open>sure\<close> whether one must have, and \<open>clean\<close>
  whether so far no key was set without a reply and every compensating deletion took effect.
\<close>

definition dedupe_ok :: "(json \<Rightarrow> string) \<Rightarrow> string \<Rightarrow> int \<Rightarrow> nat \<Rightarrow> bool \<Rightarrow> bool \<Rightarrow> bool \<Rightarrow> redis \<Rightarrow> bool" where
  "dedupe_ok shown i T lost tried sure clean R \<longleftrightarrow> (0 < queued shown i R \<longrightarrow> tried) \<and>
     (case map_of (rd_keys R) (dedupe_key i) of
        None \<Rightarrow> queued shown i R \<le> lost \<and> (clean \<and> sure \<longrightarrow> 0 < queued shown i R)
      | Some t \<Rightarrow> queued shown i R \<le> Suc lost \<and> T + 86400 \<le> t \<and> (clean \<longrightarrow> 0 < queued shown i R))"

lemma queued_append [simp]:
  "queued shown i (R\<lparr>rd_keys := ks, rd_stream := rd_stream R @ [u]\<rparr>) = queued shown i R + (if names_update shown i u then 1 else 0)"
  "queued shown i (R\<lparr>rd_keys := ks\<rparr>) = queued shown i R" "queued shown i (delete_key k R) = queued shown i R"
  by (simp_all add: queued_def delete_key_def)

definition lost_appends :: "delivery list \<Rightarrow> nat" where
  "lost_appends ds = length (filter (\<lambda>d. dl_sets d = Answered \<and> dl_appends d = Lost) ds)"

definition may_append :: "delivery \<Rightarrow> bool" where
  "may_append d \<longleftrightarrow> dl_sets d = Answered \<and> dl_appends d \<noteq> Failed_Call"

definition recoverable :: "delivery \<Rightarrow> bool" where
  "recoverable d \<longleftrightarrow> dl_sets d \<noteq> Lost \<and> dl_deletes d \<noteq> Failed_Call"

lemma webhook_step_ok:
  fixes secret
  assumes ok: "dedupe_ok shown i T lost tried tried clean R" and time: "T \<le> dl_now d" "dl_now d < T + 86400"
  defines "mine \<equiv> carries secret shown (dl_token d) (dl_body d) i"
  shows "dedupe_ok shown i T (lost + (if mine then lost_appends [d] else 0)) (tried \<or> mine \<and> may_append d)
    (tried \<or> mine \<and> may_append d) (clean \<and> (mine \<longrightarrow> recoverable d)) (webhook_step secret shown d R)"
proof (cases "\<exists>j. carries secret shown (dl_token d) (dl_body d) j")
  case False
  then obtain e where "webhook secret shown (dl_now d) (dl_token d) (dl_body d) (dl_sets d) (dl_appends d) (dl_deletes d) R =
      (Inl e, R)"
    using webhook_other by metis
  with False ok show ?thesis by (auto simp: webhook_step_def mine_def dedupe_ok_def split: option.splits)
next
  case True
  then obtain j fs where j: "carries secret shown (dl_token d) (dl_body d) j" and fs: "dl_body d = Some (JObj fs)" "update_id shown fs = j"
    by (auto simp: carries_def)
  have mine: "mine \<longleftrightarrow> i = j" using j fs by (auto simp: mine_def carries_def)
  have u: "names_update shown i (JObj fs) \<longleftrightarrow> i = j" using fs(2) by (auto simp: names_update_def)
  have key: "dedupe_key i = dedupe_key j \<longleftrightarrow> i = j" by (simp add: dedupe_key_def)
  define R1 where "R1 = R\<lparr>rd_keys := AList.update (dedupe_key j) (dl_now d + 86400) (rd_keys R)\<rparr>"
  define R2 where "R2 = (if dl_appends d = Failed_Call then R1 else R1\<lparr>rd_stream := rd_stream R1 @ [JObj fs]\<rparr>)"
  have step: "webhook_step secret shown d R = (if dl_sets d = Failed_Call \<or> live (dl_now d) (dedupe_key j) R then R
      else if dl_sets d = Lost then R1
      else if dl_appends d = Answered \<or> dl_deletes d = Failed_Call then R2 else delete_key (dedupe_key j) R2)"
    unfolding webhook_step_def webhook_carried [OF j] R1_def R2_def by (simp add: Let_def fs)
  have R: "queued shown i R1 = queued shown i R"
    "queued shown i R2 = queued shown i R + (if i = j \<and> dl_appends d \<noteq> Failed_Call then 1 else 0)"
    "map_of (rd_keys R1) = (map_of (rd_keys R))(dedupe_key j \<mapsto> dl_now d + 86400)"
    "map_of (rd_keys R2) = (map_of (rd_keys R))(dedupe_key j \<mapsto> dl_now d + 86400)"
    "map_of (rd_keys (delete_key (dedupe_key j) R2)) = (map_of (rd_keys R))(dedupe_key j := None)"
    using u by (auto simp: R1_def R2_def queued_def update_conv' delete_key_def delete_conv')
  show ?thesis
  proof (cases "i = j")
    case True
    note facts = dedupe_ok_def live_def lost_appends_def may_append_def recoverable_def R [unfolded True]
    from True ok time mine show ?thesis
      unfolding step
      by (cases "dl_sets d"; cases "dl_appends d"; cases "map_of (rd_keys R) (dedupe_key j)") (auto simp: facts)
  next
    case False
    with ok mine key show ?thesis
      unfolding step by (cases "map_of (rd_keys R) (dedupe_key i)") (auto simp: dedupe_ok_def R)
  qed
qed

text \<open>
  C35: an update is queued once. From an empty Redis, whatever the webhook receives within a day - wrong
  secrets, other updates, retries, broken bodies, calls to Redis that fail before or after taking effect -
  the stream holds an update with a given identifier at most once more than the number of its appends whose
  reply was lost, so at most once when no such reply was lost; and only if an authenticated delivery of it set
  the key and appended it. If, among its deliveries, no reply to the set was lost and no compensating deletion
  failed to take effect, then one delivery whose set and append go through is enough for the update to be
  there: a failed attempt does not use the identifier up.
\<close>

theorem updates_are_queued_once:
  assumes empty: "rd_keys R = []" "rd_stream R = []"
    and day: "\<And>d. d \<in> set ds \<Longrightarrow> T \<le> dl_now d \<and> dl_now d < T + 86400"
  shows "let n = queued shown i (fold (webhook_step secret shown) ds R);
             mine = filter (\<lambda>d. carries secret shown (dl_token d) (dl_body d) i) ds
         in n \<le> 1 + lost_appends mine \<and> (0 < n \<longrightarrow> list_ex may_append mine) \<and>
            (list_all recoverable mine \<and> list_ex may_append mine \<longrightarrow> 0 < n)"
proof -
  let ?mine = "\<lambda>ds. filter (\<lambda>d. carries secret shown (dl_token d) (dl_body d) i) ds"
  let ?ok = "\<lambda>ds. dedupe_ok shown i T (lost_appends (?mine ds)) (list_ex may_append (?mine ds))
    (list_ex may_append (?mine ds)) (list_all recoverable (?mine ds)) (fold (webhook_step secret shown) ds R)"
  have "?ok ds"
    using day
  proof (induction ds rule: rev_induct)
    case Nil
    with empty show ?case by (simp add: dedupe_ok_def queued_def)
  next
    case (snoc d ds)
    then have "?ok ds" by simp
    from webhook_step_ok [where secret = secret and d = d, OF this] snoc.prems [of d] show ?case
      by (cases "carries secret shown (dl_token d) (dl_body d) i") (auto simp: lost_appends_def)
  qed
  then show ?thesis by (auto simp: dedupe_ok_def Let_def split: option.splits)
qed

text \<open>A second run of the migrations does nothing: every file of the directory is recorded.\<close>

lemma migrate_files_records:
  "migrate_files run applied files M = Inr M' \<Longrightarrow>
    set (schema_migrations M') = set (schema_migrations M) \<union> (fst ` set files - set applied)"
  by (induction run applied files M rule: migrate_files.induct) (auto split: if_splits sum.splits)

lemma migrate_files_all_applied: "fst ` set files \<subseteq> set applied \<Longrightarrow> migrate_files run applied files M = Inr M"
  by (induction run applied files M rule: migrate_files.induct) auto

lemma run_migrations_again:
  assumes "run_migrations run directory M = (Inr (), M')"
  shows "run_migrations run directory M' = (Inr (), M')"
proof -
  have "migrate_files run (schema_migrations M) (sort_key fst directory) M = Inr M'"
    using assms by (auto simp: run_migrations_def split: sum.splits)
  from migrate_files_records [OF this] have "fst ` set (sort_key fst directory) \<subseteq> set (schema_migrations M')" by auto
  then show ?thesis by (simp add: run_migrations_def migrate_files_all_applied returned_def)
qed

section \<open>Witnesses\<close>

text \<open>A failed append, its retry, and a late duplicate.\<close>

definition test_delivery :: "int \<Rightarrow> reply \<Rightarrow> delivery" where
  "test_delivery now appends = \<lparr>dl_now = now, dl_token = ''s'', dl_body = Some (JObj [(''update_id'', JInt 5)]),
     dl_sets = Answered, dl_appends = appends, dl_deletes = Answered\<rparr>"

lemma test_delivery_carries:
  "carries ''s'' (\<lambda>_. []) (dl_token (test_delivery n b)) (dl_body (test_delivery n b)) ''5''"
  by (auto simp: carries_def test_delivery_def compare_digest_def update_id_def field_def pystr_def dec.simps digit_def)

theorem updates_are_queued_once_witness:
  "queued (\<lambda>_. []) ''5'' (fold (webhook_step ''s'' (\<lambda>_. []))
     [test_delivery 1 Failed_Call, test_delivery 2 Answered, test_delivery 3 Answered] \<lparr>rd_keys = [], rd_stream = []\<rparr>) = 1"
proof -
  let ?ds = "[test_delivery 1 Failed_Call, test_delivery 2 Answered, test_delivery 3 Answered]"
  have "list_all recoverable ?ds" "list_ex may_append ?ds" "lost_appends ?ds = 0"
    by (simp_all add: test_delivery_def recoverable_def may_append_def lost_appends_def)
  moreover have "1 \<le> dl_now d \<and> dl_now d < 1 + 86400" if "d \<in> set ?ds" for d
    using that by (auto simp: test_delivery_def)
  note updates_are_queued_once [where ds = ?ds and R = "\<lparr>rd_keys = [], rd_stream = []\<rparr>" and i = "''5''" and secret = "''s''" and
      shown = "\<lambda>_. []", OF _ _ this, simplified redis.simps]
  ultimately show ?thesis by (simp add: Let_def test_delivery_carries)
qed

text \<open>
  The bound is met: the reply to an append is lost, the handler takes the append for failed and frees the
  identifier, and Telegram's retry queues the same update a second time.
\<close>

lemma lost_reply_queues_twice:
  "queued (\<lambda>_. []) ''5'' (fold (webhook_step ''s'' (\<lambda>_. [])) [test_delivery 1 Lost, test_delivery 2 Answered]
     \<lparr>rd_keys = [], rd_stream = []\<rparr>) = 2"
  by code_simp

end
