(* ===== verification/Exposition.thy ===== *)
theory Exposition
  imports Guardrails "HOL-Library.Product_Lexorder"
begin

text \<open>
  The text a scrape returns (\<open>render\<close> of \<open>observability.py\<close>), a reader of that text, the log lines, and the
  order in which the middleware of \<open>main.py\<close> is stacked. Strings are sequences of 8-bit code points.
\<close>

section \<open>How Python prints the labels it sorts by\<close>

definition hexdigits :: "nat \<Rightarrow> string" where
  "hexdigits n = [''0123456789abcdef'' ! (n div 16), ''0123456789abcdef'' ! (n mod 16)]"

definition repr_char :: "char \<Rightarrow> char \<Rightarrow> string" where
  "repr_char q c = (let n = (of_char c :: nat) in
     if c = q \<or> c = CHR 0x5C then [CHR 0x5C, c]
     else if n = 9 then [CHR 0x5C, CHR ''t'']
     else if n = 10 then [CHR 0x5C, CHR ''n'']
     else if n = 13 then [CHR 0x5C, CHR ''r'']
     else if n < 32 \<or> (127 \<le> n \<and> n \<le> 160) \<or> n = 173 then [CHR 0x5C, CHR ''x''] @ hexdigits n
     else [c])"

definition repr :: "string \<Rightarrow> string" where
  "repr t = (let q = (if CHR 0x27 \<in> set t \<and> CHR 0x22 \<notin> set t then CHR 0x22 else CHR 0x27)
     in q # concat (map (repr_char q) t) @ [q])"

definition repr_pair :: "string \<times> string \<Rightarrow> string" where
  "repr_pair p = ''('' @ repr (fst p) @ '', '' @ repr (snd p) @ '')''"

definition str_labels :: "(string \<times> string) list \<Rightarrow> string" where
  "str_labels labels = ''('' @ join '', '' (map repr_pair labels) @ (if length labels = 1 then '','' else []) @ '')''"

section \<open>The exposition\<close>

definition quoted :: "string \<Rightarrow> string" where
  "quoted t = CHR 0x22 # t @ [CHR 0x22]"

definition pair_text :: "string \<times> string \<Rightarrow> string" where
  "pair_text p = fst p @ ''='' @ quoted (snd p)"

text \<open>The labels of a key are distinct, so sorting the pairs is sorting by their names.\<close>

definition label_text :: "(string \<times> string) list \<Rightarrow> string" where
  "label_text labels = join '','' (map pair_text
     (sort_key fst (fold (\<lambda>(k, v). AList.update k v) labels [])))"

definition sample_line :: "string \<Rightarrow> (string \<times> string) list \<Rightarrow> int \<Rightarrow> string" where
  "sample_line name labels n = (let rendered = label_text labels in
     if rendered = [] then name @ '' '' @ pystr n else name @ ''{'' @ rendered @ ''} '' @ pystr n)"

fun counter_lines ::
  "(string \<times> string) list \<Rightarrow> string list \<Rightarrow> ((string \<times> (string \<times> string) list) \<times> int) list \<Rightarrow> string list"
where
  "counter_lines ks documented [] = []"
| "counter_lines ks documented (((name, labels), n) # cs) =
    (if name \<in> set documented then []
     else [''# TYPE '' @ name @ '' '' @ (case map_of ks name of None \<Rightarrow> ''counter'' | Some kind \<Rightarrow> kind)]) @
    sample_line name labels n # counter_lines ks (name # documented) cs"

definition LIMIT_TEXTS :: "string list" where
  "LIMIT_TEXTS = [''0.05'', ''0.1'', ''0.25'', ''0.5'', ''1'', ''2.5'', ''5'', ''10'']"

text \<open>\<open>n / 1000\<close> with three decimals.\<close>

definition thousandths :: "int \<Rightarrow> string" where
  "thousandths n = (let r = nat (n mod 1000)
     in pystr (n div 1000) @ ''.'' @ [digit (r div 100), digit (r div 10 mod 10), digit (r mod 10)])"

definition latency_lines :: "string \<times> latency \<Rightarrow> string list" where
  "latency_lines = (\<lambda>(path, l). let name = ''http_request_duration_seconds''; p = ''path='' @ quoted path in
     map (\<lambda>(limit, n). name @ ''_bucket{'' @ p @ '',le='' @ quoted limit @ ''} '' @ dec n)
       (zip LIMIT_TEXTS (running 0 (la_buckets l))) @
     [name @ ''_bucket{'' @ p @ '',le='' @ quoted ''+Inf'' @ ''} '' @ dec (la_count l),
      name @ ''_count{'' @ p @ ''} '' @ dec (la_count l),
      name @ ''_sum{'' @ p @ ''} '' @ thousandths (la_millis l)])"

definition in_order ::
  "((string \<times> (string \<times> string) list) \<times> int) list \<Rightarrow> ((string \<times> (string \<times> string) list) \<times> int) list"
where
  "in_order cs = sort_key (\<lambda>((name, labels), n). (name, str_labels labels)) cs"

definition truncated :: "rat \<Rightarrow> int" where
  "truncated q = (if 0 \<le> q then \<lfloor>q\<rfloor> else \<lceil>q\<rceil>)"

definition render_lines :: "rat \<Rightarrow> rat \<Rightarrow> metrics \<Rightarrow> string list" where
  "render_lines time started m =
    counter_lines (kinds m) [] (in_order (counters m)) @
    (if latencies m = [] then [] else [''# TYPE http_request_duration_seconds histogram'']) @
    concat (map latency_lines (sort_key fst (latencies m))) @
    [''# TYPE process_uptime_seconds gauge'', ''process_uptime_seconds '' @ pystr (truncated (time - started))]"

definition newline :: char where
  "newline = CHR 0x0A"

definition render :: "rat \<Rightarrow> rat \<Rightarrow> metrics \<Rightarrow> string" where
  "render time started m = join [newline] (render_lines time started m) @ [newline]"

text \<open>The route \<open>/metrics\<close>: the token first, then the text.\<close>

definition metrics_route :: "string \<Rightarrow> string \<Rightarrow> rat \<Rightarrow> rat \<Rightarrow> metrics \<Rightarrow> error + string" where
  "metrics_route expected token time started m =
    (case scrape expected token m of Inl e \<Rightarrow> Inl e | Inr m' \<Rightarrow> Inr (render time started m'))"

section \<open>A reader of the exposition format\<close>

text \<open>
  What a collector does with the text: lines, of which those that start with a hash carry no sample; a sample is a
  name, labels in braces whose values stand in quotes with the escapes of a backslash, and a number.
\<close>

type_synonym sample = "string \<times> (string \<times> string) list \<times> string"

fun split_lines :: "string \<Rightarrow> string list" where
  "split_lines [] = []"
| "split_lines (c # cs) = (if c = newline then [] # split_lines cs
     else (case split_lines cs of [] \<Rightarrow> [[c]] | x # xs \<Rightarrow> (c # x) # xs))"

fun read_quoted :: "string \<Rightarrow> (string \<times> string) option" where
  "read_quoted [] = None"
| "read_quoted (c # cs) =
    (if c = CHR 0x22 then Some ([], cs)
     else if c = CHR 0x5C then (case cs of [] \<Rightarrow> None
       | d # ds \<Rightarrow> map_option (\<lambda>(v, rest). ((if d = CHR ''n'' then newline else d) # v, rest)) (read_quoted ds))
     else map_option (\<lambda>(v, rest). (c # v, rest)) (read_quoted cs))"

lemma read_quoted_shorter: "read_quoted t = Some (v, rest) \<Longrightarrow> length rest < length t"
  by (induction t arbitrary: v rest rule: read_quoted.induct) (fastforce split: if_splits list.splits)+

function read_labels :: "string \<Rightarrow> ((string \<times> string) list \<times> string) option" where
  "read_labels t = (case dropWhile (\<lambda>c. c \<noteq> CHR ''='') t of
     e # q # t1 \<Rightarrow> if q \<noteq> CHR 0x22 then None
       else (case read_quoted t1 of
         Some (v, d # rest) \<Rightarrow>
           if d = CHR ''}'' then Some ([(takeWhile (\<lambda>c. c \<noteq> CHR ''='') t, v)], rest)
           else if d = CHR '','' then
             map_option (\<lambda>(ls, rest'). ((takeWhile (\<lambda>c. c \<noteq> CHR ''='') t, v) # ls, rest')) (read_labels rest)
           else None
       | _ \<Rightarrow> None)
   | _ \<Rightarrow> None)"
  by pat_completeness auto

termination
proof (relation "measure length", goal_cases)
  case (2 t e t0 q t1 r v t2 d rest)
  have "length (e # q # t1) \<le> length t"
    using length_dropWhile_le [of "\<lambda>c. c \<noteq> CHR ''=''" t] 2(1,2) by simp
  moreover have "length (d # rest) < length t1"
    using 2 by (auto dest: read_quoted_shorter)
  ultimately show ?case by simp
qed simp

declare read_labels.simps [simp del]

definition read_line :: "string \<Rightarrow> sample option" where
  "read_line t = (let name = takeWhile (\<lambda>c. c \<noteq> CHR ''{'' \<and> c \<noteq> CHR '' '') t in
     case dropWhile (\<lambda>c. c \<noteq> CHR ''{'' \<and> c \<noteq> CHR '' '') t of
       [] \<Rightarrow> None
     | c # rest \<Rightarrow> if c = CHR '' '' then Some (name, [], rest)
         else (case read_labels rest of
           Some (labels, d # v) \<Rightarrow> if d = CHR '' '' then Some (name, labels, v) else None
         | _ \<Rightarrow> None))"

definition read_scrape :: "string \<Rightarrow> sample option list" where
  "read_scrape t = map read_line (filter (\<lambda>l. take 1 l \<noteq> ''#'') (split_lines t))"

text \<open>What the metrics hold, as samples.\<close>

definition latency_samples :: "string \<times> latency \<Rightarrow> sample list" where
  "latency_samples = (\<lambda>(path, l).
     map (\<lambda>(limit, n). (''http_request_duration_seconds_bucket'', [(''path'', path), (''le'', limit)], dec n))
       (zip LIMIT_TEXTS (running 0 (la_buckets l))) @
     [(''http_request_duration_seconds_bucket'', [(''path'', path), (''le'', ''+Inf'')], dec (la_count l)),
      (''http_request_duration_seconds_count'', [(''path'', path)], dec (la_count l)),
      (''http_request_duration_seconds_sum'', [(''path'', path)], thousandths (la_millis l))])"

definition samples :: "rat \<Rightarrow> rat \<Rightarrow> metrics \<Rightarrow> sample list" where
  "samples time started m =
    map (\<lambda>((name, labels), n). (name, labels, pystr n)) (in_order (counters m)) @
    concat (map latency_samples (sort_key fst (latencies m))) @
    [(''process_uptime_seconds'', [], pystr (truncated (time - started)))]"

section \<open>Reading a scrape back\<close>

definition tidy_name :: "string \<Rightarrow> bool" where
  "tidy_name t \<longleftrightarrow> t \<noteq> [] \<and> list_all (\<lambda>c. c \<notin> set [CHR 0x22, CHR 0x5C, newline, CHR ''{'', CHR ''}'', CHR '' '', CHR ''='', CHR '','', CHR ''#'']) t"

definition tidy_value :: "string \<Rightarrow> bool" where
  "tidy_value t \<longleftrightarrow> list_all (\<lambda>c. c \<notin> set [CHR 0x22, CHR 0x5C, newline]) t"

definition tidy_labels :: "(string \<times> string) list \<Rightarrow> bool" where
  "tidy_labels ls \<longleftrightarrow> distinct (map fst ls) \<and> list_all (\<lambda>(k, v). tidy_name k \<and> tidy_value v) ls"

definition readable :: "metrics \<Rightarrow> bool" where
  "readable m \<longleftrightarrow>
    list_all (\<lambda>((name, ls), n). tidy_name name \<and> tidy_labels ls \<and> sorted (map fst ls)) (counters m) \<and>
    list_all (\<lambda>(path, l). tidy_value path) (latencies m) \<and> list_all (\<lambda>(name, kind). tidy_name kind) (kinds m)"

lemma tidy_name_value: "tidy_name t \<Longrightarrow> tidy_value t"
  by (auto simp: tidy_name_def tidy_value_def list_all_iff)

lemma tidy_value_free: "tidy_value t \<Longrightarrow> CHR 0x22 \<notin> set t \<and> CHR 0x5C \<notin> set t \<and> newline \<notin> set t"
  by (auto simp: tidy_value_def list_all_iff)

lemma tidy_name_free:
  assumes "tidy_name t"
  shows "t \<noteq> []" "newline \<notin> set t" "CHR ''{'' \<notin> set t" "CHR '' '' \<notin> set t" "CHR ''='' \<notin> set t" "CHR ''#'' \<notin> set t"
  using assms by (auto simp: tidy_name_def list_all_iff)

lemma join_snoc_set: "c \<in> set (join sep xs) \<Longrightarrow> c \<in> set sep \<or> (\<exists>x \<in> set xs. c \<in> set x)"
  by (induction sep xs rule: join.induct) auto

lemma split_lines_free [simp]: "newline \<notin> set x \<Longrightarrow> split_lines (x @ newline # rest) = x # split_lines rest"
  by (induction x) auto

lemma split_lines_join:
  assumes "xs \<noteq> []" and "\<And>x. x \<in> set xs \<Longrightarrow> newline \<notin> set x"
  shows "split_lines (join [newline] xs @ [newline]) = xs"
  using assms
proof (induction "[newline]" xs rule: join.induct)
  case (2 x)
  then show ?case using split_lines_free [of x "[]"] by simp
qed auto

lemma read_quoted_free: "tidy_value v \<Longrightarrow> read_quoted (v @ CHR 0x22 # rest) = Some (v, rest)"
  by (induction v) (auto simp: tidy_value_def)

lemma takeWhile_stop: "c \<notin> set x \<Longrightarrow> takeWhile (\<lambda>d. d \<noteq> c) (x @ c # rest) = x"
  and dropWhile_stop: "c \<notin> set x \<Longrightarrow> dropWhile (\<lambda>d. d \<noteq> c) (x @ c # rest) = c # rest"
  by (induction x) auto

lemma read_labels_back:
  assumes "ls \<noteq> []" and "list_all (\<lambda>(k, v). tidy_name k \<and> tidy_value v) ls"
  shows "read_labels (join '','' (map pair_text ls) @ CHR ''}'' # rest) = Some (ls, rest)"
  using assms
proof (induction ls)
  case (Cons kv ls)
  obtain k v where kv: "kv = (k, v)" by fastforce
  have shown: "pair_text (k, v) = k @ CHR ''='' # CHR 0x22 # v @ [CHR 0x22]" by (simp add: pair_text_def quoted_def)
  have k: "CHR ''='' \<notin> set k" and v: "tidy_value v" using Cons.prems kv tidy_name_free by auto
  show ?case
  proof (cases ls)
    case Nil
    then show ?thesis using k v
      by (subst read_labels.simps) (simp add: kv shown takeWhile_stop dropWhile_stop read_quoted_free)
  next
    case (Cons kv' ls')
    then show ?thesis using k v Cons.IH Cons.prems kv
      by (subst read_labels.simps) (simp add: kv shown takeWhile_stop dropWhile_stop read_quoted_free)
  qed
qed simp

lemma read_line_labels:
  assumes "tidy_name name" "ls \<noteq> []" "list_all (\<lambda>(k, v). tidy_name k \<and> tidy_value v) ls"
  shows "read_line (name @ CHR ''{'' # join '','' (map pair_text ls) @ CHR ''}'' # CHR '' '' # n) = Some (name, ls, n)"
proof -
  have "takeWhile (\<lambda>c. c \<noteq> CHR ''{'' \<and> c \<noteq> CHR '' '') (name @ CHR ''{'' # t) = name"
    "dropWhile (\<lambda>c. c \<noteq> CHR ''{'' \<and> c \<noteq> CHR '' '') (name @ CHR ''{'' # t) = CHR ''{'' # t" for t
    using tidy_name_free(3,4) [OF assms(1)] by (induction name) auto
  then show ?thesis by (simp add: read_line_def read_labels_back assms)
qed

lemma read_line_bare:
  assumes "tidy_name name" shows "read_line (name @ CHR '' '' # n) = Some (name, [], n)"
proof -
  have "takeWhile (\<lambda>c. c \<noteq> CHR ''{'' \<and> c \<noteq> CHR '' '') (name @ CHR '' '' # t) = name"
    "dropWhile (\<lambda>c. c \<noteq> CHR ''{'' \<and> c \<noteq> CHR '' '') (name @ CHR '' '' # t) = CHR '' '' # t" for t
    using tidy_name_free(3,4) [OF assms(1)] by (induction name) auto
  then show ?thesis by (simp add: read_line_def)
qed

lemma update_absent: "k \<notin> fst ` set al \<Longrightarrow> AList.update k v al = al @ [(k, v)]"
  by (induction al) auto

lemma fold_update_distinct:
  "distinct (map fst (acc @ ls)) \<Longrightarrow> fold (\<lambda>(k, v). AList.update k v) ls acc = acc @ ls"
  by (induction ls arbitrary: acc) (auto simp: update_absent)

lemma sort_key_fst_id: "sorted (map fst ls) \<Longrightarrow> sort_key fst ls = ls"
  by (induction ls) (auto simp: insort_is_Cons)

lemma label_text_tidy:
  "tidy_labels ls \<Longrightarrow> sorted (map fst ls) \<Longrightarrow> label_text ls = join '','' (map pair_text ls)"
  using fold_update_distinct [of "[]" ls] by (simp add: label_text_def tidy_labels_def sort_key_fst_id)

lemma join_ne_Nil: "xs \<noteq> [] \<Longrightarrow> hd xs \<noteq> [] \<Longrightarrow> join sep xs \<noteq> []"
  by (induction sep xs rule: join.induct) auto

lemma read_sample_line:
  assumes "tidy_name name" "tidy_labels ls" "sorted (map fst ls)"
  shows "read_line (sample_line name ls n) = Some (name, ls, pystr n)"
proof (cases ls)
  case Nil
  then show ?thesis using assms by (simp add: sample_line_def label_text_def read_line_bare)
next
  case (Cons kv ls')
  then have "label_text ls \<noteq> []" using assms by (simp only: label_text_tidy) (rule join_ne_Nil, simp_all add: pair_text_def)
  then show ?thesis using assms Cons read_line_labels [OF assms(1), of ls "pystr n"]
    by (simp add: sample_line_def label_text_tidy tidy_labels_def)
qed

lemma newline_visible:
  "newline \<noteq> CHR 0x22" "newline \<noteq> CHR '',''" "newline \<noteq> CHR ''{''" "newline \<noteq> CHR ''}''" "newline \<noteq> CHR '' ''" "newline \<noteq> CHR ''=''"
  "newline \<noteq> CHR ''.''" "newline \<noteq> CHR ''#''" "newline \<noteq> CHR ''-''"
  by (simp_all add: newline_def)

lemma digit_free: "n < 10 \<Longrightarrow> newline \<noteq> digit n"
  by (drule less_10_cases) (auto simp: digit_def newline_def)

lemma dec_free: "newline \<notin> set (dec n)"
  by (induction n rule: dec.induct) (subst dec.simps, auto simp: digit_free)

lemma pystr_free: "newline \<notin> set (pystr n)"
  by (simp add: pystr_def dec_free newline_visible)

lemma in_label_text:
  "c \<in> set (join '','' (map pair_text ls)) \<Longrightarrow> c \<in> {CHR '','', CHR ''='', CHR 0x22} \<or> (\<exists>(k, v) \<in> set ls. c \<in> set k \<or> c \<in> set v)"
  by (drule join_snoc_set) (fastforce simp: pair_text_def quoted_def)

lemma label_text_free:
  assumes "tidy_labels ls" "sorted (map fst ls)" shows "newline \<notin> set (label_text ls)"
proof
  assume "newline \<in> set (label_text ls)"
  then have "newline \<in> set (join '','' (map pair_text ls))" by (simp add: label_text_tidy assms)
  then obtain k v where "(k, v) \<in> set ls" "newline \<in> set k \<or> newline \<in> set v"
    by (auto dest!: in_label_text simp: newline_visible)
  then show False using assms(1) tidy_name_free(2) tidy_value_free by (fastforce simp: tidy_labels_def list_all_iff)
qed

lemma sample_line_free:
  assumes "tidy_name name" "tidy_labels ls" "sorted (map fst ls)"
  shows "newline \<notin> set (sample_line name ls n)" "take 1 (sample_line name ls n) \<noteq> ''#''"
proof -
  show "newline \<notin> set (sample_line name ls n)"
    using label_text_free [OF assms(2,3)] tidy_name_free(2) [OF assms(1)] by (auto simp: sample_line_def Let_def pystr_free newline_visible)
  show "take 1 (sample_line name ls n) \<noteq> ''#''"
    using tidy_name_free(1,6) [OF assms(1)] by (cases name) (auto simp: sample_line_def Let_def)
qed

lemma counter_lines_back:
  assumes "list_all (\<lambda>((name, ls), n). tidy_name name \<and> tidy_labels ls \<and> sorted (map fst ls)) cs"
  shows "map read_line (filter (\<lambda>l. take 1 l \<noteq> ''#'') (counter_lines ks documented cs)) =
    map Some (map (\<lambda>((name, labels), n). (name, labels, pystr n)) cs)"
  using assms
  by (induction ks documented cs rule: counter_lines.induct) (auto simp: read_sample_line sample_line_free(2) [unfolded One_nat_def])

lemma counter_lines_free:
  assumes "\<And>name ls n. ((name, ls), n) \<in> set cs \<Longrightarrow> newline \<notin> set name \<and> newline \<notin> set (sample_line name ls n)"
    and "list_all (\<lambda>(name, kind). tidy_name kind) ks" and "l \<in> set (counter_lines ks documented cs)"
  shows "newline \<notin> set l"
  using assms
proof (induction ks documented cs rule: counter_lines.induct)
  case (2 ks documented name labels n cs)
  have "newline \<notin> set (case map_of ks name of None \<Rightarrow> ''counter'' | Some kind \<Rightarrow> kind)"
    using 2(3) tidy_name_free(2) by (fastforce simp: list_all_iff newline_def split: option.splits dest!: map_of_SomeD)
  then have "newline \<notin> set (''# TYPE '' @ name @ '' '' @ (case map_of ks name of None \<Rightarrow> ''counter'' | Some kind \<Rightarrow> kind))"
    using 2(2) [of name labels n] by (simp add: newline_def)
  then show ?case using 2 by (auto split: if_splits)
qed simp

lemma counter_lines_in: "((name, ls), n) \<in> set cs \<Longrightarrow> sample_line name ls n \<in> set (counter_lines ks documented cs)"
  by (induction ks documented cs rule: counter_lines.induct) auto

lemma duration_names:
  "tidy_name ''http_request_duration_seconds_bucket''" "tidy_name ''http_request_duration_seconds_count''"
  "tidy_name ''http_request_duration_seconds_sum''" "tidy_name ''process_uptime_seconds''" "tidy_name ''path''" "tidy_name ''le''"
  "tidy_value ''+Inf''" "list_all tidy_value LIMIT_TEXTS"
  by (simp_all add: tidy_name_def tidy_value_def newline_def LIMIT_TEXTS_def)

lemma thousandths_free: "newline \<notin> set (thousandths n)"
  by (auto simp: thousandths_def Let_def pystr_free newline_visible digit_free nat_less_iff)

lemma latency_lines_back:
  assumes "tidy_value (fst pl)"
  shows "map read_line (latency_lines pl) = map Some (latency_samples pl)" (is ?read)
    and "filter (\<lambda>l. take 1 l \<noteq> ''#'') (latency_lines pl) = latency_lines pl" (is ?samples)
    and "l \<in> set (latency_lines pl) \<Longrightarrow> newline \<notin> set l"
proof -
  obtain path la where pl: "pl = (path, la)" by fastforce
  have path: "tidy_value path" using assms pl by simp
  have bucket: "tidy_value limit \<Longrightarrow> read_line (''http_request_duration_seconds'' @ ''_bucket{'' @ (''path='' @ quoted path) @
      '',le='' @ quoted limit @ ''} '' @ n) = Some (''http_request_duration_seconds_bucket'', [(''path'', path), (''le'', limit)], n)" for limit n
    using read_line_labels [OF duration_names(1), of "[(''path'', path), (''le'', limit)]" n] path duration_names(5,6)
    by (simp add: pair_text_def)
  have others: "read_line (''http_request_duration_seconds'' @ ''_count{'' @ (''path='' @ quoted path) @ ''} '' @ n) =
      Some (''http_request_duration_seconds_count'', [(''path'', path)], n)"
    "read_line (''http_request_duration_seconds'' @ ''_sum{'' @ (''path='' @ quoted path) @ ''} '' @ n) =
      Some (''http_request_duration_seconds_sum'', [(''path'', path)], n)" for n
    using read_line_labels [OF duration_names(2), of "[(''path'', path)]" n]
      read_line_labels [OF duration_names(3), of "[(''path'', path)]" n] path duration_names(5)
    by (simp_all add: pair_text_def)
  have limits: "(limit, n) \<in> set (zip LIMIT_TEXTS xs) \<Longrightarrow> tidy_value limit" for limit n xs
    using duration_names(8) by (auto simp: list_all_iff dest!: set_zip_leftD)
  show ?read
    using others duration_names(7)
    by (auto simp: pl latency_lines_def latency_samples_def Let_def intro!: bucket [simplified] dest: limits)
  show ?samples by (auto simp: pl latency_lines_def Let_def filter_id_conv)
  show "newline \<notin> set l" if "l \<in> set (latency_lines pl)"
    using that tidy_value_free [OF path, unfolded newline_def]
    by (auto simp: pl latency_lines_def Let_def quoted_def newline_def dec_free [unfolded newline_def] thousandths_free [unfolded newline_def]
        dest: limits [THEN tidy_value_free, unfolded newline_def])
qed

lemma in_order_set [simp]: "set (in_order cs) = set cs"
  by (simp add: in_order_def)

lemma render_splits:
  assumes counters: "\<And>name ls n. ((name, ls), n) \<in> set (counters m) \<Longrightarrow> newline \<notin> set name \<and> newline \<notin> set (sample_line name ls n)"
    and kinds: "list_all (\<lambda>(name, kind). tidy_name kind) (kinds m)" and latencies: "list_all (\<lambda>(path, l). tidy_value path) (latencies m)"
  shows "split_lines (render time started m) = render_lines time started m"
  unfolding render_def
proof (rule split_lines_join)
  fix l assume "l \<in> set (render_lines time started m)"
  then consider "l \<in> set (counter_lines (kinds m) [] (in_order (counters m)))"
    | "l = ''# TYPE http_request_duration_seconds histogram''" | pl where "pl \<in> set (latencies m)" "l \<in> set (latency_lines pl)"
    | "l = ''# TYPE process_uptime_seconds gauge''" | "l = ''process_uptime_seconds '' @ pystr (truncated (time - started))"
    by (auto simp: render_lines_def split: if_splits)
  then show "newline \<notin> set l"
  proof cases
    case 1
    show ?thesis by (rule counter_lines_free [OF _ kinds 1]) (use counters in auto)
  next
    case 3
    then show ?thesis using latency_lines_back(3) latencies by (auto simp: list_all_iff)
  qed (simp_all add: newline_def pystr_free [unfolded newline_def])
qed (simp add: render_lines_def)

lemma scrape_back:
  assumes "readable m"
  shows "read_scrape (render time started m) = map Some (samples time started m)"
proof -
  have counters: "list_all (\<lambda>((name, ls), n). tidy_name name \<and> tidy_labels ls \<and> sorted (map fst ls)) (in_order (counters m))"
    and kinds: "list_all (\<lambda>(name, kind). tidy_name kind) (kinds m)"
    and latencies: "list_all (\<lambda>(path, l). tidy_value path) (latencies m)"
    using assms by (auto simp: readable_def list_all_iff)
  have split: "split_lines (render time started m) = render_lines time started m"
    by (rule render_splits [OF _ kinds latencies])
      (use counters sample_line_free(1) tidy_name_free(2) in \<open>fastforce simp: list_all_iff\<close>)
  have "filter (\<lambda>l. take 1 l \<noteq> ''#'') (concat (map latency_lines pls)) = concat (map latency_lines pls) \<and>
      map read_line (concat (map latency_lines pls)) = map Some (concat (map latency_samples pls))"
    if "set pls \<subseteq> set (latencies m)" for pls
    using that latencies by (induction pls) (auto simp: list_all_iff latency_lines_back(1) latency_lines_back(2) [unfolded One_nat_def])
  from this [of "sort_key fst (latencies m)"] show ?thesis
    using counter_lines_back [OF counters, of "kinds m" "[]"] read_line_bare [OF duration_names(4), of "pystr (truncated (time - started))"]
    by (simp add: read_scrape_def split render_lines_def samples_def)
qed

section \<open>Measurements keep the text readable\<close>

datatype measurement =
    Inc string "(string \<times> string) list" int
  | Gauge string int "(string \<times> string) list"
  | Observe string string rat

fun take_measurement :: "measurement \<Rightarrow> metrics \<Rightarrow> metrics" where
  "take_measurement (Inc name labels n) m = inc name labels n m"
| "take_measurement (Gauge name n labels) m = gauge name n labels m"
| "take_measurement (Observe verb path seconds) m = observe_latency verb path seconds m"

fun tidy_measurement :: "measurement \<Rightarrow> bool" where
  "tidy_measurement (Inc name labels n) \<longleftrightarrow> tidy_name name \<and> tidy_labels labels"
| "tidy_measurement (Gauge name n labels) \<longleftrightarrow> tidy_name name \<and> tidy_labels labels"
| "tidy_measurement (Observe verb path seconds) \<longleftrightarrow> tidy_value verb \<and> tidy_value path"

definition no_metrics :: metrics where
  "no_metrics = \<lparr>counters = [], kinds = [], latencies = []\<rparr>"

lemma set_update: "kv \<in> set (AList.update k v al) \<Longrightarrow> kv = (k, v) \<or> kv \<in> set al"
  by (induction al) (auto split: if_splits)

lemma update_in: "(k, v) \<in> set (AList.update k v al)"
  by (induction al) auto

lemma inc_in: "\<exists>n. ((name, label_key ls), n) \<in> set (counters (inc name ls k m))"
  unfolding inc_def Let_def by (simp, intro exI, rule update_in)

lemma label_key_tidy: "tidy_labels labels \<Longrightarrow> tidy_labels (label_key labels) \<and> sorted (map fst (label_key labels))"
  by (auto simp: tidy_labels_def label_key_def list_all_iff distinct_map)

lemma readable_put:
  assumes "readable m" "tidy_name name" "tidy_labels labels" "tidy_name kind"
  shows "readable (m\<lparr>counters := AList.update (name, label_key labels) n (counters m), kinds := AList.update name kind (kinds m)\<rparr>)"
  using assms label_key_tidy [OF assms(3)]
  by (auto simp: readable_def list_all_iff dest!: set_update)

lemma kind_names: "tidy_name ''counter''" "tidy_name ''gauge''" "tidy_name ''http_requests_total''" "tidy_name ''http_responses_total''"
  "tidy_name ''http_errors_total''" "tidy_name ''http_rate_limited_total''" "tidy_name ''method''" "tidy_name ''status''"
  by (simp_all add: tidy_name_def newline_def)

lemma inc_readable: "readable m \<Longrightarrow> tidy_name name \<Longrightarrow> tidy_labels labels \<Longrightarrow> readable (inc name labels n m)"
  and gauge_readable: "readable m \<Longrightarrow> tidy_name name \<Longrightarrow> tidy_labels labels \<Longrightarrow> readable (gauge name k labels m)"
  by (simp_all add: inc_def gauge_def Let_def readable_put kind_names)

lemma observe_latency_readable:
  assumes "readable m" "tidy_value verb" "tidy_value path" shows "readable (observe_latency verb path seconds m)"
proof -
  have "readable (m\<lparr>latencies := AList.update path l (latencies m)\<rparr>)" for l
    using assms by (auto simp: readable_def list_all_iff dest!: set_update)
  then show ?thesis unfolding observe_latency_def Let_def
    by (rule inc_readable) (simp_all add: tidy_labels_def kind_names duration_names assms)
qed

lemma take_measurement_readable: "readable m \<Longrightarrow> tidy_measurement x \<Longrightarrow> readable (take_measurement x m)"
  by (cases x) (simp_all add: inc_readable gauge_readable observe_latency_readable)

section \<open>What was measured\<close>

text \<open>
  The measurements alone, without the tables: the value of a counter or gauge is read off the list with the newest
  measurement first, and the histogram of a path off the durations measured on it.
\<close>

definition requests_key :: "string \<Rightarrow> string \<Rightarrow> string \<times> (string \<times> string) list" where
  "requests_key verb path = (''http_requests_total'', [(''method'', verb), (''path'', path)])"

fun last_value :: "measurement list \<Rightarrow> string \<times> (string \<times> string) list \<Rightarrow> int option" where
  "last_value [] k = None"
| "last_value (Inc name labels n # xs) k = (if k = (name, label_key labels)
     then Some ((case last_value xs k of None \<Rightarrow> 0 | Some v \<Rightarrow> v) + n) else last_value xs k)"
| "last_value (Gauge name n labels # xs) k = (if k = (name, label_key labels) then Some n else last_value xs k)"
| "last_value (Observe verb path seconds # xs) k = (if k = requests_key verb path
     then Some ((case last_value xs k of None \<Rightarrow> 0 | Some v \<Rightarrow> v) + 1) else last_value xs k)"

fun durations :: "string \<Rightarrow> measurement list \<Rightarrow> rat list" where
  "durations path [] = []"
| "durations path (Observe verb p seconds # xs) = (if p = path then [seconds] else []) @ durations path xs"
| "durations path (x # xs) = durations path xs"

definition no_longer :: "rat \<Rightarrow> rat list \<Rightarrow> nat" where
  "no_longer limit ds = length (filter (\<lambda>s. s \<le> limit) ds)"

text \<open>The last finite bucket counts every request, however long it took.\<close>

definition path_samples :: "measurement list \<Rightarrow> string \<Rightarrow> sample list" where
  "path_samples xs path = (let ds = durations path xs in
     map (\<lambda>(limit, n). (''http_request_duration_seconds_bucket'', [(''path'', path), (''le'', limit)], dec n))
       [(''0.05'', no_longer (1 / 20) ds), (''0.1'', no_longer (1 / 10) ds), (''0.25'', no_longer (1 / 4) ds),
        (''0.5'', no_longer (1 / 2) ds), (''1'', no_longer 1 ds), (''2.5'', no_longer (5 / 2) ds), (''5'', no_longer 5 ds),
        (''10'', length ds), (''+Inf'', length ds)] @
     [(''http_request_duration_seconds_count'', [(''path'', path)], dec (length ds)),
      (''http_request_duration_seconds_sum'', [(''path'', path)], thousandths (sum_list (map (\<lambda>s. \<lfloor>s * 1000\<rfloor>) ds)))])"

lemma counters_measured:
  "distinct (map fst (counters (fold take_measurement xs no_metrics))) \<and>
   map_of (counters (fold take_measurement xs no_metrics)) = last_value (rev xs)"
proof (induction xs rule: rev_induct)
  case (snoc x xs)
  then show ?case
    by (cases x) (auto simp: inc_def gauge_def observe_latency_def Let_def requests_key_def label_key_def update_conv'
        distinct_update fun_eq_iff)
qed (simp add: no_metrics_def fun_eq_iff)

text \<open>The table of a path holds what its durations say.\<close>

definition histogram :: "rat list \<Rightarrow> latency \<Rightarrow> bool" where
  "histogram ds l \<longleftrightarrow> length (la_buckets l) = length LATENCY_BUCKETS \<and>
     running 0 (la_buckets l) = map (\<lambda>limit. no_longer limit ds) (butlast LATENCY_BUCKETS) @ [length ds] \<and>
     la_count l = length ds \<and> la_millis l = sum_list (map (\<lambda>s. \<lfloor>s * 1000\<rfloor>) ds)"

lemma length_8: "length xs = 8 \<Longrightarrow> \<exists>a b c d e f g h. xs = [a, b, c, d, e, f, g, h]"
  by (auto simp: numeral_eq_Suc length_Suc_conv)

lemma histogram_fresh: "histogram [] \<lparr>la_buckets = replicate (length LATENCY_BUCKETS) 0, la_millis = 0, la_count = 0\<rparr>"
  by (simp add: histogram_def LATENCY_BUCKETS_def no_longer_def numeral_eq_Suc)

lemma histogram_next:
  assumes "histogram ds l" and "i = bucket_index s"
  shows "histogram (ds @ [s]) (l\<lparr>la_buckets := (la_buckets l)[i := la_buckets l ! i + 1],
    la_millis := la_millis l + \<lfloor>s * 1000\<rfloor>, la_count := la_count l + 1\<rparr>)"
proof -
  have "length (la_buckets l) = 8" using assms(1) by (simp add: histogram_def LATENCY_BUCKETS_def)
  then obtain b0 b1 b2 b3 b4 b5 b6 b7 where bs: "la_buckets l = [b0, b1, b2, b3, b4, b5, b6, b7]" using length_8 by blast
  have "no_longer limit (ds @ [s]) = no_longer limit ds + (if s \<le> limit then 1 else 0)" for limit by (simp add: no_longer_def)
  then show ?thesis using assms unfolding histogram_def bs
    by (simp add: LATENCY_BUCKETS_def bucket_index_def split: if_split)
qed

lemma durations_append [simp]: "durations path (xs @ ys) = durations path xs @ durations path ys"
  by (induction path xs rule: durations.induct) auto

definition table_of :: "rat list \<Rightarrow> latency option \<Rightarrow> bool" where
  "table_of ds r \<longleftrightarrow> (case r of None \<Rightarrow> ds = [] | Some l \<Rightarrow> ds \<noteq> [] \<and> histogram ds l)"

lemma latencies_measured:
  "distinct (map fst (latencies (fold take_measurement xs no_metrics))) \<and>
   (\<forall>path. table_of (durations path xs) (map_of (latencies (fold take_measurement xs no_metrics)) path))"
proof (induction xs rule: rev_induct)
  case (snoc x xs)
  let ?m = "fold take_measurement xs no_metrics"
  show ?case
  proof (cases x)
    case (Observe verb p s)
    define l where "l = (case map_of (latencies ?m) p of
      None \<Rightarrow> \<lparr>la_buckets = replicate (length LATENCY_BUCKETS) 0, la_millis = 0, la_count = 0\<rparr> | Some l \<Rightarrow> l)"
    have "table_of (durations p xs) (map_of (latencies ?m) p)" using snoc by blast
    then have "histogram (durations p xs) l"
      using histogram_fresh by (auto simp: l_def table_of_def split: option.splits)
    from histogram_next [OF this refl, of s] snoc show ?thesis
      by (simp add: Observe observe_latency_def inc_def Let_def update_conv' distinct_update flip: l_def)
        (simp add: table_of_def)
  qed (use snoc in \<open>simp_all add: inc_def gauge_def Let_def\<close>)
qed (simp add: no_metrics_def table_of_def)

lemma path_samples_measured:
  assumes "histogram (durations path xs) l"
  shows "latency_samples (path, l) = path_samples xs path"
proof -
  let ?ds = "durations path xs"
  have "running 0 (la_buckets l) = [no_longer (1 / 20) ?ds, no_longer (1 / 10) ?ds, no_longer (1 / 4) ?ds, no_longer (1 / 2) ?ds,
      no_longer 1 ?ds, no_longer (5 / 2) ?ds, no_longer 5 ?ds, length ?ds]"
    using assms by (simp add: histogram_def LATENCY_BUCKETS_def)
  with assms show ?thesis by (simp add: latency_samples_def path_samples_def histogram_def LIMIT_TEXTS_def Let_def)
qed

lemma measured_paths: "durations path xs \<noteq> [] \<longleftrightarrow> (\<exists>verb seconds. Observe verb path seconds \<in> set xs)"
  by (induction path xs rule: durations.induct) auto

lemma samples_measured:
  assumes m: "m = fold take_measurement xs no_metrics"
  shows "\<exists>cs ps. samples time started m =
      map (\<lambda>((name, labels), n). (name, labels, pystr n)) cs @ concat (map (path_samples xs) ps) @
        [(''process_uptime_seconds'', [], pystr (truncated (time - started)))] \<and>
    distinct (map fst cs) \<and> (\<forall>k n. (k, n) \<in> set cs \<longleftrightarrow> last_value (rev xs) k = Some n) \<and>
    sorted (map (\<lambda>((name, labels), n). (name, str_labels labels)) cs) \<and>
    distinct ps \<and> sorted ps \<and> set ps = {path. \<exists>verb seconds. Observe verb path seconds \<in> set xs}"
proof -
  let ?cs = "in_order (counters m)" and ?ls = "sort_key fst (latencies m)"
  have keys: "distinct (map fst ?cs)"
    using counters_measured [of xs] by (simp add: m in_order_def distinct_map)
  moreover have "(k, n) \<in> set ?cs \<longleftrightarrow> last_value (rev xs) k = Some n" for k n
    using counters_measured [of xs] by (metis in_order_set m map_of_eq_Some_iff)
  moreover have "sorted (map (\<lambda>((name, labels), n). (name, str_labels labels)) ?cs)"
    by (simp only: in_order_def sorted_sort_key)
  moreover have "distinct (map fst ?ls)" "sorted (map fst ?ls)"
    using latencies_measured [of xs] by (simp_all add: m distinct_map)
  moreover have "latency_samples pl = path_samples xs (fst pl)" if "pl \<in> set ?ls" for pl
  proof -
    have "map_of (latencies m) (fst pl) = Some (snd pl)"
      using that latencies_measured [of xs] by (simp add: m)
    moreover have "table_of (durations (fst pl) xs) (map_of (latencies m) (fst pl))" using latencies_measured [of xs] m by blast
    ultimately have "histogram (durations (fst pl) xs) (snd pl)" by (simp add: table_of_def)
    then show ?thesis using path_samples_measured by (metis prod.collapse)
  qed
  then have rows: "map latency_samples ?ls = map (path_samples xs) (map fst ?ls)" by simp
  have "samples time started m =
      map (\<lambda>((name, labels), n). (name, labels, pystr n)) ?cs @ concat (map (path_samples xs) (map fst ?ls)) @
        [(''process_uptime_seconds'', [], pystr (truncated (time - started)))]"
    unfolding samples_def rows ..
  moreover have "set (map fst ?ls) = {path. \<exists>verb seconds. Observe verb path seconds \<in> set xs}"
  proof -
    have tables: "table_of (durations path xs) (map_of (latencies m) path)" for path using latencies_measured [of xs] m by blast
    have "path \<in> fst ` set (latencies m) \<longleftrightarrow> durations path xs \<noteq> []" for path
      using tables [of path] map_of_eq_None_iff [of "latencies m" path] by (auto simp: table_of_def split: option.splits)
    then show ?thesis unfolding measured_paths by (intro set_eqI) simp
  qed
  ultimately show ?thesis by blast
qed

text \<open>
  C38: what the process measured can be read from a scrape. Take any measurements with tidy names and labels: names
  and label names are not empty and hold no quote, backslash, line break, brace, blank, comma, equals sign or hash,
  the label names of a measurement are distinct, and label values, methods and paths hold no quote, backslash or line break. A
  collector that parses the exposition then gets, and this in an order fixed by names and labels, one
  sample for every counter and gauge that was measured, with the value the measurements give it; for every path
  with an observed duration how many durations reach each limit - all of them for the limit of ten seconds -
  their number and the sum of their milliseconds; and the uptime. There is nothing else, and no line
  it cannot read.
\<close>

theorem scrape_reads_back:
  assumes "list_all tidy_measurement xs" and "m = fold take_measurement xs no_metrics"
  shows "\<exists>cs ps. read_scrape (render time started m) = map Some (
      map (\<lambda>((name, labels), n). (name, labels, pystr n)) cs @ concat (map (path_samples xs) ps) @
        [(''process_uptime_seconds'', [], pystr (truncated (time - started)))]) \<and>
    distinct (map fst cs) \<and> (\<forall>k n. (k, n) \<in> set cs \<longleftrightarrow> last_value (rev xs) k = Some n) \<and>
    sorted (map (\<lambda>((name, labels), n). (name, str_labels labels)) cs) \<and>
    distinct ps \<and> sorted ps \<and> set ps = {path. \<exists>verb seconds. Observe verb path seconds \<in> set xs}"
proof -
  have "readable (fold take_measurement xs m)" if "readable m" for m
    using assms(1) that by (induction xs arbitrary: m) (auto simp: take_measurement_readable)
  moreover have "readable no_metrics" by (simp add: readable_def no_metrics_def)
  ultimately have "readable m" unfolding assms(2) by blast
  note reads = scrape_back [OF this, of time started]
  show ?thesis unfolding reads using samples_measured [OF assms(2), of time started]
    by (elim ex_forward, elim conj_forward) simp_all
qed

theorem scrape_reads_back_witness:
  "Some (''hits'', [(''path'', ''/a'')], ''5'') \<in> set (read_scrape (render 10 4 (fold take_measurement
     [Inc ''hits'' [(''path'', ''/a'')] 2, Observe ''GET'' ''/a'' (1 / 5), Inc ''hits'' [(''path'', ''/a'')] 3] no_metrics))) \<and>
   Some (''http_request_duration_seconds_bucket'', [(''path'', ''/a''), (''le'', ''0.25'')], ''1'') \<in>
     set (read_scrape (render 10 4 (fold take_measurement
     [Inc ''hits'' [(''path'', ''/a'')] 2, Observe ''GET'' ''/a'' (1 / 5), Inc ''hits'' [(''path'', ''/a'')] 3] no_metrics)))"
proof -
  let ?xs = "[Inc ''hits'' [(''path'', ''/a'')] 2, Observe ''GET'' ''/a'' (1 / 5), Inc ''hits'' [(''path'', ''/a'')] 3]"
  have "list_all tidy_measurement ?xs" by code_simp
  from scrape_reads_back [OF this refl, of 10 4] show ?thesis
  proof (elim exE conjE)
    fix cs ps
    assume reads: "read_scrape (render 10 4 (fold take_measurement ?xs no_metrics)) = map Some (
        map (\<lambda>((name, labels), n). (name, labels, pystr n)) cs @ concat (map (path_samples ?xs) ps) @
          [(''process_uptime_seconds'', [], pystr (truncated (10 - 4)))])"
      and cs: "\<forall>k n. (k, n) \<in> set cs \<longleftrightarrow> last_value (rev ?xs) k = Some n"
      and ps: "set ps = {path. \<exists>verb seconds. Observe verb path seconds \<in> set ?xs}"
    have "last_value (rev ?xs) (''hits'', [(''path'', ''/a'')]) = Some 5" by code_simp
    then have "((''hits'', [(''path'', ''/a'')]), 5) \<in> set cs" using cs by blast
    note imageI [OF this, of "\<lambda>((name, labels), n). (name, labels, pystr n)"]
    moreover have "(\<lambda>((name, labels), n). (name, labels, pystr n)) ((''hits'', [(''path'', ''/a'')]), 5) =
        (''hits'', [(''path'', ''/a'')], ''5'')" by code_simp
    ultimately have "(''hits'', [(''path'', ''/a'')], ''5'') \<in> (\<lambda>((name, labels), n). (name, labels, pystr n)) ` set cs"
      by (simp only:)
    moreover have "Observe ''GET'' ''/a'' (1 / 5) \<in> set ?xs" by simp
    then have "''/a'' \<in> set ps" unfolding ps by blast
    moreover have "(''http_request_duration_seconds_bucket'', [(''path'', ''/a''), (''le'', ''0.25'')], ''1'') \<in>
        set (path_samples ?xs ''/a'')" by code_simp
    ultimately show ?thesis unfolding reads set_map set_append set_concat by blast
  qed
qed

section \<open>A path can forge labels\<close>

text \<open>
  C39: the raw path of a refused request is written between quotes as it is. A caller over its budget who puts a quote
  into the path chooses the labels of the sample: the collector reads a path and a further label that the
  process never recorded.
\<close>

theorem raw_path_forges_labels:
  assumes refused: "guard_rails cfg lib digest now uuid rq call_next P = (r, P', False)"
    and path: "wr_path rq = p @ CHR 0x22 # '','' @ k @ ''='' @ CHR 0x22 # v"
    and tidy: "tidy_value p" "tidy_name k" "tidy_value v" and readable: "readable (measured P)"
  shows "\<exists>n. Some (''http_rate_limited_total'', [(''path'', p), (k, v)], n) \<in> set (read_scrape (render time started (measured P'))) \<and>
    map_of (counters (measured P')) (''http_rate_limited_total'', [(''path'', p), (k, v)]) = map_of (counters (measured P)) (''http_rate_limited_total'', [(''path'', p), (k, v)])"
proof -
  let ?raw = "p @ CHR 0x22 # '','' @ k @ ''='' @ CHR 0x22 # v" and ?name = "''http_rate_limited_total''"
  define m where "m = measured P"
  have m': "measured P' = inc ?name [(''path'', ?raw)] 1 m"
    using refused path by (auto simp: guard_rails_def Let_def m_def split: prod.splits if_splits option.splits sum.splits)
  have line: "sample_line ?name [(''path'', ?raw)] n =
      ?name @ CHR ''{'' # join '','' (map pair_text [(''path'', p), (k, v)]) @ CHR ''}'' # CHR '' '' # pystr n" for n
    by (simp add: sample_line_def label_text_def pair_text_def quoted_def Let_def)
  have raw: "read_line (sample_line ?name [(''path'', ?raw)] n) = Some (?name, [(''path'', p), (k, v)], pystr n)"
    "newline \<notin> set (sample_line ?name [(''path'', ?raw)] n)" "take 1 (sample_line ?name [(''path'', ?raw)] n) \<noteq> ''#''" for n
    unfolding line using read_line_labels [OF kind_names(6), of "[(''path'', p), (k, v)]" "pystr n"] tidy tidy_name_value duration_names(5)
      tidy_value_free [OF tidy(1)] tidy_value_free [OF tidy(3)] tidy_name_free(2) [OF tidy(2)] pystr_free [of n]
    by (simp_all add: pair_text_def quoted_def newline_def)
  obtain n where n: "((?name, [(''path'', ?raw)]), n) \<in> set (counters (measured P'))"
    using inc_in [of ?name "[(''path'', ?raw)]" 1 m] by (auto simp: m' label_key_def)
  have counters: "newline \<notin> set name \<and> newline \<notin> set (sample_line name ls c)" if "((name, ls), c) \<in> set (counters (measured P'))" for name ls c
    using that readable raw(2) sample_line_free(1) tidy_name_free(2) kind_names(6)
    by (fastforce simp: m' m_def inc_def Let_def label_key_def readable_def list_all_iff dest!: set_update)
  have "split_lines (render time started (measured P')) = render_lines time started (measured P')"
    by (rule render_splits [OF counters]) (use readable kind_names(1) in \<open>auto simp: m' m_def inc_def Let_def readable_def list_all_iff dest!: set_update\<close>)
  moreover have "sample_line ?name [(''path'', ?raw)] n \<in> set (render_lines time started (measured P'))"
    using counter_lines_in [of ?name "[(''path'', ?raw)]" n "in_order (counters (measured P'))"] n by (simp add: render_lines_def)
  ultimately have "Some (?name, [(''path'', p), (k, v)], pystr n) \<in> set (read_scrape (render time started (measured P')))"
    using raw(1,3) [of n] by (force simp: read_scrape_def)
  moreover have "map_of (counters (measured P')) (?name, [(''path'', p), (k, v)]) = map_of (counters (measured P)) (?name, [(''path'', p), (k, v)])"
    by (simp add: m' m_def inc_def Let_def label_key_def update_conv')
  ultimately show ?thesis by blast
qed


definition crowded :: process where
  "crowded = \<lparr>write_hits = [], anon_hits = [(''9.9.9.9'', [1, 1])], measured = no_metrics, journal = []\<rparr>"

definition forging_request :: web_request where
  "forging_request = \<lparr>wr_method = ''GET'', wr_path = ''/a'' @ CHR 0x22 # '','' @ ''b'' @ ''='' @ CHR 0x22 # ''c'',
     wr_headers = [], wr_client = Some ''9.9.9.9''\<rparr>"

theorem raw_path_forges_labels_witness:
  "\<exists>P' n. snd (guard_rails \<lparr>WRITE_LIMIT = 2, ANON_LIMIT = 2, SLOW_REQUEST_SECONDS = 2, TRUST_PROXY = False\<rparr>
      test_lib id 5 ''u'' forging_request (None, 0, Inl (RuntimeError ''closed'')) crowded) = (P', False) \<and>
    Some (''http_rate_limited_total'', [(''path'', ''/a''), (''b'', ''c'')], n) \<in> set (read_scrape (render 9 4 (measured P')))"
proof -
  let ?cfg = "\<lparr>WRITE_LIMIT = 2, ANON_LIMIT = 2, SLOW_REQUEST_SECONDS = 2, TRUST_PROXY = False\<rparr>"
  obtain r P' called where run: "guard_rails ?cfg test_lib id 5 ''u'' forging_request (None, 0, Inl (RuntimeError ''closed'')) crowded = (r, P', called)"
    by (metis prod_cases3)
  have "\<not> snd (snd (guard_rails ?cfg test_lib id 5 ''u'' forging_request (None, 0, Inl (RuntimeError ''closed'')) crowded))" by code_simp
  then have refused: "guard_rails ?cfg test_lib id 5 ''u'' forging_request (None, 0, Inl (RuntimeError ''closed'')) crowded = (r, P', False)" using run by simp
  have tidy: "tidy_value ''/a''" "tidy_name ''b''" "tidy_value ''c''" by code_simp+
  have "readable (measured crowded)" by (simp add: crowded_def no_metrics_def readable_def)
  from raw_path_forges_labels [OF refused _ tidy this, of 9 4] show ?thesis
    using refused by (auto simp: forging_request_def)
qed

section \<open>The histogram\<close>

text \<open>A request of any length is counted by the last finite bucket, so \<open>le="10"\<close> always repeats \<open>+Inf\<close>.\<close>

lemma observed_histograms:
  assumes "map_of (latencies (fold take_measurement xs no_metrics)) path = Some l"
  shows "histogram_ok l"
proof -
  have "\<forall>p l. map_of (latencies (fold take_measurement xs m)) p = Some l \<longrightarrow> histogram_ok l"
    if "\<forall>p l. map_of (latencies m) p = Some l \<longrightarrow> histogram_ok l" for m
    using that
  proof (induction xs arbitrary: m)
    case (Cons x xs)
    have "histogram_ok l" if "map_of (latencies (take_measurement x m)) p = Some l" for p l
      using that Cons.prems observe_latency_histogram [of m] by (cases x) (auto simp: inc_def gauge_def Let_def)
    then have "\<forall>p l. map_of (latencies (take_measurement x m)) p = Some l \<longrightarrow> histogram_ok l" by blast
    then show ?case using Cons.IH [of "take_measurement x m"] by simp
  qed simp
  from this [of no_metrics] show ?thesis using assms by (auto simp: no_metrics_def)
qed

theorem last_bucket_repeats_the_count:
  assumes "map_of (latencies (fold take_measurement xs no_metrics)) path = Some l"
  shows "(''http_request_duration_seconds_bucket'', [(''path'', path), (''le'', ''10'')], dec (la_count l)) \<in> set (latency_samples (path, l))"
proof -
  have l: "length (la_buckets l) = 8" "sum_list (la_buckets l) = la_count l"
    using observed_histograms [OF assms] by (simp_all add: histogram_ok_def LATENCY_BUCKETS_def)
  then have "la_buckets l \<noteq> []" by auto
  then have last: "last (running 0 (la_buckets l)) = la_count l" by (simp add: running_last l)
  from l obtain a b c d e f g h where "la_buckets l = [a, b, c, d, e, f, g, h]"
    by (auto simp: length_Suc_conv numeral_eq_Suc)
  with last show ?thesis by (simp add: latency_samples_def LIMIT_TEXTS_def)
qed

section \<open>Log lines\<close>

text \<open>\<open>dumps\<close> prints JSON, \<open>lr_extra\<close> are the attributes a record got from \<open>extra\<close>.\<close>

record log_record =
  lr_time :: string
  lr_level :: string
  lr_logger :: string
  lr_message :: string
  lr_extra :: "(string \<times> json) list"

definition LOG_FIELDS :: "string list" where
  "LOG_FIELDS = [''request_id'', ''actor'', ''path'', ''status'', ''duration_ms'']"

definition log_payload :: "log_record \<Rightarrow> (string \<times> json) list" where
  "log_payload r = [(''time'', JStr (lr_time r)), (''level'', JStr (lr_level r)), (''logger'', JStr (lr_logger r)), (''message'', JStr (lr_message r))] @
     List.map_filter (\<lambda>f. case map_of (lr_extra r) f of None \<Rightarrow> None | Some JNull \<Rightarrow> None | Some v \<Rightarrow> Some (f, v)) LOG_FIELDS"

definition log_line :: "(json \<Rightarrow> string) \<Rightarrow> log_record \<Rightarrow> string" where
  "log_line dumps r = dumps (JObj (log_payload r))"

definition upper :: "string \<Rightarrow> string" where
  "upper t = map (\<lambda>c. if 97 \<le> (of_char c :: nat) \<and> (of_char c :: nat) \<le> 122 then char_of ((of_char c :: nat) - 32) else c) t"

text \<open>The levels of Python's \<open>logging\<close>.\<close>

definition LEVELS :: "(string \<times> nat) list" where
  "LEVELS = [(''CRITICAL'', 50), (''FATAL'', 50), (''ERROR'', 40), (''WARNING'', 30), (''WARN'', 30), (''INFO'', 20), (''DEBUG'', 10), (''NOTSET'', 0)]"

datatype log_handler = Structured | Other_Handler string

record logger_state =
  lg_handlers :: "log_handler list"
  lg_level :: nat
  lg_propagate :: bool

definition configure_logging :: "string option \<Rightarrow> (string \<Rightarrow> logger_state) \<Rightarrow> error + (string \<Rightarrow> logger_state)" where
  "configure_logging log_level loggers =
    (case map_of LEVELS (upper (case log_level of None \<Rightarrow> ''INFO'' | Some t \<Rightarrow> t)) of
       None \<Rightarrow> Inl (ValueError ''Unknown level'')
     | Some n \<Rightarrow> Inr (fold (\<lambda>noisy ls. ls(noisy := (ls noisy)\<lparr>lg_level := 30\<rparr>)) [''httpx'', ''httpcore'']
         (loggers(''control_plane'' := \<lparr>lg_handlers = [Structured], lg_level = n, lg_propagate = False\<rparr>))))"

text \<open>\<open>log\<close>: the level asked for, \<open>INFO\<close> when there is none of that name; below the logger's level nothing is written.\<close>

definition write_log :: "(json \<Rightarrow> string) \<Rightarrow> logger_state \<Rightarrow> string \<Rightarrow> string \<Rightarrow> string \<Rightarrow> (string \<times> json) list \<Rightarrow> string list" where
  "write_log dumps lg time level message context =
    (let wanted = upper level; known = map_of LEVELS wanted; n = (case known of None \<Rightarrow> 20 | Some n \<Rightarrow> n);
         name = (case known of None \<Rightarrow> ''INFO'' | Some _ \<Rightarrow> (case List.find (\<lambda>(t, k). k = n) LEVELS of Some (t, k) \<Rightarrow> t | None \<Rightarrow> wanted))
     in if n < lg_level lg then []
        else map (\<lambda>h. log_line dumps \<lparr>lr_time = time, lr_level = name, lr_logger = ''control_plane'', lr_message = message, lr_extra = context\<rparr>)
          (filter (\<lambda>h. h = Structured) (lg_handlers lg)))"

text \<open>A log line holds the fields of the formatter only, and the set-up leaves one handler however often it runs.\<close>

lemma log_payload_fields: "fst ` set (log_payload r) \<subseteq> set ([''time'', ''level'', ''logger'', ''message''] @ LOG_FIELDS)"
  by (auto simp: log_payload_def List.map_filter_def split: option.splits json.splits)

lemma configure_logging_once:
  assumes "configure_logging v ls = Inr ls'"
  shows "lg_handlers (ls' ''control_plane'') = [Structured]" "\<not> lg_propagate (ls' ''control_plane'')"
    "lg_level (ls' ''httpx'') = 30" "configure_logging v ls' = Inr ls'"
proof -
  obtain n where n: "map_of LEVELS (upper (case v of None \<Rightarrow> ''INFO'' | Some t \<Rightarrow> t)) = Some n"
    and ls': "ls' = fold (\<lambda>noisy ls. ls(noisy := (ls noisy)\<lparr>lg_level := 30\<rparr>)) [''httpx'', ''httpcore'']
         (ls(''control_plane'' := \<lparr>lg_handlers = [Structured], lg_level = n, lg_propagate = False\<rparr>))"
    using assms unfolding configure_logging_def by (cases "map_of LEVELS (upper (case v of None \<Rightarrow> ''INFO'' | Some t \<Rightarrow> t))") simp_all
  show "lg_handlers (ls' ''control_plane'') = [Structured]" "\<not> lg_propagate (ls' ''control_plane'')" "lg_level (ls' ''httpx'') = 30"
    unfolding ls' by simp_all
  show "configure_logging v ls' = Inr ls'" unfolding configure_logging_def n option.case sum.inject
    unfolding ls' by (rule ext) simp
qed

section \<open>The stack of middleware\<close>

text \<open>
  What \<open>create_app\<close> assembles: the paths of the documentation, the middleware from the outside in - each one
  registered wraps those before it - and the routers in order.
\<close>

record application =
  ap_title :: string
  ap_version :: string
  ap_docs_url :: "string option"
  ap_openapi_url :: "string option"
  ap_middleware :: "string list"
  ap_routers :: "string list"

definition add_middleware :: "string \<Rightarrow> application \<Rightarrow> application" where
  "add_middleware name a = a\<lparr>ap_middleware := name # ap_middleware a\<rparr>"

definition include_router :: "string \<Rightarrow> application \<Rightarrow> application" where
  "include_router name a = a\<lparr>ap_routers := ap_routers a @ [name]\<rparr>"

definition create_app :: "string option \<Rightarrow> string option \<Rightarrow> (string \<Rightarrow> logger_state) \<Rightarrow> error + (string \<Rightarrow> logger_state) \<times> application" where
  "create_app log_level expose_docs loggers =
    (case configure_logging log_level loggers of
       Inl e \<Rightarrow> Inl e
     | Inr ls \<Rightarrow>
         let docs = (expose_docs = Some ''1'');
             a = \<lparr>ap_title = ''PasarGuard B2B Control Plane'', ap_version = ''0.8.0'',
                  ap_docs_url = (if docs then Some ''/docs'' else None), ap_openapi_url = (if docs then Some ''/openapi.json'' else None),
                  ap_middleware = [], ap_routers = []\<rparr>
         in Inr (ls, include_router ''web_router'' (include_router ''control_router''
              (add_middleware ''protect_initial_bootstrap'' (add_middleware ''guard_rails'' a)))))"

lemma create_app_stack:
  "create_app v d ls = Inr (ls', a) \<Longrightarrow> ap_middleware a = [''protect_initial_bootstrap'', ''guard_rails''] \<and>
    ap_routers a = [''control_router'', ''web_router''] \<and> (ap_openapi_url a \<noteq> None \<longleftrightarrow> d = Some ''1'')"
  by (auto simp: create_app_def add_middleware_def include_router_def Let_def split: sum.splits if_splits)

text \<open>A request through the stack; the last part of the result is whether a route was called.\<close>

definition app_request ::
  "guard_config \<Rightarrow> telegram_lib \<Rightarrow> (string \<Rightarrow> string) \<Rightarrow> string \<Rightarrow> string \<Rightarrow> int \<Rightarrow> int \<Rightarrow> string \<Rightarrow> web_request \<Rightarrow>
    (string option \<times> rat \<times> (error + response)) \<Rightarrow> process \<Rightarrow> (error + response) \<times> process \<times> bool"
where
  "app_request cfg lib digest root_env bot_token now monotonic uuid rq call_next P =
    (case protect_initial_bootstrap lib root_env bot_token now rq of
       Some (HTTPException status detail) \<Rightarrow> (Inr \<lparr>re_status = status, re_headers = []\<rparr>, P, False)
     | Some e \<Rightarrow> (Inl e, P, False)
     | None \<Rightarrow> guard_rails cfg lib digest monotonic uuid rq call_next P)"

lemma fold_update_map_of:
  "distinct (map fst kvs) \<Longrightarrow> map_of (fold (\<lambda>(k, v). AList.update k v) kvs al) k = (case map_of kvs k of None \<Rightarrow> map_of al k | Some v \<Rightarrow> Some v)"
  by (induction kvs arbitrary: al) (auto simp: update_conv' map_of_eq_None_iff [symmetric] split: option.splits)

text \<open>
  C40: which answers are guarded. An answer of a route carries the security headers and the request id and is counted
  under its route and status; an answer the middleware gives in the place of a route carries none of them, and it is
  either over the budget (429) or a refused bootstrap, which costs no budget and is not counted at all.
\<close>

theorem routed_answers_are_guarded:
  assumes run: "app_request cfg lib digest root_env bot_token now monotonic uuid rq (route, duration, Inr inner) P = (Inr answer, P', called)"
    and uuid: "length uuid \<le> 64"
  shows "(called \<longrightarrow> re_status answer = re_status inner \<and>
      (\<forall>(h, v) \<in> set SECURITY_HEADERS. map_of (re_headers answer) h = Some v) \<and>
      (\<exists>i. map_of (re_headers answer) ''X-Request-Id'' = Some i \<and> length i \<le> 64) \<and>
      (\<forall>k. map_of (counters (measured P')) k = map_of (counters (take_measurement (Inc ''http_responses_total''
          [(''path'', case route of None \<Rightarrow> ''<unmatched>'' | Some p \<Rightarrow> p), (''status'', dec (re_status inner))] 1)
        (take_measurement (Observe (wr_method rq) (case route of None \<Rightarrow> ''<unmatched>'' | Some p \<Rightarrow> p) duration) (measured P)))) k)) \<and>
    (\<not> called \<longrightarrow> (\<forall>(h, v) \<in> set ((''X-Request-Id'', []) # SECURITY_HEADERS). map_of (re_headers answer) h = None) \<and>
      (re_status answer = 429 \<or> P' = P \<and> re_status answer \<in> {401, 403, 503} \<and> wr_path rq = ''/v1/onboarding/bootstrap''))"
proof (cases "protect_initial_bootstrap lib root_env bot_token now rq")
  case (Some e)
  then have "wr_path rq = ''/v1/onboarding/bootstrap''" "\<And>n d. e = HTTPException n d \<Longrightarrow> n \<in> {401, 403, 503}"
    by (auto simp: protect_initial_bootstrap_def verify_init_data_def compare_digest_def Let_def
        split: if_splits option.splits sum.splits auth_error.splits bool.splits json.splits)
  then show ?thesis using run Some by (auto simp: app_request_def split: error.splits)
next
  case None
  let ?label = "case route of None \<Rightarrow> ''<unmatched>'' | Some p \<Rightarrow> p"
  let ?kvs = "(''X-Request-Id'', request_id uuid rq) # SECURITY_HEADERS"
  from run None have run: "guard_rails cfg lib digest monotonic uuid rq (route, duration, Inr inner) P = (Inr answer, P', called)"
    by (simp add: app_request_def)
  have distinct: "distinct (map fst ?kvs)" by (simp add: SECURITY_HEADERS_def)
  show ?thesis
  proof (cases called)
    case False
    then have "answer = \<lparr>re_status = 429, re_headers = [(''Retry-After'', ''60'')]\<rparr>" using over_budget_is_not_served(2) [OF run] by simp
    then show ?thesis using False by (simp add: SECURITY_HEADERS_def)
  next
    case True
    then have answer: "answer = inner\<lparr>re_headers := fold (\<lambda>(name, v). AList.update name v) ?kvs (re_headers inner)\<rparr>"
      and measured: "measured P' = inc ''http_responses_total'' [(''path'', ?label), (''status'', dec (re_status inner))] 1
        (observe_latency (wr_method rq) ?label duration (measured P))"
      using run by (auto simp: guard_rails_def Let_def split: prod.splits if_splits)
    have "map_of (re_headers answer) h = Some v" if "(h, v) \<in> set ?kvs" for h v
      unfolding answer using fold_update_map_of [OF distinct, of "re_headers inner" h] map_of_is_SomeI [OF distinct that] by simp
    moreover have "length (request_id uuid rq) \<le> 64" using uuid by (simp add: request_id_def Let_def)
    ultimately show ?thesis using True by (auto simp: measured answer)
  qed
qed

theorem routed_answers_are_guarded_witness:
  "\<exists>answer P' i. app_request \<lparr>WRITE_LIMIT = 2, ANON_LIMIT = 2, SLOW_REQUEST_SECONDS = 2, TRUST_PROXY = False\<rparr> test_lib id ''77'' ''bot''
      1010 100 ''u'' forging_request (Some ''/a'', 1 / 4, Inr \<lparr>re_status = 200, re_headers = [(''X-Frame-Options'', ''ALLOW'')]\<rparr>) crowded =
        (Inr answer, P', True) \<and> map_of (re_headers answer) ''X-Frame-Options'' = Some ''DENY'' \<and>
      map_of (re_headers answer) ''X-Request-Id'' = Some i \<and> length i \<le> 64"
proof -
  let ?run = "app_request \<lparr>WRITE_LIMIT = 2, ANON_LIMIT = 2, SLOW_REQUEST_SECONDS = 2, TRUST_PROXY = False\<rparr> test_lib id ''77'' ''bot''
      1010 100 ''u'' forging_request (Some ''/a'', 1 / 4, Inr \<lparr>re_status = 200, re_headers = [(''X-Frame-Options'', ''ALLOW'')]\<rparr>) crowded"
  obtain r P' called where run: "?run = (r, P', called)" by (metis prod_cases3)
  have "(case fst ?run of Inl _ \<Rightarrow> False | Inr _ \<Rightarrow> True) \<and> snd (snd ?run)" by code_simp
  then obtain answer where ok: "?run = (Inr answer, P', True)" using run by (cases r) auto
  have frame: "(''X-Frame-Options'', ''DENY'') \<in> set SECURITY_HEADERS" by (simp add: SECURITY_HEADERS_def)
  from routed_answers_are_guarded [OF ok] frame show ?thesis using ok by (fastforce simp del: de_Morgan_conj)
qed

end
