(* ===== verification/Bot_Menu.thy ===== *)
theory Bot_Menu
  imports Access "HOL-Library.Sublist"
begin

text \<open>
  The menus of the Telegram bot (\<open>telegram_consumer.py\<close>): the table of sections with the permission
  and the audience of each, the two keyboards a role is offered, the way back from the label or the
  callback data of a button to what it opens, and the account a chat stands for.

  A text typed in a chat is the list of its Unicode code points; the labels of the sections are the
  ones of the source, written out as code points.
\<close>

section \<open>Texts\<close>

type_synonym chat_text = "nat list"

definition plain :: "string \<Rightarrow> chat_text" where
  "plain t = map of_char t"

section \<open>Sections\<close>

abbreviation STAFF :: string where "STAFF \<equiv> ''staff''"
abbreviation CUSTOMERS :: string where "CUSTOMERS \<equiv> ''customer''"
abbreviation BOTH :: string where "BOTH \<equiv> ''both''"

definition SECTIONS :: "(string \<times> chat_text \<times> string \<times> string) list" where
  "SECTIONS =
    [(''dashboard'', [128202, 32, 1583, 1575, 1588, 1576, 1608, 1585, 1583],
        ''view_dashboard'', STAFF),
     (''orders'', [129534, 32, 1587, 1601, 1575, 1585, 1588, 8204, 1607, 1575, 1740, 32, 1662, 1606, 1604],
        ''decide_orders'', STAFF),
     (''servers'', [128421, 32, 1587, 1585, 1608, 1585, 1607, 1575],
        ''manage_servers'', STAFF),
     (''catalog'', [128717, 32, 1705, 1575, 1578, 1575, 1604, 1608, 1711, 32, 1662, 1604, 1606],
        ''manage_catalog'', STAFF),
     (''resellers'', [128101, 32, 1606, 1605, 1575, 1740, 1606, 1583, 1711, 1575, 1606],
        ''manage_resellers'', STAFF),
     (''finance'', [128176, 32, 1605, 1585, 1705, 1586, 32, 1605, 1575, 1604, 1740],
        ''view_finance'', STAFF),
     (''approvals'', [9989, 32, 1578, 1571, 1740, 1740, 1583, 32, 1575, 1589, 1604, 1575, 1581, 1575, 1578],
        ''decide_adjustment'', STAFF),
     (''system'', [9881, 65039, 32, 1605, 1583, 1740, 1585, 1740, 1578, 32, 1587, 1740, 1587, 1578, 1605],
        ''view_audit'', STAFF),
     (''webapp'', [127760, 32, 1608, 1576, 8204, 1575, 1662],
        ''view_dashboard'', STAFF),
     (''transactions'', [128220, 32, 1578, 1585, 1575, 1705, 1606, 1588, 8204, 1607, 1575],
        ''view_finance'', STAFF),
     (''funding'', [128180, 32, 1583, 1585, 1582, 1608, 1575, 1587, 1578, 8204, 1607, 1575, 1740, 32, 1605, 1575, 1604, 1740],
        ''decide_funding'', STAFF),
     (''credit'', [10133, 32, 1583, 1585, 1582, 1608, 1575, 1587, 1578, 32, 1575, 1593, 1578, 1576, 1575, 1585],
        ''request_funding'', STAFF),
     (''new_reseller'', [10133, 32, 1606, 1605, 1575, 1740, 1606, 1583, 1607, 32, 1580, 1583, 1740, 1583],
        ''manage_resellers'', STAFF),
     (''new_order'', [10133, 32, 1587, 1601, 1575, 1585, 1588, 32, 1662, 1606, 1604],
        ''order_panel'', CUSTOMERS),
     (''my_orders'', [129534, 32, 1587, 1601, 1575, 1585, 1588, 8204, 1607, 1575, 1740, 32, 1605, 1606],
        ''order_panel'', CUSTOMERS),
     (''my_panel'', [128421, 32, 1662, 1606, 1604, 32, 1608, 32, 1605, 1588, 1578, 1585, 1705, 1575, 1606],
        ''view_dashboard'', CUSTOMERS),
     (''usage'', [128200, 32, 1605, 1589, 1585, 1601, 32, 1608, 32, 1578, 1585, 1575, 1705, 1606, 1588],
        ''view_finance'', CUSTOMERS),
     (''topup'', [128179, 32, 1583, 1585, 1582, 1608, 1575, 1587, 1578, 32, 1588, 1575, 1585, 1688],
        ''request_funding'', CUSTOMERS),
     (''my_webapp'', [127760, 32, 1662, 1606, 1604, 32, 1705, 1575, 1585, 1576, 1585, 1740],
        ''view_dashboard'', CUSTOMERS),
     (''support'', [128735, 32, 1662, 1588, 1578, 1740, 1576, 1575, 1606, 1740],
        ''create_support_ticket'', BOTH)]"

definition TOP :: "string \<Rightarrow> string list" where
  "TOP who = (if who = STAFF
     then [''dashboard'', ''orders'', ''servers'', ''catalog'', ''resellers'', ''finance'', ''approvals'', ''system'', ''support'', ''webapp'']
     else [''new_order'', ''my_orders'', ''my_panel'', ''usage'', ''topup'', ''support'', ''my_webapp''])"

definition section_label :: "string \<Rightarrow> chat_text option" where
  "section_label name = map_of (map (\<lambda>(n, text, p, a). (n, text)) SECTIONS) name"

definition SECTION_PERMISSION :: "string \<Rightarrow> string option" where
  "SECTION_PERMISSION name = map_of (map (\<lambda>(n, text, p, a). (n, p)) SECTIONS) name"

definition ALIASES :: "chat_text \<Rightarrow> string option" where
  "ALIASES v = map_of
     [(plain ''/dashboard'', ''dashboard''), (plain ''/servers'', ''servers''), (plain ''/support'', ''support''),
      (plain ''/resellers'', ''resellers''), (plain ''/finance'', ''finance''), (plain ''/orders'', ''orders''),
      (plain ''/menu'', ''menu'')] v"

definition audience_for :: "string \<Rightarrow> string" where
  "audience_for role = (if role = ''customer'' then CUSTOMERS else STAFF)"

definition sections_for :: "string \<Rightarrow> string list" where
  "sections_for role = map fst (filter (\<lambda>(n, text, p, a). (a = audience_for role \<or> a = BOTH) \<and> can (Some role) p) SECTIONS)"

definition top_for :: "string \<Rightarrow> string list" where
  "top_for role = filter (\<lambda>n. n \<in> set (sections_for role)) (TOP (audience_for role))"

definition label_to_section :: "chat_text \<Rightarrow> string option" where
  "label_to_section v = map_option fst (List.find (\<lambda>(n, text, p, a). text = v) SECTIONS)"

text \<open>Two buttons to a line.\<close>

fun by_two :: "'a list \<Rightarrow> 'a list list" where
  "by_two (x # y # xs) = [x, y] # by_two xs"
| "by_two [x] = [[x]]"
| "by_two [] = []"

text \<open>
  The label of a section on the keyboard: \<open>LABELS[name]\<close>, of a name that comes from the table.
\<close>

definition menu_for :: "string \<Rightarrow> chat_text list list" where
  "menu_for role = by_two (List.map_filter section_label (top_for role))"

section \<open>Buttons under a message\<close>

text \<open>
  What a button sends back. Its \<open>callback_data\<close> is the word of the call and its arguments, joined by
  bars; identifiers of rows travel as texts.
\<close>

datatype callback =
    Open_Section string
  | List_Nodes string
  | Node_Operation string string string
  | Decide_Funding string bool
  | Decide_Adjustment string bool
  | Set_Sale string bool
  | Toggle_Shelf string
  | Toggle_Plan string
  | New_Shelf
  | New_Plan
  | Select_Panel string
  | Select_Shelf string
  | Order_Plan string
  | Order_Panel string
  | List_Orders string
  | On_Order string string
  | Unknown_Call

fun join_bar :: "string list \<Rightarrow> string" where
  "join_bar [] = []"
| "join_bar [x] = x"
| "join_bar (x # xs) = x @ CHR ''|'' # join_bar xs"

fun split_bar :: "string \<Rightarrow> string list" where
  "split_bar [] = [[]]"
| "split_bar (c # cs) = (if c = CHR ''|'' then [] # split_bar cs
     else (case split_bar cs of [] \<Rightarrow> [[c]] | x # xs \<Rightarrow> (c # x) # xs))"

fun callback_data :: "callback \<Rightarrow> string" where
  "callback_data (Open_Section n) = join_bar [''section'', n]"
| "callback_data (List_Nodes p) = join_bar [''nodes'', p]"
| "callback_data (Node_Operation p n a) = join_bar [''node'', p, n, a]"
| "callback_data (Decide_Funding r ok) = join_bar [if ok then ''fundok'' else ''fundno'', r]"
| "callback_data (Decide_Adjustment r ok) = join_bar [''appr'', r, if ok then ''ok'' else ''no'']"
| "callback_data (Set_Sale p yes) = join_bar [''sale'', p, if yes then ''1'' else ''0'']"
| "callback_data (Toggle_Shelf c) = join_bar [''ctog'', c]"
| "callback_data (Toggle_Plan p) = join_bar [''ptog'', p]"
| "callback_data New_Shelf = ''catnew''"
| "callback_data New_Plan = ''plnew''"
| "callback_data (Select_Panel p) = join_bar [''plsel'', p]"
| "callback_data (Select_Shelf c) = join_bar [''plsh'', c]"
| "callback_data (Order_Plan p) = join_bar [''oplan'', p]"
| "callback_data (Order_Panel p) = join_bar [''onew'', p]"
| "callback_data (List_Orders st) = join_bar [''q'', st]"
| "callback_data (On_Order r a) = join_bar [''o'', r, a]"
| "callback_data Unknown_Call = []"

text \<open>The dispatch of \<open>handle_callback\<close>, in its order.\<close>

definition parse_callback :: "string \<Rightarrow> callback" where
  "parse_callback data = (let parts = split_bar data; word = parts ! 0; n = length parts in
     if word = ''section'' \<and> n = 2 then Open_Section (parts ! 1)
     else if word = ''nodes'' \<and> n = 2 then List_Nodes (parts ! 1)
     else if word = ''node'' \<and> n = 4 then Node_Operation (parts ! 1) (parts ! 2) (parts ! 3)
     else if (word = ''fundok'' \<or> word = ''fundno'') \<and> n = 2 then Decide_Funding (parts ! 1) (word = ''fundok'')
     else if word = ''appr'' \<and> n = 3 then Decide_Adjustment (parts ! 1) (parts ! 2 = ''ok'')
     else if word = ''sale'' \<and> n = 3 then Set_Sale (parts ! 1) (parts ! 2 = ''1'')
     else if word = ''ctog'' \<and> n = 2 then Toggle_Shelf (parts ! 1)
     else if word = ''ptog'' \<and> n = 2 then Toggle_Plan (parts ! 1)
     else if data = ''catnew'' then New_Shelf
     else if data = ''plnew'' then New_Plan
     else if word = ''plsel'' \<and> n = 2 then Select_Panel (parts ! 1)
     else if word = ''plsh'' \<and> n = 2 then Select_Shelf (parts ! 1)
     else if word = ''oplan'' \<and> n = 2 then Order_Plan (parts ! 1)
     else if word = ''onew'' \<and> n = 2 then Order_Panel (parts ! 1)
     else if word = ''q'' \<and> n = 2 then List_Orders (parts ! 1)
     else if word = ''o'' \<and> n = 3 then On_Order (parts ! 1) (parts ! 2)
     else Unknown_Call)"

text \<open>
  A keyboard: the reply keyboard of labels, or lines of buttons under a message, each of which calls
  back or opens the web application at an address.
\<close>

datatype button = Call callback | Web_App string

datatype markup = Reply_Keyboard "chat_text list list" | Inline_Keyboard "button list list"

definition section_menu :: "string \<Rightarrow> markup" where
  "section_menu role = Inline_Keyboard (map (map (\<lambda>n. Call (Open_Section n))) (by_two (sections_for role)) @
     [[Call (Open_Section ''menu'')]])"

definition back_button :: "string \<Rightarrow> markup" where
  "back_button target = Inline_Keyboard [[Call (Open_Section target)]]"

definition panel_button :: "string \<Rightarrow> markup option" where
  "panel_button url = (if url = [] then None else Some (Inline_Keyboard [[Web_App url]]))"

section \<open>The account behind a chat\<close>

record bot_context =
  cx_actor_id :: uid
  cx_organization_id :: uid
  cx_organization_name :: string
  cx_role :: string

text \<open>The two queries are those of \<open>optional_membership\<close>.\<close>

definition bot_context :: "string \<Rightarrow> int \<Rightarrow> db \<Rightarrow> (bot_context option, db) res" where
  "bot_context root_env chat s = (case optional_membership chat s of
     None \<Rightarrow> returned None s
   | Some (a, m, None) \<Rightarrow> raised (AttributeError ''id'') s
   | Some (a, m, Some org) \<Rightarrow> returned (Some \<lparr>cx_actor_id = act_id a, cx_organization_id = org_id org,
       cx_organization_name = org_name org, cx_role = effective_role root_env chat (Some (mem_role m))\<rparr>) s)"

definition require_context :: "string \<Rightarrow> int \<Rightarrow> db \<Rightarrow> (bot_context, db) res" where
  "require_context root_env chat s = bindr (bot_context root_env chat s) (\<lambda>c s.
     require_some c (PermissionError ''this section needs a linked account'') s)"

definition current_role :: "string \<Rightarrow> int \<Rightarrow> db \<Rightarrow> (string, db) res" where
  "current_role root_env chat s = bindr (bot_context root_env chat s) (\<lambda>c.
     returned (case c of None \<Rightarrow> ''customer'' | Some x \<Rightarrow> cx_role x))"

text \<open>\<open>raise PermissionError(denial_fa(permission))\<close>\<close>

definition refusal :: "string \<Rightarrow> error" where
  "refusal permission = PermissionError (''not permitted: '' @ permission)"

definition permitted_context :: "string \<Rightarrow> string \<Rightarrow> int \<Rightarrow> db \<Rightarrow> (bot_context, db) res" where
  "permitted_context permission root_env chat s = bindr (require_context root_env chat s) (\<lambda>c s.
     bindr (require (can (Some (cx_role c)) permission) (refusal permission) s) (\<lambda>_. returned c))"

text \<open>\<open>except HTTPException as exc: raise PermissionError(str(exc.detail))\<close>\<close>

definition as_permission :: "('a, 's) res \<Rightarrow> ('a, 's) res" where
  "as_permission m = (case m of (Inl (HTTPException n detail), s) \<Rightarrow> raised (PermissionError detail) s | _ \<Rightarrow> m)"

section \<open>Properties\<close>

lemma require_context_iff:
  "require_context root_env chat s = (Inr c, s') \<longleftrightarrow> bot_context root_env chat s = (Inr (Some c), s')"
  by (auto simp: require_context_def bindr_Inr_iff)

lemma permitted_context_iff:
  "permitted_context permission root_env chat s = (Inr c, s') \<longleftrightarrow>
     bot_context root_env chat s = (Inr (Some c), s') \<and> can (Some (cx_role c)) permission"
  by (auto simp: permitted_context_def bindr_Inr_iff require_context_iff)

lemma bot_context_reads: "snd (bot_context root_env chat s) = s"
  by (auto simp: bot_context_def split: option.split)

lemma require_context_reads: "snd (require_context root_env chat s) = s"
  by (auto simp: require_context_def require_some_def bindr_def bot_context_reads
      split: prod.split sum.split option.split intro: prod_eqI)
     (metis bot_context_reads snd_conv)+

lemma as_permission_Inr [simp]: "as_permission m = (Inr v, s') \<longleftrightarrow> m = (Inr v, s')"
  and snd_as_permission [simp]: "snd (as_permission m) = snd m"
  by (cases m; auto simp: as_permission_def split: sum.split error.split)+

text \<open>Each row of the table is found by its name and by its label.\<close>

lemma sections_checked:
  "list_all (\<lambda>(n, label, p, a). section_label n = Some label \<and> SECTION_PERMISSION n = Some p \<and>
     label_to_section label = Some n \<and> ALIASES label = None) SECTIONS"
  by (simp add: SECTIONS_def section_label_def SECTION_PERMISSION_def label_to_section_def ALIASES_def plain_def)

lemma section_row:
  assumes "name \<in> set (sections_for role)"
  obtains label p a where "(name, label, p, a) \<in> set SECTIONS" "a = audience_for role \<or> a = BOTH" "can (Some role) p"
    "section_label name = Some label" "SECTION_PERMISSION name = Some p" "label_to_section label = Some name"
    "ALIASES label = None"
proof -
  obtain label p a where "(name, label, p, a) \<in> set SECTIONS" "a = audience_for role \<or> a = BOTH" "can (Some role) p"
    using assms by (auto simp: sections_for_def)
  with sections_checked that show ?thesis by (fastforce simp: list_all_iff)
qed

lemma concat_by_two [simp]: "concat (by_two xs) = xs"
  by (induction xs rule: by_two.induct) auto

lemma split_bar_free: "CHR ''|'' \<notin> set x \<Longrightarrow> split_bar x = [x]"
  by (induction x) auto

lemma split_bar_more: "CHR ''|'' \<notin> set x \<Longrightarrow> split_bar (x @ CHR ''|'' # rest) = x # split_bar rest"
  by (induction x) auto

lemma split_join_bar:
  "xs \<noteq> [] \<Longrightarrow> list_all (\<lambda>x. CHR ''|'' \<notin> set x) xs \<Longrightarrow> split_bar (join_bar xs) = xs"
  by (induction xs rule: join_bar.induct) (auto simp: split_bar_free split_bar_more)

lemma join_bar_word: "CHR ''|'' \<notin> set w \<Longrightarrow> join_bar (x # y # xs) \<noteq> w"
  by auto

text \<open>The texts a call carries.\<close>

fun call_texts :: "callback \<Rightarrow> string list" where
  "call_texts (Node_Operation p n a) = [p, n, a]"
| "call_texts (On_Order r a) = [r, a]"
| "call_texts (Open_Section n) = [n]"
| "call_texts (List_Nodes n) = [n]"
| "call_texts (Decide_Funding n ok) = [n]"
| "call_texts (Decide_Adjustment n ok) = [n]"
| "call_texts (Set_Sale n yes) = [n]"
| "call_texts (Toggle_Shelf n) = [n]"
| "call_texts (Toggle_Plan n) = [n]"
| "call_texts (Select_Panel n) = [n]"
| "call_texts (Select_Shelf n) = [n]"
| "call_texts (Order_Plan n) = [n]"
| "call_texts (Order_Panel n) = [n]"
| "call_texts (List_Orders n) = [n]"
| "call_texts New_Shelf = []"
| "call_texts New_Plan = []"
| "call_texts Unknown_Call = []"

lemma callback_comes_back:
  "list_all (\<lambda>x. CHR ''|'' \<notin> set x) (call_texts c) \<Longrightarrow> parse_callback (callback_data c) = c"
  by (cases c) (simp_all add: parse_callback_def Let_def split_join_bar split_bar_free join_bar_word del: join_bar.simps)

lemma customer_sections:
  "sections_for ''customer'' = [''new_order'', ''my_orders'', ''my_panel'', ''usage'', ''topup'', ''my_webapp'', ''support'']"
  by (simp add: sections_for_def SECTIONS_def audience_for_def can_def permissions_for_def MATRIX_def CUSTOMER_def ORDER_def
      normalize_def ROLES_def)

lemma customer_top:
  "top_for ''customer'' = [''new_order'', ''my_orders'', ''my_panel'', ''usage'', ''topup'', ''support'', ''my_webapp'']"
  by (simp add: top_for_def customer_sections TOP_def audience_for_def)

text \<open>
  what the bot draws, it understands. Every label of the keyboard a role is given opens the section
  of that label, the section is one the role may open, its permission is granted to the role, and no
  command is typed like it; every button under a message comes back as the call it was drawn for, when
  the texts in it have no bar.
\<close>

theorem buttons_open_what_they_show:
  "(\<forall>label \<in> set (concat (menu_for role)). \<exists>name p. label_to_section label = Some name \<and> section_label name = Some label \<and>
      name \<in> set (sections_for role) \<and> SECTION_PERMISSION name = Some p \<and> can (Some role) p \<and> ALIASES label = None) \<and>
   (\<forall>c. list_all (\<lambda>x. CHR ''|'' \<notin> set x) (call_texts c) \<longrightarrow> parse_callback (callback_data c) = c)"
proof -
  have "\<exists>name p. label_to_section label = Some name \<and> section_label name = Some label \<and>
      name \<in> set (sections_for role) \<and> SECTION_PERMISSION name = Some p \<and> can (Some role) p \<and> ALIASES label = None"
    if shown: "label \<in> set (concat (menu_for role))" for label
  proof -
    obtain name where name: "name \<in> set (sections_for role)" "section_label name = Some label"
      using shown by (auto simp: menu_for_def top_for_def map_filter_def)
    with section_row [OF name(1)] show ?thesis by (metis option.inject)
  qed
  then show ?thesis using callback_comes_back by blast
qed

theorem buttons_open_what_they_show_witness:
  "concat (menu_for ''customer'') ! 1 = [129534, 32, 1587, 1601, 1575, 1585, 1588, 8204, 1607, 1575, 1740, 32, 1605, 1606] \<and>
   (\<exists>name. label_to_section (concat (menu_for ''customer'') ! 1) = Some name \<and> name \<in> set (sections_for ''customer'')) \<and>
   parse_callback ''o|7|confirm'' = On_Order ''7'' ''confirm''"
proof (intro conjI)
  let ?t = "concat (menu_for ''customer'') ! 1"
  show label: "?t = [129534, 32, 1587, 1601, 1575, 1585, 1588, 8204, 1607, 1575, 1740, 32, 1605, 1606]"
    by (simp add: menu_for_def customer_top map_filter_def SECTIONS_def section_label_def)
  have "?t \<in> set (concat (menu_for ''customer''))"
    by (simp add: menu_for_def customer_top map_filter_def SECTIONS_def section_label_def)
  with buttons_open_what_they_show [of "''customer''"]
  show "\<exists>name. label_to_section ?t = Some name \<and> name \<in> set (sections_for ''customer'')" by blast
  have "list_all (\<lambda>x. CHR ''|'' \<notin> set x) (call_texts (On_Order ''7'' ''confirm''))" by simp
  with buttons_open_what_they_show [of "''customer''"]
  have "parse_callback (callback_data (On_Order ''7'' ''confirm'')) = On_Order ''7'' ''confirm''" by blast
  then show "parse_callback ''o|7|confirm'' = On_Order ''7'' ''confirm''" by simp
qed

end
