(* ===== verification/Pasarguard.thy ===== *)
theory Pasarguard
  imports Access
begin

text \<open>
  How the control plane speaks to a panel: the stored credentials (\<open>secrets.py\<close>), the HTTP client
  (\<open>pasarguard.py\<close>) and the client of a stored panel (\<open>panel_client\<close> of \<open>web_api.py\<close>). The HTTP transport,
  the Fernet cipher and the environment are parameters.
\<close>

section \<open>Stored secrets\<close>

definition PREFIX :: string where
  "PREFIX = ''enc://''"

text \<open>The cipher works under a key derived from the master key, which has to be long enough.\<close>

definition fernet :: "string \<Rightarrow> error + string" where
  "fernet master = (if length master < 32
     then Inl (RuntimeError ''APP_ENCRYPTION_KEY must contain at least 32 characters'') else Inr master)"

definition encrypt_secret :: "(string \<Rightarrow> string \<Rightarrow> string) \<Rightarrow> string \<Rightarrow> string option \<Rightarrow> error + string option" where
  "encrypt_secret encrypt master v = (case v of
     None \<Rightarrow> Inr None
   | Some t \<Rightarrow> if t = [] then Inr None
       else (case fernet master of Inl e \<Rightarrow> Inl e | Inr k \<Rightarrow> Inr (Some (PREFIX @ encrypt k t))))"

definition resolve_secret ::
  "(string \<Rightarrow> string \<Rightarrow> string option) \<Rightarrow> string \<Rightarrow> (string \<Rightarrow> string) \<Rightarrow> string option \<Rightarrow> error + string option"
where
  "resolve_secret decrypt master getenv reference = (case reference of
     None \<Rightarrow> Inr None
   | Some t \<Rightarrow>
       if t = [] then Inr None
       else if take 6 t = ''env://''
       then (let v = getenv (drop 6 t) in
         if v = [] then Inl (RuntimeError (''missing secret environment variable: '' @ drop 6 t)) else Inr (Some v))
       else if take (length PREFIX) t = PREFIX
       then (case fernet master of
           Inl e \<Rightarrow> Inl e
         | Inr k \<Rightarrow> (case decrypt k (drop (length PREFIX) t) of
             None \<Rightarrow> Inl (RuntimeError ''encrypted secret cannot be decrypted'')
           | Some v \<Rightarrow> Inr (Some v)))
       else Inl (RuntimeError ''unsupported secret reference''))"

section \<open>The client\<close>

definition node_path :: "int \<Rightarrow> string \<Rightarrow> string" where
  "node_path node_id operation = ''/api/node/by-id/'' @ pystr node_id @ operation"

definition user_path :: "int \<Rightarrow> string \<Rightarrow> string" where
  "user_path i operation = ''/api/user/by-id/'' @ pystr i @ operation"

definition admin_path :: "int \<Rightarrow> string \<Rightarrow> string" where
  "admin_path i operation = ''/api/admin/by-id/'' @ pystr i @ operation"

record client =
  cl_base_url :: string
  cl_api_key :: "string option"
  cl_owner_username :: "string option"
  cl_owner_password :: "string option"
  cl_verify_tls :: bool

text \<open>What goes over the wire. \<open>rq_form\<close> is the form of the token request.\<close>

datatype credential = Anonymous | ApiKey string | Bearer string

record http_request =
  rq_method :: string
  rq_path :: string
  rq_credential :: credential
  rq_params :: "(string \<times> json) list"
  rq_form :: "(string \<times> string option) list"
  rq_json :: "json option"

datatype http_body = Empty | Garbled | Body json

record http_reply =
  rp_status :: int
  rp_body :: http_body

text \<open>The transport: base URL, whether certificates are verified, and the request; \<open>None\<close> when it fails.\<close>

type_synonym transport = "string \<Rightarrow> bool \<Rightarrow> http_request \<Rightarrow> http_reply option"

text \<open>An answer that is not a success raises its status; any other exception is \<open>Unreachable\<close>.\<close>

definition and_then :: "'a answer \<Rightarrow> ('a \<Rightarrow> 'b answer) \<Rightarrow> 'b answer" where
  "and_then x f = (case x of Answer v \<Rightarrow> f v | Status n \<Rightarrow> Status n | Unreachable \<Rightarrow> Unreachable)"

definition checked :: "http_reply option \<Rightarrow> http_body answer" where
  "checked r = (case r of None \<Rightarrow> Unreachable
     | Some p \<Rightarrow> if 200 \<le> rp_status p \<and> rp_status p < 300 then Answer (rp_body p) else Status (rp_status p))"

definition send_request :: "transport \<Rightarrow> client \<Rightarrow> http_request \<Rightarrow> http_body answer" where
  "send_request http c rq = checked (http (rstrip_slash (cl_base_url c)) (cl_verify_tls c) rq)"

definition owner_token :: "transport \<Rightarrow> client \<Rightarrow> string answer" where
  "owner_token http c = and_then (send_request http c \<lparr>rq_method = ''POST'', rq_path = ''/api/admin/token'',
       rq_credential = Anonymous, rq_params = [],
       rq_form = [(''username'', cl_owner_username c), (''password'', cl_owner_password c)], rq_json = None\<rparr>)
     (\<lambda>b. case b of
        Body (JObj fs) \<Rightarrow> (case field ''access_token'' fs of Some (JStr t) \<Rightarrow> Answer t | _ \<Rightarrow> Unreachable)
      | _ \<Rightarrow> Unreachable)"

definition credential :: "transport \<Rightarrow> client \<Rightarrow> bool \<Rightarrow> credential answer" where
  "credential http c owner = (if owner then and_then (owner_token http c) (\<lambda>t. Answer (Bearer t))
     else if truthy (cl_api_key c) then Answer (ApiKey (the (cl_api_key c))) else Unreachable)"

definition call ::
  "transport \<Rightarrow> client \<Rightarrow> string \<Rightarrow> string \<Rightarrow> bool \<Rightarrow> json option \<Rightarrow> (string \<times> json) list \<Rightarrow> json answer" where
  "call http c method path owner payload params = and_then (credential http c owner) (\<lambda>cred.
     and_then (send_request http c \<lparr>rq_method = method, rq_path = path, rq_credential = cred, rq_params = params,
         rq_form = [], rq_json = payload\<rparr>)
       (\<lambda>b. case b of Empty \<Rightarrow> Answer (JObj []) | Garbled \<Rightarrow> Unreachable | Body v \<Rightarrow> Answer v))"

definition pg_admins :: "transport \<Rightarrow> client \<Rightarrow> json answer" where
  "pg_admins http c = call http c ''GET'' ''/api/admins'' False None []"

definition create_admin :: "transport \<Rightarrow> client \<Rightarrow> json \<Rightarrow> json answer" where
  "create_admin http c payload = call http c ''POST'' ''/api/admin'' True (Some payload) []"

definition pg_modify_admin :: "transport \<Rightarrow> client \<Rightarrow> int \<Rightarrow> json \<Rightarrow> json answer" where
  "pg_modify_admin http c i payload = call http c ''PUT'' (admin_path i []) True (Some payload) []"

definition disable_admin_users :: "transport \<Rightarrow> client \<Rightarrow> int \<Rightarrow> json answer" where
  "disable_admin_users http c i = call http c ''POST'' (admin_path i ''/users/disable'') True None []"

definition enable_admin_users :: "transport \<Rightarrow> client \<Rightarrow> int \<Rightarrow> json answer" where
  "enable_admin_users http c i = call http c ''POST'' (admin_path i ''/users/enable'') True None []"

definition set_admin_limit :: "transport \<Rightarrow> client \<Rightarrow> int \<Rightarrow> int \<Rightarrow> json answer" where
  "set_admin_limit http c i n = (if n < 0 then Unreachable
     else pg_modify_admin http c i (JObj [(''limit_use_in_bytes'', JInt n)]))"

definition pg_nodes :: "transport \<Rightarrow> client \<Rightarrow> json answer" where
  "pg_nodes http c = call http c ''GET'' ''/api/nodes'' False None []"

definition node_status :: "transport \<Rightarrow> client \<Rightarrow> int \<Rightarrow> json answer" where
  "node_status http c i = call http c ''GET'' (''/api/node/status/'' @ pystr i) False None []"

definition reconnect_node :: "transport \<Rightarrow> client \<Rightarrow> int \<Rightarrow> json answer" where
  "reconnect_node http c i = call http c ''POST'' (''/api/node/'' @ pystr i @ ''/reconnect'') False None []"

definition set_node_enabled :: "transport \<Rightarrow> client \<Rightarrow> int \<Rightarrow> bool \<Rightarrow> json answer" where
  "set_node_enabled http c i enabled = call http c ''PUT'' (node_path i (if enabled then ''/enable'' else ''/disable'')) True None []"

definition reset_node :: "transport \<Rightarrow> client \<Rightarrow> int \<Rightarrow> json answer" where
  "reset_node http c i = call http c ''POST'' (node_path i ''/reset'') True None []"

definition pg_users :: "transport \<Rightarrow> client \<Rightarrow> int option \<Rightarrow> int \<Rightarrow> int \<Rightarrow> json answer" where
  "pg_users http c admin offset limit = call http c ''GET'' ''/api/users'' False None
     ([(''offset'', JInt offset), (''limit'', JInt limit)] @
      (case admin of None \<Rightarrow> [] | Some i \<Rightarrow> [(''admin_id'', JInt i)]))"

definition pg_user :: "transport \<Rightarrow> client \<Rightarrow> int \<Rightarrow> json answer" where
  "pg_user http c i = call http c ''GET'' (user_path i []) False None []"

definition set_user_enabled :: "transport \<Rightarrow> client \<Rightarrow> int \<Rightarrow> bool \<Rightarrow> json answer" where
  "set_user_enabled http c i enabled = call http c ''PUT'' (user_path i (if enabled then ''/enable'' else ''/disable'')) True None []"

definition reset_user_data :: "transport \<Rightarrow> client \<Rightarrow> int \<Rightarrow> json answer" where
  "reset_user_data http c i = call http c ''POST'' (user_path i ''/reset-data'') True None []"

section \<open>The client of a stored panel\<close>

text \<open>What lies outside the process: the transport, the cipher and the environment variables.\<close>

record upstream =
  up_http :: transport
  up_encrypt :: "string \<Rightarrow> string \<Rightarrow> string"
  up_decrypt :: "string \<Rightarrow> string \<Rightarrow> string option"
  up_getenv :: "string \<Rightarrow> string"

definition secret :: "upstream \<Rightarrow> string option \<Rightarrow> error + string option" where
  "secret up = resolve_secret (up_decrypt up) (up_getenv up ''APP_ENCRYPTION_KEY'') (up_getenv up)"

definition panel_client :: "upstream \<Rightarrow> panel \<Rightarrow> error + client" where
  "panel_client up p = (if pan_vendor p \<notin> set SUPPORTED_VENDORS then Inl (HTTPException 422 (pan_vendor p))
     else case (secret up (pan_api_key_ref p), secret up (pan_owner_user_ref p), secret up (pan_owner_pass_ref p)) of
       (Inr k, Inr u, Inr w) \<Rightarrow> Inr \<lparr>cl_base_url = pan_base_url p, cl_api_key = k, cl_owner_username = u,
         cl_owner_password = w, cl_verify_tls = pan_verify_tls p\<rparr>
     | (Inl e, _, _) \<Rightarrow> Inl e
     | (_, Inl e, _) \<Rightarrow> Inl e
     | (_, _, Inl e) \<Rightarrow> Inl e)"

text \<open>A call on the client of a panel, for \<open>panel_operation\<close>: a client that cannot be built raises.\<close>

definition via :: "upstream \<Rightarrow> (transport \<Rightarrow> client \<Rightarrow> 'a answer) \<Rightarrow> panel \<Rightarrow> 'a answer" where
  "via up f p = (case panel_client up p of Inl e \<Rightarrow> Unreachable | Inr c \<Rightarrow> f (up_http up) c)"

section \<open>Where requests go\<close>

text \<open>
  Two transports that answer alike at the base URL of a client make no difference to a call on it; and
  reading calls only depend on the answers to \<open>GET\<close> requests.
\<close>

definition alike :: "(http_request \<Rightarrow> bool) \<Rightarrow> string \<Rightarrow> transport \<Rightarrow> transport \<Rightarrow> bool" where
  "alike sent url h h' \<longleftrightarrow> (\<forall>v rq. sent rq \<longrightarrow> h (rstrip_slash url) v rq = h' (rstrip_slash url) v rq)"

lemma send_alike:
  "alike sent (cl_base_url c) h h' \<Longrightarrow> sent rq \<Longrightarrow> send_request h c rq = send_request h' c rq"
  by (simp add: send_request_def alike_def)

lemma call_alike:
  assumes "alike sent (cl_base_url c) h h'"
    and "\<And>cred. sent \<lparr>rq_method = method, rq_path = path, rq_credential = cred, rq_params = params, rq_form = [], rq_json = payload\<rparr>"
    and "owner \<Longrightarrow> (\<And>rq. sent rq)"
  shows "call h c method path owner payload params = call h' c method path owner payload params"
proof -
  have "owner_token h c = owner_token h' c" if owner
    unfolding owner_token_def using send_alike [OF assms(1)] assms(3) [OF that] by simp
  then have "credential h c owner = credential h' c owner" by (simp add: credential_def)
  then show ?thesis unfolding call_def by (simp add: send_alike [OF assms(1) assms(2)])
qed

lemmas client_defs = pg_nodes_def reconnect_node_def node_status_def reset_node_def set_node_enabled_def pg_users_def
  pg_user_def reset_user_data_def set_user_enabled_def set_admin_limit_def pg_modify_admin_def

lemma via_alike:
  assumes "alike sent (pan_base_url p) h (up_http up)"
    and "\<And>c. alike sent (cl_base_url c) h (up_http up) \<Longrightarrow> f h c = f (up_http up) c"
  shows "via (up\<lparr>up_http := h\<rparr>) f p = via up f p"
proof -
  have client: "panel_client (up\<lparr>up_http := h\<rparr>) p = panel_client up p"
    unfolding panel_client_def secret_def by simp
  show ?thesis
  proof (cases "panel_client up p")
    case (Inr c)
    then have "cl_base_url c = pan_base_url p"
      by (auto simp: panel_client_def split: if_splits sum.splits)
    with assms have "f h c = f (up_http up) c" by simp
    with Inr client show ?thesis by (simp add: via_def)
  qed (simp add: via_def client)
qed

section \<open>What holds\<close>

text \<open>
  C29: secrets survive storage. A non-empty secret is stored exactly when the master key has at least 32
  characters, as the tag of encrypted secrets followed by what the cipher makes of it under that key; a missing or
  empty secret is stored as nothing. If the cipher decrypts what it encrypted, what was stored resolves to the
  secret again. Under a short key storing a non-empty secret and resolving any encrypted reference fail, whatever
  the cipher does; a reference to an environment variable is resolved whatever the key is, and fails when the
  variable is unset or empty.
\<close>

theorem secrets_survive_storage:
  "(case encrypt_secret encrypt master v of
      Inr kept \<Rightarrow> (truthy v \<longrightarrow> 32 \<le> length master) \<and>
        kept = (if truthy v then Some (PREFIX @ encrypt master (the v)) else None) \<and>
        ((\<forall>k t. decrypt k (encrypt k t) = Some t) \<longrightarrow>
           resolve_secret decrypt master getenv kept = Inr (if truthy v then v else None))
    | Inl e \<Rightarrow> truthy v \<and> length master < 32) \<and>
   (length master < 32 \<longrightarrow> (\<forall>c. \<exists>e. resolve_secret decrypt master getenv (Some (PREFIX @ c)) = Inl e)) \<and>
   (\<forall>variable. resolve_secret decrypt master getenv (Some (''env://'' @ variable)) =
      (if getenv variable = [] then Inl (RuntimeError (''missing secret environment variable: '' @ variable))
       else Inr (Some (getenv variable))))"
  by (auto simp: encrypt_secret_def resolve_secret_def fernet_def truthy_def PREFIX_def Let_def split: option.split)

end
