(* ===== verification/Panels.thy ===== *)
theory Panels
  imports Funding Pasarguard
begin

text \<open>
  The views of the web app (\<open>web_session\<close> to \<open>web_transactions\<close>) and the routes that operate on a panel
  (\<open>web_panels\<close> to \<open>web_set_usage_coefficient\<close>) of \<open>web_api.py\<close>. A route that talks to a panel is audited
  in the same session; the panel itself is behind the transport of \<open>Pasarguard\<close>.
\<close>

section \<open>Views\<close>

datatype session_view =
    Needs_Setup int
  | Session string string uid string \<comment> \<open>actor name, role, organization id and name\<close>

definition web_session :: "string \<Rightarrow> identity \<Rightarrow> db \<Rightarrow> (session_view, db) res" where
  "web_session root_env ident s = (case optional_membership (user_id ident) s of
     None \<Rightarrow> returned (Needs_Setup (user_id ident)) s
   | Some (a, m, org) \<Rightarrow> (case org of
       None \<Rightarrow> raised (AttributeError ''id'') s
     | Some org \<Rightarrow> returned (Session (act_display_name a)
         (effective_role root_env (user_id ident) (Some (mem_role m))) (org_id org) (org_name org)) s))"

record capabilities =
  cap_role :: string
  cap_is_system_admin :: bool
  cap_area :: string
  cap_organization_id :: uid
  cap_permissions :: "(string \<times> bool) list"

definition web_capabilities :: "string \<Rightarrow> identity \<Rightarrow> db \<Rightarrow> (capabilities, db) res" where
  "web_capabilities root_env ident s = bindr (membership_for root_env (user_id ident) s) (\<lambda>(a, m, org) s.
     let role = effective_role root_env (user_id ident) (Some (mem_role m))
     in returned \<lparr>cap_role = role, cap_is_system_admin = (role = ''system_admin''),
          cap_area = (if role = ''customer'' then ''customer'' else ''staff''), cap_organization_id = org_id org,
          cap_permissions = permission_payload role\<rparr> s)"

record dashboard =
  da_actor :: string
  da_role :: string
  da_organization :: organization
  da_balance_irr :: int
  da_available_irr :: int
  da_lifetime_bytes :: int
  da_observed_at :: "int option"
  da_children_count :: nat
  da_permissions :: "(string \<times> bool) list"

abbreviation binding_of :: "db \<Rightarrow> uid \<Rightarrow> binding option" where
  "binding_of s w \<equiv> List.find (\<lambda>b. bnd_organization_id b = w) (bindings s)"

abbreviation get_checkpoint :: "db \<Rightarrow> uid \<Rightarrow> checkpoint option" where
  "get_checkpoint s i \<equiv> lookup chk_binding_id i (checkpoints s)"

definition web_dashboard :: "string \<Rightarrow> identity \<Rightarrow> db \<Rightarrow> (dashboard, db) res" where
  "web_dashboard root_env ident s = bindr (membership_for root_env (user_id ident) s) (\<lambda>(a, m, org) s.
     let role = effective_role root_env (user_id ident) (Some (mem_role m));
         wallet = fst (balance (Org (org_id org)) s);
         cp = Option.bind (binding_of s (org_id org)) (\<lambda>b. get_checkpoint s (bnd_id b))
     in returned \<lparr>da_actor = act_display_name a, da_role = role, da_organization = org, da_balance_irr = wallet,
          da_available_irr = wallet + org_credit_limit_irr org,
          da_lifetime_bytes = (case cp of None \<Rightarrow> 0 | Some c \<Rightarrow> chk_lifetime_bytes c),
          da_observed_at = map_option chk_observed_at cp,
          da_children_count = count (\<lambda>r. org_parent_id r = Some (org_id org)) (organizations s),
          da_permissions = permission_payload role\<rparr> s)"

text \<open>Each child with its balance.\<close>

definition web_children :: "string \<Rightarrow> identity \<Rightarrow> db \<Rightarrow> ((organization \<times> int) list, db) res" where
  "web_children root_env ident s = bindr (membership_for root_env (user_id ident) s) (\<lambda>(a, m, org) s.
     returned (map (\<lambda>x. (x, fst (balance (Org (org_id x)) s)))
       (take 100 (sort_key (\<lambda>x. - org_created_at x)
         (filter (\<lambda>x. org_parent_id x = Some (org_id org)) (organizations s))))) s)"

definition web_transactions :: "string \<Rightarrow> identity \<Rightarrow> db \<Rightarrow> ((transaction \<times> entry) list, db) res" where
  "web_transactions root_env ident s = bindr (membership_for root_env (user_id ident) s) (\<lambda>(a, m, org) s.
     let w = acc_id (fst (account (Org (org_id org)) s))
     in returned (take 50 (concat (map (\<lambda>tx. map (Pair tx) (filter (\<lambda>e. en_account_id e = w) (tx_entries tx)))
          (sort_key (\<lambda>tx. - tx_created_at tx) (transactions s))))) s)"

section \<open>Panel routes\<close>

text \<open>\<open>_unwrap\<close>: a list, or the list under the key of an object. Anything else truthy has no \<open>get\<close>.\<close>

definition unwrap :: "json \<Rightarrow> string \<Rightarrow> error + json list" where
  "unwrap result key = (case result of
     JList xs \<Rightarrow> Inr xs
   | JObj fs \<Rightarrow> Inr (case field key fs of Some (JList xs) \<Rightarrow> xs | _ \<Rightarrow> [])
   | _ \<Rightarrow> if result \<in> {JNull, JBool False, JInt 0, JStr []} then Inr [] else Inl (AttributeError ''get''))"

text \<open>
  The shape of these routes: the guard, the panel - owned or accessible - and what the route does with it,
  in one session.
\<close>

definition panel_route ::
  "string \<Rightarrow> identity \<Rightarrow> string \<Rightarrow> (uid \<Rightarrow> uid \<Rightarrow> db \<Rightarrow> (panel, db) res) \<Rightarrow> uid \<Rightarrow>
    (actor \<Rightarrow> organization \<Rightarrow> panel \<Rightarrow> session \<Rightarrow> ('a, session) res) \<Rightarrow> db \<Rightarrow> ('a, db) res"
where
  "panel_route root_env ident permission access panel_id body = request (\<lambda>S.
     bindr (in_session (manager root_env (user_id ident) permission) S) (\<lambda>(a, m, org) S.
     bindr (in_session (access panel_id (org_id org)) S) (\<lambda>p S. body a org p S)))"

definition web_panels :: "string \<Rightarrow> identity \<Rightarrow> db \<Rightarrow> (panel list, db) res" where
  "web_panels root_env ident s = bindr (manager root_env (user_id ident) ''manage_servers'' s) (\<lambda>(a, m, org) s.
     returned (sort_key pan_name (filter (\<lambda>p. panel_is_mine s (pan_id p) (org_id org)) (panels s))) s)"

definition web_panel_nodes :: "upstream \<Rightarrow> string \<Rightarrow> int \<Rightarrow> uid \<Rightarrow> identity \<Rightarrow> db \<Rightarrow> (uid \<times> json list, db) res" where
  "web_panel_nodes up root_env now panel_id ident = panel_route root_env ident ''manage_servers'' owned_panel panel_id
     (\<lambda>a org p S. bindr (panel_operation now (via up pg_nodes) p (org_id org) ''panel.nodes.read'' None [] S) (\<lambda>v S.
        case unwrap v ''nodes'' of Inl e \<Rightarrow> raised e S | Inr xs \<Rightarrow> returned (pan_id p, xs) S))"

definition web_reconnect_node :: "upstream \<Rightarrow> string \<Rightarrow> int \<Rightarrow> uid \<Rightarrow> int \<Rightarrow> identity \<Rightarrow> db \<Rightarrow> (json, db) res" where
  "web_reconnect_node up root_env now panel_id node_id ident = panel_route root_env ident ''node_control'' owned_panel panel_id
     (\<lambda>a org p. panel_operation now (via up (\<lambda>h c. reconnect_node h c node_id)) p (org_id org) ''node.reconnect''
        (Some (act_id a)) [(''node_id'', JInt node_id)])"

definition web_node_status :: "upstream \<Rightarrow> string \<Rightarrow> int \<Rightarrow> uid \<Rightarrow> int \<Rightarrow> identity \<Rightarrow> db \<Rightarrow> (json, db) res" where
  "web_node_status up root_env now panel_id node_id ident = panel_route root_env ident ''node_control'' owned_panel panel_id
     (\<lambda>a org p. panel_operation now (via up (\<lambda>h c. node_status h c node_id)) p (org_id org) ''node.status.read'' None [])"

definition web_reset_node :: "upstream \<Rightarrow> string \<Rightarrow> int \<Rightarrow> uid \<Rightarrow> int \<Rightarrow> identity \<Rightarrow> db \<Rightarrow> (json, db) res" where
  "web_reset_node up root_env now panel_id node_id ident = panel_route root_env ident ''node_control'' owned_panel panel_id
     (\<lambda>a org p. panel_operation now (via up (\<lambda>h c. reset_node h c node_id)) p (org_id org) ''node.reset''
        (Some (act_id a)) [(''node_id'', JInt node_id)])"

text \<open>The path parameter is read after the panel was found.\<close>

definition with_flag :: "string \<Rightarrow> (bool \<Rightarrow> 's \<Rightarrow> ('a, 's) res) \<Rightarrow> 's \<Rightarrow> (bool \<times> 'a, 's) res" where
  "with_flag enabled f S = (case enabled_flag enabled of
     Inl e \<Rightarrow> raised e S
   | Inr flag \<Rightarrow> bindr (f flag S) (\<lambda>v. returned (flag, v)))"

definition web_set_node_enabled ::
  "upstream \<Rightarrow> string \<Rightarrow> int \<Rightarrow> uid \<Rightarrow> int \<Rightarrow> string \<Rightarrow> identity \<Rightarrow> db \<Rightarrow> (bool \<times> json, db) res" where
  "web_set_node_enabled up root_env now panel_id node_id enabled ident =
     panel_route root_env ident ''node_control'' owned_panel panel_id (\<lambda>a org p. with_flag enabled (\<lambda>flag.
       panel_operation now (via up (\<lambda>h c. set_node_enabled h c node_id flag)) p (org_id org)
         (if flag then ''node.enable'' else ''node.disable'') (Some (act_id a)) [(''node_id'', JInt node_id)]))"

record my_panel_view =
  mp_panel :: panel
  mp_admin_username :: string
  mp_lifetime_bytes :: int
  mp_observed_at :: "int option"

definition web_my_panel :: "string \<Rightarrow> identity \<Rightarrow> db \<Rightarrow> (my_panel_view, db) res" where
  "web_my_panel root_env ident s = bindr (manager root_env (user_id ident) ''subscriber_control'' s) (\<lambda>(a, m, org) s.
     bindr (require_some (binding_of s (org_id org)) (HTTPException 404 ''no panel is bound to this account yet'') s) (\<lambda>b s.
     bindr (require_some (get_panel s (bnd_panel_id b)) (AttributeError ''id'') s) (\<lambda>p s.
       let cp = get_checkpoint s (bnd_id b)
       in returned \<lparr>mp_panel = p, mp_admin_username = bnd_username b,
            mp_lifetime_bytes = (case cp of None \<Rightarrow> 0 | Some c \<Rightarrow> chk_lifetime_bytes c),
            mp_observed_at = map_option chk_observed_at cp\<rparr> s)))"

record users_view =
  us_panel_id :: uid
  us_admin_id :: int
  us_offset :: int
  us_limit :: int
  us_users :: "json list"
  us_total :: "json option"

definition web_panel_users ::
  "upstream \<Rightarrow> string \<Rightarrow> int \<Rightarrow> uid \<Rightarrow> int \<Rightarrow> int \<Rightarrow> identity \<Rightarrow> db \<Rightarrow> (users_view, db) res" where
  "web_panel_users up root_env now panel_id offset limit ident =
     panel_route root_env ident ''subscriber_control'' accessible_panel panel_id (\<lambda>a org p S.
       bindr (in_session (org_binding (org_id org) (pan_id p)) S) (\<lambda>b S.
       bindr (require (\<not> (limit < 1 \<or> limit > 200)) (HTTPException 422 ''limit must be between 1 and 200'') S) (\<lambda>_ S.
       bindr (panel_operation now (via up (\<lambda>h c. pg_users h c (Some (bnd_pg_admin_id b)) offset limit)) p (org_id org)
           ''user.list'' None [] S) (\<lambda>v S.
         case unwrap v ''users'' of
           Inl e \<Rightarrow> raised e S
         | Inr xs \<Rightarrow> returned \<lparr>us_panel_id = pan_id p, us_admin_id = bnd_pg_admin_id b, us_offset = offset,
             us_limit = limit, us_users = xs,
             us_total = (case v of JObj fs \<Rightarrow> field ''total'' fs | _ \<Rightarrow> None)\<rparr> S))))"

text \<open>A buyer may only touch the subscribers of its own binding; the owner of the server any.\<close>

definition subscriber_guard ::
  "upstream \<Rightarrow> int \<Rightarrow> actor \<Rightarrow> organization \<Rightarrow> panel \<Rightarrow> int \<Rightarrow> session \<Rightarrow> (unit, session) res" where
  "subscriber_guard up now a org p subscriber S =
    (if panel_is_mine (current S) (pan_id p) (org_id org) then returned () S
     else bindr (in_session (org_binding (org_id org) (pan_id p)) S) (\<lambda>b.
       assert_bound_subscriber now (\<lambda>p i. via up (\<lambda>h c. pg_user h c i) p) p (org_id org) b subscriber (Some (act_id a))))"

definition web_reset_user_data :: "upstream \<Rightarrow> string \<Rightarrow> int \<Rightarrow> uid \<Rightarrow> int \<Rightarrow> identity \<Rightarrow> db \<Rightarrow> (json, db) res" where
  "web_reset_user_data up root_env now panel_id subscriber ident =
     panel_route root_env ident ''subscriber_control'' accessible_panel panel_id (\<lambda>a org p S.
       bindr (subscriber_guard up now a org p subscriber S) (\<lambda>_.
         panel_operation now (via up (\<lambda>h c. reset_user_data h c subscriber)) p (org_id org) ''user.reset_data''
           (Some (act_id a)) [(''user_id'', JInt subscriber)]))"

definition web_set_user_enabled ::
  "upstream \<Rightarrow> string \<Rightarrow> int \<Rightarrow> uid \<Rightarrow> int \<Rightarrow> string \<Rightarrow> identity \<Rightarrow> db \<Rightarrow> (bool \<times> json, db) res" where
  "web_set_user_enabled up root_env now panel_id subscriber enabled ident =
     panel_route root_env ident ''subscriber_control'' accessible_panel panel_id (\<lambda>a org p. with_flag enabled (\<lambda>flag S.
       bindr (subscriber_guard up now a org p subscriber S) (\<lambda>_.
         panel_operation now (via up (\<lambda>h c. set_user_enabled h c subscriber flag)) p (org_id org)
           (if flag then ''user.enable'' else ''user.disable'') (Some (act_id a)) [(''user_id'', JInt subscriber)])))"

definition web_set_admin_limit :: "upstream \<Rightarrow> string \<Rightarrow> int \<Rightarrow> uid \<Rightarrow> int \<Rightarrow> identity \<Rightarrow> db \<Rightarrow> (json, db) res" where
  "web_set_admin_limit up root_env now panel_id n ident =
     panel_route root_env ident ''admin_limit'' owned_panel panel_id (\<lambda>a org p S.
       bindr (in_session (org_binding (org_id org) (pan_id p)) S) (\<lambda>b.
         panel_operation now (via up (\<lambda>h c. set_admin_limit h c (bnd_pg_admin_id b) n)) p (org_id org) ''admin.limit''
           (Some (act_id a)) [(''pg_admin_id'', JInt (bnd_pg_admin_id b)), (''limit_use_in_bytes'', JInt n)]))"

definition set_coefficient :: "uid \<Rightarrow> rat \<Rightarrow> db \<Rightarrow> db" where
  "set_coefficient i c s = s\<lparr>panels := modify pan_id i (\<lambda>p. p\<lparr>pan_usage_coefficient := numeric4 c\<rparr>) (panels s)\<rparr>"

text \<open>The value returned is read back from the database.\<close>

definition web_set_usage_coefficient ::
  "string \<Rightarrow> int \<Rightarrow> uid \<Rightarrow> rat \<Rightarrow> identity \<Rightarrow> db \<Rightarrow> (uid \<times> rat, db) res" where
  "web_set_usage_coefficient root_env now panel_id coefficient ident =
     panel_route root_env ident ''change_billing_coefficient'' owned_panel panel_id (\<lambda>a org p S.
       bindr (require (coefficient_ok coefficient) (IntegrityError ''panels'') S) (\<lambda>_ S.
         returned (pan_id p, numeric4 coefficient) (commit (S\<lparr>current := audit now ''panel.coefficient'' ''panel'' (Some (pan_id p))
           (Some (act_id a)) (Some (org_id org)) [(''usage_coefficient'', JDecimal coefficient)]
           (set_coefficient (pan_id p) coefficient (current S))\<rparr>))))"

section \<open>Registering a panel\<close>

record web_panel_in =
  wp_name :: string
  wp_base_url :: string
  wp_api_key :: string
  wp_owner_username :: "string option"
  wp_owner_password :: "string option"
  wp_pg_admin_id :: "int option"
  wp_admin_username :: "string option"
  wp_usage_coefficient :: rat
  wp_verify_tls :: bool

definition sealed :: "upstream \<Rightarrow> string option \<Rightarrow> 's \<Rightarrow> (string option, 's) res" where
  "sealed up v s = (case encrypt_secret (up_encrypt up) (up_getenv up ''APP_ENCRYPTION_KEY'') v of
     Inl e \<Rightarrow> raised e s | Inr r \<Rightarrow> returned r s)"

text \<open>From the construction of the row to the flush of everything before the commit.\<close>

definition register_panel :: "upstream \<Rightarrow> int \<Rightarrow> string \<Rightarrow> web_panel_in \<Rightarrow> organization \<Rightarrow> db \<Rightarrow> (panel, db) res" where
  "register_panel up now url x org s =
    bindr (sealed up (Some (wp_api_key x)) s) (\<lambda>k s.
    bindr (sealed up (wp_owner_username x) s) (\<lambda>u s.
    bindr (sealed up (wp_owner_password x) s) (\<lambda>w s.
      let p = (new_panel (next_uid s) (wp_name x) url (wp_usage_coefficient x) (wp_verify_tls x))
            \<lparr>pan_api_key_ref := k, pan_owner_user_ref := u, pan_owner_pass_ref := w\<rparr>
      in bindr (add_panel p s) (\<lambda>_ s.
         let s = s\<lparr>panel_owners := panel_owners s @ [\<lparr>own_panel_id = pan_id p, own_organization_id = org_id org\<rparr>]\<rparr>
         in bindr (case wp_pg_admin_id x of
              None \<Rightarrow> returned () s
            | Some admin \<Rightarrow> bindr (require (binding_of s (org_id org) = None)
                  (HTTPException 409 ''this organization already has a billing binding'') s) (\<lambda>_ s.
                bindr (add_binding (org_id org) (pan_id p) admin
                  (if truthy (wp_admin_username x) then the (wp_admin_username x) else pystr admin) s) (\<lambda>_. returned ())))
           (\<lambda>_ s. returned p (audit now ''panel.create'' ''panel'' (Some (pan_id p)) None (Some (org_id org))
             [(''base_url'', JStr url), (''usage_coefficient'', JDecimal (wp_usage_coefficient x)),
              (''verify_tls'', JBool (wp_verify_tls x))] s))))))"

text \<open>How many nodes the test request found; a list has no \<open>get\<close>.\<close>

definition nodes_detected :: "json \<Rightarrow> error + nat" where
  "nodes_detected probe = (case probe of
     JObj fs \<Rightarrow> Inr (case field ''nodes'' fs of Some (JList xs) \<Rightarrow> length xs | _ \<Rightarrow> 0)
   | _ \<Rightarrow> Inl (AttributeError ''get''))"

definition web_create_panel ::
  "upstream \<Rightarrow> (string \<Rightarrow> split_url option) \<Rightarrow> string \<Rightarrow> int \<Rightarrow> web_panel_in \<Rightarrow> identity \<Rightarrow> db \<Rightarrow> (uid \<times> nat, db) res"
where
  "web_create_panel up urlsplit root_env now x ident = request (\<lambda>S.
    bindr (in_session (manager root_env (user_id ident) ''manage_servers'') S) (\<lambda>(a, m, org) S.
    bindr (validate_panel_url urlsplit (wp_base_url x) S) (\<lambda>_ S.
    bindr (require (wp_verify_tls x \<or> effective_role root_env (user_id ident) (Some (mem_role m)) = ''system_admin'')
       (HTTPException 403 ''only the system administrator may disable TLS verification'') S) (\<lambda>_ S.
      let url = rstrip_slash (wp_base_url x);
          c = \<lparr>cl_base_url = url, cl_api_key = Some (wp_api_key x), cl_owner_username = wp_owner_username x,
               cl_owner_password = wp_owner_password x, cl_verify_tls = wp_verify_tls x\<rparr>
      in case pg_nodes (up_http up) c of
           Answer probe \<Rightarrow> bindr (in_session (register_panel up now url x org) S) (\<lambda>p S.
             case nodes_detected probe of
               Inl e \<Rightarrow> raised e (commit S)
             | Inr n \<Rightarrow> returned (pan_id p, n) (commit S))
         | _ \<Rightarrow> raised (HTTPException 422 ''PasarGuard connection failed: the server did not answer the test request'') S))))"

section \<open>What a route leaves behind\<close>

datatype panel_op =
    Nodes | Reconnect int | Node_Status int | Node_Reset int | Node_Enabled int string
  | Users int int | Reset_Data int | User_Enabled int string | Admin_Limit int

text \<open>One route, its answer reduced to whether it raised.\<close>

definition erase :: "('a, 's) res \<Rightarrow> (unit, 's) res" where
  "erase m = (map_sum id (\<lambda>_. ()) (fst m), snd m)"

fun panel_step :: "upstream \<Rightarrow> string \<Rightarrow> int \<Rightarrow> uid \<Rightarrow> panel_op \<Rightarrow> identity \<Rightarrow> db \<Rightarrow> (unit, db) res" where
  "panel_step up root_env now i Nodes ident s = erase (web_panel_nodes up root_env now i ident s)"
| "panel_step up root_env now i (Reconnect n) ident s = erase (web_reconnect_node up root_env now i n ident s)"
| "panel_step up root_env now i (Node_Status n) ident s = erase (web_node_status up root_env now i n ident s)"
| "panel_step up root_env now i (Node_Reset n) ident s = erase (web_reset_node up root_env now i n ident s)"
| "panel_step up root_env now i (Node_Enabled n v) ident s = erase (web_set_node_enabled up root_env now i n v ident s)"
| "panel_step up root_env now i (Users offset limit) ident s = erase (web_panel_users up root_env now i offset limit ident s)"
| "panel_step up root_env now i (Reset_Data u) ident s = erase (web_reset_user_data up root_env now i u ident s)"
| "panel_step up root_env now i (User_Enabled u v) ident s = erase (web_set_user_enabled up root_env now i u v ident s)"
| "panel_step up root_env now i (Admin_Limit n) ident s = erase (web_set_admin_limit up root_env now i n ident s)"

fun needs :: "panel_op \<Rightarrow> string" where
  "needs Nodes = ''manage_servers''"
| "needs (Reconnect n) = ''node_control''"
| "needs (Node_Status n) = ''node_control''"
| "needs (Node_Reset n) = ''node_control''"
| "needs (Node_Enabled n v) = ''node_control''"
| "needs (Users offset limit) = ''subscriber_control''"
| "needs (Reset_Data u) = ''subscriber_control''"
| "needs (User_Enabled u v) = ''subscriber_control''"
| "needs (Admin_Limit n) = ''admin_limit''"

text \<open>
  The trail: what a session has committed since \<open>s\<close> is at least \<open>k\<close> rows of the audit trail, about the
  panel \<open>i\<close> and by the organization \<open>w\<close>.
\<close>

definition trail :: "uid \<Rightarrow> uid \<Rightarrow> db \<Rightarrow> nat \<Rightarrow> session \<Rightarrow> bool" where
  "trail w i s k S \<longleftrightarrow> committed S = current S \<and> (\<exists>rows. current S = s\<lparr>audit_logs := audit_logs s @ rows\<rparr> \<and>
     k \<le> length rows \<and> (\<forall>r \<in> set rows. aud_organization_id r = Some w \<and> aud_target_id r = dec i))"

lemma trail_open: "trail w i s 0 (open_session s)"
  unfolding trail_def by (rule conjI, simp, rule exI [of _ "[]"]) simp

lemma trail_operation:
  assumes "trail w (pan_id p) s k S"
  shows "trail w (pan_id p) s 1 (snd (panel_operation now run p w action actor_id metadata S))"
proof -
  obtain r S' where run: "panel_operation now run p w action actor_id metadata S = (r, S')" by fastforce
  from assms obtain rows where rows: "current S = s\<lparr>audit_logs := audit_logs s @ rows\<rparr>"
    "\<forall>r \<in> set rows. aud_organization_id r = Some w \<and> aud_target_id r = dec (pan_id p)" by (auto simp: trail_def)
  from panel_operation_result [OF run] obtain row where
    row: "current S' = (current S)\<lparr>audit_logs := audit_logs (current S) @ [row]\<rparr>" "aud_target_id row = dec (pan_id p)"
      "aud_organization_id row = Some w" "committed S' = current S'" by blast
  then have "current S' = s\<lparr>audit_logs := audit_logs s @ (rows @ [row])\<rparr>" using rows(1) by simp
  then show ?thesis unfolding trail_def run snd_conv using row rows by (intro conjI exI [of _ "rows @ [row]"]) auto
qed

lemma trail_mono: "trail w i s k S \<Longrightarrow> trail w i s 0 S"
  by (auto simp: trail_def)

lemma in_session_reads:
  "snd (f (current S)) = current S \<Longrightarrow> in_session f S = (fst (f (current S)), S)"
  by (cases "f (current S)") (simp add: in_session_def)

lemma org_binding_in_session [simp]:
  "in_session (org_binding w i) S = (fst (org_binding w i (current S)), S)"
  by (rule in_session_reads) (simp add: org_binding_def require_some_def split: option.split)

lemma access_reads:
  "snd (owned_panel i w s) = s" "snd (accessible_panel i w s) = s"
  by (auto simp: owned_panel_def accessible_panel_def active_panel_if_def split: option.split)

lemma panel_route_cases:
  assumes run: "panel_route root_env ident permission access i body s = (r, s')"
    and reads: "\<And>w. snd (access i w s) = s"
  obtains (refused) e where "r = Inl e" "s' = s"
  | (served) a m org p S' where "manager root_env (user_id ident) permission s = (Inr (a, m, org), s)"
      "access i (org_id org) s = (Inr p, s)" "body a org p (open_session s) = (r, S')" "s' = committed S'"
proof -
  obtain q where man: "manager root_env (user_id ident) permission s = (q, s)" using manager_reads by (metis prod.exhaust)
  then have session: "in_session (manager root_env (user_id ident) permission) (open_session s) = (q, open_session s)"
    by (simp add: in_session_reads)
  show thesis
  proof (cases q)
    case (Inl e)
    with run session show thesis by (intro refused [of e]) (auto simp: panel_route_def request_def)
  next
    case (Inr x)
    obtain a m org where x: "x = (a, m, org)" by (cases x) auto
    obtain v where acc: "access i (org_id org) s = (v, s)" using reads by (metis prod.collapse)
    then have "in_session (access i (org_id org)) (open_session s) = (v, open_session s)" by (simp add: in_session_reads)
    then show thesis using run session Inr x acc man refused served
      by (cases v) (auto simp: panel_route_def request_def split: prod.splits)
  qed
qed

text \<open>A body that keeps the trail, and leaves a row when it returns.\<close>

definition trails :: "uid \<Rightarrow> uid \<Rightarrow> db \<Rightarrow> ('a, session) res \<Rightarrow> bool" where
  "trails w i s m \<longleftrightarrow> trail w i s 0 (snd m) \<and> (\<forall>v. fst m = Inr v \<longrightarrow> trail w i s 1 (snd m))"

lemma trails_operation:
  "trail w (pan_id p) s k S \<Longrightarrow> trails w (pan_id p) s (panel_operation now run p w action actor_id metadata S)"
  unfolding trails_def using trail_operation trail_mono by blast

lemma trails_bind:
  assumes "trail w i s 0 (snd m)" and "\<And>v S. m = (Inr v, S) \<Longrightarrow> trail w i s 0 S \<Longrightarrow> trails w i s (f v S)"
  shows "trails w i s (bindr m f)"
proof (cases m)
  case (Pair r S)
  with assms show ?thesis by (cases r) (auto simp: trails_def)
qed

lemma trails_after:
  assumes "trails w i s m" and "\<And>v S. m = (Inr v, S) \<Longrightarrow> trail w i s 1 S \<Longrightarrow> trail w i s 1 (snd (f v S))"
  shows "trails w i s (bindr m f)"
proof (cases m)
  case (Pair r S)
  with assms show ?thesis by (cases r) (auto simp: trails_def intro: trail_mono)
qed

lemma trails_raised: "trail w i s 0 S \<Longrightarrow> trails w i s (raised e S)"
  by (simp add: trails_def raised_def)

lemma trails_flag:
  assumes "trail w i s 0 S" and "\<And>flag. trails w i s (f flag S)"
  shows "trails w i s (with_flag v f S)"
proof (cases "enabled_flag v")
  case (Inl e)
  then show ?thesis using assms(1) by (simp add: with_flag_def trails_raised)
next
  case (Inr flag)
  have "trails w i s (bindr (f flag S) (\<lambda>v. returned (flag, v)))" by (rule trails_after [OF assms(2)]) simp
  with Inr show ?thesis by (simp add: with_flag_def)
qed

lemma trail_guard:
  assumes "trail (org_id org) (pan_id p) s 0 S"
  shows "trail (org_id org) (pan_id p) s 0 (snd (subscriber_guard up now a org p u S))"
proof (cases "panel_is_mine (current S) (pan_id p) (org_id org)")
  case True
  with assms show ?thesis by (simp add: subscriber_guard_def)
next
  case False
  show ?thesis
  proof (cases "fst (org_binding (org_id org) (pan_id p) (current S))")
    case (Inl e)
    with False assms show ?thesis by (simp add: subscriber_guard_def)
  next
    case (Inr b)
    let ?P = "trail (org_id org) (pan_id p) s 0"
    have "?P (snd (assert_bound_subscriber now (\<lambda>p i. via up (\<lambda>h c. pg_user h c i) p) p (org_id org) b u (Some (act_id a)) S))"
      unfolding assert_bound_subscriber_def
      by (rule bindr_keeps [where P = ?P], rule trail_mono [OF trail_operation [OF assms]], rule require_keeps)
    with False Inr show ?thesis by (simp add: subscriber_guard_def)
  qed
qed


definition access_of :: "panel_op \<Rightarrow> uid \<Rightarrow> uid \<Rightarrow> db \<Rightarrow> (panel, db) res" where
  "access_of op = (if needs op = ''subscriber_control'' then accessible_panel else owned_panel)"

lemma route_trail:
  assumes run: "erase (panel_route root_env ident permission access i body s) = (r, s')"
    and reads: "\<And>w. snd (access i w s) = s"
    and body: "\<And>a org p. access i (org_id org) s = (Inr p, s) \<Longrightarrow> trails (org_id org) (pan_id p) s (body a org p (open_session s))"
  shows "(\<exists>e. r = Inl e \<and> s' = s) \<or> (\<exists>a m org p rows. manager root_env (user_id ident) permission s = (Inr (a, m, org), s) \<and>
    access i (org_id org) s = (Inr p, s) \<and> s' = s\<lparr>audit_logs := audit_logs s @ rows\<rparr> \<and> (r = Inr () \<longrightarrow> rows \<noteq> []) \<and>
    (\<forall>row \<in> set rows. aud_organization_id row = Some (org_id org) \<and> aud_target_id row = dec (pan_id p)))"
proof -
  obtain q t where route: "panel_route root_env ident permission access i body s = (q, t)" by fastforce
  then have r: "r = map_sum id (\<lambda>_. ()) q" "s' = t" using run by (simp_all add: erase_def)
  from route reads show ?thesis
  proof (rule panel_route_cases)
    fix e assume "q = Inl e" "t = s"
    with r show ?thesis by simp
  next
    fix a m org p S'
    assume man: "manager root_env (user_id ident) permission s = (Inr (a, m, org), s)"
      and acc: "access i (org_id org) s = (Inr p, s)" and ran: "body a org p (open_session s) = (q, S')" "t = committed S'"
    have "trails (org_id org) (pan_id p) s (q, S')" using body [OF acc] ran(1) by metis
    then have "trail (org_id org) (pan_id p) s (if r = Inr () then 1 else 0) S'"
      using r(1) by (cases q) (simp_all add: trails_def)
    then obtain rows where "t = s\<lparr>audit_logs := audit_logs s @ rows\<rparr>" "(if r = Inr () then 1 else 0) \<le> length rows"
      "\<forall>row \<in> set rows. aud_organization_id row = Some (org_id org) \<and> aud_target_id row = dec (pan_id p)"
      unfolding trail_def ran(2) by metis
    moreover from this(2) have "r = Inr () \<longrightarrow> rows \<noteq> []" by fastforce
    ultimately show ?thesis using man acc unfolding r(2) by blast
  qed
qed

lemmas routes = web_panel_nodes_def web_reconnect_node_def web_node_status_def web_reset_node_def
  web_set_node_enabled_def web_panel_users_def web_reset_user_data_def web_set_user_enabled_def web_set_admin_limit_def

lemma access_of_simps:
  "access_of Nodes = owned_panel" "access_of (Reconnect n) = owned_panel" "access_of (Node_Status n) = owned_panel"
  "access_of (Node_Reset n) = owned_panel" "access_of (Node_Enabled n v) = owned_panel"
  "access_of (Users offset limit) = accessible_panel" "access_of (Reset_Data u) = accessible_panel"
  "access_of (User_Enabled u v) = accessible_panel" "access_of (Admin_Limit n) = owned_panel"
  by (simp_all add: access_of_def)

lemma trails_unwrapped:
  "trail w (pan_id p) s 0 S \<Longrightarrow> trails w (pan_id p) s (bindr (panel_operation now run p w action actor_id metadata S)
     (\<lambda>v S. case unwrap v key of Inl e \<Rightarrow> raised e S | Inr xs \<Rightarrow> returned (f v xs) S))"
  by (rule trails_after [OF trails_operation]) (auto split: sum.split)

lemma trails_bound:
  assumes "trail w (pan_id p) s 0 S" and "\<And>b. trails w (pan_id p) s (f b S)"
  shows "trails w (pan_id p) s (bindr (in_session (org_binding j k) S) f)"
  unfolding org_binding_in_session
  by (rule trails_bind) (use assms in auto)

lemma trails_guarded:
  assumes "trail (org_id org) (pan_id p) s 0 S"
  shows "trails (org_id org) (pan_id p) s (bindr (subscriber_guard up now a org p u S)
     (\<lambda>_. panel_operation now run p (org_id org) action actor_id metadata))"
  by (rule trails_bind [OF trail_guard [OF assms] trails_operation])

text \<open>Each route, by the rule for its body.\<close>

lemma panel_step_trail:
  assumes "panel_step up root_env now i op ident s = (r, s')"
  shows "(\<exists>e. r = Inl e \<and> s' = s) \<or> (\<exists>a m org p rows. manager root_env (user_id ident) (needs op) s = (Inr (a, m, org), s) \<and>
    access_of op i (org_id org) s = (Inr p, s) \<and> s' = s\<lparr>audit_logs := audit_logs s @ rows\<rparr> \<and> (r = Inr () \<longrightarrow> rows \<noteq> []) \<and>
    (\<forall>row \<in> set rows. aud_organization_id row = Some (org_id org) \<and> aud_target_id row = dec (pan_id p)))"
proof (cases op)
  case Nodes
  show ?thesis using assms unfolding Nodes panel_step.simps needs.simps access_of_simps routes
    by (rule route_trail [OF _ access_reads(1)]) (rule trails_unwrapped [OF trail_open])
next
  case (Reconnect n)
  show ?thesis using assms unfolding Reconnect panel_step.simps needs.simps access_of_simps routes
    by (rule route_trail [OF _ access_reads(1)]) (rule trails_operation [OF trail_open])
next
  case (Node_Status n)
  show ?thesis using assms unfolding Node_Status panel_step.simps needs.simps access_of_simps routes
    by (rule route_trail [OF _ access_reads(1)]) (rule trails_operation [OF trail_open])
next
  case (Node_Reset n)
  show ?thesis using assms unfolding Node_Reset panel_step.simps needs.simps access_of_simps routes
    by (rule route_trail [OF _ access_reads(1)]) (rule trails_operation [OF trail_open])
next
  case (Node_Enabled n v)
  show ?thesis using assms unfolding Node_Enabled panel_step.simps needs.simps access_of_simps routes
    by (rule route_trail [OF _ access_reads(1)]) (rule trails_flag [OF trail_open], rule trails_operation [OF trail_open])
next
  case (Users offset limit)
  have body: "trails (org_id org) (pan_id p) s (bindr (require c e (open_session s)) (\<lambda>_ S.
      bindr (panel_operation now run p (org_id org) action actor_id metadata S)
        (\<lambda>v S. case unwrap v key of Inl e \<Rightarrow> raised e S | Inr xs \<Rightarrow> returned (f v xs) S)))"
    for org p c e run action actor_id metadata key and f :: "json \<Rightarrow> json list \<Rightarrow> users_view"
    by (rule trails_bind) (auto simp: require_def trail_open intro: trails_unwrapped)
  show ?thesis using assms unfolding Users panel_step.simps needs.simps access_of_simps routes
    by (rule route_trail [OF _ access_reads(2)]) (rule trails_bound [OF trail_open], rule body)
next
  case (Reset_Data u)
  show ?thesis using assms unfolding Reset_Data panel_step.simps needs.simps access_of_simps routes
    by (rule route_trail [OF _ access_reads(2)]) (rule trails_guarded [OF trail_open])
next
  case (User_Enabled u v)
  show ?thesis using assms unfolding User_Enabled panel_step.simps needs.simps access_of_simps routes
    by (rule route_trail [OF _ access_reads(2)]) (rule trails_flag [OF trail_open], rule trails_guarded [OF trail_open])
next
  case (Admin_Limit n)
  show ?thesis using assms unfolding Admin_Limit panel_step.simps needs.simps access_of_simps routes
    by (rule route_trail [OF _ access_reads(1)]) (rule trails_bound [OF trail_open], rule trails_operation [OF trail_open])
qed

section \<open>Which panel a route talks to\<close>

lemma route_cong:
  assumes reads: "\<And>w. snd (access i w s) = s"
    and body: "\<And>a m org p. manager root_env (user_id ident) permission s = (Inr (a, m, org), s) \<Longrightarrow>
      access i (org_id org) s = (Inr p, s) \<Longrightarrow> body a org p (open_session s) = body' a org p (open_session s)"
  shows "panel_route root_env ident permission access i body s = panel_route root_env ident permission access i body' s"
proof -
  obtain q where man: "manager root_env (user_id ident) permission s = (q, s)" using manager_reads by (metis prod.exhaust)
  show ?thesis
  proof (cases q)
    case (Inl e)
    with man show ?thesis by (simp add: panel_route_def request_def in_session_reads)
  next
    case (Inr x)
    obtain a m org where x: "x = (a, m, org)" by (cases x) auto
    obtain v where acc: "access i (org_id org) s = (v, s)" using reads by (metis prod.collapse)
    with man Inr x body show ?thesis by (cases v) (simp_all add: panel_route_def request_def in_session_reads)
  qed
qed

lemma operation_alike:
  assumes "alike sent (pan_base_url p) h (up_http up)"
    and "\<And>c. alike sent (cl_base_url c) h (up_http up) \<Longrightarrow> f h c = f (up_http up) c"
  shows "panel_operation now (via (up\<lparr>up_http := h\<rparr>) f) p = panel_operation now (via up f) p"
  by (rule ext)+ (simp add: panel_operation_def via_alike [OF assms])

lemma calls_alike:
  assumes "alike (\<lambda>_. True) (cl_base_url c) h h'"
  shows "pg_nodes h c = pg_nodes h' c" "reconnect_node h c n = reconnect_node h' c n" "node_status h c n = node_status h' c n"
    "reset_node h c n = reset_node h' c n" "set_node_enabled h c n b = set_node_enabled h' c n b"
    "pg_users h c k offset limit = pg_users h' c k offset limit" "reset_user_data h c n = reset_user_data h' c n"
    "set_user_enabled h c n b = set_user_enabled h' c n b" "set_admin_limit h c n k2 = set_admin_limit h' c n k2"
  unfolding client_defs using call_alike [OF assms] by simp_all

lemma operations_alike:
  assumes "alike (\<lambda>_. True) (pan_base_url p) h (up_http up)"
  shows "panel_operation now (via (up\<lparr>up_http := h\<rparr>) pg_nodes) p = panel_operation now (via up pg_nodes) p"
    "panel_operation now (via (up\<lparr>up_http := h\<rparr>) (\<lambda>h c. reconnect_node h c n)) p =
      panel_operation now (via up (\<lambda>h c. reconnect_node h c n)) p"
    "panel_operation now (via (up\<lparr>up_http := h\<rparr>) (\<lambda>h c. node_status h c n)) p =
      panel_operation now (via up (\<lambda>h c. node_status h c n)) p"
    "panel_operation now (via (up\<lparr>up_http := h\<rparr>) (\<lambda>h c. reset_node h c n)) p =
      panel_operation now (via up (\<lambda>h c. reset_node h c n)) p"
    "panel_operation now (via (up\<lparr>up_http := h\<rparr>) (\<lambda>h c. set_node_enabled h c n b)) p =
      panel_operation now (via up (\<lambda>h c. set_node_enabled h c n b)) p"
    "panel_operation now (via (up\<lparr>up_http := h\<rparr>) (\<lambda>h c. pg_users h c k offset limit)) p =
      panel_operation now (via up (\<lambda>h c. pg_users h c k offset limit)) p"
    "panel_operation now (via (up\<lparr>up_http := h\<rparr>) (\<lambda>h c. reset_user_data h c n)) p =
      panel_operation now (via up (\<lambda>h c. reset_user_data h c n)) p"
    "panel_operation now (via (up\<lparr>up_http := h\<rparr>) (\<lambda>h c. set_user_enabled h c n b)) p =
      panel_operation now (via up (\<lambda>h c. set_user_enabled h c n b)) p"
    "panel_operation now (via (up\<lparr>up_http := h\<rparr>) (\<lambda>h c. set_admin_limit h c n k2)) p =
      panel_operation now (via up (\<lambda>h c. set_admin_limit h c n k2)) p"
  by (rule operation_alike [OF assms], erule calls_alike)+

text \<open>Reading a subscriber is a \<open>GET\<close> request.\<close>

definition reading :: "http_request \<Rightarrow> bool" where
  "reading rq \<longleftrightarrow> rq_method rq = ''GET''"

lemma pg_user_alike:
  assumes "alike reading (cl_base_url c) h h'"
  shows "pg_user h c n = pg_user h' c n"
  unfolding pg_user_def by (rule call_alike [OF assms]) (simp_all add: reading_def)

lemma guard_alike:
  assumes "alike reading (pan_base_url p) h (up_http up)"
  shows "subscriber_guard (up\<lparr>up_http := h\<rparr>) now a org p u = subscriber_guard up now a org p u"
proof -
  have "assert_bound_subscriber now (\<lambda>p i. via (up\<lparr>up_http := h\<rparr>) (\<lambda>h c. pg_user h c i) p) p w b u =
      assert_bound_subscriber now (\<lambda>p i. via up (\<lambda>h c. pg_user h c i) p) p w b u" for w b
    by (rule ext)+ (simp add: assert_bound_subscriber_def panel_operation_def
        via_alike [where f = "\<lambda>h c. pg_user h c u", OF assms pg_user_alike])
  then show ?thesis by (intro ext) (simp add: subscriber_guard_def)
qed

lemma alike_reading: "alike (\<lambda>_. True) url h h' \<Longrightarrow> alike reading url h h'"
  by (simp add: alike_def)

lemma panel_step_alike:
  assumes "\<And>a m org p. manager root_env (user_id ident) (needs op) s = (Inr (a, m, org), s) \<Longrightarrow>
    access_of op i (org_id org) s = (Inr p, s) \<Longrightarrow> alike (\<lambda>_. True) (pan_base_url p) h (up_http up)"
  shows "panel_step (up\<lparr>up_http := h\<rparr>) root_env now i op ident s = panel_step up root_env now i op ident s"
proof (cases op)
  case (Reset_Data u)
  show ?thesis unfolding Reset_Data panel_step.simps routes
    by (rule arg_cong [where f = erase], rule route_cong [OF access_reads(2)])
      (simp add: assms [unfolded Reset_Data needs.simps access_of_simps] operations_alike guard_alike [OF alike_reading])
next
  case (User_Enabled u v)
  show ?thesis unfolding User_Enabled panel_step.simps routes
    by (rule arg_cong [where f = erase], rule route_cong [OF access_reads(2)])
      (simp add: assms [unfolded User_Enabled needs.simps access_of_simps] operations_alike guard_alike [OF alike_reading])
next
  case Nodes
  show ?thesis unfolding Nodes panel_step.simps routes
    by (rule arg_cong [where f = erase], rule route_cong [OF access_reads(1)])
      (simp add: assms [unfolded Nodes needs.simps access_of_simps] operations_alike)
next
  case (Reconnect n)
  show ?thesis unfolding Reconnect panel_step.simps routes
    by (rule arg_cong [where f = erase], rule route_cong [OF access_reads(1)])
      (simp add: assms [unfolded Reconnect needs.simps access_of_simps] operations_alike)
next
  case (Node_Status n)
  show ?thesis unfolding Node_Status panel_step.simps routes
    by (rule arg_cong [where f = erase], rule route_cong [OF access_reads(1)])
      (simp add: assms [unfolded Node_Status needs.simps access_of_simps] operations_alike)
next
  case (Node_Reset n)
  show ?thesis unfolding Node_Reset panel_step.simps routes
    by (rule arg_cong [where f = erase], rule route_cong [OF access_reads(1)])
      (simp add: assms [unfolded Node_Reset needs.simps access_of_simps] operations_alike)
next
  case (Node_Enabled n v)
  show ?thesis unfolding Node_Enabled panel_step.simps routes
    by (rule arg_cong [where f = erase], rule route_cong [OF access_reads(1)])
      (simp add: assms [unfolded Node_Enabled needs.simps access_of_simps] operations_alike)
next
  case (Users offset limit)
  show ?thesis unfolding Users panel_step.simps routes
    by (rule arg_cong [where f = erase], rule route_cong [OF access_reads(2)])
      (simp add: assms [unfolded Users needs.simps access_of_simps] operations_alike)
next
  case (Admin_Limit n)
  show ?thesis unfolding Admin_Limit panel_step.simps routes
    by (rule arg_cong [where f = erase], rule route_cong [OF access_reads(1)])
      (simp add: assms [unfolded Admin_Limit needs.simps access_of_simps] operations_alike)
qed

section \<open>Properties\<close>

text \<open>Who may run an operation on the panel \<open>i\<close>: for the organization and the panel it acts on.\<close>

definition may_operate :: "string \<Rightarrow> identity \<Rightarrow> panel_op \<Rightarrow> uid \<Rightarrow> db \<Rightarrow> organization \<Rightarrow> panel \<Rightarrow> bool" where
  "may_operate root_env ident op i s org p \<longleftrightarrow>
     (\<exists>a m. manager root_env (user_id ident) (needs op) s = (Inr (a, m, org), s)) \<and>
     get_panel s i = Some p \<and> pan_status p = ''active'' \<and>
     (panel_is_mine s i (org_id org) \<or> needs op = ''subscriber_control'' \<and> is_bound s i (org_id org))"

lemma access_of_iff:
  "access_of op i w s = (Inr p, s) \<longleftrightarrow> get_panel s i = Some p \<and> pan_status p = ''active'' \<and>
     (panel_is_mine s i w \<or> needs op = ''subscriber_control'' \<and> is_bound s i w)"
  by (auto simp: access_of_def owned_panel_def accessible_panel_def active_panel_if_def split: option.splits)

lemma may_operate_iff:
  "may_operate root_env ident op i s org p \<longleftrightarrow>
     (\<exists>a m. manager root_env (user_id ident) (needs op) s = (Inr (a, m, org), s)) \<and> access_of op i (org_id org) s = (Inr p, s)"
  by (auto simp: may_operate_def access_of_iff)

text \<open>
  C30: panel operations keep their lane. Whoever may not run the operation on that panel - wrong
  permission, no such active panel, neither owner nor, for subscriber operations, bound to it - is refused:
  nothing changes, and no answer of any panel can make a difference. Whoever may, leaves nothing behind
  but rows of the audit trail about this panel and by their own organization, and at least one of them when the
  operation returns; and only what this panel's own address answers can make a difference.
\<close>

theorem panel_operations_keep_their_lane:
  assumes run: "panel_step up root_env now i op ident s = (r, s')"
  shows "if \<exists>org p. may_operate root_env ident op i s org p
    then (\<exists>org p rows. may_operate root_env ident op i s org p \<and> s' = s\<lparr>audit_logs := audit_logs s @ rows\<rparr> \<and>
       (r = Inr () \<longrightarrow> rows \<noteq> []) \<and>
       (\<forall>row \<in> set rows. aud_organization_id row = Some (org_id org) \<and> aud_target_id row = dec i) \<and>
       (\<forall>h. (\<forall>v rq. h (rstrip_slash (pan_base_url p)) v rq = up_http up (rstrip_slash (pan_base_url p)) v rq) \<longrightarrow>
          panel_step (up\<lparr>up_http := h\<rparr>) root_env now i op ident s = (r, s')))
    else s' = s \<and> (\<exists>e. r = Inl e) \<and> (\<forall>h. panel_step (up\<lparr>up_http := h\<rparr>) root_env now i op ident s = (r, s'))"
proof (cases "\<exists>org p. may_operate root_env ident op i s org p")
  case True
  then obtain org p a m where may: "may_operate root_env ident op i s org p"
    "manager root_env (user_id ident) (needs op) s = (Inr (a, m, org), s)" "access_of op i (org_id org) s = (Inr p, s)"
    by (auto simp: may_operate_iff)
  have i: "pan_id p = i" using may(1) by (auto simp: may_operate_def dest: lookup_SomeD)
  have same: "panel_step (up\<lparr>up_http := h\<rparr>) root_env now i op ident s = (r, s')"
    if "\<forall>v rq. h (rstrip_slash (pan_base_url p)) v rq = up_http up (rstrip_slash (pan_base_url p)) v rq" for h
    unfolding run [symmetric] by (rule panel_step_alike) (use that may in \<open>auto simp: alike_def\<close>)
  have "\<exists>rows. s' = s\<lparr>audit_logs := audit_logs s @ rows\<rparr> \<and> (r = Inr () \<longrightarrow> rows \<noteq> []) \<and>
      (\<forall>row \<in> set rows. aud_organization_id row = Some (org_id org) \<and> aud_target_id row = dec i)"
    using panel_step_trail [OF run]
  proof
    assume "\<exists>e. r = Inl e \<and> s' = s"
    then show ?thesis by (intro exI [of _ "[]"]) auto
  next
    assume "\<exists>a m org p rows. manager root_env (user_id ident) (needs op) s = (Inr (a, m, org), s) \<and>
      access_of op i (org_id org) s = (Inr p, s) \<and> s' = s\<lparr>audit_logs := audit_logs s @ rows\<rparr> \<and> (r = Inr () \<longrightarrow> rows \<noteq> []) \<and>
      (\<forall>row \<in> set rows. aud_organization_id row = Some (org_id org) \<and> aud_target_id row = dec (pan_id p))"
    with may(2,3) i show ?thesis by auto
  qed
  with True may(1) same show ?thesis by auto
next
  case False
  then have "s' = s \<and> (\<exists>e. r = Inl e)" using panel_step_trail [OF run] unfolding may_operate_iff by blast
  moreover have "panel_step (up\<lparr>up_http := h\<rparr>) root_env now i op ident s = (r, s')" for h
    unfolding run [symmetric] by (rule panel_step_alike) (use False in \<open>auto simp: may_operate_iff\<close>)
  ultimately show ?thesis using False by auto
qed

lemma foreign_guard:
  assumes "\<not> panel_is_mine (current S) (pan_id p) (org_id org)"
    and "\<And>b row. b \<in> set (bindings (current S)) \<Longrightarrow> bnd_organization_id b = org_id org \<Longrightarrow> bnd_panel_id b = pan_id p \<Longrightarrow>
      via up (\<lambda>h c. pg_user h c u) p = Answer row \<Longrightarrow> subscriber_admin row \<noteq> Some (bnd_pg_admin_id b)"
  shows "\<exists>e S'. subscriber_guard up now a org p u S = (Inl e, S')"
proof (cases "List.find (\<lambda>b. bnd_organization_id b = org_id org \<and> bnd_panel_id b = pan_id p) (bindings (current S))")
  case None
  with assms(1) show ?thesis
    by (simp add: subscriber_guard_def in_session_reads org_binding_def require_some_def)
next
  case (Some b)
  then have "b \<in> set (bindings (current S))" "bnd_organization_id b = org_id org" "bnd_panel_id b = pan_id p"
    by (auto simp: find_Some_iff)
  with assms(2) have "via up (\<lambda>h c. pg_user h c u) p \<noteq> Answer row \<or> subscriber_admin row \<noteq> Some (bnd_pg_admin_id b)" for row
    by blast
  with assms(1) Some show ?thesis
    by (auto simp: subscriber_guard_def in_session_reads org_binding_def require_some_def assert_bound_subscriber_def
        panel_operation_def require_def Let_def raised_def returned_def split: answer.split)
qed

lemma refused_body:
  fixes body body' :: "actor \<Rightarrow> organization \<Rightarrow> panel \<Rightarrow> session \<Rightarrow> ('a, session) res"
  assumes body: "\<And>a m org p. manager root_env (user_id ident) permission s = (Inr (a, m, org), s) \<Longrightarrow>
      access i (org_id org) s = (Inr p, s) \<Longrightarrow> \<exists>e S'. body a org p (open_session s) = (Inl e, S') \<and> body' a org p (open_session s) = (Inl e, S')"
    and reads: "\<And>w. snd (access i w s) = s"
  shows "\<exists>e s'. erase (panel_route root_env ident permission access i body s) = (Inl e, s') \<and>
    erase (panel_route root_env ident permission access i body' s) = (Inl e, s')"
proof -
  have same: "panel_route root_env ident permission access i body' s = panel_route root_env ident permission access i body s"
    by (rule route_cong, rule reads) (metis body)
  obtain q t where run: "panel_route root_env ident permission access i body s = (q, t)" by fastforce
  have "\<exists>e. q = Inl e" by (rule panel_route_cases [OF run], rule reads) (use body in fastforce)+
  with same run show ?thesis by (auto simp: erase_def)
qed

text \<open>
  C31: foreign subscribers are out of reach. A buyer - a caller whose organization does not own the panel - who
  asks to reset, enable or disable a subscriber the panel does not attribute to a binding of the buyer's own
  organization is refused, also when the subscriber belongs to another buyer of the same panel, and no write
  request is involved: the outcome is the same for every transport that gives the same answers to \<open>GET\<close> requests.
\<close>

theorem foreign_subscribers_are_out_of_reach:
  assumes op: "op = Reset_Data u \<or> op = User_Enabled u v"
    and buyer: "\<And>a m org. manager root_env (user_id ident) ''subscriber_control'' s = (Inr (a, m, org), s) \<Longrightarrow>
      \<not> panel_is_mine s i (org_id org)"
    and foreign: "\<And>a m org p b row. manager root_env (user_id ident) ''subscriber_control'' s = (Inr (a, m, org), s) \<Longrightarrow>
      get_panel s i = Some p \<Longrightarrow> b \<in> set (bindings s) \<Longrightarrow> bnd_panel_id b = i \<Longrightarrow> bnd_organization_id b = org_id org \<Longrightarrow>
      via up (\<lambda>h c. pg_user h c u) p = Answer row \<Longrightarrow> subscriber_admin row \<noteq> Some (bnd_pg_admin_id b)"
    and reads: "\<And>url verify rq. rq_method rq = ''GET'' \<Longrightarrow> h url verify rq = up_http up url verify rq"
  shows "\<exists>e s'. panel_step up root_env now i op ident s = (Inl e, s') \<and>
    panel_step (up\<lparr>up_http := h\<rparr>) root_env now i op ident s = (Inl e, s')"
proof -
  have guard: "\<exists>e S'. subscriber_guard up now a org p u (open_session s) = (Inl e, S') \<and>
      subscriber_guard (up\<lparr>up_http := h\<rparr>) now a org p u (open_session s) = (Inl e, S')"
    if "manager root_env (user_id ident) ''subscriber_control'' s = (Inr (a, m, org), s)"
      "accessible_panel i (org_id org) s = (Inr p, s)" for a m org p
  proof -
    have p: "get_panel s i = Some p" "pan_id p = i"
      using that(2) access_of_iff [of "Reset_Data u"] by (auto simp: access_of_simps dest: lookup_SomeD)
    have "alike reading (pan_base_url p) h (up_http up)" using reads by (simp add: alike_def reading_def)
    from guard_alike [OF this] have "subscriber_guard (up\<lparr>up_http := h\<rparr>) now a org p u = subscriber_guard up now a org p u" .
    moreover have "\<exists>e S'. subscriber_guard up now a org p u (open_session s) = (Inl e, S')"
      by (rule foreign_guard) (use buyer [OF that(1)] foreign [OF that(1)] p in auto)
    ultimately show ?thesis by auto
  qed
  from op show ?thesis
  proof
    assume "op = Reset_Data u"
    then show ?thesis unfolding panel_step.simps routes
      by (simp only: panel_step.simps routes) (rule refused_body [OF _ access_reads(2)], drule (1) guard, auto)
  next
    assume "op = User_Enabled u v"
    then show ?thesis unfolding panel_step.simps routes
      by (simp only: panel_step.simps routes) (rule refused_body [OF _ access_reads(2)], drule (1) guard,
        auto simp: with_flag_def raised_def split: sum.split)
  qed
qed

text \<open>What registration does to the tables.\<close>

lemma sealed_Inr:
  "sealed up v s = (Inr r, s') \<longleftrightarrow> s' = s \<and> encrypt_secret (up_encrypt up) (up_getenv up ''APP_ENCRYPTION_KEY'') v = Inr r"
  by (auto simp: sealed_def split: sum.split)

text \<open>What is stored of a secret: its encryption under the master key, tagged.\<close>

definition sealed_ref :: "upstream \<Rightarrow> string option \<Rightarrow> string option" where
  "sealed_ref up v = (if truthy v then Some (PREFIX @ up_encrypt up (up_getenv up ''APP_ENCRYPTION_KEY'') (the v)) else None)"

lemma encrypt_secret_exact:
  "encrypt_secret (up_encrypt up) (up_getenv up ''APP_ENCRYPTION_KEY'') v = Inr r \<Longrightarrow>
    r = sealed_ref up v \<and> (truthy v \<longrightarrow> 32 \<le> length (up_getenv up ''APP_ENCRYPTION_KEY''))"
  by (auto simp: encrypt_secret_def sealed_ref_def truthy_def fernet_def split: option.splits if_splits sum.splits)

lemma register_panel_Inr:
  assumes run: "register_panel up now url x org s = (Inr p, s')"
  shows "panels s' = panels s @ [p]" "pan_id p = next_uid s" "pan_status p = ''active''" "\<not> pan_saleable p"
    "pan_base_url p = url" "pan_verify_tls p = wp_verify_tls x" "0 < pan_usage_coefficient p \<and> pan_usage_coefficient p \<le> 1000"
    "pan_api_key_ref p = sealed_ref up (Some (wp_api_key x)) \<and> pan_owner_user_ref p = sealed_ref up (wp_owner_username x) \<and>
      pan_owner_pass_ref p = sealed_ref up (wp_owner_password x) \<and>
      (\<forall>v \<in> {Some (wp_api_key x), wp_owner_username x, wp_owner_password x}.
        truthy v \<longrightarrow> 32 \<le> length (up_getenv up ''APP_ENCRYPTION_KEY''))"
    "panel_owners s' = panel_owners s @ [\<lparr>own_panel_id = pan_id p, own_organization_id = org_id org\<rparr>]"
    "wp_pg_admin_id x = None \<and> bindings s' = bindings s \<or> binding_of s (org_id org) = None \<and>
      (\<exists>b. bindings s' = bindings s @ [b] \<and> bnd_organization_id b = org_id org \<and> bnd_panel_id b = pan_id p \<and>
        wp_pg_admin_id x = Some (bnd_pg_admin_id b))"
    "pan_usage_coefficient p = numeric4 (wp_usage_coefficient x)"
proof -
  from run obtain k u w where
    refs: "encrypt_secret (up_encrypt up) (up_getenv up ''APP_ENCRYPTION_KEY'') (Some (wp_api_key x)) = Inr k"
      "encrypt_secret (up_encrypt up) (up_getenv up ''APP_ENCRYPTION_KEY'') (wp_owner_username x) = Inr u"
      "encrypt_secret (up_encrypt up) (up_getenv up ''APP_ENCRYPTION_KEY'') (wp_owner_password x) = Inr w"
    and p: "p = (new_panel (next_uid s) (wp_name x) url (wp_usage_coefficient x) (wp_verify_tls x))
      \<lparr>pan_api_key_ref := k, pan_owner_user_ref := u, pan_owner_pass_ref := w\<rparr>"
    and ok: "coefficient_ok (pan_usage_coefficient p)"
    and rows: "panels s' = panels s @ [p]"
      "panel_owners s' = panel_owners s @ [\<lparr>own_panel_id = pan_id p, own_organization_id = org_id org\<rparr>]"
      "wp_pg_admin_id x = None \<and> bindings s' = bindings s \<or> binding_of s (org_id org) = None \<and>
        (\<exists>b. bindings s' = bindings s @ [b] \<and> bnd_organization_id b = org_id org \<and> bnd_panel_id b = pan_id p \<and>
          wp_pg_admin_id x = Some (bnd_pg_admin_id b))"
    unfolding register_panel_def
    by (cases "wp_pg_admin_id x") (auto simp: bindr_Inr_iff sealed_Inr Let_def add_panel_def add_binding_def)
  have numeric4_again: "numeric4 (numeric4 c) = numeric4 c" for c by (simp add: numeric4_def) (simp add: floor_unique)
  show "panels s' = panels s @ [p]"
    "panel_owners s' = panel_owners s @ [\<lparr>own_panel_id = pan_id p, own_organization_id = org_id org\<rparr>]"
    "wp_pg_admin_id x = None \<and> bindings s' = bindings s \<or> binding_of s (org_id org) = None \<and>
        (\<exists>b. bindings s' = bindings s @ [b] \<and> bnd_organization_id b = org_id org \<and> bnd_panel_id b = pan_id p \<and>
          wp_pg_admin_id x = Some (bnd_pg_admin_id b))" by fact+
  show "pan_id p = next_uid s" "pan_status p = ''active''" "\<not> pan_saleable p" "pan_base_url p = url"
    "pan_verify_tls p = wp_verify_tls x" "pan_usage_coefficient p = numeric4 (wp_usage_coefficient x)"
    by (simp_all add: p new_panel_def)
  show "0 < pan_usage_coefficient p \<and> pan_usage_coefficient p \<le> 1000"
    using ok by (simp add: p new_panel_def coefficient_ok_def numeric4_again)
  show "pan_api_key_ref p = sealed_ref up (Some (wp_api_key x)) \<and> pan_owner_user_ref p = sealed_ref up (wp_owner_username x) \<and>
      pan_owner_pass_ref p = sealed_ref up (wp_owner_password x) \<and>
      (\<forall>v \<in> {Some (wp_api_key x), wp_owner_username x, wp_owner_password x}.
        truthy v \<longrightarrow> 32 \<le> length (up_getenv up ''APP_ENCRYPTION_KEY''))"
    using refs [THEN encrypt_secret_exact] by (simp add: p)
qed

lemma validate_panel_url_state:
  "validate_panel_url urlsplit url s = (fst (validate_panel_url urlsplit url ()), s)"
  by (simp add: validate_panel_url_def raised_def returned_def split: option.split)

text \<open>The client of the test request: the credentials of the form.\<close>

definition test_client :: "web_panel_in \<Rightarrow> client" where
  "test_client x = \<lparr>cl_base_url = rstrip_slash (wp_base_url x), cl_api_key = Some (wp_api_key x),
      cl_owner_username = wp_owner_username x, cl_owner_password = wp_owner_password x, cl_verify_tls = wp_verify_tls x\<rparr>"

lemma web_create_panel_cases:
  assumes run: "web_create_panel up urlsplit root_env now x ident s = (r, s')"
  obtains (refused) e where "r = Inl e" "s' = s"
  | (registered) a m org p probe where "manager root_env (user_id ident) ''manage_servers'' s = (Inr (a, m, org), s)"
      "validate_panel_url urlsplit (wp_base_url x) s = (Inr (), s)"
      "wp_verify_tls x \<or> effective_role root_env (user_id ident) (Some (mem_role m)) = ''system_admin''"
      "register_panel up now (rstrip_slash (wp_base_url x)) x org s = (Inr p, s')"
      "r = (case nodes_detected probe of Inl e \<Rightarrow> Inl e | Inr n \<Rightarrow> Inr (pan_id p, n))"
      "pg_nodes (up_http up) (test_client x) = Answer probe"
proof -
  obtain q where man: "manager root_env (user_id ident) ''manage_servers'' s = (q, s)" using manager_reads by (metis prod.exhaust)
  then have session: "in_session (manager root_env (user_id ident) ''manage_servers'') (open_session s) = (q, open_session s)"
    by (simp add: in_session_reads)
  show thesis
  proof (cases q)
    case (Inl e)
    with run session show thesis by (intro refused [of e]) (auto simp: web_create_panel_def request_def)
  next
    case (Inr y)
    obtain a m org where y: "y = (a, m, org)" by (cases y) auto
    define v where "v = fst (validate_panel_url urlsplit (wp_base_url x) ())"
    have url: "validate_panel_url urlsplit (wp_base_url x) t = (v, t)" for t :: session
      unfolding v_def by (rule validate_panel_url_state)
    have url': "validate_panel_url urlsplit (wp_base_url x) s = (v, s)"
      unfolding v_def by (rule validate_panel_url_state)
    obtain t s1 where reg: "register_panel up now (rstrip_slash (wp_base_url x)) x org s = (t, s1)" by fastforce
    then have reg': "in_session (register_panel up now (rstrip_slash (wp_base_url x)) x org) (open_session s) =
        (t, (open_session s)\<lparr>current := s1\<rparr>)" by (simp add: in_session_def)
    note c_def = test_client_def [of x]
    let ?c = "test_client x"
    define tls where "tls \<longleftrightarrow> wp_verify_tls x \<or> effective_role root_env (user_id ident) (Some (mem_role m)) = ''system_admin''"
    have steps: "web_create_panel up urlsplit root_env now x ident s = (case v of
        Inl e \<Rightarrow> (Inl e, s)
      | Inr u \<Rightarrow> if \<not> tls then (Inl (HTTPException 403 ''only the system administrator may disable TLS verification''), s)
          else (case pg_nodes (up_http up) ?c of
            Answer probe \<Rightarrow> (case t of Inl e \<Rightarrow> (Inl e, s)
              | Inr p \<Rightarrow> (case nodes_detected probe of Inl e \<Rightarrow> Inl e | Inr n \<Rightarrow> Inr (pan_id p, n), s1))
          | _ \<Rightarrow> (Inl (HTTPException 422 ''PasarGuard connection failed: the server did not answer the test request''), s)))"
      unfolding web_create_panel_def request_def session Inr y
      by (simp add: url bindr_require Let_def reg' raised_def returned_def commit_def flip: c_def tls_def
          split: sum.split answer.split)
    show thesis
    proof (cases "v = Inr () \<and> tls \<and> (\<exists>probe p. pg_nodes (up_http up) ?c = Answer probe \<and> t = Inr p)")
      case True
      then show thesis using run steps registered man Inr y url' reg by (auto simp: tls_def)
    next
      case False
      then show thesis using run steps refused by (auto split: sum.splits if_splits answer.splits)
    qed
  qed
qed

text \<open>
  C32: a registered panel is sealed and owned. When a registration leaves anything behind, the caller may
  manage servers, the URL is HTTPS without credentials, and certificate checks are off only for a system
  administrator; the new row has the address and the coefficient of the form, in (0, 1000], is active, not on sale,
  stores of each of the three secrets its encryption under the master key of at least 32 characters or, of an empty
  one, nothing, and is owned by the caller's organization and nobody else, which reaches it at once and gets a
  billing binding exactly when the form names an admin, which it may only when it had none. It answered the test request with the form's
  credentials, and the call returns the new id and the number of nodes found when the answer is an object. A raised
  error leaves nothing behind - except when the answer is something other than an object: then the panel is
  registered although the call raises \<open>AttributeError\<close>. Identifiers are drawn in order, so no row has the next one.
\<close>

theorem registered_panel_is_sealed_and_owned:
  assumes run: "web_create_panel up urlsplit root_env now x ident s = (r, s')"
    and ids: "\<And>p. p \<in> set (panels s) \<Longrightarrow> pan_id p < next_uid s"
      "\<And>l. l \<in> set (panel_owners s) \<Longrightarrow> own_panel_id l < next_uid s"
  shows "(\<exists>e. r = Inl e \<and> s' = s) \<or>
    (\<exists>a m org p u. manager root_env (user_id ident) ''manage_servers'' s = (Inr (a, m, org), s) \<and>
      urlsplit (wp_base_url x) = Some u \<and> url_scheme u = ''https'' \<and> \<not> truthy (url_username u) \<and> \<not> truthy (url_password u) \<and>
      (\<not> pan_verify_tls p \<longrightarrow> effective_role root_env (user_id ident) (Some (mem_role m)) = ''system_admin'') \<and>
      get_panel s (pan_id p) = None \<and> owned_panel (pan_id p) (org_id org) s' = (Inr p, s') \<and> \<not> on_sale p \<and>
      pan_base_url p = rstrip_slash (wp_base_url x) \<and> pan_verify_tls p = wp_verify_tls x \<and>
      pan_usage_coefficient p = numeric4 (wp_usage_coefficient x) \<and>
      0 < pan_usage_coefficient p \<and> pan_usage_coefficient p \<le> 1000 \<and>
      (pan_api_key_ref p = sealed_ref up (Some (wp_api_key x)) \<and> pan_owner_user_ref p = sealed_ref up (wp_owner_username x) \<and>
       pan_owner_pass_ref p = sealed_ref up (wp_owner_password x) \<and>
       (\<forall>v \<in> {Some (wp_api_key x), wp_owner_username x, wp_owner_password x}.
          truthy v \<longrightarrow> 32 \<le> length (up_getenv up ''APP_ENCRYPTION_KEY''))) \<and>
      (\<forall>w. panel_is_mine s' (pan_id p) w \<longleftrightarrow> w = org_id org) \<and>
      (wp_pg_admin_id x = None \<and> bindings s' = bindings s \<or> binding_of s (org_id org) = None \<and>
         (\<exists>b. bindings s' = bindings s @ [b] \<and> bnd_organization_id b = org_id org \<and> bnd_panel_id b = pan_id p \<and>
            wp_pg_admin_id x = Some (bnd_pg_admin_id b))) \<and>
      (\<exists>probe. pg_nodes (up_http up) (test_client x) = Answer probe \<and>
         r = (case probe of JObj fs \<Rightarrow> Inr (pan_id p, case field ''nodes'' fs of Some (JList xs) \<Rightarrow> length xs | _ \<Rightarrow> 0)
                | _ \<Rightarrow> Inl (AttributeError ''get''))))"
proof (rule web_create_panel_cases [OF run])
  fix a m org p probe
  assume man: "manager root_env (user_id ident) ''manage_servers'' s = (Inr (a, m, org), s)"
    and url: "validate_panel_url urlsplit (wp_base_url x) s = (Inr (), s)"
    and tls: "wp_verify_tls x \<or> effective_role root_env (user_id ident) (Some (mem_role m)) = ''system_admin''"
    and reg: "register_panel up now (rstrip_slash (wp_base_url x)) x org s = (Inr p, s')"
    and r: "r = (case nodes_detected probe of Inl e \<Rightarrow> Inl e | Inr n \<Rightarrow> Inr (pan_id p, n))"
    and probed: "pg_nodes (up_http up) (test_client x) = Answer probe"
  note made = register_panel_Inr [OF reg]
  obtain u where u: "urlsplit (wp_base_url x) = Some u" "url_scheme u = ''https''"
    "\<not> truthy (url_username u)" "\<not> truthy (url_password u)"
    using url by (auto simp: validate_panel_url_def split: option.splits if_splits)
  have none: "get_panel s (pan_id p) = None" using ids(1) made(2) by (fastforce simp: lookup_None_iff)
  then have got: "get_panel s' (pan_id p) = Some p" using made(1) by (simp add: lookup_append)
  have owner: "panel_is_mine s' (pan_id p) w \<longleftrightarrow> w = org_id org" for w
    using ids(2) made(2,9) by (fastforce simp: panel_is_mine_def has_def)
  have "owned_panel (pan_id p) (org_id org) s' = (Inr p, s')"
    using got owner made(3) by (simp add: owned_panel_def active_panel_if_def)
  moreover have "r = (case probe of JObj fs \<Rightarrow> Inr (pan_id p, case field ''nodes'' fs of Some (JList xs) \<Rightarrow> length xs | _ \<Rightarrow> 0)
      | _ \<Rightarrow> Inl (AttributeError ''get''))"
    using r by (simp add: nodes_detected_def split: json.split)
  moreover have "\<not> on_sale p" using made(4) by (simp add: on_sale_def)
  moreover have "\<not> pan_verify_tls p \<longrightarrow> effective_role root_env (user_id ident) (Some (mem_role m)) = ''system_admin''"
    using tls made(6) by auto
  ultimately show ?thesis using man u none owner made(5,6,7,8,10) made(11) probed by blast
qed simp

end
