(* ===== verification/Bot_Desk.thy ===== *)
theory Bot_Desk
  imports Bot_Menu Catalog Panels
begin

text \<open>
  What the Telegram bot reads and writes (\<open>telegram_consumer.py\<close>): the views behind its messages, with
  the buttons under them, and the operations behind its buttons. The operations call the same core as
  the WebApp routes, guarded by the bot's own resolution of the chat.

  A message is the data its text is rendered from; the Persian sentences themselves are left out.
\<close>

section \<open>Messages\<close>

record bot_dashboard =
  bd_name :: string
  bd_balance_irr :: int
  bd_credit_irr :: int
  bd_lifetime_bytes :: int
  bd_direct_children :: nat
  bd_totals :: "(nat \<times> nat \<times> nat \<times> nat) option"
    \<comment> \<open>for an administrator: organizations, active panels, open funding requests, open orders\<close>

record customer_view =
  cw_name :: string
  cw_panel_name :: "string option"
  cw_balance_irr :: int
  cw_credit_irr :: int
  cw_lifetime_bytes :: int

datatype message =
    Say string
  | Refused string
  | Failed string
  | Show_Dashboard bot_dashboard
  | Show_Servers "panel list"
  | Show_Catalog "plan_category list" "plan_view list"
  | Pick_Panel "panel list"
  | Pick_Shelf "plan_category list"
  | Show_Nodes string "json list"
  | Node_Status json
  | Show_Resellers "(organization \<times> int \<times> int option) list"
  | Show_Transactions "(bool \<times> int \<times> string) list"
  | Show_Funding "(string \<times> int) list"
  | Show_Approvals "(string \<times> int \<times> string) list"
  | Show_Choice "(uid \<times> string) list" "plan_view list"
  | Show_Order order_view "int option"
  | Show_Queue string "(order_view \<times> int option) list"
  | Show_Customer customer_view
  | Show_My_Orders "order_view list"
  | Order_Placed order_view
  | Order_Notice order_view
  | Quote_Notice order_view
  | Payment_Notice order_view
  | Approval_Notice int string
  | Topup_Notice string int
  | Shelf_Made string message
  | Plan_Made plan_view message
  | Reseller_Made string
  | Reseller_Failed error
  | Plan_Chosen plan_view
  | Your_Access string "string list"
  | Your_Id int

section \<open>Identifiers and numbers in a button\<close>

text \<open>
  An identifier comes back as text. A text that is the identifier of no row finds none, like the
  number that is not drawn yet.
\<close>

definition id_in :: "db \<Rightarrow> string \<Rightarrow> uid" where
  "id_in s t = (if dec (undec t) = t then undec t else next_uid s)"

text \<open>\<open>int(text)\<close> of an ASCII text: a sign, digits, single underscores between digits.\<close>

fun split_under :: "string \<Rightarrow> string list" where
  "split_under [] = [[]]"
| "split_under (c # cs) = (if c = CHR ''_'' then [] # split_under cs
     else (case split_under cs of [] \<Rightarrow> [[c]] | x # xs \<Rightarrow> (c # x) # xs))"

definition py_int :: "string \<Rightarrow> int option" where
  "py_int text = (let t = strip text; minus = (take 1 t = ''-''); digits = (if minus \<or> take 1 t = ''+'' then drop 1 t else t)
     in if list_all isdigit (split_under digits)
        then Some ((if minus then -1 else 1) * int (undec (concat (split_under digits)))) else None)"

section \<open>Views\<close>

definition wallet_irr :: "db \<Rightarrow> uid \<Rightarrow> int" where
  "wallet_irr s w = (case lookup acc_owner_key (Org w) (accounts s) of None \<Rightarrow> 0 | Some a \<Rightarrow> acc_balance_irr a)"

definition lifetime_of :: "db \<Rightarrow> uid \<Rightarrow> int" where
  "lifetime_of s w = (case Option.bind (binding_of s w) (\<lambda>b. get_checkpoint s (bnd_id b)) of
     None \<Rightarrow> 0 | Some c \<Rightarrow> chk_lifetime_bytes c)"

definition bot_dashboard :: "string \<Rightarrow> int \<Rightarrow> bool \<Rightarrow> db \<Rightarrow> (message, db) res" where
  "bot_dashboard root_env chat admin s = bindr (require_context root_env chat s) (\<lambda>c s.
     bindr (require_some (get_organization s (cx_organization_id c)) (AttributeError ''id'') s) (\<lambda>org s.
       returned (Show_Dashboard \<lparr>bd_name = org_name org, bd_balance_irr = wallet_irr s (org_id org),
         bd_credit_irr = org_credit_limit_irr org, bd_lifetime_bytes = lifetime_of s (org_id org),
         bd_direct_children = count (\<lambda>r. org_parent_id r = Some (org_id org)) (organizations s),
         bd_totals = (if admin then Some (length (organizations s), count (\<lambda>r. pan_status r = ''active'') (panels s),
           count (\<lambda>r. fun_status r = ''pending'') (funding_requests s),
           count (\<lambda>r. ord_status r = ''pending'') (panel_orders s)) else None)\<rparr>) s))"

definition owned_panels :: "db \<Rightarrow> uid \<Rightarrow> panel list" where
  "owned_panels s w = sort_key pan_name (filter (\<lambda>p. panel_is_mine s (pan_id p) w) (panels s))"

definition menu_line :: "button list" where
  "menu_line = [Call (Open_Section ''menu'')]"

definition server_list :: "string \<Rightarrow> string \<Rightarrow> int \<Rightarrow> db \<Rightarrow> (message \<times> markup option, db) res" where
  "server_list webapp root_env chat s = bindr (require_context root_env chat s) (\<lambda>c s.
     let rows = take 20 (owned_panels s (cx_organization_id c)) in
     if rows = [] then returned (Say ''no server is registered yet'', panel_button webapp) s
     else returned (Show_Servers rows, Some (Inline_Keyboard
       (concat (map (\<lambda>p. [[Call (List_Nodes (dec (pan_id p)))], [Call (Set_Sale (dec (pan_id p)) (\<not> pan_saleable p))]]) rows) @
        [[Web_App webapp], menu_line]))) s)"

definition set_saleable :: "string \<Rightarrow> int \<Rightarrow> int \<Rightarrow> uid \<Rightarrow> bool \<Rightarrow> db \<Rightarrow> (string, db) res" where
  "set_saleable root_env now chat i saleable = transact (\<lambda>s.
     bindr (permitted_context ''manage_servers'' root_env chat s) (\<lambda>c s.
     bindr (require_some (if panel_is_mine s i (cx_organization_id c) then get_panel s i else None)
         (PermissionError ''the server was not found or is not yours'') s) (\<lambda>p s.
       returned (if saleable then ''the server is open for orders'' else ''the server left the sale list'')
         (audit now ''panel.saleable'' ''panel'' (Some (pan_id p)) (Some (cx_actor_id c)) (Some (cx_organization_id c))
           [(''saleable'', JBool saleable)]
           (s\<lparr>panels := modify pan_id (pan_id p) (\<lambda>p. p\<lparr>pan_saleable := saleable\<rparr>) (panels s)\<rparr>)))))"

abbreviation catalog_ctx :: "string \<Rightarrow> int \<Rightarrow> db \<Rightarrow> (bot_context, db) res" where
  "catalog_ctx \<equiv> permitted_context ''manage_catalog''"

definition shelves_of :: "db \<Rightarrow> uid \<Rightarrow> plan_category list" where
  "shelves_of s w = sort_key cat_name (filter (\<lambda>c. cat_organization_id c = w) (plan_categories s))"

definition catalog_list :: "string \<Rightarrow> int \<Rightarrow> db \<Rightarrow> (message \<times> markup option, db) res" where
  "catalog_list root_env chat s = bindr (catalog_ctx root_env chat s) (\<lambda>c s.
     let w = cx_organization_id c;
         shelves = shelves_of s w;
         names = map_of (map (\<lambda>p. (pan_id p, pan_name p)) (filter (\<lambda>p. panel_is_mine s (pan_id p) w) (panels s)));
         rows = map (\<lambda>p. plan_row p (names (plan_panel_id p)))
           (sort_key plan_price_per_gib_irr (filter (\<lambda>p. plan_organization_id p = w) (plans s)))
     in returned (Show_Catalog shelves rows, Some (Inline_Keyboard
          (map (\<lambda>c. [Call (Toggle_Shelf (dec (cat_id c)))]) shelves @
           map (\<lambda>r. [Call (Toggle_Plan (dec (plan_id (pv_plan r))))]) rows @
           [[Call New_Shelf, Call New_Plan], menu_line]))) s)"

definition toggle_catalog :: "string \<Rightarrow> int \<Rightarrow> int \<Rightarrow> string \<Rightarrow> uid \<Rightarrow> db \<Rightarrow> (string, db) res" where
  "toggle_catalog root_env now chat kind i = transact (\<lambda>s.
     bindr (catalog_ctx root_env chat s) (\<lambda>c s.
     bindr (require_some (if kind = ''category'' then map_option cat_status (get_category s i)
          else map_option plan_status (get_plan s i)) (PermissionError ''this is not in your catalog'') s) (\<lambda>st s.
     bindr (as_permission (set_catalog_status now (cx_organization_id c) (cx_actor_id c) kind i
          (if st \<noteq> ''active'' then ''active'' else ''inactive'') s)) (\<lambda>_.
       returned (if st \<noteq> ''active'' then ''opened'' else ''closed'')))))"

text \<open>UTF-8, as the database stores a text.\<close>

definition utf8_char :: "nat \<Rightarrow> string" where
  "utf8_char c = map char_of
     (if c < 128 then [c]
      else if c < 2048 then [192 + c div 64, 128 + c mod 64]
      else if c < 65536 then [224 + c div 4096, 128 + c div 64 mod 64, 128 + c mod 64]
      else [240 + c div 262144, 128 + c div 4096 mod 64, 128 + c div 64 mod 64, 128 + c mod 64])"

definition utf8 :: "chat_text \<Rightarrow> string" where
  "utf8 v = concat (map utf8_char v)"

text \<open>The lengths a form allows count code points; an answer outside raises a \<open>ValidationError\<close>.\<close>

definition validated :: "bool \<Rightarrow> 's \<Rightarrow> (unit, 's) res" where
  "validated ok = require ok (ValueError ''validation error'')"

definition create_shelf :: "string \<Rightarrow> int \<Rightarrow> int \<Rightarrow> chat_text \<Rightarrow> chat_text \<Rightarrow> db \<Rightarrow> (string, db) res" where
  "create_shelf root_env now chat name description = transact (\<lambda>s.
     bindr (catalog_ctx root_env chat s) (\<lambda>c s.
     bindr (validated (2 \<le> length name \<and> length name \<le> 80 \<and> length description \<le> 500) s) (\<lambda>_ s.
     bindr (as_permission (create_plan_category now (cx_organization_id c) (cx_actor_id c)
          \<lparr>ci_name = utf8 name, ci_description = utf8 description\<rparr> s)) (\<lambda>category. returned (cat_name category)))))"

definition pick_plan :: "db \<Rightarrow> uid \<Rightarrow> plan_view option" where
  "pick_plan s i = List.find (\<lambda>row. plan_id (pv_plan row) = i) (saleable_plan_rows s)"

text \<open>The answers of the plan questions.\<close>

record plan_answers =
  pa_panel_id :: uid
  pa_category_id :: "uid option"
  pa_name :: chat_text
  pa_price_per_gib_irr :: int
  pa_daily_gib :: int
  pa_duration_days :: int
  pa_user_count :: int
  pa_credit_limit_irr :: int
  pa_instructions :: chat_text

definition plan_form :: "plan_answers \<Rightarrow> plan_in" where
  "plan_form x = \<lparr>pl_panel_id = pa_panel_id x, pl_category_id = pa_category_id x, pl_name = utf8 (pa_name x),
     pl_description = [], pl_price_per_gib_irr = pa_price_per_gib_irr x, pl_daily_gib = pa_daily_gib x,
     pl_duration_days = pa_duration_days x, pl_user_count = pa_user_count x,
     pl_credit_limit_irr = pa_credit_limit_irr x, pl_payment_instructions = utf8 (pa_instructions x)\<rparr>"

definition plan_valid :: "plan_answers \<Rightarrow> bool" where
  "plan_valid x \<longleftrightarrow> 2 \<le> length (pa_name x) \<and> length (pa_name x) \<le> 120 \<and>
     0 < pa_price_per_gib_irr x \<and> pa_price_per_gib_irr x \<le> 10000000000000 \<and>
     0 < pa_daily_gib x \<and> pa_daily_gib x \<le> 100000 \<and> 0 < pa_duration_days x \<and> pa_duration_days x \<le> 3650 \<and>
     0 < pa_user_count x \<and> pa_user_count x \<le> 100000 \<and> 0 \<le> pa_credit_limit_irr x \<and>
     length (pa_instructions x) \<le> 2000"

definition save_plan :: "string \<Rightarrow> int \<Rightarrow> int \<Rightarrow> plan_answers \<Rightarrow> db \<Rightarrow> (plan_view, db) res" where
  "save_plan root_env now chat x = transact (\<lambda>s.
     bindr (catalog_ctx root_env chat s) (\<lambda>c s.
     bindr (validated (plan_valid x) s) (\<lambda>_ s.
     bindr (as_permission (create_catalog_plan now (cx_organization_id c) (cx_actor_id c) (plan_form x) s)) (\<lambda>pl s.
     bindr (require_some (get_panel s (plan_panel_id pl)) (AttributeError ''name'') s) (\<lambda>p.
       returned (plan_row pl (Some (pan_name p))))))))"

definition catalog_panels :: "string \<Rightarrow> int \<Rightarrow> db \<Rightarrow> (message \<times> markup option, db) res" where
  "catalog_panels root_env chat s = bindr (catalog_ctx root_env chat s) (\<lambda>c s.
     let rows = filter (\<lambda>p. pan_status p = ''active'') (owned_panels s (cx_organization_id c)) in
     bindr (require (rows \<noteq> []) (PermissionError ''register a server in the web application first'') s) (\<lambda>_.
       returned (Pick_Panel (take 15 rows), Some (Inline_Keyboard
         (map (\<lambda>p. [Call (Select_Panel (dec (pan_id p)))]) (take 15 rows) @ [[Call (Open_Section ''catalog'')]])))))"

definition catalog_shelves :: "string \<Rightarrow> int \<Rightarrow> db \<Rightarrow> (message \<times> markup option, db) res" where
  "catalog_shelves root_env chat s = bindr (catalog_ctx root_env chat s) (\<lambda>c s.
     let rows = shelves_of s (cx_organization_id c)
     in returned (Pick_Shelf (take 15 rows), Some (Inline_Keyboard
          (map (\<lambda>c. [Call (Select_Shelf (dec (cat_id c)))]) (take 15 rows) @ [[Call (Select_Shelf [])]]))) s)"

section \<open>Servers and nodes\<close>

definition bot_panel :: "string \<Rightarrow> int \<Rightarrow> uid \<Rightarrow> db \<Rightarrow> (bot_context \<times> panel, db) res" where
  "bot_panel root_env chat i s = bindr (require_context root_env chat s) (\<lambda>c s.
     bindr (require_some (if panel_is_mine s i (cx_organization_id c) then get_panel s i else None)
         (PermissionError ''the server was not found or is not active'') s) (\<lambda>p s.
     bindr (require (pan_status p = ''active'') (PermissionError ''the server was not found or is not active'') s) (\<lambda>_.
       returned (c, p))))"

definition run_panel_operation ::
  "int \<Rightarrow> bot_context \<Rightarrow> panel \<Rightarrow> string \<Rightarrow> (panel \<Rightarrow> 'a answer) \<Rightarrow> (string \<times> json) list \<Rightarrow> session \<Rightarrow> ('a, session) res"
where
  "run_panel_operation now c p action run metadata S =
     as_permission (panel_operation now run p (cx_organization_id c) action (Some (cx_actor_id c)) metadata S)"

text \<open>\<open>str(value)\<close> in an f-string; what Python prints for other JSON values is a parameter.\<close>

definition node_text :: "(json \<Rightarrow> string) \<Rightarrow> json \<Rightarrow> string" where
  "node_text py_str v = (case v of JInt n \<Rightarrow> pystr n | JStr t \<Rightarrow> t | _ \<Rightarrow> py_str v)"

definition node_on :: "(string \<times> json) list \<Rightarrow> bool" where
  "node_on fs = (let enabled = (case field ''enable'' fs of Some v \<Rightarrow> v
       | None \<Rightarrow> (case field ''status'' fs of None \<Rightarrow> JNull | Some v \<Rightarrow> v))
     in enabled \<in> {JBool True, JInt 1, JDecimal 1, JStr ''online'', JStr ''active''})"

text \<open>The lines of buttons of one node; a node without an id has none, an item that is no object raises.\<close>

definition node_buttons :: "(json \<Rightarrow> string) \<Rightarrow> string \<Rightarrow> json \<Rightarrow> error + button list list" where
  "node_buttons py_str panel_ref node = (case node of
     JObj fs \<Rightarrow> (case field ''id'' fs of
         None \<Rightarrow> Inr []
       | Some JNull \<Rightarrow> Inr []
       | Some v \<Rightarrow> (let i = node_text py_str v; b = (\<lambda>a. Call (Node_Operation panel_ref i a)) in
           Inr [[b ''reconnect'', b (if node_on fs then ''disable'' else ''enable'')], [b ''reset'', b ''status'']]))
   | _ \<Rightarrow> Inl (AttributeError ''get''))"

fun all_buttons :: "(json \<Rightarrow> error + button list list) \<Rightarrow> json list \<Rightarrow> error + button list list" where
  "all_buttons f [] = Inr []"
| "all_buttons f (x # xs) = (case f x of
     Inl e \<Rightarrow> Inl e
   | Inr ls \<Rightarrow> (case all_buttons f xs of Inl e \<Rightarrow> Inl e | Inr rest \<Rightarrow> Inr (ls @ rest)))"

definition node_list ::
  "upstream \<Rightarrow> (json \<Rightarrow> string) \<Rightarrow> string \<Rightarrow> int \<Rightarrow> int \<Rightarrow> uid \<Rightarrow> string \<Rightarrow> db \<Rightarrow> (message \<times> markup option, db) res"
where
  "node_list up py_str root_env now chat i panel_ref = request (\<lambda>S.
     bindr (in_session (bot_panel root_env chat i) S) (\<lambda>(c, p) S.
     bindr (run_panel_operation now c p ''panel.nodes.read'' (via up pg_nodes) [] S) (\<lambda>v S.
       case unwrap v ''nodes'' of
         Inl e \<Rightarrow> raised e S
       | Inr xs \<Rightarrow> (case all_buttons (node_buttons py_str panel_ref) (take 20 xs) of
           Inl e \<Rightarrow> raised e S
         | Inr ls \<Rightarrow> returned (Show_Nodes (pan_name p) (take 20 xs),
             Some (Inline_Keyboard (ls @ [[Call (Open_Section ''servers'')]]))) S))))"

definition NODE_OPERATIONS :: "string \<Rightarrow> (string \<times> (transport \<Rightarrow> client \<Rightarrow> int \<Rightarrow> json answer) \<times> string) option" where
  "NODE_OPERATIONS = map_of
     [(''enable'', ''node.enable'', (\<lambda>h c i. set_node_enabled h c i True), ''the node was turned on''),
      (''disable'', ''node.disable'', (\<lambda>h c i. set_node_enabled h c i False), ''the node was turned off''),
      (''reconnect'', ''node.reconnect'', reconnect_node, ''the node was told to reconnect''),
      (''reset'', ''node.reset'', reset_node, ''the node was told to reset'')]"

text \<open>
  The reply is a sentence, or the status the node reported. The permission \<open>node_control\<close> is not asked
  for: the chat's organization must own the server.
\<close>

definition node_action ::
  "upstream \<Rightarrow> string \<Rightarrow> int \<Rightarrow> int \<Rightarrow> uid \<Rightarrow> string \<Rightarrow> string \<Rightarrow> db \<Rightarrow> (message, db) res"
where
  "node_action up root_env now chat i node_ref action =
    (case (if action = ''status'' then Some (''node.status.read'', node_status, []) else NODE_OPERATIONS action) of
       None \<Rightarrow> raised (PermissionError ''invalid operation'')
     | Some (audited, run, reply) \<Rightarrow> request (\<lambda>S.
         bindr (in_session (bot_panel root_env chat i) S) (\<lambda>(c, p) S.
         bindr (require_some (py_int node_ref) (ValueError ''invalid literal for int()'') S) (\<lambda>n S.
         bindr (run_panel_operation now c p audited (via up (\<lambda>h cl. run h cl n)) [(''node_id'', JInt n)] S) (\<lambda>v.
           returned (if action = ''status'' then Node_Status v else Say reply))))))"

section \<open>Resellers and money\<close>

definition telegram_of :: "db \<Rightarrow> uid \<Rightarrow> int option" where
  "telegram_of s w = map_option act_telegram_id (List.find (\<lambda>a. has (\<lambda>m. mem_actor_id m = act_id a \<and>
     mem_organization_id m = w) (memberships s)) (actors s))"

definition reseller_list :: "string \<Rightarrow> int \<Rightarrow> db \<Rightarrow> (message \<times> markup option, db) res" where
  "reseller_list root_env chat s = bindr (require_context root_env chat s) (\<lambda>c s.
     let rows = take 30 (sort_key (\<lambda>x. - org_created_at x)
           (filter (\<lambda>x. org_parent_id x = Some (cx_organization_id c)) (organizations s)))
     in returned (Show_Resellers (map (\<lambda>x. (x, wallet_irr s (org_id x), telegram_of s (org_id x))) rows),
          Some (Inline_Keyboard [[Call (Open_Section ''new_reseller''), Call (Open_Section ''funding'')], menu_line])) s)"

definition bot_transactions :: "string \<Rightarrow> int \<Rightarrow> db \<Rightarrow> (message, db) res" where
  "bot_transactions root_env chat s = bindr (require_context root_env chat s) (\<lambda>c s.
     returned (Show_Transactions (case lookup acc_owner_key (Org (cx_organization_id c)) (accounts s) of
         None \<Rightarrow> []
       | Some w \<Rightarrow> take 15 (concat (map (\<lambda>tx. map (\<lambda>e. (en_side e = ''credit'', en_amount_irr e, tx_kind tx))
             (filter (\<lambda>e. en_account_id e = acc_id w) (tx_entries tx)))
           (sort_key (\<lambda>tx. - tx_created_at tx) (transactions s)))))) s)"

definition finance_menu :: "string \<Rightarrow> int \<Rightarrow> db \<Rightarrow> (message \<times> markup option, db) res" where
  "finance_menu root_env chat s = bindr (require_context root_env chat s) (\<lambda>c s.
     let line = (\<lambda>p n. if can (Some (cx_role c)) p then [[Call (Open_Section n)]] else [])
     in returned (Say ''finance'', Some (Inline_Keyboard (line ''view_finance'' ''transactions'' @
          line ''decide_funding'' ''funding'' @ line ''request_funding'' ''credit'' @ [menu_line]))) s)"

definition open_branch_funding :: "db \<Rightarrow> uid \<Rightarrow> (funding_request \<times> organization) list" where
  "open_branch_funding s w = take 20 (List.map_filter (\<lambda>r. case get_organization s (fun_organization_id r) of
       Some org \<Rightarrow> if org_parent_id org = Some w then Some (r, org) else None | None \<Rightarrow> None)
     (sort_key fun_created_at (filter (\<lambda>r. fun_status r = ''pending'') (funding_requests s))))"

definition funding_requests_view :: "string \<Rightarrow> int \<Rightarrow> db \<Rightarrow> (message \<times> markup option, db) res" where
  "funding_requests_view root_env chat s = bindr (permitted_context ''decide_funding'' root_env chat s) (\<lambda>c s.
     let rows = open_branch_funding s (cx_organization_id c) in
     if rows = [] then returned (Say ''no open funding request'', None) s
     else returned (Show_Funding (map (\<lambda>(r, org). (org_name org, fun_amount_irr r)) rows), Some (Inline_Keyboard
       (map (\<lambda>(r, org). [Call (Decide_Funding (dec (fun_id r)) True), Call (Decide_Funding (dec (fun_id r)) False)]) rows @
        [[Call (Open_Section ''finance'')]]))) s)"

definition is_parent :: "db \<Rightarrow> uid \<Rightarrow> uid \<Rightarrow> bool" where
  "is_parent s w i = (case get_organization s i of None \<Rightarrow> False | Some child \<Rightarrow> org_parent_id child = Some w)"

text \<open>A request that is gone or decided answers without an error.\<close>

definition bot_decide_funding :: "string \<Rightarrow> int \<Rightarrow> int \<Rightarrow> uid \<Rightarrow> bool \<Rightarrow> db \<Rightarrow> (string \<times> int option, db) res" where
  "bot_decide_funding root_env now chat i yes = transact (\<lambda>s.
     bindr (permitted_context ''decide_funding'' root_env chat s) (\<lambda>c s.
     case get_funding s i of
       None \<Rightarrow> returned (''already decided'', None) s
     | Some r \<Rightarrow> if fun_status r \<noteq> ''pending'' then returned (''already decided'', None) s else
         bindr (require (is_parent s (cx_organization_id c) (fun_organization_id r))
             (PermissionError ''this request belongs to another branch'') s) (\<lambda>_ s.
         bindr (if yes then bindr (transfer now SYSTEM (Org (fun_organization_id r)) (fun_amount_irr r) (funding_key i)
               ''fund'' (dec i) False (Some (cx_actor_id c)) s) (\<lambda>_. returned ())
             else returned () s) (\<lambda>_ s.
           let s1 = audit now (''funding_request.'' @ (if yes then ''approve'' else ''reject'')) ''funding_request'' (Some i)
                 (Some (cx_actor_id c)) (Some (fun_organization_id r)) [(''amount_irr'', JInt (fun_amount_irr r))]
                 (on_funding i (mark_funding (if yes then ''approved'' else ''rejected'') (cx_actor_id c) now) s)
           in returned (if yes then ''approved and funded'' else ''rejected'',
                map_option act_telegram_id (lookup act_id (fun_actor_id r) (actors s1))) s1))))"

definition approval_requests_view :: "string \<Rightarrow> int \<Rightarrow> db \<Rightarrow> (message \<times> markup option, db) res" where
  "approval_requests_view root_env chat s = bindr (permitted_context ''decide_adjustment'' root_env chat s) (\<lambda>c s.
     let rows = take 20 (sort_key apr_created_at (filter (\<lambda>r. apr_status r = ''pending'') (approval_requests s)));
         name = (\<lambda>i. case get_organization s i of None \<Rightarrow> dec i | Some org \<Rightarrow> org_name org)
     in if rows = [] then returned (Say ''no open approval request'', None) s
        else returned (Show_Approvals (map (\<lambda>r. (name (apr_target_id r), apr_amount_irr r, apr_note r)) rows),
          Some (Inline_Keyboard (map (\<lambda>r. [Call (Decide_Adjustment (dec (apr_id r)) True),
              Call (Decide_Adjustment (dec (apr_id r)) False)]) rows @ [menu_line]))) s)"

text \<open>The decision leaves no note of its own, unlike the one of the WebApp.\<close>

definition close_approval :: "string \<Rightarrow> uid \<Rightarrow> int \<Rightarrow> approval_request \<Rightarrow> approval_request" where
  "close_approval st approver now r = r\<lparr>apr_status := st, apr_approver_id := Some approver, apr_decided_at := Some now\<rparr>"

definition settle_in_chat :: "int \<Rightarrow> bool \<Rightarrow> bot_context \<Rightarrow> approval_request \<Rightarrow> db \<Rightarrow> (string, db) res" where
  "settle_in_chat now yes c r s =
    (let st = (if yes then ''executed'' else ''rejected'') in
     bindr (if yes then (case APPROVAL_APPLICATORS (apr_action r) of
           None \<Rightarrow> raised (PermissionError ''this kind of request cannot be applied'') s
         | Some applicator \<Rightarrow> applicator now r (cx_actor_id c) s)
       else returned () s) (\<lambda>_ s.
       returned (if yes then ''the adjustment was applied'' else ''the request was rejected'')
         (snd (enqueue now ''approval.granted'' (apr_id r) [(''action'', JStr (apr_action r)), (''status'', JStr st)]
           (audit now (''approval.'' @ (if yes then ''approve'' else ''reject'')) ''approval_request'' (Some (apr_id r))
             (Some (cx_actor_id c)) (Some (cx_organization_id c))
             [(''action'', JStr (apr_action r)), (''target_id'', JUid (apr_target_id r))]
             (on_approval (apr_id r) (close_approval st (cx_actor_id c) now) s))))))"

definition bot_decide_approval :: "string \<Rightarrow> int \<Rightarrow> int \<Rightarrow> uid \<Rightarrow> bool \<Rightarrow> db \<Rightarrow> (string, db) res" where
  "bot_decide_approval root_env now chat i yes = request (\<lambda>S.
     bindr (in_session (permitted_context ''decide_adjustment'' root_env chat) S) (\<lambda>c S.
     bindr (locked_pending_approval now i S) (\<lambda>r S.
     bindr (in_session (settle_in_chat now yes c r) S) (\<lambda>reply S. returned reply (commit S)))))"

text \<open>The answers of the reseller questions; a number the chat let through may still fail to convert.\<close>

record reseller_answers =
  ra_name :: chat_text
  ra_slug :: string
  ra_telegram_id :: "int option"
  ra_price :: "int option"
  ra_credit :: "int option"

definition create_reseller :: "string \<Rightarrow> int \<Rightarrow> int \<Rightarrow> reseller_answers \<Rightarrow> db \<Rightarrow> (string, db) res" where
  "create_reseller root_env now chat x = transact (\<lambda>s.
     bindr (permitted_context ''manage_resellers'' root_env chat s) (\<lambda>c s.
     bindr (require (\<not> slug_taken s (ra_slug x)) (ValueError ''this slug is already used'') s) (\<lambda>_ s.
     bindr (require_some (ra_credit x) (ValueError ''invalid literal for int()'') s) (\<lambda>credit s.
     bindr (require_some (ra_price x) (ValueError ''invalid literal for int()'') s) (\<lambda>price s.
     bindr (require_some (ra_telegram_id x) (ValueError ''invalid literal for int()'') s) (\<lambda>telegram_id s.
     bindr (bigints_stored [credit, price, telegram_id] s) (\<lambda>_ s.
       case add_organization now (utf8 (ra_name x)) (ra_slug x) (Some (cx_organization_id c)) credit (Some price) s of
         (child, s) \<Rightarrow>
       case find_or_add_actor telegram_id (utf8 (ra_name x)) s of (a, s) \<Rightarrow>
         returned (org_name child) (add_membership now (org_id child) (act_id a) ''reseller_admin'' s))))))))"

section \<open>The order funnel\<close>

definition customer_order_rows :: "int \<Rightarrow> db \<Rightarrow> order_view list" where
  "customer_order_rows chat s = (case requester_actor s chat of
     None \<Rightarrow> []
   | Some a \<Rightarrow> map (order_row s) (take 8 (sort_key (\<lambda>ord. - ord_created_at ord)
       (filter (\<lambda>ord. ord_actor_id ord = act_id a) (panel_orders s)))))"

definition order_panels :: "db \<Rightarrow> message \<times> markup option" where
  "order_panels s = (let rows = panel_saleable_rows s; offers = saleable_plan_rows s in
     if rows = [] \<and> offers = [] then (Say ''no server is on sale yet'', Some (back_button ''menu''))
     else (Show_Choice (take 12 rows) (take 12 offers), Some (Inline_Keyboard
       (map (\<lambda>r. [Call (Order_Plan (dec (plan_id (pv_plan r))))]) (take 12 offers) @
        map (\<lambda>(i, name). [Call (Order_Panel (dec i))]) (take 12 rows) @
        [[Call (Open_Section ''my_orders''), Call (Open_Section ''menu'')]]))))"

definition order_call :: "panel_order \<Rightarrow> string \<Rightarrow> button" where
  "order_call ord action = Call (On_Order (dec (ord_id ord)) action)"

definition order_buttons :: "panel_order \<Rightarrow> bool \<Rightarrow> bool \<Rightarrow> markup" where
  "order_buttons ord owner reviewer = (let st = ord_status ord; b = order_call ord in Inline_Keyboard
     ((if owner then
         (if st = ''quoted'' then [[b ''confirm'']] else []) @
         (if st = ''confirmed'' then [[b ''pay'']] else []) @
         (if st \<in> {''pending'', ''quoted'', ''confirmed''} then [[b ''cancel'']] else [])
       else []) @
      (if reviewer \<and> st = ''pending'' then [[b ''quote'', b ''no'']] else []) @
      (if reviewer \<and> st = ''payment_declared'' then [[b ''ok'', b ''no'']] else []) @
      [[Call (Open_Section (if owner \<and> \<not> reviewer then ''my_orders'' else ''orders''))]]))"

definition place_order :: "string list \<Rightarrow> int \<Rightarrow> int \<Rightarrow> order_in \<Rightarrow> db \<Rightarrow> (order_view, db) res" where
  "place_order tokens now chat x = transact (\<lambda>s.
     bindr (as_permission (create_panel_order tokens now chat (oi_business_name x) ''telegram'' x s)) (\<lambda>ord s.
       returned (order_row s ord) s))"

definition is_reviewer :: "bot_context option \<Rightarrow> panel_order \<Rightarrow> db \<Rightarrow> bool" where
  "is_reviewer c ord s \<longleftrightarrow> (case c of None \<Rightarrow> False | Some x \<Rightarrow>
     can (Some (cx_role x)) ''decide_orders'' \<and> panel_is_mine s (ord_panel_id ord) (cx_organization_id x))"

definition owns_order :: "int \<Rightarrow> panel_order \<Rightarrow> db \<Rightarrow> bool" where
  "owns_order chat ord s \<longleftrightarrow> has (\<lambda>a. act_id a = ord_actor_id ord \<and> act_telegram_id a = chat) (actors s)"

definition order_detail :: "string \<Rightarrow> int \<Rightarrow> uid \<Rightarrow> db \<Rightarrow> (message \<times> markup option, db) res" where
  "order_detail root_env chat i s = bindr (require_some (get_order s i) (PermissionError ''order not found'') s) (\<lambda>ord s.
     bindr (bot_context root_env chat s) (\<lambda>c s.
       let owner = owns_order chat ord s; reviewer = is_reviewer c ord s in
       bindr (require (owner \<or> reviewer) (PermissionError ''this order is not yours'') s) (\<lambda>_.
         returned (Show_Order (order_row s ord)
             (if reviewer then map_option act_telegram_id (lookup act_id (ord_actor_id ord) (actors s)) else None),
           Some (order_buttons ord owner reviewer)))))"

definition bot_order_queue :: "string \<Rightarrow> int \<Rightarrow> string \<Rightarrow> db \<Rightarrow> (message \<times> markup option, db) res" where
  "bot_order_queue root_env chat wanted s =
    (let st = (if wanted \<in> {''pending'', ''quoted'', ''confirmed'', ''payment_declared''} then wanted else ''pending'') in
     bindr (permitted_context ''decide_orders'' root_env chat s) (\<lambda>c s.
       let rows = take 20 (sort_key ord_created_at (filter (\<lambda>ord. ord_status ord = st \<and>
             ord_panel_id ord \<in> set (review_panels s (cx_organization_id c))) (panel_orders s)))
       in returned (Show_Queue st (map (\<lambda>ord. (order_row s ord,
              map_option act_telegram_id (lookup act_id (ord_actor_id ord) (actors s)))) rows),
            Some (Inline_Keyboard
              (map (\<lambda>ord. order_call ord ''view'' # (if st = ''pending'' then [order_call ord ''quote'']
                  else if st = ''payment_declared'' then [order_call ord ''ok''] else [])) rows @
               [[Call (List_Orders ''payment_declared'')],
                [Call (List_Orders ''pending''), Call (List_Orders ''quoted'')], menu_line]))) s))"

definition CUSTOMER_ACTIONS :: "string \<Rightarrow> (string \<times> string) option" where
  "CUSTOMER_ACTIONS = map_of
     [(''confirm'', ''confirmed'', ''the price was confirmed''),
      (''pay'', ''payment_declared'', ''the payment was declared''),
      (''cancel'', ''cancelled'', ''the order was cancelled'')]"

text \<open>The row that is returned is read after the commit.\<close>

definition customer_order_action ::
  "int \<Rightarrow> int \<Rightarrow> uid \<Rightarrow> string \<Rightarrow> db \<Rightarrow> (string \<times> order_view \<times> uid option, db) res"
where
  "customer_order_action now chat i action = transact (\<lambda>s.
     bindr (require_some (CUSTOMER_ACTIONS action) (KeyError action) s) (\<lambda>(to_status, reply) s.
     bindr (as_permission (locked_order i to_status s)) (\<lambda>ord s.
     bindr (require (case requester_actor s chat of None \<Rightarrow> False | Some a \<Rightarrow> ord_actor_id ord = act_id a)
         (PermissionError ''this order is not yours'') s) (\<lambda>_ s.
       let seller = map_option own_organization_id (lookup own_panel_id (ord_panel_id ord) (panel_owners s)) in
       bindr (advance_customer_order now ord to_status s) (\<lambda>_ s.
         returned (reply, order_row s (ord\<lparr>ord_status := to_status\<rparr>), seller) s)))))"

definition reviewer_order_action ::
  "string \<Rightarrow> int \<Rightarrow> int \<Rightarrow> int \<Rightarrow> uid \<Rightarrow> string \<Rightarrow> string \<Rightarrow> approve_in option \<Rightarrow> db \<Rightarrow> (approved_order option, db) res"
where
  "reviewer_order_action root_env max_tree_depth now chat i action reason attach = transact (\<lambda>s.
     bindr (permitted_context ''decide_orders'' root_env chat s) (\<lambda>c s.
       as_permission (bindr (locked_order i (if action = ''ok'' then ''approved'' else ''rejected'') s) (\<lambda>ord s.
         if action = ''ok''
         then bindr (approve_panel_order max_tree_depth now attach (cx_actor_id c) (cx_organization_id c) ord s)
           (\<lambda>r. returned (Some r))
         else bindr (reject_panel_order now reason (cx_actor_id c) (cx_organization_id c) ord s) (\<lambda>_. returned None)))))"

text \<open>\<open>not order.pg_admin_id\<close> also holds of 0.\<close>

definition order_needs_admin :: "db \<Rightarrow> uid \<Rightarrow> bool" where
  "order_needs_admin s i \<longleftrightarrow> (case get_order s i of None \<Rightarrow> False | Some ord \<Rightarrow>
     (ord_pg_admin_id ord = None \<or> ord_pg_admin_id ord = Some 0) \<and> ord_status ord = ''payment_declared'')"

record quote_answers =
  qa_order_id :: uid
  qa_amount_irr :: int
  qa_credit_limit_irr :: int
  qa_price_per_gib_irr :: int
  qa_instructions :: chat_text
  qa_pg_admin_id :: "int option"

definition quote_form :: "quote_answers \<Rightarrow> quote_in" where
  "quote_form x = \<lparr>qi_amount_irr = qa_amount_irr x, qi_credit_limit_irr = qa_credit_limit_irr x,
     qi_price_per_gib_irr = qa_price_per_gib_irr x, qi_payment_instructions = utf8 (qa_instructions x),
     qi_pg_admin_id = qa_pg_admin_id x\<rparr>"

definition quote_valid :: "quote_answers \<Rightarrow> bool" where
  "quote_valid x \<longleftrightarrow> 0 < qa_amount_irr x \<and> qa_amount_irr x \<le> 10000000000000 \<and> 0 \<le> qa_credit_limit_irr x \<and>
     0 < qa_price_per_gib_irr x \<and> 3 \<le> length (qa_instructions x) \<and> length (qa_instructions x) \<le> 2000 \<and>
     (case qa_pg_admin_id x of None \<Rightarrow> True | Some n \<Rightarrow> 0 < n)"

definition apply_quote :: "string \<Rightarrow> int \<Rightarrow> int \<Rightarrow> quote_answers \<Rightarrow> db \<Rightarrow> (order_view, db) res" where
  "apply_quote root_env now chat x = transact (\<lambda>s.
     bindr (validated (quote_valid x) s) (\<lambda>_ s.
     bindr (permitted_context ''decide_orders'' root_env chat s) (\<lambda>c s.
     bindr (as_permission (bindr (locked_order (qa_order_id x) ''quoted'' s) (\<lambda>ord s.
         bindr (quote_panel_order now (quote_form x) (cx_actor_id c) (cx_organization_id c) ord s)
           (\<lambda>_. returned (quote_terms (quote_form x) ord))))) (\<lambda>ord s.
       returned (order_row s ord) s))))"

definition order_owner_telegram_id :: "db \<Rightarrow> uid \<Rightarrow> int option" where
  "order_owner_telegram_id s i = (case get_order s i of None \<Rightarrow> None
     | Some ord \<Rightarrow> map_option act_telegram_id (lookup act_id (ord_actor_id ord) (actors s)))"

text \<open>One id per membership, in the order of the members.\<close>

definition staff_chats :: "uid option \<Rightarrow> string list \<Rightarrow> db \<Rightarrow> int list" where
  "staff_chats w roles s = (case w of None \<Rightarrow> [] | Some j \<Rightarrow>
     concat (map (\<lambda>a. map (\<lambda>_. act_telegram_id a) (filter (\<lambda>m. mem_actor_id m = act_id a \<and> mem_organization_id m = j \<and>
       mem_status m = ''active'' \<and> mem_role m \<in> set roles) (memberships s))) (actors s)))"

definition ORDER_STAFF :: "string list" where
  "ORDER_STAFF = [''system_admin'', ''reseller_admin'']"

definition order_reviewer_chats :: "uid \<Rightarrow> db \<Rightarrow> int list" where
  "order_reviewer_chats i s = staff_chats (map_option own_organization_id (lookup own_panel_id i (panel_owners s))) ORDER_STAFF s"

definition customer_panel :: "string \<Rightarrow> int \<Rightarrow> db \<Rightarrow> (message \<times> markup option, db) res" where
  "customer_panel root_env chat s = bindr (require_context root_env chat s) (\<lambda>c s.
     bindr (require_some (get_organization s (cx_organization_id c)) (AttributeError ''id'') s) (\<lambda>org.
       returned (Show_Customer \<lparr>cw_name = org_name org,
           cw_panel_name = map_option pan_name (Option.bind (binding_of s (org_id org)) (\<lambda>b. get_panel s (bnd_panel_id b))),
           cw_balance_irr = wallet_irr s (org_id org), cw_credit_irr = org_credit_limit_irr org,
           cw_lifetime_bytes = lifetime_of s (org_id org)\<rparr>,
         Some (Inline_Keyboard [[Call (Open_Section ''my_webapp''), Call (Open_Section ''usage'')],
           [Call (Open_Section ''topup''), Call (Open_Section ''my_orders'')], menu_line]))))"

text \<open>The last step of a top-up; it asks for a linked account, not for a permission.\<close>

definition ask_credit :: "string \<Rightarrow> int \<Rightarrow> int \<Rightarrow> int \<Rightarrow> db \<Rightarrow> (bot_context, db) res" where
  "ask_credit root_env now chat amount = transact (\<lambda>s. bindr (require_context root_env chat s) (\<lambda>c s.
     bindr (bigints_stored [amount] s) (\<lambda>_ s. returned c (draw (s\<lparr>funding_requests := funding_requests s @ [\<lparr>fun_id = next_uid s,
       fun_organization_id = cx_organization_id c, fun_actor_id = cx_actor_id c, fun_amount_irr = amount,
       fun_status = ''pending'', fun_decided_by = None, fun_decided_at = None, fun_created_at = now\<rparr>]\<rparr>)))))"

end
