(* ===== verification/Bot_Chat.thy ===== *)
theory Bot_Chat
  imports Bot_Desk
begin

text \<open>
  The conversations of the Telegram bot (\<open>telegram_consumer.py\<close>): the state of a chat in Redis, the
  flows that ask one question at a time, the sections of the menu, the dispatch of messages and
  buttons, and the consumer that acknowledges an update when its handler returned.

  The world is the database, the chat states with their expiry, the calls made to Telegram and the
  acknowledged updates. Whether a call to Telegram succeeds, which code points are digits, the panels
  and the clock are parameters. Redis answers.
\<close>

section \<open>The world of a chat\<close>

text \<open>
  \<open>str.isdigit\<close> holds of more characters than \<open>int\<close> converts: a superscript is a digit without being
  a decimal one.
\<close>

datatype digit_kind = No_Digit | Digit_Only | Decimal nat

datatype call =
    Send_Message int message "markup option"
  | Answer_Callback string string

record bot_env =
  be_root :: string
  be_depth :: int
  be_now :: int
  be_tokens :: "string list"
  be_webapp :: string
  be_up :: upstream
  be_py_str :: "json \<Rightarrow> string"
  be_delivers :: "call list \<Rightarrow> call \<Rightarrow> bool"
  be_digit :: "nat \<Rightarrow> digit_kind"

datatype datum = Text chat_text | Num int | Ref string | Nothing

type_synonym answers = "string \<Rightarrow> datum option"

record chat_state =
  st_flow :: string
  st_step :: string
  st_data :: answers

record bot_world =
  bw_db :: db
  bw_states :: "int \<Rightarrow> (chat_state \<times> int) option"
  bw_calls :: "call list"
  bw_acked :: "string list"

definition STATE_TTL :: int where
  "STATE_TTL = 900"

definition set_state :: "bot_env \<Rightarrow> int \<Rightarrow> chat_state \<Rightarrow> bot_world \<Rightarrow> bot_world" where
  "set_state env chat st W = W\<lparr>bw_states := (bw_states W)(chat := Some (st, be_now env + STATE_TTL))\<rparr>"

definition get_state :: "bot_env \<Rightarrow> int \<Rightarrow> bot_world \<Rightarrow> chat_state option" where
  "get_state env chat W = (case bw_states W chat of
     None \<Rightarrow> None | Some (st, expiry) \<Rightarrow> if be_now env < expiry then Some st else None)"

definition clear_state :: "int \<Rightarrow> bot_world \<Rightarrow> bot_world" where
  "clear_state chat W = W\<lparr>bw_states := (bw_states W)(chat := None)\<rparr>"

text \<open>A call to Telegram; a refusal raises.\<close>

definition telegram :: "bot_env \<Rightarrow> call \<Rightarrow> bot_world \<Rightarrow> (unit, bot_world) res" where
  "telegram env c W = (let W' = W\<lparr>bw_calls := bw_calls W @ [c]\<rparr> in
     if be_delivers env (bw_calls W) c then returned () W' else raised (RuntimeError ''HTTPStatusError'') W')"

definition send :: "bot_env \<Rightarrow> int \<Rightarrow> message \<Rightarrow> markup option \<Rightarrow> bot_world \<Rightarrow> (unit, bot_world) res" where
  "send env chat m k = telegram env (Send_Message chat m k)"

definition answer_callback :: "bot_env \<Rightarrow> string \<Rightarrow> string \<Rightarrow> bot_world \<Rightarrow> (unit, bot_world) res" where
  "answer_callback env callback_id reply = telegram env (Answer_Callback callback_id reply)"

definition on_db :: "(db \<Rightarrow> ('a, db) res) \<Rightarrow> bot_world \<Rightarrow> ('a, bot_world) res" where
  "on_db f W = (case f (bw_db W) of (r, s) \<Rightarrow> (r, W\<lparr>bw_db := s\<rparr>))"

definition send_view :: "bot_env \<Rightarrow> int \<Rightarrow> message \<times> markup option \<Rightarrow> bot_world \<Rightarrow> (unit, bot_world) res" where
  "send_view env chat v = send env chat (fst v) (snd v)"

definition role_of :: "bot_env \<Rightarrow> int \<Rightarrow> bot_world \<Rightarrow> (string, bot_world) res" where
  "role_of env chat = on_db (current_role (be_root env) chat)"

definition keyboard :: "string \<Rightarrow> markup option" where
  "keyboard role = Some (Reply_Keyboard (menu_for role))"

definition send_menu :: "bot_env \<Rightarrow> int \<Rightarrow> message \<Rightarrow> bot_world \<Rightarrow> (unit, bot_world) res" where
  "send_menu env chat m W = bindr (role_of env chat W) (\<lambda>role. send env chat m (keyboard role))"

fun send_all :: "bot_env \<Rightarrow> int list \<Rightarrow> message \<Rightarrow> markup option \<Rightarrow> bot_world \<Rightarrow> (unit, bot_world) res" where
  "send_all env [] m k W = returned () W"
| "send_all env (c # cs) m k W = bindr (send env c m k W) (\<lambda>_. send_all env cs m k)"

text \<open>\<open>try: \<dots> except PermissionError as exc: \<dots>\<close>\<close>

definition catching ::
  "('a, 's) res \<Rightarrow> (string \<Rightarrow> 's \<Rightarrow> ('b, 's) res) \<Rightarrow> ('a \<Rightarrow> 's \<Rightarrow> ('b, 's) res) \<Rightarrow> ('b, 's) res"
where
  "catching m handler f = (case m of
     (Inl (PermissionError t), W) \<Rightarrow> handler t W | (Inl e, W) \<Rightarrow> raised e W | (Inr v, W) \<Rightarrow> f v W)"

definition abort_flow :: "bot_env \<Rightarrow> int \<Rightarrow> string \<Rightarrow> bot_world \<Rightarrow> (unit, bot_world) res" where
  "abort_flow env chat t W = send_menu env chat (Failed t) (clear_state chat W)"

section \<open>Reading an answer\<close>

definition whitespace :: "nat \<Rightarrow> bool" where
  "whitespace c \<longleftrightarrow> 9 \<le> c \<and> c \<le> 13 \<or> 28 \<le> c \<and> c \<le> 32 \<or> 8192 \<le> c \<and> c \<le> 8202 \<or>
     c \<in> {133, 160, 5760, 8232, 8233, 8239, 8287, 12288}"

definition strip_text :: "chat_text \<Rightarrow> chat_text" where
  "strip_text v = rev (dropWhile whitespace (rev (dropWhile whitespace v)))"

text \<open>Persian digits become ASCII ones, commas are dropped.\<close>

definition number :: "chat_text \<Rightarrow> chat_text" where
  "number v = strip_text (filter (\<lambda>c. c \<noteq> 44) (map (\<lambda>c. if 1776 \<le> c \<and> c \<le> 1785 then c - 1728 else c) v))"

definition is_digits :: "bot_env \<Rightarrow> chat_text \<Rightarrow> bool" where
  "is_digits env v \<longleftrightarrow> v \<noteq> [] \<and> list_all (\<lambda>c. be_digit env c \<noteq> No_Digit) v"

definition decimal_value :: "bot_env \<Rightarrow> nat \<Rightarrow> nat" where
  "decimal_value env c = (case be_digit env c of Decimal n \<Rightarrow> n | _ \<Rightarrow> 0)"

text \<open>\<open>int(text)\<close> of a text that passed \<open>isdigit\<close>.\<close>

definition to_int :: "bot_env \<Rightarrow> chat_text \<Rightarrow> int option" where
  "to_int env v = (if list_all (\<lambda>c. case be_digit env c of Decimal n \<Rightarrow> True | _ \<Rightarrow> False) v
     then Some (foldl (\<lambda>n c. 10 * n + int (decimal_value env c)) 0 v) else None)"

definition as_int :: "bot_env \<Rightarrow> chat_text \<Rightarrow> 's \<Rightarrow> (int, 's) res" where
  "as_int env v = require_some (to_int env v) (ValueError ''invalid literal for int()'')"

text \<open>The words that leave a question unanswered: the Persian \<open>next\<close>, a dash, a zero.\<close>

definition SKIP :: "chat_text list" where
  "SKIP = [[1576, 1593, 1583], [45], [48]]"

definition AUTOMATIC :: chat_text where
  "AUTOMATIC = [1582, 1608, 1583, 1705, 1575, 1585]"

definition text_item :: "string \<Rightarrow> answers \<Rightarrow> 's \<Rightarrow> (chat_text, 's) res" where
  "text_item k d s = (case d k of
     None \<Rightarrow> raised (KeyError k) s | Some (Text t) \<Rightarrow> returned t s | Some _ \<Rightarrow> raised (TypeError k) s)"

definition num_item :: "string \<Rightarrow> answers \<Rightarrow> 's \<Rightarrow> (int, 's) res" where
  "num_item k d s = (case d k of
     None \<Rightarrow> raised (KeyError k) s | Some (Num n) \<Rightarrow> returned n s | Some _ \<Rightarrow> raised (TypeError k) s)"

definition ref_item :: "string \<Rightarrow> answers \<Rightarrow> 's \<Rightarrow> (string, 's) res" where
  "ref_item k d s = (case d k of
     None \<Rightarrow> raised (KeyError k) s | Some (Ref t) \<Rightarrow> returned t s | Some _ \<Rightarrow> raised (TypeError k) s)"

text \<open>\<open>data.get(key)\<close> of an identifier: absent and \<open>None\<close> are alike.\<close>

definition maybe_ref :: "string \<Rightarrow> answers \<Rightarrow> string option" where
  "maybe_ref k d = (case d k of Some (Ref t) \<Rightarrow> Some t | _ \<Rightarrow> None)"

section \<open>Opening a flow\<close>

definition begin_reseller :: "bot_env \<Rightarrow> int \<Rightarrow> bot_world \<Rightarrow> (unit, bot_world) res" where
  "begin_reseller env chat W = send env chat (Say ''the name of the reseller?'') None
     (set_state env chat \<lparr>st_flow = ''reseller'', st_step = ''name'', st_data = Map.empty\<rparr> W)"

definition begin_order :: "bot_env \<Rightarrow> int \<Rightarrow> string \<Rightarrow> bot_world \<Rightarrow> (unit, bot_world) res" where
  "begin_order env chat panel_ref W = send env chat (Say ''the name of your business?'') None
     (set_state env chat \<lparr>st_flow = ''order'', st_step = ''business_name'', st_data = [''panel_id'' \<mapsto> Ref panel_ref]\<rparr> W)"

definition begin_plan_order :: "bot_env \<Rightarrow> int \<Rightarrow> string \<Rightarrow> bot_world \<Rightarrow> (unit, bot_world) res" where
  "begin_plan_order env chat plan_ref W = (case pick_plan (bw_db W) (id_in (bw_db W) plan_ref) of
     None \<Rightarrow> send env chat (Say ''this plan is not on sale any more'') (Some (back_button ''new_order'')) W
   | Some row \<Rightarrow> send env chat (Plan_Chosen row) None
       (set_state env chat \<lparr>st_flow = ''order'', st_step = ''business_name'',
          st_data = [''panel_id'' \<mapsto> Ref (dec (plan_panel_id (pv_plan row))), ''plan_id'' \<mapsto> Ref (dec (plan_id (pv_plan row))),
            ''user_count'' \<mapsto> Num (plan_user_count (pv_plan row)), ''daily_gib'' \<mapsto> Num (plan_daily_gib (pv_plan row))]\<rparr> W))"

definition begin_quote :: "bot_env \<Rightarrow> int \<Rightarrow> string \<Rightarrow> bot_world \<Rightarrow> (unit, bot_world) res" where
  "begin_quote env chat order_ref W = send env chat (Say ''the total amount of this order?'') None
     (set_state env chat \<lparr>st_flow = ''quote'', st_step = ''amount'', st_data = [''order_id'' \<mapsto> Ref order_ref]\<rparr> W)"

definition begin_shelf :: "bot_env \<Rightarrow> int \<Rightarrow> bot_world \<Rightarrow> (unit, bot_world) res" where
  "begin_shelf env chat W = send env chat (Say ''the name of the new shelf?'') None
     (set_state env chat \<lparr>st_flow = ''category'', st_step = ''name'', st_data = Map.empty\<rparr> W)"

definition begin_plan :: "bot_env \<Rightarrow> int \<Rightarrow> bot_world \<Rightarrow> (unit, bot_world) res" where
  "begin_plan env chat W = bindr (on_db (catalog_panels (be_root env) chat) W) (\<lambda>v W.
     send_view env chat v (set_state env chat \<lparr>st_flow = ''plan'', st_step = ''panel'', st_data = Map.empty\<rparr> W))"

definition begin_credit :: "bot_env \<Rightarrow> int \<Rightarrow> bot_world \<Rightarrow> (unit, bot_world) res" where
  "begin_credit env chat W = send env chat (Say ''the amount you ask for?'') None
     (set_state env chat \<lparr>st_flow = ''credit'', st_step = ''amount'', st_data = Map.empty\<rparr> W)"

text \<open>Store an answer, move to the next question and ask it.\<close>

definition next_question ::
  "bot_env \<Rightarrow> int \<Rightarrow> chat_state \<Rightarrow> string \<Rightarrow> answers \<Rightarrow> bot_world \<Rightarrow> (unit, bot_world) res" where
  "next_question env chat st step data W = send env chat (Say step) None
     (set_state env chat (st\<lparr>st_step := step, st_data := data\<rparr>) W)"

definition refuse :: "bot_env \<Rightarrow> int \<Rightarrow> string \<Rightarrow> bot_world \<Rightarrow> (unit, bot_world) res" where
  "refuse env chat t = send env chat (Say t) None"

section \<open>The flows\<close>

definition continue_category :: "bot_env \<Rightarrow> int \<Rightarrow> chat_text \<Rightarrow> chat_state \<Rightarrow> bot_world \<Rightarrow> (unit, bot_world) res" where
  "continue_category env chat v st W =
    (if st_step st = ''name'' then
       (if \<not> (2 \<le> length v \<and> length v \<le> 80) then refuse env chat ''2 to 80 characters'' W
        else next_question env chat st ''description'' ((st_data st)(''name'' \<mapsto> Text v)) W)
     else
       let description = (if v \<in> set SKIP then [] else take 500 v) in
       catching (bindr (text_item ''name'' (st_data st) W) (\<lambda>name.
             on_db (create_shelf (be_root env) (be_now env) chat name description)))
         (abort_flow env chat)
         (\<lambda>name W. let W = clear_state chat W in
            bindr (on_db (catalog_list (be_root env) chat) W) (\<lambda>(m, k).
              send env chat (Shelf_Made name m) k)))"

definition PLAN_QUESTIONS :: "string list" where
  "PLAN_QUESTIONS = [''name'', ''price_per_gib_irr'', ''daily_gib'', ''duration_days'', ''user_count'',
     ''credit_limit_irr'', ''instructions'']"

definition PLAN_LIMITS :: "string \<Rightarrow> int option" where
  "PLAN_LIMITS = map_of [(''price_per_gib_irr'', 10000000000000), (''daily_gib'', 100000), (''duration_days'', 3650),
     (''user_count'', 100000)]"

fun following :: "'a \<Rightarrow> 'a list \<Rightarrow> 'a option" where
  "following x (a # b # xs) = (if x = a then Some b else following x (b # xs))"
| "following x _ = None"

definition plan_answers_of :: "db \<Rightarrow> answers \<Rightarrow> 's \<Rightarrow> (plan_answers, 's) res" where
  "plan_answers_of db d s =
     bindr (ref_item ''panel_id'' d s) (\<lambda>panel s. bindr (text_item ''name'' d s) (\<lambda>name s.
     bindr (num_item ''price_per_gib_irr'' d s) (\<lambda>price s. bindr (num_item ''daily_gib'' d s) (\<lambda>gib s.
     bindr (num_item ''duration_days'' d s) (\<lambda>days s. bindr (num_item ''user_count'' d s) (\<lambda>users s.
     bindr (num_item ''credit_limit_irr'' d s) (\<lambda>credit s. bindr (text_item ''instructions'' d s) (\<lambda>instructions.
       returned \<lparr>pa_panel_id = id_in db panel, pa_category_id = map_option (id_in db) (maybe_ref ''category_id'' d),
         pa_name = name, pa_price_per_gib_irr = price, pa_daily_gib = gib, pa_duration_days = days,
         pa_user_count = users, pa_credit_limit_irr = credit, pa_instructions = instructions\<rparr>))))))))"

definition finish_plan :: "bot_env \<Rightarrow> int \<Rightarrow> answers \<Rightarrow> bot_world \<Rightarrow> (unit, bot_world) res" where
  "finish_plan env chat d W =
     catching (bindr (plan_answers_of (bw_db W) d W) (\<lambda>x. on_db (save_plan (be_root env) (be_now env) chat x)))
       (abort_flow env chat)
       (\<lambda>pl W. let W = clear_state chat W in
          bindr (on_db (catalog_list (be_root env) chat) W) (\<lambda>(m, k) W.
          bindr (send env chat (Plan_Made pl m) k W) (\<lambda>_.
            send_menu env chat (Say ''open the order menu again to see it''))))"

text \<open>The answer to one plan question: a refusal, or the datum to store.\<close>

definition plan_datum :: "bot_env \<Rightarrow> string \<Rightarrow> chat_text \<Rightarrow> 's \<Rightarrow> (string + datum, 's) res" where
  "plan_datum env step v s =
    (if step = ''name'' then returned (if \<not> (2 \<le> length v \<and> length v \<le> 120) then Inl ''2 to 120 characters'' else Inr (Text v)) s
     else if step = ''instructions'' then returned (if length v < 3 then Inl ''more, please'' else Inr (Text (take 2000 v))) s
     else if step = ''credit_limit_irr'' then
       (let digits = (if strip_text v = AUTOMATIC then [48] else number v) in
        if \<not> is_digits env digits then returned (Inl ''a number, please'') s
        else bindr (as_int env digits s) (\<lambda>n. returned (Inr (Num n))))
     else
       (let digits = number v in
        bindr (if is_digits env digits then bindr (as_int env digits s) (\<lambda>n. returned (Some n)) else returned None s) (\<lambda>n s.
        bindr (require_some (PLAN_LIMITS step) (KeyError step) s) (\<lambda>limit.
          returned (case n of None \<Rightarrow> Inl ''a number in range, please''
            | Some k \<Rightarrow> if 0 < k \<and> k \<le> limit then Inr (Num k) else Inl ''a number in range, please'')))))"

definition continue_plan :: "bot_env \<Rightarrow> int \<Rightarrow> chat_text \<Rightarrow> chat_state \<Rightarrow> bot_world \<Rightarrow> (unit, bot_world) res" where
  "continue_plan env chat v st W =
    (let step = st_step st in
     if step = ''panel'' \<or> step = ''shelf'' then refuse env chat ''choose with the buttons'' W
     else bindr (plan_datum env step v W) (\<lambda>x W. case x of
         Inl t \<Rightarrow> refuse env chat t W
       | Inr datum \<Rightarrow> let d = (st_data st)(step \<mapsto> datum) in
           (case following step PLAN_QUESTIONS of
              None \<Rightarrow> finish_plan env chat d W
            | Some nxt \<Rightarrow> next_question env chat st nxt d W)))"

definition order_answers_of :: "db \<Rightarrow> answers \<Rightarrow> chat_text \<Rightarrow> 's \<Rightarrow> (order_in, 's) res" where
  "order_answers_of db d note' s =
     bindr (ref_item ''panel_id'' d s) (\<lambda>panel s. bindr (text_item ''business_name'' d s) (\<lambda>name s.
     bindr (num_item ''user_count'' d s) (\<lambda>users s. bindr (num_item ''daily_gib'' d s) (\<lambda>gib.
       returned \<lparr>oi_panel_id = id_in db panel, oi_plan_id = map_option (id_in db) (maybe_ref ''plan_id'' d),
         oi_business_name = utf8 name, oi_user_count = users, oi_daily_gib = gib, oi_note = utf8 note'\<rparr>))))"

text \<open>What follows an order that was placed: the customer and the reviewers are told.\<close>

definition announce_order :: "bot_env \<Rightarrow> int \<Rightarrow> order_view \<Rightarrow> bot_world \<Rightarrow> (unit, bot_world) res" where
  "announce_order env chat row W =
    (let ord = ov_order row; quoted = (ord_status ord = ''quoted'') in
     bindr (send env chat (Order_Placed row) None W) (\<lambda>_ W.
     bindr (send_all env (filter (\<lambda>c. c \<noteq> chat) (order_reviewer_chats (ord_panel_id ord) (bw_db W))) (Order_Notice row)
         (Some (Inline_Keyboard [[order_call ord (if quoted then ''view'' else ''quote'')], [order_call ord ''view'']])) W) (\<lambda>_ W.
     bindr (if quoted then send env chat (Say ''confirm the price of the plan'')
           (Some (Inline_Keyboard [[order_call ord ''confirm'', Call (Open_Section ''my_orders'')]])) W
         else returned () W) (\<lambda>_.
       send env chat (Say ''follow it under my orders'') (keyboard ''customer'')))))"

definition continue_order :: "bot_env \<Rightarrow> int \<Rightarrow> chat_text \<Rightarrow> chat_state \<Rightarrow> bot_world \<Rightarrow> (unit, bot_world) res" where
  "continue_order env chat v st W =
    (let d = st_data st; step = st_step st in
     if step = ''business_name'' then
       (if length v < 2 then refuse env chat ''at least two characters'' W
        else next_question env chat st (if maybe_ref ''plan_id'' d \<noteq> None \<and> maybe_ref ''plan_id'' d \<noteq> Some [] then ''note'' else ''user_count'')
          (d(''business_name'' \<mapsto> Text (take 160 v))) W)
     else if step = ''user_count'' \<or> step = ''daily_gib'' then
       (let digits = number v in
        if \<not> is_digits env digits then refuse env chat ''a valid number, please'' W
        else bindr (as_int env digits W) (\<lambda>n W.
          if \<not> (0 < n \<and> n \<le> 100000) then refuse env chat ''a valid number, please'' W
          else next_question env chat st (if step = ''user_count'' then ''daily_gib'' else ''note'') (d(step \<mapsto> Num n)) W))
     else if step = ''note'' then
       (let note' = (if v \<in> set SKIP then [] else take 500 v) in
        catching (bindr (order_answers_of (bw_db W) d note' W) (\<lambda>x. on_db (place_order (be_tokens env) (be_now env) chat x)))
          (abort_flow env chat)
          (\<lambda>row W. announce_order env chat row (clear_state chat W)))
     else returned () W)"

text \<open>The field a quote question fills and the question after it.\<close>

definition QUOTE_STEPS :: "string \<Rightarrow> (string option \<times> string) option" where
  "QUOTE_STEPS = map_of
     [(''amount'', Some ''amount_irr'', ''credit''), (''credit'', Some ''credit_limit_irr'', ''price''),
      (''price'', Some ''price_per_gib_irr'', ''instructions''), (''instructions'', None, ''pg_admin_id''),
      (''pg_admin_id'', None, [])]"

definition quote_answers_of :: "db \<Rightarrow> answers \<Rightarrow> int option \<Rightarrow> 's \<Rightarrow> (quote_answers, 's) res" where
  "quote_answers_of db d admin s =
     bindr (num_item ''amount_irr'' d s) (\<lambda>amount s. bindr (num_item ''credit_limit_irr'' d s) (\<lambda>credit s.
     bindr (num_item ''price_per_gib_irr'' d s) (\<lambda>price s. bindr (text_item ''instructions'' d s) (\<lambda>instructions s.
     bindr (ref_item ''order_id'' d s) (\<lambda>ord.
       returned \<lparr>qa_order_id = id_in db ord, qa_amount_irr = amount, qa_credit_limit_irr = credit,
         qa_price_per_gib_irr = price, qa_instructions = instructions, qa_pg_admin_id = admin\<rparr>)))))"

definition announce_quote :: "bot_env \<Rightarrow> int \<Rightarrow> order_view \<Rightarrow> bot_world \<Rightarrow> (unit, bot_world) res" where
  "announce_quote env chat row W =
    (let ord = ov_order row in
     bindr (send_menu env chat (Say ''the quote was sent'') W) (\<lambda>_ W.
       case order_owner_telegram_id (bw_db W) (ord_id ord) of
         None \<Rightarrow> returned () W
       | Some customer \<Rightarrow> if customer = 0 then returned () W else send env customer (Quote_Notice row)
           (Some (Inline_Keyboard [[order_call ord ''confirm'', order_call ord ''view'']])) W))"

definition skipped_number :: "bot_env \<Rightarrow> bool \<Rightarrow> chat_text \<Rightarrow> 's \<Rightarrow> (int option option, 's) res" where
  "skipped_number env skip v s = (if skip then returned (Some None) s
     else if \<not> is_digits env (number v) then returned None s
     else bindr (as_int env (number v) s) (\<lambda>n. returned (Some (Some n))))"

definition continue_quote :: "bot_env \<Rightarrow> int \<Rightarrow> chat_text \<Rightarrow> chat_state \<Rightarrow> bot_world \<Rightarrow> (unit, bot_world) res" where
  "continue_quote env chat v st W =
     bindr (require_some (QUOTE_STEPS (st_step st)) (KeyError (st_step st)) W) (\<lambda>(field_name, nxt) W.
       let d = st_data st in
       case field_name of
         Some k \<Rightarrow> if \<not> is_digits env (number v) then refuse env chat ''a valid amount, please'' W
           else bindr (as_int env (number v) W) (\<lambda>n W.
             if n \<le> 0 \<and> k \<noteq> ''credit_limit_irr'' then refuse env chat ''a valid amount, please'' W
             else next_question env chat st nxt (d(k \<mapsto> Num n)) W)
       | None \<Rightarrow> if st_step st = ''instructions'' then
             (if length v < 3 then refuse env chat ''more, please'' W
              else next_question env chat st nxt (d(''instructions'' \<mapsto> Text (take 2000 v))) W)
           else bindr (skipped_number env (v \<in> set SKIP) v W) (\<lambda>x W. case x of
               None \<Rightarrow> refuse env chat ''a number, please'' W
             | Some admin \<Rightarrow>
                 catching (bindr (quote_answers_of (bw_db W) d admin W) (\<lambda>x.
                     on_db (apply_quote (be_root env) (be_now env) chat x)))
                   (abort_flow env chat)
                   (\<lambda>row W. announce_quote env chat row (clear_state chat W))))"

text \<open>Finish a review, and tell both sides.\<close>

definition apply_approval ::
  "bot_env \<Rightarrow> int \<Rightarrow> string \<Rightarrow> string \<Rightarrow> string option \<Rightarrow> approve_in option \<Rightarrow> bot_world \<Rightarrow> (unit, bot_world) res"
where
  "apply_approval env chat order_ref action callback_id attach W =
    (let i = id_in (bw_db W) order_ref;
         tell = (\<lambda>t W. case callback_id of None \<Rightarrow> returned () W | Some c \<Rightarrow> answer_callback env c t W) in
     catching (on_db (reviewer_order_action (be_root env) (be_depth env) (be_now env) chat i action
           (if action = ''ok'' then [] else ''rejected by the manager'') attach) W)
       (\<lambda>t W. bindr (tell (take 190 t) (clear_state chat W)) (\<lambda>_. send_menu env chat (Failed t)))
       (\<lambda>r W. bindr (tell ''decided'' (clear_state chat W)) (\<lambda>_ W.
          bindr (send_menu env chat (Say (if action = ''ok'' then ''the account was created'' else ''the order was rejected'')) W) (\<lambda>_ W.
          case order_owner_telegram_id (bw_db W) i of
            None \<Rightarrow> returned () W
          | Some customer \<Rightarrow>
              if customer = 0 then returned () W
              else (case r of
                Some done' \<Rightarrow> send env customer (Approval_Notice (ao_balance_irr done') (ao_panel_name done'))
                  (panel_button (be_webapp env)) W
              | None \<Rightarrow> send env customer (Say ''your order was rejected'') (keyboard ''customer'') W)))))"

definition continue_attach :: "bot_env \<Rightarrow> int \<Rightarrow> chat_text \<Rightarrow> chat_state \<Rightarrow> bot_world \<Rightarrow> (unit, bot_world) res" where
  "continue_attach env chat v st W = bindr (skipped_number env (strip_text v \<in> set SKIP) v W) (\<lambda>x W. case x of
       None \<Rightarrow> refuse env chat ''a number, please'' W
     | Some admin \<Rightarrow>
         bindr (validated (case admin of None \<Rightarrow> True | Some n \<Rightarrow> 0 < n) W) (\<lambda>_ W.
         bindr (ref_item ''order_id'' (st_data st) W) (\<lambda>order_ref.
           apply_approval env chat order_ref ''ok'' None
             (map_option (\<lambda>n. \<lparr>ap_pg_admin_id = Some n, ap_admin_username = None\<rparr>) admin))))"

definition FUNDING_STAFF :: "string list" where
  "FUNDING_STAFF = [''system_admin'', ''reseller_admin'', ''finance'']"

definition continue_credit :: "bot_env \<Rightarrow> int \<Rightarrow> chat_text \<Rightarrow> bot_world \<Rightarrow> (unit, bot_world) res" where
  "continue_credit env chat v W =
    (if \<not> is_digits env (number v) then refuse env chat ''a valid amount, please'' W
     else bindr (as_int env (number v) W) (\<lambda>amount W.
       if amount \<le> 0 then refuse env chat ''a valid amount, please'' W
       else bindr (on_db (ask_credit (be_root env) (be_now env) chat amount) W) (\<lambda>c W.
         bindr (send_menu env chat (Say ''the request was sent'') (clear_state chat W)) (\<lambda>_ W.
           send_all env (filter (\<lambda>k. k \<noteq> chat) (staff_chats (Some (cx_organization_id c)) FUNDING_STAFF (bw_db W)))
             (Topup_Notice (cx_organization_name c) amount) None W))))"

text \<open>\<open>re.fullmatch(r"[a-z0-9][a-z0-9-]{1,78}[a-z0-9]", value)\<close>\<close>

definition slug_char :: "nat \<Rightarrow> bool" where
  "slug_char c \<longleftrightarrow> 97 \<le> c \<and> c \<le> 122 \<or> 48 \<le> c \<and> c \<le> 57"

definition slug_ok :: "chat_text \<Rightarrow> bool" where
  "slug_ok v \<longleftrightarrow> 3 \<le> length v \<and> length v \<le> 80 \<and> slug_char (hd v) \<and> slug_char (last v) \<and>
     list_all (\<lambda>c. slug_char c \<or> c = 45) v"

definition reseller_answers_of :: "bot_env \<Rightarrow> answers \<Rightarrow> chat_text \<Rightarrow> 's \<Rightarrow> (reseller_answers, 's) res" where
  "reseller_answers_of env d credit s =
     bindr (text_item ''name'' d s) (\<lambda>name s. bindr (text_item ''slug'' d s) (\<lambda>slug s.
     bindr (text_item ''telegram_id'' d s) (\<lambda>tid s. bindr (text_item ''price'' d s) (\<lambda>price.
       returned \<lparr>ra_name = name, ra_slug = utf8 slug, ra_telegram_id = to_int env tid, ra_price = to_int env price,
         ra_credit = to_int env credit\<rparr>))))"

text \<open>The whole end of the flow is inside \<open>try: \<dots> except Exception\<close>.\<close>

definition finish_reseller :: "bot_env \<Rightarrow> int \<Rightarrow> answers \<Rightarrow> chat_text \<Rightarrow> bot_world \<Rightarrow> (unit, bot_world) res" where
  "finish_reseller env chat d credit W =
    (case bindr (reseller_answers_of env d credit W) (\<lambda>x W.
        bindr (on_db (create_reseller (be_root env) (be_now env) chat x) W) (\<lambda>name W.
          send_menu env chat (Reseller_Made name) (clear_state chat W))) of
       (Inr u, W) \<Rightarrow> returned u W
     | (Inl e, W) \<Rightarrow> send_menu env chat (Reseller_Failed e) (clear_state chat W))"

definition continue_reseller :: "bot_env \<Rightarrow> int \<Rightarrow> chat_text \<Rightarrow> chat_state \<Rightarrow> bot_world \<Rightarrow> (unit, bot_world) res" where
  "continue_reseller env chat v st W =
    (let d = st_data st; step = st_step st in
     if step = ''name'' then
       (if length v < 2 then refuse env chat ''at least two characters'' W
        else next_question env chat st ''slug'' (d(''name'' \<mapsto> Text v)) W)
     else if step = ''slug'' then
       (if \<not> slug_ok v then refuse env chat ''lower case letters, digits and dashes'' W
        else next_question env chat st ''telegram_id'' (d(''slug'' \<mapsto> Text v)) W)
     else if step = ''telegram_id'' then
       (if \<not> is_digits env v then refuse env chat ''a number, please'' W
        else next_question env chat st ''price'' (d(''telegram_id'' \<mapsto> Text v)) W)
     else if step = ''price'' then
       (if \<not> is_digits env (number v) then refuse env chat ''a valid price, please'' W
        else bindr (as_int env (number v) W) (\<lambda>n W.
          if n \<le> 0 then refuse env chat ''a valid price, please'' W
          else next_question env chat st ''credit'' (d(''price'' \<mapsto> Text (number v))) W))
     else if step = ''credit'' then
       (if \<not> is_digits env (number v) then refuse env chat ''a valid credit, please'' W
        else finish_reseller env chat d (number v) W)
     else returned () W)"

definition continue_state :: "bot_env \<Rightarrow> int \<Rightarrow> chat_text \<Rightarrow> chat_state \<Rightarrow> bot_world \<Rightarrow> (unit, bot_world) res" where
  "continue_state env chat v st W =
    (if v = plain ''/cancel'' then send_menu env chat (Say ''cancelled'') (clear_state chat W)
     else if st_flow st = ''order'' then continue_order env chat v st W
     else if st_flow st = ''quote'' then continue_quote env chat v st W
     else if st_flow st = ''category'' then continue_category env chat v st W
     else if st_flow st = ''plan'' then continue_plan env chat v st W
     else if st_flow st = ''attach'' then continue_attach env chat v st W
     else if st_flow st = ''credit'' then continue_credit env chat v W
     else continue_reseller env chat v st W)"

section \<open>Sections\<close>

definition show_view ::
  "bot_env \<Rightarrow> int \<Rightarrow> (db \<Rightarrow> (message \<times> markup option, db) res) \<Rightarrow> bot_world \<Rightarrow> (unit, bot_world) res" where
  "show_view env chat f W = bindr (on_db f W) (send_view env chat)"

text \<open>A view with no buttons of its own is sent with the menu.\<close>

definition show_with_menu ::
  "bot_env \<Rightarrow> int \<Rightarrow> string \<Rightarrow> (db \<Rightarrow> (message \<times> markup option, db) res) \<Rightarrow> bot_world \<Rightarrow> (unit, bot_world) res" where
  "show_with_menu env chat role f W = bindr (on_db f W) (\<lambda>(m, k).
     send env chat m (case k of None \<Rightarrow> keyboard role | Some _ \<Rightarrow> k))"

definition my_orders_section :: "bot_env \<Rightarrow> int \<Rightarrow> string \<Rightarrow> bot_world \<Rightarrow> (unit, bot_world) res" where
  "my_orders_section env chat role W = (let rows = customer_order_rows chat (bw_db W) in
     if rows = [] then send env chat (Say ''you have no orders yet'') (keyboard role) W
     else send env chat (Show_My_Orders rows) (Some (Inline_Keyboard
       (map (\<lambda>r. [order_call (ov_order r) ''view'']) rows @
        [[Call (Open_Section ''new_order''), Call (Open_Section ''menu'')]]))) W)"

definition customer_section :: "bot_env \<Rightarrow> int \<Rightarrow> string \<Rightarrow> string \<Rightarrow> bot_world \<Rightarrow> (unit, bot_world) res" where
  "customer_section env chat role section W =
     bindr (on_db (bot_context (be_root env) chat) W) (\<lambda>c W.
       if c = None then send env chat (Say ''you have no account yet'') (keyboard role) W
       else if section = ''my_panel'' then show_view env chat (customer_panel (be_root env) chat) W
       else if section = ''usage'' then bindr (on_db (bot_transactions (be_root env) chat) W) (\<lambda>m.
         send env chat m (keyboard role))
       else if section = ''topup'' then begin_credit env chat W
       else send env chat (Say ''your panel'') (panel_button (be_webapp env)) W)"

definition open_section :: "bot_env \<Rightarrow> int \<Rightarrow> string \<Rightarrow> bot_world \<Rightarrow> (unit, bot_world) res" where
  "open_section env chat section W = bindr (role_of env chat W) (\<lambda>role W.
     let root_env = be_root env in
     if SECTION_PERMISSION section = None \<or> section \<notin> set (sections_for role)
     then send env chat (Refused (case SECTION_PERMISSION section of None \<Rightarrow> ''view_dashboard'' | Some p \<Rightarrow> p)) (keyboard role) W
     else if section = ''dashboard'' then bindr (on_db (bot_dashboard root_env chat (can (Some role) ''manage_resellers'')) W)
       (\<lambda>m. send env chat m (keyboard role))
     else if section = ''servers'' then show_view env chat (server_list (be_webapp env) root_env chat) W
     else if section = ''orders'' then show_view env chat (bot_order_queue root_env chat ''pending'') W
     else if section = ''catalog'' then show_view env chat (catalog_list root_env chat) W
     else if section = ''resellers'' then show_view env chat (reseller_list root_env chat) W
     else if section = ''finance'' then show_view env chat (finance_menu root_env chat) W
     else if section = ''new_order'' then send_view env chat (order_panels (bw_db W)) W
     else if section = ''my_orders'' then my_orders_section env chat role W
     else if section \<in> {''my_panel'', ''usage'', ''topup'', ''my_webapp''} then customer_section env chat role section W
     else if section = ''new_reseller'' then begin_reseller env chat W
     else if section = ''funding'' then show_with_menu env chat role (funding_requests_view root_env chat) W
     else if section = ''transactions'' then bindr (on_db (bot_transactions root_env chat) W)
       (\<lambda>m. send env chat m (Some (back_button ''finance'')))
     else if section = ''credit'' then begin_credit env chat W
     else if section = ''approvals'' then show_with_menu env chat role (approval_requests_view root_env chat) W
     else if section = ''system'' then send env chat (Your_Access role (sections_for role)) (panel_button (be_webapp env)) W
     else if section = ''support'' then send env chat (Say ''your ticket was sent'') (keyboard role) W
     else if section = ''webapp'' then send env chat (Say ''the panel'') (panel_button (be_webapp env)) W
     else send env chat (Say ''choose from the menu'') (keyboard role) W)"

section \<open>Messages\<close>

definition handle_message :: "bot_env \<Rightarrow> int \<Rightarrow> chat_text \<Rightarrow> bot_world \<Rightarrow> (unit, bot_world) res" where
  "handle_message env chat typed W =
    (let v = strip_text typed in
     if v = plain ''/id'' then send env chat (Your_Id chat) None W
     else (case get_state env chat W of
         Some st \<Rightarrow> continue_state env chat v st W
       | None \<Rightarrow> bindr (role_of env chat W) (\<lambda>role W.
           if v = plain ''/start'' then
             bindr (on_db (bot_context (be_root env) chat) W) (\<lambda>c W.
             bindr (send env chat (Say (if c = None then ''welcome, order a panel'' else ''welcome'')) (keyboard role) W) (\<lambda>_.
               open_section env chat (if role = ''customer'' then ''new_order'' else ''dashboard'')))
           else (case ALIASES v of
               Some target \<Rightarrow> if target = ''menu'' then send env chat (Say ''choose a section'') (Some (section_menu role)) W
                 else open_section env chat target W
             | None \<Rightarrow> (case label_to_section v of
                 None \<Rightarrow> send env chat (Say ''choose from the menu'') (keyboard role) W
               | Some section \<Rightarrow>
                   if section \<notin> set (sections_for role) then send env chat (Say ''choose from the menu'') (keyboard role) W
                   else open_section env chat section W)))))"

section \<open>Buttons\<close>

definition pay_notice :: "bot_env \<Rightarrow> string \<Rightarrow> string \<Rightarrow> order_view \<Rightarrow> uid option \<Rightarrow> bot_world \<Rightarrow> (unit, bot_world) res" where
  "pay_notice env order_ref action row seller W =
    (if action = ''pay'' \<and> seller \<noteq> None
     then send_all env (staff_chats seller ORDER_STAFF (bw_db W)) (Payment_Notice row)
       (Some (Inline_Keyboard [[Call (On_Order order_ref ''ok''), Call (On_Order order_ref ''view'')]])) W
     else returned () W)"

definition after_customer_step ::
  "bot_env \<Rightarrow> int \<Rightarrow> string \<Rightarrow> string \<Rightarrow> uid \<Rightarrow> string \<Rightarrow> string \<times> order_view \<times> uid option \<Rightarrow> bot_world \<Rightarrow> (unit, bot_world) res"
where
  "after_customer_step env chat callback_id order_ref i action x W = (case x of (reply, row, seller) \<Rightarrow>
     bindr (answer_callback env callback_id reply W) (\<lambda>_ W.
     bindr (send env chat (Say reply) None W) (\<lambda>_ W.
     bindr (on_db (order_detail (be_root env) chat i) W) (\<lambda>v W.
     bindr (send_view env chat v W) (\<lambda>_. pay_notice env order_ref action row seller)))))"

definition order_callback :: "bot_env \<Rightarrow> int \<Rightarrow> string \<Rightarrow> string \<Rightarrow> string \<Rightarrow> bot_world \<Rightarrow> (unit, bot_world) res" where
  "order_callback env chat callback_id order_ref action W =
    (let i = id_in (bw_db W) order_ref; detail = order_detail (be_root env) chat i in
     if action = ''view'' then bindr (on_db detail W) (\<lambda>v W.
       bindr (answer_callback env callback_id ''done'' W) (\<lambda>_. send_view env chat v))
     else if action = ''quote'' then bindr (answer_callback env callback_id ''quoting'' W) (\<lambda>_. begin_quote env chat order_ref)
     else if CUSTOMER_ACTIONS action \<noteq> None then
       bindr (on_db (customer_order_action (be_now env) chat i action) W)
         (after_customer_step env chat callback_id order_ref i action)
     else if action = ''ok'' \<and> order_needs_admin (bw_db W) i then
       bindr (answer_callback env callback_id ''the id of the admin is needed'' W) (\<lambda>_ W.
         send env chat (Say ''the id of the admin on the server?'') None
           (set_state env chat \<lparr>st_flow = ''attach'', st_step = ''pg_admin_id'', st_data = [''order_id'' \<mapsto> Ref order_ref]\<rparr> W))
     else if action = ''ok'' \<or> action = ''no'' then apply_approval env chat order_ref action (Some callback_id) None W
     else returned () W)"

text \<open>A state that a selection may continue: \<open>state.get("flow")\<close> and the step of the flow.\<close>

definition plan_step :: "bot_env \<Rightarrow> int \<Rightarrow> string \<Rightarrow> bot_world \<Rightarrow> chat_state option" where
  "plan_step env chat step W = (case get_state env chat W of
     None \<Rightarrow> None | Some st \<Rightarrow> if st_flow st = ''plan'' \<and> st_step st = step then Some st else None)"

fun dispatch :: "bot_env \<Rightarrow> int \<Rightarrow> string \<Rightarrow> callback \<Rightarrow> bot_world \<Rightarrow> (unit, bot_world) res" where
  "dispatch env chat c (Open_Section n) W = bindr (answer_callback env c ''loading'' W) (\<lambda>_ W.
     if n = ''menu'' then bindr (role_of env chat W) (\<lambda>role. send env chat (Say ''choose a section'') (Some (section_menu role)))
     else open_section env chat n W)"
| "dispatch env chat c (List_Nodes p) W =
     bindr (on_db (node_list (be_up env) (be_py_str env) (be_root env) (be_now env) chat (id_in (bw_db W) p) p) W) (\<lambda>v W.
     bindr (answer_callback env c ''done'' W) (\<lambda>_. send_view env chat v))"
| "dispatch env chat c (Node_Operation p n a) W =
     bindr (on_db (node_action (be_up env) (be_root env) (be_now env) chat (id_in (bw_db W) p) n a) W) (\<lambda>m W.
     bindr (answer_callback env c (case m of Say t \<Rightarrow> t | _ \<Rightarrow> ''the status was sent'') W) (\<lambda>_ W.
       if a = ''status'' then send env chat m None W else returned () W))"
| "dispatch env chat c (Decide_Funding r ok) W =
     bindr (on_db (bot_decide_funding (be_root env) (be_now env) chat (id_in (bw_db W) r) ok) W) (\<lambda>(reply, customer) W.
     bindr (answer_callback env c reply W) (\<lambda>_ W.
     bindr (send_menu env chat (Say reply) W) (\<lambda>_ W. case customer of
         None \<Rightarrow> returned () W
       | Some k \<Rightarrow> if k = 0 then returned () W
           else send env k (Say (if ok then ''your top-up was approved'' else ''your top-up was rejected'')) None W)))"
| "dispatch env chat c (Decide_Adjustment r ok) W =
     bindr (on_db (bot_decide_approval (be_root env) (be_now env) chat (id_in (bw_db W) r) ok) W) (\<lambda>reply W.
     bindr (answer_callback env c reply W) (\<lambda>_. send_menu env chat (Say reply)))"
| "dispatch env chat c (Set_Sale p on) W =
     bindr (on_db (set_saleable (be_root env) (be_now env) chat (id_in (bw_db W) p) on) W) (\<lambda>reply W.
     bindr (answer_callback env c reply W) (\<lambda>_. show_view env chat (server_list (be_webapp env) (be_root env) chat)))"
| "dispatch env chat c (Toggle_Shelf i) W =
     bindr (on_db (toggle_catalog (be_root env) (be_now env) chat ''category'' (id_in (bw_db W) i)) W) (\<lambda>reply W.
     bindr (answer_callback env c reply W) (\<lambda>_. show_view env chat (catalog_list (be_root env) chat)))"
| "dispatch env chat c (Toggle_Plan i) W =
     bindr (on_db (toggle_catalog (be_root env) (be_now env) chat ''plan'' (id_in (bw_db W) i)) W) (\<lambda>reply W.
     bindr (answer_callback env c reply W) (\<lambda>_. show_view env chat (catalog_list (be_root env) chat)))"
| "dispatch env chat c New_Shelf W = bindr (answer_callback env c ''a new shelf'' W) (\<lambda>_. begin_shelf env chat)"
| "dispatch env chat c New_Plan W = bindr (answer_callback env c ''a new plan'' W) (\<lambda>_. begin_plan env chat)"
| "dispatch env chat c (Select_Panel p) W = (case plan_step env chat ''panel'' W of
     None \<Rightarrow> answer_callback env c ''press new plan first'' W
   | Some st \<Rightarrow> bindr (answer_callback env c ''done''
         (set_state env chat (st\<lparr>st_data := (st_data st)(''panel_id'' \<mapsto> Ref p), st_step := ''shelf''\<rparr>) W)) (\<lambda>_.
       show_view env chat (catalog_shelves (be_root env) chat)))"
| "dispatch env chat c (Select_Shelf i) W = (case plan_step env chat ''shelf'' W of
     None \<Rightarrow> answer_callback env c ''press new plan first'' W
   | Some st \<Rightarrow> bindr (answer_callback env c ''done'' (set_state env chat (st\<lparr>st_data :=
         (st_data st)(''category_id'' \<mapsto> (if i = [] then Nothing else Ref i)), st_step := ''name''\<rparr>) W)) (\<lambda>_.
       send env chat (Say ''name'') None))"
| "dispatch env chat c (Order_Plan i) W = bindr (answer_callback env c ''ordering'' W) (\<lambda>_. begin_plan_order env chat i)"
| "dispatch env chat c (Order_Panel i) W = bindr (answer_callback env c ''ordering'' W) (\<lambda>_. begin_order env chat i)"
| "dispatch env chat c (List_Orders wanted) W =
     bindr (on_db (bot_order_queue (be_root env) chat wanted) W) (\<lambda>v W.
     bindr (answer_callback env c ''done'' W) (\<lambda>_. send_view env chat v))"
| "dispatch env chat c (On_Order r a) W = order_callback env chat c r a W"
| "dispatch env chat c Unknown_Call W = answer_callback env c ''invalid command'' W"

definition handle_callback :: "bot_env \<Rightarrow> int \<Rightarrow> string \<Rightarrow> string \<Rightarrow> bot_world \<Rightarrow> (unit, bot_world) res" where
  "handle_callback env chat callback_id data W = (case dispatch env chat callback_id (parse_callback data) W of
     (Inr u, W) \<Rightarrow> returned u W
   | (Inl (PermissionError t), W) \<Rightarrow> answer_callback env callback_id (take 190 t) W
   | (Inl e, W) \<Rightarrow> answer_callback env callback_id ''the operation failed'' W)"

section \<open>The consumer\<close>

text \<open>
  An entry of the stream: a callback query, a message with the chat it came from, or an entry that raises while
  it is read, with what it raises: a text that is no JSON, or a callback query without a message. An entry is
  acknowledged when its handler returned; what raised is printed and left.
\<close>

datatype update =
    Callback_Query int string string
  | Message "int option" chat_text
  | Malformed error

definition handle_update :: "bot_env \<Rightarrow> update \<Rightarrow> bot_world \<Rightarrow> (unit, bot_world) res" where
  "handle_update env u W = (case u of
     Callback_Query chat c data \<Rightarrow> handle_callback env chat c data W
   | Message None v \<Rightarrow> returned () W
   | Message (Some chat) v \<Rightarrow> if chat = 0 then returned () W else handle_message env chat v W
   | Malformed e \<Rightarrow> raised e W)"

definition consume :: "bot_env \<times> string \<times> update \<Rightarrow> bot_world \<Rightarrow> bot_world" where
  "consume x W = (case x of (env, message_id, u) \<Rightarrow> (case handle_update env u W of
     (Inr _, W) \<Rightarrow> W\<lparr>bw_acked := bw_acked W @ [message_id]\<rparr> | (Inl _, W) \<Rightarrow> W))"

end
