(* ===== verification/Bot_Laws.thy ===== *)
theory Bot_Laws
  imports Bot_Chat
begin

text \<open>
  What an update can do to the database, stated once as an interface: a predicate on the database that
  every operation of a chat keeps is kept by the whole handling of any update of that chat, whatever
  Telegram answers. The reads of the bot change nothing.
\<close>

section \<open>Reads\<close>

lemma bw_simps [simp]:
  "bw_db (set_state env chat st W) = bw_db W" "bw_db (clear_state chat W) = bw_db W"
  "bw_db (snd (telegram env c W)) = bw_db W" "bw_db (snd (send env k m b W)) = bw_db W"
  "bw_db (snd (answer_callback env i t W)) = bw_db W"
  "bw_states (snd (telegram env c W)) = bw_states W" "bw_states (snd (send env k m b W)) = bw_states W"
  "bw_states (snd (answer_callback env i t W)) = bw_states W"
  by (simp_all add: set_state_def clear_state_def telegram_def send_def answer_callback_def Let_def)

lemma on_db_simps [simp]:
  "bw_db (snd (on_db f W)) = snd (f (bw_db W))" "bw_states (snd (on_db f W)) = bw_states W"
  "fst (on_db f W) = fst (f (bw_db W))"
  by (simp_all add: on_db_def split: prod.split)

lemma keeps_bindr:
  assumes "snd m = s" and "\<And>v. fst m = Inr v \<Longrightarrow> snd (f v s) = s"
  shows "snd (bindr m f) = s"
  using assms by (cases m; cases "fst m") auto

lemma reads_context [simp]: "snd (bot_context root_env chat s) = s"
  by (rule bot_context_reads)

lemma reads_role [simp]: "snd (current_role root_env chat s) = s"
  and reads_require [simp]: "snd (require_context root_env chat s) = s"
  and reads_permitted [simp]: "snd (permitted_context permission root_env chat s) = s"
  by (auto simp: current_role_def permitted_context_def require_context_def require_some_def require_def
      intro!: keeps_bindr split: option.split)

lemmas read_rules = keeps_bindr

lemma reads_views [simp]:
  "snd (bot_dashboard root_env chat admin s) = s" "snd (server_list webapp root_env chat s) = s"
  "snd (catalog_list root_env chat s) = s" "snd (catalog_panels root_env chat s) = s"
  "snd (catalog_shelves root_env chat s) = s" "snd (reseller_list root_env chat s) = s"
  "snd (bot_transactions root_env chat s) = s" "snd (finance_menu root_env chat s) = s"
  "snd (funding_requests_view root_env chat s) = s" "snd (approval_requests_view root_env chat s) = s"
  "snd (bot_order_queue root_env chat wanted s) = s" "snd (customer_panel root_env chat s) = s"
  "snd (order_detail root_env chat i s) = s"
  by (auto simp: bot_dashboard_def server_list_def catalog_list_def catalog_panels_def catalog_shelves_def
      reseller_list_def bot_transactions_def finance_menu_def funding_requests_view_def approval_requests_view_def
      bot_order_queue_def customer_panel_def order_detail_def require_some_def require_def Let_def
      intro!: keeps_bindr split: option.split)

lemma reads_items [simp]:
  "snd (text_item k d s) = s" "snd (num_item k d s) = s" "snd (ref_item k d s) = s" "snd (as_int env v s) = s"
  "snd (validated ok s) = s"
  by (auto simp: text_item_def num_item_def ref_item_def as_int_def validated_def require_def require_some_def
      split: option.split datum.split)

lemma reads_answers [simp]:
  "snd (plan_answers_of t d s) = s" "snd (order_answers_of t d v s) = s" "snd (quote_answers_of t d a s) = s"
  "snd (reseller_answers_of env d v s) = s" "snd (plan_datum env step v s) = s" "snd (skipped_number env b v s) = s"
  by (auto simp: plan_answers_of_def order_answers_of_def quote_answers_of_def reseller_answers_of_def plan_datum_def
      skipped_number_def require_some_def Let_def intro!: keeps_bindr split: option.split)

lemma catching_keeps:
  assumes "P (snd m)" and "\<And>t W. P W \<Longrightarrow> P (snd (h t W))" and "\<And>v W. P W \<Longrightarrow> P (snd (f v W))"
  shows "P (snd (catching m h f))"
  using assms by (cases m; cases "fst m") (auto simp: catching_def split: error.split)

section \<open>The interface\<close>

locale desk_keeper =
  fixes env :: bot_env and chat :: int and Q :: "db \<Rightarrow> bool"
  assumes sale: "Q s \<Longrightarrow> Q (snd (set_saleable (be_root env) (be_now env) chat i on s))"
    and toggle: "Q s \<Longrightarrow> Q (snd (toggle_catalog (be_root env) (be_now env) chat kind i s))"
    and shelf: "Q s \<Longrightarrow> Q (snd (create_shelf (be_root env) (be_now env) chat name description s))"
    and plan: "Q s \<Longrightarrow> Q (snd (save_plan (be_root env) (be_now env) chat x s))"
    and nodes: "Q s \<Longrightarrow> Q (snd (node_list (be_up env) (be_py_str env) (be_root env) (be_now env) chat i p s))"
    and node: "Q s \<Longrightarrow> Q (snd (node_action (be_up env) (be_root env) (be_now env) chat i ref a s))"
    and funding: "Q s \<Longrightarrow> Q (snd (bot_decide_funding (be_root env) (be_now env) chat i yes s))"
    and approval: "Q s \<Longrightarrow> Q (snd (bot_decide_approval (be_root env) (be_now env) chat i yes s))"
    and reseller: "Q s \<Longrightarrow> Q (snd (create_reseller (be_root env) (be_now env) chat r s))"
    and place: "Q s \<Longrightarrow> Q (snd (place_order (be_tokens env) (be_now env) chat ord s))"
    and step: "Q s \<Longrightarrow> Q (snd (customer_order_action (be_now env) chat i a s))"
    and review: "Q s \<Longrightarrow> Q (snd (reviewer_order_action (be_root env) (be_depth env) (be_now env) chat i a reason attach s))"
    and quote: "Q s \<Longrightarrow> Q (snd (apply_quote (be_root env) (be_now env) chat q s))"
    and credit: "Q s \<Longrightarrow> Q (snd (ask_credit (be_root env) (be_now env) chat n s))"
begin

lemmas writes = sale toggle shelf plan nodes node funding approval reseller place step review quote credit

lemma bind: "Q (bw_db (snd m)) \<Longrightarrow> (\<And>v W. Q (bw_db W) \<Longrightarrow> Q (bw_db (snd (f v W)))) \<Longrightarrow> Q (bw_db (snd (bindr m f)))"
  by (rule bindr_keeps [where P = "\<lambda>W. Q (bw_db W)"])

lemma attempt:
  "Q (bw_db (snd m)) \<Longrightarrow> (\<And>t W. Q (bw_db W) \<Longrightarrow> Q (bw_db (snd (h t W)))) \<Longrightarrow>
   (\<And>v W. Q (bw_db W) \<Longrightarrow> Q (bw_db (snd (f v W)))) \<Longrightarrow> Q (bw_db (snd (catching m h f)))"
  by (rule catching_keeps [where P = "\<lambda>W. Q (bw_db W)"])

lemma basics:
  assumes "Q (bw_db W)"
  shows "Q (bw_db (snd (send_menu env k m W)))" "Q (bw_db (snd (send_view env k v W)))"
    "Q (bw_db (snd (abort_flow env k t W)))" "Q (bw_db (snd (refuse env k t W)))"
    "Q (bw_db (snd (next_question env k st step d W)))" "Q (bw_db (snd (send_all env ks m b W)))"
    "Q (bw_db (snd (role_of env k W)))"
proof -
  have menu: "Q (bw_db W) \<Longrightarrow> Q (bw_db (snd (send_menu env k m W)))" for k m W
    by (auto simp: send_menu_def role_of_def intro!: bind)
  show "Q (bw_db (snd (send_all env ks m b W)))"
    using assms by (induction ks arbitrary: W) (auto intro!: bind)
  show "Q (bw_db (snd (send_menu env k m W)))" "Q (bw_db (snd (send_view env k v W)))"
    "Q (bw_db (snd (abort_flow env k t W)))" "Q (bw_db (snd (refuse env k t W)))"
    "Q (bw_db (snd (next_question env k st step d W)))" "Q (bw_db (snd (role_of env k W)))"
    using assms menu by (simp_all add: abort_flow_def send_view_def refuse_def next_question_def role_of_def)
qed

lemmas flow_rules = bind attempt basics writes

lemma announcements:
  assumes "Q (bw_db W)"
  shows "Q (bw_db (snd (announce_order env k row W)))" "Q (bw_db (snd (announce_quote env k row W)))"
  using assms by (auto simp: announce_order_def announce_quote_def Let_def intro!: flow_rules split: option.split)

lemma flows:
  assumes "Q (bw_db W)"
  shows "Q (bw_db (snd (continue_category env chat v st W)))" "Q (bw_db (snd (continue_order env chat v st W)))"
    "Q (bw_db (snd (continue_quote env chat v st W)))" "Q (bw_db (snd (continue_credit env chat v W)))"
  using assms
  by (auto simp: continue_category_def continue_order_def continue_quote_def continue_credit_def Let_def
      require_some_def split_beta intro!: flow_rules announcements split: option.split)

lemma finish_plan_keeps: "Q (bw_db W) \<Longrightarrow> Q (bw_db (snd (finish_plan env chat d W)))"
  by (auto simp: finish_plan_def Let_def split_beta intro!: flow_rules)

lemma continue_plan_keeps: "Q (bw_db W) \<Longrightarrow> Q (bw_db (snd (continue_plan env chat v st W)))"
  by (auto simp: continue_plan_def Let_def intro!: flow_rules finish_plan_keeps split: option.split sum.split)

lemma finish_reseller_keeps:
  assumes "Q (bw_db W)"
  shows "Q (bw_db (snd (finish_reseller env chat d c W)))"
proof -
  let ?m = "bindr (reseller_answers_of env d c W) (\<lambda>x W. bindr (on_db (create_reseller (be_root env) (be_now env) chat x) W)
    (\<lambda>name W. send_menu env chat (Reseller_Made name) (clear_state chat W)))"
  have "Q (bw_db (snd ?m))" using assms by (auto intro!: flow_rules)
  then show ?thesis
    by (cases ?m; cases "fst ?m") (auto simp: finish_reseller_def intro: basics)
qed

lemma continue_reseller_keeps: "Q (bw_db W) \<Longrightarrow> Q (bw_db (snd (continue_reseller env chat v st W)))"
  by (auto simp: continue_reseller_def Let_def intro!: flow_rules finish_reseller_keeps)

lemma apply_approval_keeps: "Q (bw_db W) \<Longrightarrow> Q (bw_db (snd (apply_approval env chat i a c attach W)))"
  by (auto simp: apply_approval_def Let_def intro!: flow_rules split: option.split)

lemma continue_attach_keeps: "Q (bw_db W) \<Longrightarrow> Q (bw_db (snd (continue_attach env chat v st W)))"
  by (auto simp: continue_attach_def intro!: flow_rules apply_approval_keeps split: option.split)

lemma continue_state_keeps: "Q (bw_db W) \<Longrightarrow> Q (bw_db (snd (continue_state env chat v st W)))"
  by (simp add: continue_state_def basics flows continue_plan_keeps continue_attach_keeps continue_reseller_keeps)

lemma openings:
  assumes "Q (bw_db W)"
  shows "Q (bw_db (snd (begin_reseller env chat W)))" "Q (bw_db (snd (begin_order env chat t W)))"
    "Q (bw_db (snd (begin_plan_order env chat t W)))" "Q (bw_db (snd (begin_quote env chat t W)))"
    "Q (bw_db (snd (begin_shelf env chat W)))" "Q (bw_db (snd (begin_plan env chat W)))"
    "Q (bw_db (snd (begin_credit env chat W)))"
  using assms by (auto simp: begin_reseller_def begin_order_def begin_plan_order_def begin_quote_def begin_shelf_def
      begin_plan_def begin_credit_def intro!: flow_rules split: option.split)

lemma shows_keep:
  assumes "Q (bw_db W)" and "\<And>s. snd (f s) = s"
  shows "Q (bw_db (snd (show_view env chat f W)))" "Q (bw_db (snd (show_with_menu env chat role f W)))"
  using assms by (auto simp: show_view_def show_with_menu_def split_beta intro!: flow_rules)

lemma customer_section_keeps: "Q (bw_db W) \<Longrightarrow> Q (bw_db (snd (customer_section env chat role section W)))"
  by (auto simp: customer_section_def intro!: flow_rules shows_keep openings)

lemma open_section_keeps: "Q (bw_db W) \<Longrightarrow> Q (bw_db (snd (open_section env chat section W)))"
  unfolding open_section_def Let_def
  by (rule bind)
    (simp_all add: basics shows_keep openings customer_section_keeps my_orders_section_def Let_def bind)

lemma handle_message_keeps: "Q (bw_db W) \<Longrightarrow> Q (bw_db (snd (handle_message env chat typed W)))"
  by (auto simp: handle_message_def Let_def intro!: flow_rules continue_state_keeps open_section_keeps split: option.split)

lemma pay_notice_keeps: "Q (bw_db W) \<Longrightarrow> Q (bw_db (snd (pay_notice env i a row seller W)))"
  by (simp add: pay_notice_def basics)

lemma after_step_keeps: "Q (bw_db W) \<Longrightarrow> Q (bw_db (snd (after_customer_step env chat c i j a x W)))"
  by (cases x) (auto simp: after_customer_step_def intro!: bind basics pay_notice_keeps)

lemma order_callback_keeps: "Q (bw_db W) \<Longrightarrow> Q (bw_db (snd (order_callback env chat c r a W)))"
  by (simp add: order_callback_def Let_def bind basics writes apply_approval_keeps openings after_step_keeps)

lemma dispatch_keeps: "Q (bw_db W) \<Longrightarrow> Q (bw_db (snd (dispatch env chat c b W)))"
  by (cases b) (auto simp: split_beta intro!: flow_rules shows_keep openings order_callback_keeps open_section_keeps
      split: option.split)

lemma handle_callback_keeps:
  assumes "Q (bw_db W)"
  shows "Q (bw_db (snd (handle_callback env chat c data W)))"
  using dispatch_keeps [OF assms, of c "parse_callback data"]
  by (cases "dispatch env chat c (parse_callback data) W"; cases "fst (dispatch env chat c (parse_callback data) W)")
    (auto simp: handle_callback_def split: error.split)

end

text \<open>The chat an update comes from.\<close>

definition chat_of :: "update \<Rightarrow> int option" where
  "chat_of u = (case u of Callback_Query chat c data \<Rightarrow> Some chat | Message chat v \<Rightarrow> chat | Malformed e \<Rightarrow> None)"

lemma consume_db: "bw_db (consume (env, i, u) W) = bw_db (snd (handle_update env u W))"
  and consume_states: "bw_states (consume (env, i, u) W) = bw_states (snd (handle_update env u W))"
  by (auto simp: consume_def split: prod.split sum.split)

lemma update_keeps:
  assumes "\<And>chat. chat_of u = Some chat \<Longrightarrow> desk_keeper env chat Q" and "Q (bw_db W)"
  shows "Q (bw_db (consume (env, i, u) W))"
  using assms by (auto simp: consume_db handle_update_def chat_of_def desk_keeper.handle_callback_keeps
      desk_keeper.handle_message_keeps split: update.split option.split)

end
