(* ===== verification/Bot_Effects.thy ===== *)
theory Bot_Effects
  imports Bot_Laws
begin

text \<open>
  What each operation of a chat leaves in the database, as one equation or one frame per operation. The
  safety of the bot is read off these.
\<close>

lemma snd_transact: "snd (transact f s) = (case f s of (Inl _, _) \<Rightarrow> s | (Inr _, s') \<Rightarrow> s')"
  by (auto simp: transact_eq split: prod.split sum.split)

text \<open>A guarded operation changes nothing for a chat that may not do it.\<close>

definition entitled :: "string \<Rightarrow> int \<Rightarrow> string \<Rightarrow> db \<Rightarrow> bool" where
  "entitled root_env chat permission s \<longleftrightarrow> (\<exists>c. fst (bot_context root_env chat s) = Inr (Some c) \<and> can (Some (cx_role c)) permission)"

lemma permitted_entitled:
  "permitted_context permission root_env chat s = (Inr c, s') \<Longrightarrow> entitled root_env chat permission s \<and> s' = s"
  by (auto simp: permitted_context_iff entitled_def) (metis reads_context snd_conv)

lemma not_entitled:
  assumes "\<not> entitled root_env chat permission s"
  shows "\<exists>e. bindr (permitted_context permission root_env chat s) f = (Inl e, s)"
proof (cases "permitted_context permission root_env chat s")
  case (Pair r s')
  with permitted_entitled assms have "r = Inl (projl r)" by (cases r) fastforce+
  moreover have "s' = s" using reads_permitted [of permission root_env chat s] Pair by simp
  ultimately show ?thesis using Pair by (metis bindr_simps(1))
qed

lemma guarded_transact:
  "\<not> entitled root_env chat permission s \<Longrightarrow> snd (transact (\<lambda>s. bindr (permitted_context permission root_env chat s) f) s) = s"
  using not_entitled [of root_env chat permission s f] by (auto simp: snd_transact)

lemma refused_operations:
  "\<not> entitled (be_root env) chat ''manage_servers'' s \<Longrightarrow> snd (set_saleable (be_root env) now chat i on s) = s"
  "\<not> entitled (be_root env) chat ''manage_catalog'' s \<Longrightarrow> snd (toggle_catalog (be_root env) now chat kind i s) = s"
  "\<not> entitled (be_root env) chat ''manage_catalog'' s \<Longrightarrow> snd (create_shelf (be_root env) now chat name description s) = s"
  "\<not> entitled (be_root env) chat ''manage_catalog'' s \<Longrightarrow> snd (save_plan (be_root env) now chat x s) = s"
  "\<not> entitled (be_root env) chat ''decide_funding'' s \<Longrightarrow> snd (bot_decide_funding (be_root env) now chat i yes s) = s"
  "\<not> entitled (be_root env) chat ''manage_resellers'' s \<Longrightarrow> snd (create_reseller (be_root env) now chat r s) = s"
  "\<not> entitled (be_root env) chat ''decide_orders'' s \<Longrightarrow>
    snd (reviewer_order_action (be_root env) d now chat i a reason attach s) = s"
  unfolding set_saleable_def toggle_catalog_def create_shelf_def save_plan_def bot_decide_funding_def
    create_reseller_def reviewer_order_action_def
  by (rule guarded_transact, assumption)+

lemma refused_quote:
  assumes "\<not> entitled (be_root env) chat ''decide_orders'' s"
  shows "snd (apply_quote (be_root env) now chat q s) = s"
proof (cases "quote_valid q")
  case True
  show ?thesis
    unfolding apply_quote_def validated_def require_def if_P [OF True] bindr_simps by (rule guarded_transact [OF assms])
next
  case False
  then show ?thesis by (simp add: apply_quote_def validated_def require_def snd_transact)
qed

lemma refused_approval:
  assumes "\<not> entitled (be_root env) chat ''decide_adjustment'' s"
  shows "snd (bot_decide_approval (be_root env) now chat i yes s) = s"
proof -
  obtain e where "permitted_context ''decide_adjustment'' (be_root env) chat s = (Inl e, s)"
    using not_entitled [OF assms, of "\<lambda>c s. returned c s"] by (auto simp: bindr_Inl_iff)
  then show ?thesis by (simp add: bot_decide_approval_def request_def in_session_def open_session_def)
qed

section \<open>Servers\<close>

lemma sale_effect:
  "snd (set_saleable root_env now chat i on s) = s \<or>
   (\<exists>row. snd (set_saleable root_env now chat i on s) =
      s\<lparr>panels := modify pan_id i (\<lambda>p. p\<lparr>pan_saleable := on\<rparr>) (panels s), audit_logs := audit_logs s @ [row]\<rparr>)"
proof (cases "set_saleable root_env now chat i on s")
  case (Pair r s')
  show ?thesis
  proof (cases r)
    case (Inl e)
    with Pair have "s' = s" unfolding set_saleable_def by (auto dest: transact_Inl)
    with Pair show ?thesis by simp
  next
    case (Inr v)
    from Pair Inr have "set_saleable root_env now chat i on s = (Inr v, s')" by simp
    then obtain c s1 where "permitted_context ''manage_servers'' root_env chat s = (Inr c, s1)"
      and rest: "bindr (require_some (if panel_is_mine s1 i (cx_organization_id c) then get_panel s1 i else None)
         (PermissionError ''the server was not found or is not yours'') s1) (\<lambda>p s.
       returned (if on then ''the server is open for orders'' else ''the server left the sale list'')
         (audit now ''panel.saleable'' ''panel'' (Some (pan_id p)) (Some (cx_actor_id c)) (Some (cx_organization_id c))
           [(''saleable'', JBool on)]
           (s\<lparr>panels := modify pan_id (pan_id p) (\<lambda>p. p\<lparr>pan_saleable := on\<rparr>) (panels s)\<rparr>))) = (Inr v, s')"
      unfolding set_saleable_def transact_Inr by (rule bindr_InrE)
    then have "s1 = s" using permitted_entitled by blast
    from rest obtain p s2 where "require_some (if panel_is_mine s1 i (cx_organization_id c) then get_panel s1 i else None)
         (PermissionError ''the server was not found or is not yours'') s1 = (Inr p, s2)"
      and made: "returned (if on then ''the server is open for orders'' else ''the server left the sale list'')
         (audit now ''panel.saleable'' ''panel'' (Some (pan_id p)) (Some (cx_actor_id c)) (Some (cx_organization_id c))
           [(''saleable'', JBool on)]
           (s2\<lparr>panels := modify pan_id (pan_id p) (\<lambda>p. p\<lparr>pan_saleable := on\<rparr>) (panels s2)\<rparr>)) = (Inr v, s')"
      by (rule bindr_InrE)
    then have p: "get_panel s1 i = Some p" and "s2 = s1" by (auto split: if_splits)
    from made have s': "s' = audit now ''panel.saleable'' ''panel'' (Some (pan_id p))
        (Some (cx_actor_id c)) (Some (cx_organization_id c)) [(''saleable'', JBool on)]
        (s1\<lparr>panels := modify pan_id (pan_id p) (\<lambda>p. p\<lparr>pan_saleable := on\<rparr>) (panels s1)\<rparr>)"
      unfolding returned_def prod.inject \<open>s2 = s1\<close> by blast
    have "pan_id p = i" using lookup_SomeD [OF p] by simp
    then have "\<exists>row. s' = s\<lparr>panels := modify pan_id i (\<lambda>p. p\<lparr>pan_saleable := on\<rparr>) (panels s),
        audit_logs := audit_logs s @ [row]\<rparr>"
      unfolding s' \<open>s1 = s\<close> audit_def by (simp, blast)
    with Pair show ?thesis by simp
  qed
qed

definition logged :: "db \<Rightarrow> db \<Rightarrow> bool" where
  "logged s s' \<longleftrightarrow> (\<exists>rows. s' = s\<lparr>audit_logs := audit_logs s @ rows\<rparr>)"

lemma logged_refl [simp]: "logged s s"
  unfolding logged_def by (rule exI [of _ "[]"]) simp

lemma operation_logged:
  assumes "current S = s" "committed S = s"
  shows "logged s (committed (snd (panel_operation now run p w action a metadata S)))"
    and "committed (snd (panel_operation now run p w action a metadata S)) =
      current (snd (panel_operation now run p w action a metadata S))"
proof -
  obtain r S' where run: "panel_operation now run p w action a metadata S = (r, S')" by fastforce
  from panel_operation_result [OF run] obtain row where "committed S' = current S'"
    "current S' = s\<lparr>audit_logs := audit_logs s @ [row]\<rparr>" unfolding assms(1) by blast
  then show "committed (snd (panel_operation now run p w action a metadata S)) =
      current (snd (panel_operation now run p w action a metadata S))" "logged s (committed (snd (panel_operation now run p w action a metadata S)))"
    unfolding run snd_conv logged_def by (blast, metis)
qed

lemma reads_bot_panel [simp]: "snd (bot_panel root_env chat i s) = s"
  by (auto simp: bot_panel_def require_some_def require_def intro!: keeps_bindr split: option.split)

lemma run_logged:
  assumes "current S = s" "committed S = s"
  shows "logged s (committed (snd (run_panel_operation now c p action run metadata S)))"
  using operation_logged(1) [OF assms] by (simp add: run_panel_operation_def)

lemma bot_panel_session:
  obtains r where "in_session (bot_panel root_env chat i) (open_session s) = (r, open_session s)"
proof -
  have "snd (bot_panel root_env chat i s) = s" by simp
  then show ?thesis using that
    by (cases "bot_panel root_env chat i s") (auto simp: in_session_def open_session_def)
qed

lemma logged_bindr:
  "logged s (committed (snd m)) \<Longrightarrow> (\<And>v S. logged s (committed S) \<Longrightarrow> logged s (committed (snd (f v S)))) \<Longrightarrow>
    logged s (committed (snd (bindr m f)))"
  by (rule bindr_keeps [where P = "\<lambda>S. logged s (committed S)"])

lemma node_effects:
  "logged s (snd (node_list up py_str root_env now chat i ref s))"
  "logged s (snd (node_action up root_env now chat i n a s))"
proof -
  obtain r where r: "in_session (bot_panel root_env chat i) (open_session s) = (r, open_session s)"
    by (rule bot_panel_session)
  show "logged s (snd (node_list up py_str root_env now chat i ref s))"
    by (cases r) (auto simp: node_list_def request_def r case_prod_beta intro!: logged_bindr run_logged split: sum.split)
  show "logged s (snd (node_action up root_env now chat i n a s))"
    by (cases r) (auto simp: node_action_def request_def r case_prod_beta require_some_def intro!: logged_bindr run_logged
        split: sum.split option.split)
qed

section \<open>The customer's own operations\<close>

lemma place_effect:
  obtains (same) "snd (place_order tokens now chat x s) = s"
  | (placed) ord where "create_panel_order tokens now chat (oi_business_name x) ''telegram'' x s =
      (Inr ord, snd (place_order tokens now chat x s))"
proof (cases "place_order tokens now chat x s")
  case (Pair r s')
  show ?thesis
  proof (cases r)
    case (Inl e)
    with Pair have "s' = s" unfolding place_order_def by (auto dest: transact_Inl)
    with Pair same show ?thesis by simp
  next
    case (Inr v)
    with Pair have "place_order tokens now chat x s = (Inr v, s')" by simp
    then obtain ord s1 where "create_panel_order tokens now chat (oi_business_name x) ''telegram'' x s = (Inr ord, s1)"
      and "returned (order_row s1 ord) s1 = (Inr v, s')"
      unfolding place_order_def transact_Inr by (auto elim!: bindr_InrE)
    with Pair placed show ?thesis by simp
  qed
qed

lemma placed_actors:
  assumes "create_panel_order tokens now chat name medium x s = (Inr ord, s')"
  shows "actors s' = actors s \<or> lookup act_telegram_id chat (actors s) = None \<and>
    (\<exists>a. actors s' = actors s @ [a] \<and> act_id a = next_uid s \<and> act_telegram_id a = chat)"
    and "funding_requests s' = funding_requests s" "approval_requests s' = approval_requests s"
proof -
  from assms obtain a s1 where add: "find_or_add_actor chat (if oi_business_name x = [] then name else oi_business_name x) s = (a, s1)"
    and s': "actors s' = actors s1" "funding_requests s' = funding_requests s1" "approval_requests s' = approval_requests s1"
    unfolding create_panel_order_def
    by (auto simp: priced_plan_def unique_order_slug_def bindr_Inr_iff Let_def split: option.splits if_splits prod.splits)
  from add s' show "actors s' = actors s \<or> lookup act_telegram_id chat (actors s) = None \<and>
    (\<exists>a. actors s' = actors s @ [a] \<and> act_id a = next_uid s \<and> act_telegram_id a = chat)"
    "funding_requests s' = funding_requests s" "approval_requests s' = approval_requests s"
    by (auto simp: find_or_add_actor_def add_actor_def Let_def split: option.splits)
qed

lemma step_effect:
  obtains (same) "snd (customer_order_action now chat i action s) = s"
  | (stepped) ord to_status a what details where "get_order s i = Some ord" "to_status \<in> set (ORDER_FLOW (ord_status ord))"
      "to_status \<in> {''confirmed'', ''payment_declared'', ''cancelled''}"
      "requester_actor s chat = Some a" "ord_actor_id ord = act_id a"
      "snd (customer_order_action now chat i action s) =
        audit now what ''panel_order'' (Some i) (Some (act_id a)) (ord_organization_id ord) details
          (on_order i (\<lambda>r. r\<lparr>ord_status := to_status\<rparr>) s)"
proof (cases "customer_order_action now chat i action s")
  case (Pair r s')
  show ?thesis
  proof (cases r)
    case (Inl e)
    with Pair have "s' = s" unfolding customer_order_action_def by (auto dest: transact_Inl)
    with Pair same show ?thesis by simp
  next
    case (Inr v)
    with Pair have "customer_order_action now chat i action s = (Inr v, s')" by simp
    then obtain to_status reply ord a u seller where act: "CUSTOMER_ACTIONS action = Some (to_status, reply)"
      and ord: "get_order s i = Some ord" "to_status \<in> set (ORDER_FLOW (ord_status ord))"
      and a: "requester_actor s chat = Some a" "ord_actor_id ord = act_id a"
      and adv: "advance_customer_order now ord to_status s = (Inr (), s')"
      unfolding customer_order_action_def transact_Inr
      by (auto simp: bindr_Inr_iff locked_order_iff Let_def split: option.splits prod.splits)
    have to: "to_status \<in> {''confirmed'', ''payment_declared'', ''cancelled''}"
      using act by (auto simp: CUSTOMER_ACTIONS_def split: if_splits)
    have i: "ord_id ord = i" using lookup_SomeD [OF ord(1)] by simp
    from adv obtain what where "s' = audit now what ''panel_order'' (Some (ord_id ord)) (Some (ord_actor_id ord))
        (ord_organization_id ord)
        (if to_status = ''payment_declared'' then [(''amount_irr'', JInt (ord_amount_irr ord))] else [])
        (on_order (ord_id ord) (\<lambda>r. r\<lparr>ord_status := to_status\<rparr>) s)"
      unfolding advance_customer_order_def by (auto simp: bindr_Inr_iff require_transition_def)
    with ord to a i show ?thesis by (intro stepped) (simp_all add: Pair)
  qed
qed

lemma credit_effect:
  obtains (same) "snd (ask_credit root_env now chat n s) = s"
  | (asked) r where "fun_id r = next_uid s" "fun_status r = ''pending''" "fun_amount_irr r = n"
      "snd (ask_credit root_env now chat n s) = draw (s\<lparr>funding_requests := funding_requests s @ [r]\<rparr>)"
proof (cases "ask_credit root_env now chat n s")
  case (Pair r s')
  show ?thesis
  proof (cases r)
    case (Inl e)
    with Pair have "s' = s" unfolding ask_credit_def by (auto dest: transact_Inl)
    with Pair same show ?thesis by simp
  next
    case (Inr v)
    with Pair have "ask_credit root_env now chat n s = (Inr v, s')" by simp
    then obtain c s1 where c: "require_context root_env chat s = (Inr c, s1)"
      and rest: "bindr (bigints_stored [n] s1) (\<lambda>_ s. returned c (draw (s\<lparr>funding_requests := funding_requests s @
        [\<lparr>fun_id = next_uid s, fun_organization_id = cx_organization_id c, fun_actor_id = cx_actor_id c, fun_amount_irr = n,
          fun_status = ''pending'', fun_decided_by = None, fun_decided_at = None, fun_created_at = now\<rparr>]\<rparr>))) = (Inr v, s')"
      unfolding ask_credit_def transact_Inr by (rule bindr_InrE)
    have "s1 = s" using c reads_require by (metis snd_conv)
    with rest have "s' = draw (s\<lparr>funding_requests := funding_requests s @
        [\<lparr>fun_id = next_uid s, fun_organization_id = cx_organization_id c, fun_actor_id = cx_actor_id c, fun_amount_irr = n,
          fun_status = ''pending'', fun_decided_by = None, fun_decided_at = None, fun_created_at = now\<rparr>]\<rparr>)"
      by (clarsimp simp: bigints_stored_def require_def returned_def split: if_splits)
    then show ?thesis by (intro asked) (simp_all add: Pair)
  qed
qed

end
