(* ===== verification/Bot_Safety.thy ===== *)
theory Bot_Safety
  imports Bot_Effects
begin

text \<open>
  Two promises of the bot, each an interpretation of the interface of \<open>Bot_Laws\<close>: a chat that holds no
  deciding permission moves no money and no order but its own, and every update of any chat keeps the
  books, the tree, the catalog and the life of the orders.
\<close>

section \<open>A chat without deciding permissions\<close>

definition DECIDING :: "string list" where
  "DECIDING = [''decide_orders'', ''decide_funding'', ''decide_adjustment'', ''manage_catalog'', ''manage_resellers'']"

definition bystander :: "string \<Rightarrow> int \<Rightarrow> db \<Rightarrow> bool" where
  "bystander root_env chat s \<longleftrightarrow> list_all (\<lambda>p. \<not> entitled root_env chat p s) DECIDING"

definition own_order :: "db \<Rightarrow> int \<Rightarrow> panel_order \<Rightarrow> bool" where
  "own_order s chat ord \<longleftrightarrow> (case requester_actor s chat of None \<Rightarrow> False | Some a \<Rightarrow> ord_actor_id ord = act_id a)"

text \<open>What may differ after an update of such a chat.\<close>

definition in_lane :: "int \<Rightarrow> db \<Rightarrow> db \<Rightarrow> bool" where
  "in_lane chat s0 s \<longleftrightarrow>
     accounts s = accounts s0 \<and> transactions s = transactions s0 \<and> organizations s = organizations s0 \<and>
     closures s = closures s0 \<and> contracts s = contracts s0 \<and> memberships s = memberships s0 \<and>
     bindings s = bindings s0 \<and> panel_owners s = panel_owners s0 \<and> plans s = plans s0 \<and>
     plan_categories s = plan_categories s0 \<and> approval_requests s = approval_requests s0 \<and>
     outbox_events s = outbox_events s0 \<and> settings s = settings s0 \<and>
     (\<exists>asked. funding_requests s = funding_requests s0 @ asked \<and> (\<forall>r \<in> set asked. fun_status r = ''pending'')) \<and>
     (\<forall>i a. get_order s0 i = Some a \<longrightarrow> (\<exists>st. get_order s i = Some (a\<lparr>ord_status := st\<rparr>) \<and>
        (st \<noteq> ord_status a \<longrightarrow> own_order s chat a \<and> st \<in> {''confirmed'', ''payment_declared'', ''cancelled''})))"

text \<open>Memberships belong to actors that were drawn.\<close>

definition members_drawn :: "db \<Rightarrow> bool" where
  "members_drawn s \<longleftrightarrow> (\<forall>m \<in> set (memberships s). mem_actor_id m < next_uid s)"

lemma in_lane_refl: "in_lane chat s s"
proof -
  have "\<exists>st. Some a = Some (a\<lparr>ord_status := st\<rparr>) \<and> (st \<noteq> ord_status a \<longrightarrow> own_order s chat a \<and>
      st \<in> {''confirmed'', ''payment_declared'', ''cancelled''})" for a :: panel_order
    by (rule exI [of _ "ord_status a"]) simp
  then show ?thesis by (simp add: in_lane_def)
qed

definition lane_kept :: "string \<Rightarrow> int \<Rightarrow> db \<Rightarrow> db \<Rightarrow> bool" where
  "lane_kept root_env chat s0 s \<longleftrightarrow> in_lane chat s0 s \<and> bystander root_env chat s \<and> members_drawn s"

text \<open>The context reads the actors, the memberships and the organizations.\<close>

lemma context_cong:
  "actors s' = actors s \<Longrightarrow> memberships s' = memberships s \<Longrightarrow> organizations s' = organizations s \<Longrightarrow>
    bystander root_env chat s' = bystander root_env chat s"
  by (simp add: bystander_def entitled_def bot_context_def optional_membership_def active_actor_def split: option.split)

lemma lane_same:
  assumes kept: "lane_kept root_env chat s0 s"
    and same: "accounts s' = accounts s" "transactions s' = transactions s" "organizations s' = organizations s"
      "closures s' = closures s" "contracts s' = contracts s" "memberships s' = memberships s" "bindings s' = bindings s"
      "panel_owners s' = panel_owners s" "plans s' = plans s" "plan_categories s' = plan_categories s"
      "approval_requests s' = approval_requests s" "outbox_events s' = outbox_events s" "settings s' = settings s"
      "actors s' = actors s" "next_uid s \<le> next_uid s'"
    and orders: "panel_orders s' = panel_orders s"
    and asked: "funding_requests s' = funding_requests s @ rs" "\<forall>r \<in> set rs. fun_status r = ''pending''"
  shows "lane_kept root_env chat s0 s'"
proof -
  have "own_order s' chat a = own_order s chat a" for a by (simp add: own_order_def requester_actor_def same)
  moreover have "\<exists>asked. funding_requests s' = funding_requests s0 @ asked \<and> (\<forall>r \<in> set asked. fun_status r = ''pending'')"
  proof -
    obtain q where "funding_requests s = funding_requests s0 @ q" "\<forall>r \<in> set q. fun_status r = ''pending''"
      using kept by (auto simp: lane_kept_def in_lane_def)
    with asked show ?thesis by (intro exI [of _ "q @ rs"]) auto
  qed
  moreover have "members_drawn s'" using kept same by (auto simp: lane_kept_def members_drawn_def)
  moreover have "bystander root_env chat s'" using kept context_cong [of s' s] same by (simp add: lane_kept_def)
  ultimately show ?thesis using kept same orders by (simp add: lane_kept_def in_lane_def)
qed

lemma lane_logged: "lane_kept root_env chat s0 s \<Longrightarrow> logged s s' \<Longrightarrow> lane_kept root_env chat s0 s'"
  unfolding logged_def by (erule exE) (rule lane_same [where rs = "[]"], simp_all)

lemma lane_placed:
  assumes kept: "lane_kept root_env chat s0 s"
    and run: "create_panel_order tokens now chat name medium x s = (Inr ord, s')"
  shows "lane_kept root_env chat s0 s'"
proof -
  from run obtain p pl a s1 slug where new: "panel_orders s' = panel_orders s @ [ord]" and desk: "desk_only s s'"
    by (rule create_panel_order_Inr)
  note same = desk_only_simps [OF desk]
  note rest = placed_actors [OF run]
  have old: "get_order s i = Some b \<Longrightarrow> get_order s' i = Some b" for i b by (simp add: new lookup_append)
  have own: "own_order s chat b \<Longrightarrow> own_order s' chat b" for b
    using rest(1) by (auto simp: own_order_def requester_actor_def lookup_append split: option.splits)
  have drawn: "members_drawn s'" using kept same(14,11) by (auto simp: lane_kept_def members_drawn_def)
  have "bystander root_env chat s'" using rest(1)
  proof
    assume "actors s' = actors s"
    with context_cong [of s' s] same kept show ?thesis by (simp add: lane_kept_def)
  next
    assume "lookup act_telegram_id chat (actors s) = None \<and>
      (\<exists>a. actors s' = actors s @ [a] \<and> act_id a = next_uid s \<and> act_telegram_id a = chat)"
    then obtain a where none: "lookup act_telegram_id chat (actors s) = None" and a: "actors s' = actors s @ [a]" "act_id a = next_uid s"
      by blast
    have "active_actor s' chat = None \<or> active_actor s' chat = Some a"
    proof -
      have "List.find (\<lambda>b. act_telegram_id b = chat \<and> act_status b = ''active'') (actors s) = None"
        using none by (auto simp: find_None_iff lookup_None_iff)
      then show ?thesis by (simp add: active_actor_def a(1) find_append)
    qed
    moreover have "List.find (\<lambda>m. mem_actor_id m = act_id a \<and> mem_status m = ''active'') (memberships s') = None"
      using kept a(2) same(11) by (auto simp: find_None_iff lane_kept_def members_drawn_def)
    ultimately have "bot_context root_env chat s' = (Inr None, s')"
      by (auto simp: bot_context_def optional_membership_def)
    then show ?thesis by (simp add: bystander_def entitled_def DECIDING_def)
  qed
  moreover have "in_lane chat s0 s'"
    using kept same rest(2,3) old own unfolding lane_kept_def in_lane_def by (auto; blast)
  ultimately show ?thesis using drawn by (simp add: lane_kept_def)
qed

lemma lane_stepped:
  assumes kept: "lane_kept root_env chat s0 s" and ord: "get_order s i = Some ord"
    and to: "to_status \<in> {''confirmed'', ''payment_declared'', ''cancelled''}"
    and own: "requester_actor s chat = Some a" "ord_actor_id ord = act_id a"
  shows "lane_kept root_env chat s0 (audit t1 what t3 t4 t5 t6 t7 (on_order i (\<lambda>r. r\<lparr>ord_status := to_status\<rparr>) s))"
    (is "lane_kept _ _ _ ?s")
proof -
  have orders: "\<exists>st. get_order ?s j = Some (b\<lparr>ord_status := st\<rparr>) \<and> (st \<noteq> ord_status b \<longrightarrow> own_order ?s chat b \<and>
      st \<in> {''confirmed'', ''payment_declared'', ''cancelled''})" if b: "get_order s0 j = Some b" for j b
  proof -
    from kept b obtain st where st: "get_order s j = Some (b\<lparr>ord_status := st\<rparr>)"
      "st \<noteq> ord_status b \<longrightarrow> own_order s chat b \<and> st \<in> {''confirmed'', ''payment_declared'', ''cancelled''}"
      unfolding lane_kept_def in_lane_def by blast
    have same: "own_order ?s chat b = own_order s chat b" by (simp add: own_order_def requester_actor_def)
    show ?thesis
    proof (cases "j = i")
      case True
      with ord st have "ord = b\<lparr>ord_status := st\<rparr>" by simp
      with own have "own_order s chat b" by (simp add: own_order_def)
      with True st to show ?thesis by (intro exI [of _ to_status]) (simp add: lookup_modify same)
    next
      case False
      with st show ?thesis by (intro exI [of _ st]) (simp add: lookup_modify same)
    qed
  qed
  have "bystander root_env chat ?s = bystander root_env chat s"
    by (rule context_cong) (simp_all add: on_order_def)
  with kept orders show ?thesis
    by (simp add: lane_kept_def in_lane_def members_drawn_def on_order_def)
qed

text \<open>The interface, for a chat that holds no deciding permission.\<close>

interpretation lane: desk_keeper env chat "lane_kept (be_root env) chat s0"
proof
  fix s i on assume kept: "lane_kept (be_root env) chat s0 s"
  show "lane_kept (be_root env) chat s0 (snd (set_saleable (be_root env) (be_now env) chat i on s))"
    using sale_effect [of "be_root env" "be_now env" chat i on s]
  proof
    assume "\<exists>row. snd (set_saleable (be_root env) (be_now env) chat i on s) =
      s\<lparr>panels := modify pan_id i (\<lambda>p. p\<lparr>pan_saleable := on\<rparr>) (panels s), audit_logs := audit_logs s @ [row]\<rparr>"
    then show ?thesis by (elim exE) (rule lane_same [OF kept, where rs = "[]"], simp_all)
  qed (simp add: kept)
next
  fix s kind i name description x r a reason attach q yes
  assume "lane_kept (be_root env) chat s0 s"
  moreover from this have none: "p \<in> set DECIDING \<Longrightarrow> \<not> entitled (be_root env) chat p s" for p
    by (simp add: lane_kept_def bystander_def list_all_iff)
  moreover have "p \<in> set DECIDING" if "p \<in> {''decide_orders'', ''decide_funding'', ''decide_adjustment'', ''manage_catalog'',
      ''manage_resellers''}" for p
    using that by (auto simp: DECIDING_def)
  ultimately
  show "lane_kept (be_root env) chat s0 (snd (toggle_catalog (be_root env) (be_now env) chat kind i s))"
    "lane_kept (be_root env) chat s0 (snd (create_shelf (be_root env) (be_now env) chat name description s))"
    "lane_kept (be_root env) chat s0 (snd (save_plan (be_root env) (be_now env) chat x s))"
    "lane_kept (be_root env) chat s0 (snd (bot_decide_funding (be_root env) (be_now env) chat i yes s))"
    "lane_kept (be_root env) chat s0 (snd (bot_decide_approval (be_root env) (be_now env) chat i yes s))"
    "lane_kept (be_root env) chat s0 (snd (create_reseller (be_root env) (be_now env) chat r s))"
    "lane_kept (be_root env) chat s0 (snd (reviewer_order_action (be_root env) (be_depth env) (be_now env) chat i a reason attach s))"
    "lane_kept (be_root env) chat s0 (snd (apply_quote (be_root env) (be_now env) chat q s))"
    by (simp_all add: refused_operations refused_approval refused_quote)
next
  fix s i ref n a assume kept: "lane_kept (be_root env) chat s0 s"
  show "lane_kept (be_root env) chat s0 (snd (node_list (be_up env) (be_py_str env) (be_root env) (be_now env) chat i ref s))"
    "lane_kept (be_root env) chat s0 (snd (node_action (be_up env) (be_root env) (be_now env) chat i n a s))"
    by (rule lane_logged [OF kept node_effects(1)], rule lane_logged [OF kept node_effects(2)])
next
  fix s x assume kept: "lane_kept (be_root env) chat s0 s"
  show "lane_kept (be_root env) chat s0 (snd (place_order (be_tokens env) (be_now env) chat x s))"
    by (rule place_effect [of "be_tokens env" "be_now env" chat x s]) (simp_all add: kept lane_placed [OF kept])
next
  fix s i a assume kept: "lane_kept (be_root env) chat s0 s"
  show "lane_kept (be_root env) chat s0 (snd (customer_order_action (be_now env) chat i a s))"
    by (rule step_effect [of "be_now env" chat i a s]) (simp_all add: kept lane_stepped [OF kept])
next
  fix s n assume kept: "lane_kept (be_root env) chat s0 s"
  show "lane_kept (be_root env) chat s0 (snd (ask_credit (be_root env) (be_now env) chat n s))"
  proof (rule credit_effect [of "be_root env" "be_now env" chat n s])
    fix r assume "fun_status r = ''pending''"
      and s': "snd (ask_credit (be_root env) (be_now env) chat n s) = draw (s\<lparr>funding_requests := funding_requests s @ [r]\<rparr>)"
    then show ?thesis unfolding s' by (intro lane_same [OF kept, where rs = "[r]"]) (simp_all add: draw_def)
  qed (simp add: kept)
qed

text \<open>
  C8: a chat without a deciding permission stays in its lane. Whatever it types and whatever button it
  presses, genuine or made up, one update of such a chat leaves every wallet, posting, organization, closure row,
  contract, membership, binding, owner of a panel, plan, shelf, approval, setting and queued event as it was, adds
  to the funding requests at most pending ones, and changes of the orders that were there only the status
  of one of its own, and that only to confirmed, declared or cancelled. Of new orders, actors, audit rows and the sale list of
  the servers nothing is said: anybody may order, and the sale list has a permission of its own.
\<close>

theorem bystanders_stay_in_their_lane:
  assumes chat: "chat_of u = Some chat" and powerless: "bystander (be_root env) chat (bw_db W)" and drawn: "members_drawn (bw_db W)"
  shows "in_lane chat (bw_db W) (bw_db (consume (env, i, u) W))"
proof -
  have "lane_kept (be_root env) chat (bw_db W) (bw_db (consume (env, i, u) W))"
  proof (rule update_keeps)
    show "desk_keeper env c (lane_kept (be_root env) chat (bw_db W))" if "chat_of u = Some c" for c
      using that chat lane.desk_keeper_axioms [of env chat "bw_db W"] by simp
    show "lane_kept (be_root env) chat (bw_db W) (bw_db W)"
      by (simp add: lane_kept_def in_lane_refl powerless drawn)
  qed
  then show ?thesis by (simp add: lane_kept_def)
qed

end
