(* ===== verification/Bot_Books.thy ===== *)
theory Bot_Books
  imports Bot_Safety
begin

text \<open>
  Every update of any chat keeps the invariants of the components it works on: the ledger, the reseller
  tree, the catalog, and the life of each order.
\<close>

section \<open>The invariants together\<close>

definition forward :: "db \<Rightarrow> db \<Rightarrow> bool" where
  "forward s0 s \<longleftrightarrow> (\<forall>i a. get_order s0 i = Some a \<longrightarrow> (\<exists>b bs. get_order s i = Some b \<and>
     order_flow.walk (ord_status a) bs \<and> ord_status b = last (ord_status a # bs) \<and> identity_kept a b \<and>
     (ord_status a \<noteq> ''pending'' \<longrightarrow> terms_kept a b)))"

definition books :: "db \<Rightarrow> db \<Rightarrow> bool" where
  "books s0 s \<longleftrightarrow> ledger_ok s \<and> tree_ok s \<and> catalog_ok s \<and> forward s0 s"

lemma forward_refl: "forward s s"
  unfolding forward_def by (intro allI impI exI conjI, assumption, rule order_flow.walk.simps(1) [THEN iffD2]) simp_all

lemma forward_step:
  assumes fwd: "forward s0 s" and mv: "orders_moved s s'"
  shows "forward s0 s'"
  unfolding forward_def
proof (intro allI impI)
  fix i a assume "get_order s0 i = Some a"
  with fwd obtain b bs where b: "get_order s i = Some b" "order_flow.walk (ord_status a) bs"
    "ord_status b = last (ord_status a # bs)" "identity_kept a b" "ord_status a \<noteq> ''pending'' \<longrightarrow> terms_kept a b"
    unfolding forward_def by blast
  from mv b(1) obtain c where c: "get_order s' i = Some c" "order_moved b c" unfolding orders_moved_def by blast
  from order_moved_trace [OF c(2)] obtain cs where cs: "order_flow.walk (ord_status b) cs"
    "ord_status c = last (ord_status b # cs)" by blast
  have "order_flow.walk (ord_status a) (bs @ cs)" "ord_status c = last (ord_status a # bs @ cs)"
    using walk_append [OF b(2)] cs b(3) by (auto split: if_splits)
  moreover have "identity_kept a c" using c(2) b(4) by (auto simp: order_moved_def intro: kept_trans)
  moreover have "ord_status a \<noteq> ''pending'' \<longrightarrow> terms_kept a c"
  proof
    assume a: "ord_status a \<noteq> ''pending''"
    have "ord_status b \<noteq> ''pending''"
    proof (cases bs)
      case Nil
      with a b(3) show ?thesis by simp
    next
      case (Cons x xs)
      then have "last bs \<in> set bs" by simp
      with order_flow.walk_rank [OF b(2)] have "0 < order_rank (last bs)" by fastforce
      with Cons b(3) show ?thesis by (auto simp: order_rank_def)
    qed
    with a b(5) c(2) show "terms_kept a c" by (auto simp: order_moved_def intro: kept_trans)
  qed
  ultimately show "\<exists>b bs. get_order s' i = Some b \<and> order_flow.walk (ord_status a) bs \<and>
     ord_status b = last (ord_status a # bs) \<and> identity_kept a b \<and> (ord_status a \<noteq> ''pending'' \<longrightarrow> terms_kept a b)"
    using c(1) by blast
qed

lemma books_step:
  assumes "books s0 s" and "ledger_ok s'" "tree_ok s'" "catalog_ok s'" "orders_moved s s'"
  shows "books s0 s'"
  using assms by (auto simp: books_def intro: forward_step)

lemma books_parts:
  assumes "books s0 s"
  shows books_ledger: "ledger_ok s" and books_tree: "tree_ok s" and books_catalog: "catalog_ok s"
  using assms by (simp_all add: books_def)

text \<open>What leaves the money, the tree and the orders alone.\<close>

definition still :: "db \<Rightarrow> db \<Rightarrow> bool" where
  "still s s' \<longleftrightarrow> accounts s' = accounts s \<and> transactions s' = transactions s \<and> organizations s' = organizations s \<and>
     closures s' = closures s \<and> contracts s' = contracts s \<and> next_uid s \<le> next_uid s' \<and> panel_orders s' = panel_orders s"

lemma books_still:
  assumes "books s0 s" "still s s'" "catalog_ok s'"
  shows "books s0 s'"
proof -
  have "same_tree s s'" using assms(2) by (simp add: still_def same_tree_def)
  with assms show ?thesis
    by (intro books_step [OF assms(1)])
      (auto simp: books_def still_def intro: ledger_ok_same same_tree_ok orders_moved_same)
qed

lemma books_unlisted:
  assumes "books s0 s" "still s s'" "plans s' = plans s" "plan_categories s' = plan_categories s" "panels s' = panels s"
    "panel_owners s' = panel_owners s"
  shows "books s0 s'"
proof (rule books_still [OF assms(1,2)])
  have "same_catalog s s'" using assms by (auto simp: same_catalog_def still_def)
  with assms(1) show "catalog_ok s'" by (auto simp: books_def intro: same_catalog_ok)
qed

lemma books_logged: "books s0 s \<Longrightarrow> logged s s' \<Longrightarrow> books s0 s'"
  unfolding logged_def by (erule exE) (rule books_unlisted, simp_all add: still_def)

lemma transact_books:
  assumes "books s0 s" and "\<And>v s'. f s = (Inr v, s') \<Longrightarrow> books s0 s'"
  shows "books s0 (snd (transact f s))"
  using assms by (rule transact_keeps)

section \<open>Operation by operation\<close>

lemma permitted_Inr:
  "permitted_context p root_env chat s = (Inr c, s') \<longleftrightarrow> s' = s \<and> fst (permitted_context p root_env chat s) = Inr c"
  using reads_permitted [of p root_env chat s] by (cases "permitted_context p root_env chat s") auto

lemma sale_catalog_ok:
  assumes "catalog_ok s"
  shows "catalog_ok (s\<lparr>panels := modify pan_id i (\<lambda>p. p\<lparr>pan_saleable := on\<rparr>) (panels s), audit_logs := l\<rparr>)"
  using assms by (auto simp: catalog_ok_def lookup_modify panel_is_mine_def shelf_ok_def cong: option.case_cong)

lemma sale_books:
  assumes "books s0 s"
  shows "books s0 (snd (set_saleable root_env now chat i on s))"
  using sale_effect [of root_env now chat i on s]
proof
  assume "\<exists>row. snd (set_saleable root_env now chat i on s) =
      s\<lparr>panels := modify pan_id i (\<lambda>p. p\<lparr>pan_saleable := on\<rparr>) (panels s), audit_logs := audit_logs s @ [row]\<rparr>"
  with assms show ?thesis
    by (elim exE) (auto intro!: books_still [OF assms] sale_catalog_ok books_catalog [OF assms] simp: still_def)
qed (simp add: assms)

lemma status_still: "set_catalog_status now w a kind i st s = (Inr v, s') \<Longrightarrow> still s s'"
  unfolding set_catalog_status_def
  by (auto simp: bindr_Inr_iff catalog_shelf_iff catalog_plan_iff still_def split: if_splits)

lemma toggle_books:
  assumes "books s0 s"
  shows "books s0 (snd (toggle_catalog root_env now chat kind i s))"
  unfolding toggle_catalog_def
proof (rule transact_books [OF assms])
  fix v s'
  assume "bindr (catalog_ctx root_env chat s) (\<lambda>c s.
     bindr (require_some (if kind = ''category'' then map_option cat_status (get_category s i)
          else map_option plan_status (get_plan s i)) (PermissionError ''this is not in your catalog'') s) (\<lambda>st s.
     bindr (as_permission (set_catalog_status now (cx_organization_id c) (cx_actor_id c) kind i
          (if st \<noteq> ''active'' then ''active'' else ''inactive'') s)) (\<lambda>_.
       returned (if st \<noteq> ''active'' then ''opened'' else ''closed'')))) = (Inr v, s')"
  then obtain w a st u where run: "set_catalog_status now w a kind i st s = (Inr u, s')"
    by (auto simp: bindr_Inr_iff permitted_Inr)
  from books_still [OF assms status_still [OF run] set_catalog_status_ok [OF run books_catalog [OF assms]]]
  show "books s0 s'" .
qed

lemma shelf_books:
  assumes "books s0 s"
  shows "books s0 (snd (create_shelf root_env now chat name description s))"
  unfolding create_shelf_def
proof (rule transact_books [OF assms])
  fix v s'
  assume "bindr (catalog_ctx root_env chat s) (\<lambda>c s.
     bindr (validated (2 \<le> length name \<and> length name \<le> 80 \<and> length description \<le> 500) s) (\<lambda>_ s.
     bindr (as_permission (create_plan_category now (cx_organization_id c) (cx_actor_id c)
          \<lparr>ci_name = utf8 name, ci_description = utf8 description\<rparr> s)) (\<lambda>category. returned (cat_name category)))) = (Inr v, s')"
  then obtain w a x c where run: "create_plan_category now w a x s = (Inr c, s')"
    by (auto simp: bindr_Inr_iff validated_def permitted_Inr)
  have ok: "catalog_ok s" using assms by (simp add: books_def)
  from run have "catalog_ok s'" "still s s'"
    unfolding create_plan_category_def by (auto simp: bindr_Inr_iff Let_def still_def intro!: add_shelf_ok [OF ok])
  with assms show "books s0 s'" by (intro books_still [OF assms])
qed

lemma plan_books:
  assumes "books s0 s"
  shows "books s0 (snd (save_plan root_env now chat x s))"
  unfolding save_plan_def
proof (rule transact_books [OF assms])
  fix v s'
  assume "bindr (catalog_ctx root_env chat s) (\<lambda>c s. bindr (validated (plan_valid x) s) (\<lambda>_ s.
     bindr (as_permission (create_catalog_plan now (cx_organization_id c) (cx_actor_id c) (plan_form x) s)) (\<lambda>pl s.
     bindr (require_some (get_panel s (plan_panel_id pl)) (AttributeError ''name'') s) (\<lambda>p.
       returned (plan_row pl (Some (pan_name p))))))) = (Inr v, s')"
  then obtain w a pl where run: "create_catalog_plan now w a (plan_form x) s = (Inr pl, s')"
    by (auto simp: bindr_Inr_iff validated_def permitted_Inr)
  have ok: "catalog_ok s" using assms by (simp add: books_def)
  have "still s s'" using run unfolding create_catalog_plan_def
    by (auto simp: bindr_Inr_iff Let_def still_def validated_plan_iff owned_panel_iff)
  with assms new_plan_ok [OF ok run] show "books s0 s'" by (intro books_still [OF assms])
qed

text \<open>A posting, and what is written around it.\<close>

lemma post_books:
  assumes books: "books s0 s"
    and pay: "transfer now source target amount key kind ref enforce a s = (Inr tx, s1)"
    and rest: "still s1 s'" "plans s' = plans s1" "plan_categories s' = plan_categories s1" "panels s' = panels s1"
      "panel_owners s' = panel_owners s1"
  shows "books s0 s'"
proof (rule books_unlisted [OF _ rest])
  have only: "ledger_only s s1" by (rule transfer_only [OF pay])
  note same = ledger_only_simps [OF only]
  have ok: "ledger_ok s1" using transfer_ledger_ok [OF books_ledger [OF books], of now source target amount key kind ref enforce a] pay by simp
  have "same_tree s s1" using same by (simp add: same_tree_def)
  moreover have "same_catalog s s1" using same by (auto simp: same_catalog_def)
  moreover have "orders_moved s s1" using same by (auto intro: orders_moved_same)
  ultimately show "books s0 s1"
    using ok books_parts [OF books] by (intro books_step [OF books]) (auto intro: same_tree_ok same_catalog_ok)
qed

lemma funding_quiet:
  "still t (audit b1 b2 b3 b4 b5 b6 b7 (on_funding i f t))" "plans (on_funding i f t) = plans t"
  "plan_categories (on_funding i f t) = plan_categories t" "panels (on_funding i f t) = panels t"
  "panel_owners (on_funding i f t) = panel_owners t"
  by (simp_all add: still_def on_funding_def)

lemma funding_books:
  assumes "books s0 s"
  shows "books s0 (snd (bot_decide_funding root_env now chat i yes s))"
  unfolding bot_decide_funding_def
proof (rule transact_books [OF assms])
  fix v s'
  assume run: "bindr (permitted_context ''decide_funding'' root_env chat s) (\<lambda>c s.
     case get_funding s i of
       None \<Rightarrow> returned (''already decided'', None) s
     | Some r \<Rightarrow> if fun_status r \<noteq> ''pending'' then returned (''already decided'', None) s else
         bindr (require (is_parent s (cx_organization_id c) (fun_organization_id r))
             (PermissionError ''this request belongs to another branch'') s) (\<lambda>_ s.
         bindr (if yes then bindr (transfer now SYSTEM (Org (fun_organization_id r)) (fun_amount_irr r) (funding_key i)
               ''fund'' (dec i) False (Some (cx_actor_id c)) s) (\<lambda>_. returned ())
             else returned () s) (\<lambda>_ s.
           let s1 = audit now (''funding_request.'' @ (if yes then ''approve'' else ''reject'')) ''funding_request'' (Some i)
                 (Some (cx_actor_id c)) (Some (fun_organization_id r)) [(''amount_irr'', JInt (fun_amount_irr r))]
                 (on_funding i (mark_funding (if yes then ''approved'' else ''rejected'') (cx_actor_id c) now) s)
           in returned (if yes then ''approved and funded'' else ''rejected'',
                map_option act_telegram_id (lookup act_id (fun_actor_id r) (actors s1))) s1))) = (Inr v, s')"
  from run consider "s' = s" | b2 b3 b4 b5 b6 b7 f where "s' = audit now b2 b3 b4 b5 b6 b7 (on_funding i f s)"
    | b2 b3 b4 b5 b6 b7 f w n a tx s1 where
      "transfer now SYSTEM w n (funding_key i) ''fund'' (dec i) False a s = (Inr tx, s1)"
      "s' = audit now b2 b3 b4 b5 b6 b7 (on_funding i f s1)"
    by (auto simp: bindr_Inr_iff Let_def permitted_Inr split: option.splits if_splits) 
  then show "books s0 s'"
  proof cases
    case 1
    with assms show ?thesis by simp
  next
    case 2
    then show ?thesis by (simp add: books_unlisted [OF assms] funding_quiet)
  next
    case 3
    show ?thesis unfolding 3(2) by (rule post_books [OF assms 3(1)]) (simp_all add: funding_quiet)
  qed
qed

lemma adjustment_books:
  assumes books: "books s0 s" and run: "apply_wallet_adjustment now r a s = (Inr u, s1)"
  shows "books s0 s1"
proof -
  from run obtain source target n key ref enforce tx s2 b2 b3 b4 b5 b6 b7 where
    "transfer now source target n key ''adjustment'' ref enforce (Some a) s = (Inr tx, s2)"
    "s1 = audit now b2 b3 b4 b5 b6 b7 s2"
    unfolding apply_wallet_adjustment_def by (auto simp: bindr_Inr_iff Let_def split: if_splits)
  then show ?thesis by (auto intro!: post_books [OF books] simp: still_def)
qed

lemma settle_books:
  assumes books: "books s0 s" and run: "settle_in_chat now yes c r s = (Inr v, s')"
  shows "books s0 s'"
proof -
  have quiet: "still t (snd (enqueue b0 b8 b9 b10 (audit b1 b2 b3 b4 b5 b6 b7 (on_approval i f t))))"
    "plans (snd (enqueue b0 b8 b9 b10 (audit b1 b2 b3 b4 b5 b6 b7 (on_approval i f t)))) = plans t"
    "plan_categories (snd (enqueue b0 b8 b9 b10 (audit b1 b2 b3 b4 b5 b6 b7 (on_approval i f t)))) = plan_categories t"
    "panels (snd (enqueue b0 b8 b9 b10 (audit b1 b2 b3 b4 b5 b6 b7 (on_approval i f t)))) = panels t"
    "panel_owners (snd (enqueue b0 b8 b9 b10 (audit b1 b2 b3 b4 b5 b6 b7 (on_approval i f t)))) = panel_owners t"
    for b0 b1 b2 b3 b4 b5 b6 b7 b8 b9 b10 i f t
    by (simp_all add: still_def on_approval_def enqueue_def Let_def)
  from run obtain s1 where "s1 = s \<or> (\<exists>a u. apply_wallet_adjustment now r a s = (Inr u, s1))"
    and s': "s' = snd (enqueue now ''approval.granted'' (apr_id r)
        [(''action'', JStr (apr_action r)), (''status'', JStr (if yes then ''executed'' else ''rejected''))]
           (audit now (''approval.'' @ (if yes then ''approve'' else ''reject'')) ''approval_request'' (Some (apr_id r))
             (Some (cx_actor_id c)) (Some (cx_organization_id c))
             [(''action'', JStr (apr_action r)), (''target_id'', JUid (apr_target_id r))]
             (on_approval (apr_id r) (close_approval (if yes then ''executed'' else ''rejected'') (cx_actor_id c) now) s1)))"
    unfolding settle_in_chat_def
    by (auto simp: bindr_Inr_iff Let_def APPROVAL_APPLICATORS_def split: if_splits)
  then have "books s0 s1" using books adjustment_books by blast
  then show ?thesis unfolding s' by (rule books_unlisted) (simp_all only: quiet)
qed

lemma approval_books:
  assumes "books s0 s"
  shows "books s0 (snd (bot_decide_approval root_env now chat i yes s))"
proof -
  obtain r s1 where ctx: "permitted_context ''decide_adjustment'' root_env chat s = (r, s1)" by fastforce
  then have "s1 = s" using reads_permitted [of "''decide_adjustment''" root_env chat s] by simp
  show ?thesis
  proof (cases r)
    case (Inl e)
    with ctx assms \<open>s1 = s\<close> show ?thesis by (simp add: bot_decide_approval_def request_def in_session_def open_session_def)
  next
    case (Inr c)
    have "books s0 (committed (snd (bindr (locked_pending_approval now i (open_session s)) (\<lambda>r S.
        bindr (in_session (settle_in_chat now yes c r) S) (\<lambda>reply S. returned reply (commit S))))))"
    proof (cases "get_approval s i")
      case None
      with assms show ?thesis by (simp add: locked_pending_approval_def require_some_def open_session_def)
    next
      case (Some q)
      show ?thesis
      proof (cases "apr_status q = ''pending'' \<and> now < apr_expires_at q")
        case True
        then have get: "locked_pending_approval now i (open_session s) = (Inr q, open_session s)"
          using Some by (simp add: locked_pending_approval_def require_some_def require_def open_session_def returned_def)
        show ?thesis
        proof (cases "settle_in_chat now yes c q s")
          case (Pair v s2)
          with assms settle_books [OF assms, of now yes c q] show ?thesis
            by (cases v) (simp_all add: get [unfolded open_session_def] in_session_def open_session_def commit_def)
        qed
      next
        case False
        with Some assms show ?thesis
          by (auto simp: locked_pending_approval_def require_some_def require_def open_session_def commit_def on_approval_def
              intro!: books_unlisted [OF assms] simp: still_def)
      qed
    qed
    with ctx Inr \<open>s1 = s\<close> show ?thesis
      by (simp add: bot_decide_approval_def request_def in_session_def open_session_def case_prod_beta)
  qed
qed

lemma organization_books:
  assumes books: "books s0 s" and add: "add_organization now name slug parent credit price s = (org, s1)"
    and parent: "\<And>p. parent = Some p \<Longrightarrow> get_organization s p \<noteq> None \<and> price \<noteq> None"
  shows "books s0 s1"
proof -
  note rest = add_organization_rest [OF add]
  have "tree_ok s1" using add_organization_tree [OF add books_tree [OF books]] parent by simp
  moreover have "same_catalog s s1" using rest add_organization_state(9) [OF add] by (auto simp: same_catalog_def)
  ultimately show ?thesis
    using rest books_ledger [OF books] books_catalog [OF books]
    by (intro books_step [OF books]) (auto intro: same_catalog_ok orders_moved_same)
qed

lemma reseller_books:
  assumes books: "books s0 s"
  shows "books s0 (snd (create_reseller root_env now chat x s))"
  unfolding create_reseller_def
proof (rule transact_books [OF books])
  fix v s'
  assume "bindr (permitted_context ''manage_resellers'' root_env chat s) (\<lambda>c s.
     bindr (require (\<not> slug_taken s (ra_slug x)) (ValueError ''this slug is already used'') s) (\<lambda>_ s.
     bindr (require_some (ra_credit x) (ValueError ''invalid literal for int()'') s) (\<lambda>credit s.
     bindr (require_some (ra_price x) (ValueError ''invalid literal for int()'') s) (\<lambda>price s.
     bindr (require_some (ra_telegram_id x) (ValueError ''invalid literal for int()'') s) (\<lambda>telegram_id s.
     bindr (bigints_stored [credit, price, telegram_id] s) (\<lambda>_ s.
       case add_organization now (utf8 (ra_name x)) (ra_slug x) (Some (cx_organization_id c)) credit (Some price) s of
         (child, s) \<Rightarrow>
       case find_or_add_actor telegram_id (utf8 (ra_name x)) s of (a, s) \<Rightarrow>
         returned (org_name child) (add_membership now (org_id child) (act_id a) ''reseller_admin'' s))))))) = (Inr v, s')"
  then obtain c credit price tid where ctx: "fst (permitted_context ''manage_resellers'' root_env chat s) = Inr c"
    and made: "(case add_organization now (utf8 (ra_name x)) (ra_slug x) (Some (cx_organization_id c)) credit (Some price) s of
         (child, s) \<Rightarrow>
       case find_or_add_actor tid (utf8 (ra_name x)) s of (a, s) \<Rightarrow>
         returned (org_name child) (add_membership now (org_id child) (act_id a) ''reseller_admin'' s)) = (Inr v, s')"
    by (auto simp: bindr_Inr_iff bigints_stored_def permitted_Inr)
  obtain child s1 where add: "add_organization now (utf8 (ra_name x)) (ra_slug x) (Some (cx_organization_id c)) credit
      (Some price) s = (child, s1)" by fastforce
  obtain a s2 where act: "find_or_add_actor tid (utf8 (ra_name x)) s1 = (a, s2)" by fastforce
  from made have s': "s' = add_membership now (org_id child) (act_id a) ''reseller_admin'' s2"
    by (simp add: add act returned_def)
  have parent: "get_organization s (cx_organization_id c) \<noteq> None"
  proof -
    have same: "get_organization s i = Some org \<Longrightarrow> \<exists>y. get_organization s (org_id org) = Some y" for i org
      using lookup_SomeD [of org_id i "organizations s" org] by auto
    have "permitted_context ''manage_resellers'' root_env chat s = (Inr c, s)" using ctx permitted_Inr by blast
    then show ?thesis
      by (auto simp: permitted_context_iff bot_context_def optional_membership_def returned_def raised_def
          split: option.splits if_splits intro!: same)
  qed
  have made: "books s0 s1" by (rule organization_books [OF books add]) (use parent in auto)
  then show "books s0 s'" unfolding s'
    using act by (intro books_unlisted [OF made]) (auto simp: still_def draw_def add_membership_def find_or_add_actor_def add_actor_def Let_def split: option.splits)
qed

lemma ordered_books:
  assumes books: "books s0 s" and rest: "desk_only s s'" "orders_moved s s'" "same_catalog s s'"
  shows "books s0 s'"
proof -
  note same = desk_only_simps [OF rest(1)]
  have "same_tree s s'" using same by (simp add: same_tree_def)
  with books_parts [OF books] rest same show ?thesis
    by (intro books_step [OF books]) (auto intro: ledger_ok_same same_tree_ok same_catalog_ok)
qed

lemma place_books:
  assumes "books s0 s"
  shows "books s0 (snd (place_order tokens now chat x s))"
proof (rule place_effect [of tokens now chat x s])
  fix ord
  assume run: "create_panel_order tokens now chat (oi_business_name x) ''telegram'' x s =
      (Inr ord, snd (place_order tokens now chat x s))"
  from run show ?thesis
  proof (rule create_panel_order_Inr)
    assume "panel_orders (snd (place_order tokens now chat x s)) = panel_orders s @ [ord]"
      and "desk_only s (snd (place_order tokens now chat x s))"
    then show ?thesis using panel_order_catalog [OF run] by (intro ordered_books [OF assms]) (auto intro: orders_moved_append)
  qed
qed (simp add: assms)

lemma step_books:
  assumes "books s0 s"
  shows "books s0 (snd (customer_order_action now chat i a s))"
proof (rule step_effect [of now chat i a s])
  fix ord to_status q what details
  assume ord: "get_order s i = Some ord" "to_status \<in> set (ORDER_FLOW (ord_status ord))"
    and to: "to_status \<in> {''confirmed'', ''payment_declared'', ''cancelled''}"
    and s': "snd (customer_order_action now chat i a s) =
        audit now what ''panel_order'' (Some i) (Some (act_id q)) (ord_organization_id ord) details
          (on_order i (\<lambda>r. r\<lparr>ord_status := to_status\<rparr>) s)"
  have "order_moved ord (ord\<lparr>ord_status := to_status\<rparr>)"
    using ord(2) by (auto simp: order_moved_def identity_kept_def terms_kept_def)
  then have "orders_moved s (snd (customer_order_action now chat i a s))"
    unfolding s' by (intro orders_moved_modify [OF ord(1), where f = "\<lambda>r. r\<lparr>ord_status := to_status\<rparr>"]) simp_all
  moreover have "same_catalog s (snd (customer_order_action now chat i a s))"
    unfolding s' by (rule same_catalog_modify [where i = i and f = "\<lambda>r. r\<lparr>ord_status := to_status\<rparr>"]) (simp_all add: on_order_def)
  ultimately show ?thesis using desk_only_order unfolding s' by (intro ordered_books [OF assms]) auto
qed (simp add: assms)

lemma quote_books:
  assumes books: "books s0 s"
  shows "books s0 (snd (apply_quote root_env now chat x s))"
  unfolding apply_quote_def
proof (rule transact_books [OF books])
  fix v s'
  assume "bindr (validated (quote_valid x) s) (\<lambda>_ s.
     bindr (permitted_context ''decide_orders'' root_env chat s) (\<lambda>c s.
     bindr (as_permission (bindr (locked_order (qa_order_id x) ''quoted'' s) (\<lambda>ord s.
         bindr (quote_panel_order now (quote_form x) (cx_actor_id c) (cx_organization_id c) ord s)
           (\<lambda>_. returned (quote_terms (quote_form x) ord))))) (\<lambda>ord s.
       returned (order_row s ord) s))) = (Inr v, s')"
  then obtain reviewer w ord u where "get_order s (qa_order_id x) = Some ord"
    "quote_panel_order now (quote_form x) reviewer w ord s = (Inr u, s')"
    by (auto simp: bindr_Inr_iff validated_def locked_order_iff permitted_Inr)
  then show "books s0 s'" using quote_moves decisions_catalog(1) by (intro ordered_books [OF books]) blast+
qed

lemma review_books:
  assumes books: "books s0 s"
  shows "books s0 (snd (reviewer_order_action root_env d now chat i action reason attach s))"
  unfolding reviewer_order_action_def
proof (rule transact_books [OF books])
  fix v s'
  assume "bindr (permitted_context ''decide_orders'' root_env chat s) (\<lambda>c s.
       as_permission (bindr (locked_order i (if action = ''ok'' then ''approved'' else ''rejected'') s) (\<lambda>ord s.
         if action = ''ok''
         then bindr (approve_panel_order d now attach (cx_actor_id c) (cx_organization_id c) ord s)
           (\<lambda>r. returned (Some r))
         else bindr (reject_panel_order now reason (cx_actor_id c) (cx_organization_id c) ord s) (\<lambda>_. returned None)))) = (Inr v, s')"
  then obtain reviewer w ord where ord: "get_order s i = Some ord"
    and done': "''approved'' \<in> set (ORDER_FLOW (ord_status ord)) \<and>
        (\<exists>r. approve_panel_order d now attach reviewer w ord s = (Inr r, s')) \<or>
      (\<exists>u. reject_panel_order now reason reviewer w ord s = (Inr u, s'))"
    by (auto simp: bindr_Inr_iff locked_order_iff permitted_Inr split: if_splits)
  from done' show "books s0 s'"
  proof (elim disjE conjE exE)
    fix r assume flow: "''approved'' \<in> set (ORDER_FLOW (ord_status ord))"
      and run: "approve_panel_order d now attach reviewer w ord s = (Inr r, s')"
    have id: "ord_id ord = i" using lookup_SomeD [OF ord] by simp
    have made: "tree_ok s' \<and> ledger_ok s' \<and> get_organization s (ao_organization_id r) = None"
      by (rule approval_made(1) [OF run books_tree [OF books] books_ledger [OF books] _ refl refl]) (simp add: id ord)
    have "catalog_ok s'" using decisions_catalog(3) [OF run ord] books_catalog [OF books] by (rule same_catalog_ok [rotated])
    then show ?thesis using made approve_moves [OF run ord flow] by (intro books_step [OF books]) auto
  next
    fix u assume "reject_panel_order now reason reviewer w ord s = (Inr u, s')"
    then show ?thesis using reject_moves decisions_catalog(2) ord by (intro ordered_books [OF books]) blast+
  qed
qed

lemma credit_books:
  assumes "books s0 s"
  shows "books s0 (snd (ask_credit root_env now chat n s))"
  by (rule credit_effect [of root_env now chat n s]) (auto intro!: books_unlisted [OF assms] simp: assms still_def draw_def)

section \<open>The interface\<close>

interpretation books: desk_keeper env chat "books s0"
  by unfold_locales (simp_all add: sale_books toggle_books shelf_books plan_books funding_books approval_books reseller_books
      place_books step_books review_books quote_books credit_books books_logged [OF _ node_effects(1)] books_logged [OF _ node_effects(2)])

text \<open>
  the bot keeps the books. After any sequence of updates, from any chats, with any answers of
  Telegram and of the panels, the ledger balances, the reseller tree and the catalog are well formed,
  and every order that was there has only moved forward along the flow, under the terms it was quoted.
\<close>

theorem bot_keeps_the_books:
  assumes "ledger_ok (bw_db W)" "tree_ok (bw_db W)" "catalog_ok (bw_db W)"
  shows "books (bw_db W) (bw_db (fold consume updates W))"
proof -
  have "books s0 (bw_db W) \<Longrightarrow> books s0 (bw_db (fold consume updates W))" for s0
  proof (induction updates arbitrary: W)
    case (Cons x updates)
    obtain env i u where x: "x = (env, i, u)" by (cases x) auto
    have "books s0 (bw_db (consume (env, i, u) W))" by (rule update_keeps [OF books.desk_keeper_axioms Cons.prems])
    with Cons.IH show ?case by (simp add: x)
  qed simp
  from this [of "bw_db W"] assms show ?thesis by (simp add: books_def forward_refl)
qed

end
