(* ===== verification/System.thy ===== *)
theory System
  imports Usage Bot_Books Guardrails
begin

text \<open>
  The whole control plane as one system: every request of the machine API and of the WebApp, every round of the
  usage poller and of the outbox worker, and every update of the bot is a step on one database, and the
  invariants of the components hold together after any interleaving of steps.
\<close>

section \<open>Rounds of the outbox worker\<close>

text \<open>
  The interface between the worker and the rest: a worker writes rows of the queue and suspends bindings. A predicate
  that both keep is kept by a whole round, committed or not.
\<close>

definition kept :: "(db \<Rightarrow> bool) \<Rightarrow> world \<Rightarrow> bool" where
  "kept Q w \<longleftrightarrow> Q (current w) \<and> Q (committed w)"

locale queue_keeper =
  fixes Q :: "db \<Rightarrow> bool"
  assumes marking: "Q s \<Longrightarrow> Q (on_event i f s)"
    and suspending: "Q s \<Longrightarrow> Q (suspend_binding i s)"
    and enqueuing: "Q s \<Longrightarrow> Q (snd (enqueue now topic aggregate_id payload s))"
begin

lemmas kept_bind = bindr_keeps [where P = "kept Q"]

lemma kept_commit: "kept Q w \<Longrightarrow> kept Q (snd (commit_checked w))"
  by (simp add: kept_def commit_checked_def commit_def)

lemma kept_mark: "kept Q w \<Longrightarrow> kept Q (w\<lparr>current := on_event i f (current w)\<rparr>)"
  by (simp add: kept_def marking)

lemma kept_marks: "kept Q w \<Longrightarrow> kept Q (w\<lparr>current := fold (\<lambda>i. on_event i f) is (current w)\<rparr>)"
proof -
  have "Q s \<Longrightarrow> Q (fold (\<lambda>i. on_event i f) is s)" for s by (induction "is" arbitrary: s) (simp_all add: marking)
  then show "kept Q w \<Longrightarrow> ?thesis" by (simp add: kept_def)
qed

lemma kept_rollback: "kept Q w \<Longrightarrow> kept Q (rollback w)"
  by (simp add: kept_def rollback_def)

lemma kept_send_all: "kept Q w \<Longrightarrow> kept Q (snd (Outbox.send_all net t chats w))"
  by (induction net t chats w rule: Outbox.send_all.induct) (auto simp: kept_def split: option.split)

lemma kept_notify: "kept Q w \<Longrightarrow> kept Q (snd (notify net t chats w))"
  by (simp add: notify_def kept_send_all)

lemma kept_limit: "kept Q w \<Longrightarrow> kept Q (snd (limit_panel cfg net p b w))"
  unfolding limit_panel_def
  by (rule kept_bind) (auto simp: assert_vendor_def kept_def suspending require_def split: option.split)

lemma kept_handlers:
  assumes "HANDLERS cfg net topic = Some handler" and "kept Q w"
  shows "kept Q (snd (handler event w))"
proof -
  have "kept Q (snd (handle_billing_hold cfg net event w))"
    unfolding handle_billing_hold_def
    by (intro kept_bind kept_commit kept_notify) (auto simp: assms(2) require_some_def kept_limit split: option.split)
  moreover have "kept Q (snd (handle_usage_reset net event w))"
    unfolding handle_usage_reset_def using assms(2)
    by (auto simp: require_some_def split: option.split json.split intro!: kept_bind kept_commit kept_notify)
  moreover have "kept Q (snd (handle_approval_granted net event w))"
    unfolding handle_approval_granted_def Let_def by (intro kept_bind kept_commit kept_notify assms(2))
  moreover have "kept Q (snd (handle_support_ticket cfg net event w))"
    unfolding handle_support_ticket_def using assms(2) by (auto split: option.split intro!: kept_bind kept_commit kept_notify)
  ultimately show ?thesis using assms(1) by (auto simp: HANDLERS_def split: if_splits)
qed

lemma kept_retry: "kept Q w \<Longrightarrow> kept Q (snd (retry cfg now i err w))"
  unfolding retry_def Let_def by (intro kept_bind kept_commit kept_mark) simp_all

lemma kept_deliver:
  assumes "kept Q w" shows "kept Q (snd (deliver (HANDLERS cfg net) cfg now i st w))"
proof (cases "get_event (current w) i")
  case None
  with assms show ?thesis by (simp add: deliver_def)
next
  case (Some event)
  have failed: "kept Q v \<Longrightarrow> kept Q (snd (bindr (retry cfg now i err v) (\<lambda>status. returned (g status))))" for v err and g :: "string \<Rightarrow> stats"
    by (intro kept_bind kept_retry) simp_all
  show ?thesis
  proof (cases "HANDLERS cfg net (obx_topic event)")
    case None
    with Some assms show ?thesis by (simp add: deliver_def Let_def failed)
  next
    case handler: (Some handler)
    have ran: "kept Q (snd (bindr (handler event w) (\<lambda>_. complete now i)))"
      by (intro kept_bind kept_handlers [OF handler assms]) (simp add: complete_def kept_commit kept_mark)
    show ?thesis
    proof (cases "bindr (handler event w) (\<lambda>_. complete now i)")
      case (Pair q w1)
      then have "kept Q w1" using ran by simp
      with Some handler Pair show ?thesis by (cases q) (simp_all add: deliver_def Let_def failed kept_rollback)
    qed
  qed
qed

lemma kept_deliver_all: "kept Q w \<Longrightarrow> kept Q (snd (deliver_all (HANDLERS cfg net) cfg clock is st w))"
proof (induction "is" arbitrary: st w)
  case (Cons i rest)
  show ?case unfolding deliver_all.simps by (rule kept_bind [OF kept_deliver [OF Cons.prems] Cons.IH])
qed simp

lemma kept_round: "kept Q w \<Longrightarrow> kept Q (snd (run_once (HANDLERS cfg net) cfg now clock worker limit w))"
  unfolding run_once_def reclaim_stale_def claim_def Let_def
  by (intro kept_bind kept_deliver_all) (auto intro!: kept_bind kept_commit kept_marks)

lemma queue_keeps: "Q s \<Longrightarrow> Q (queue_step cfg x s)"
  using kept_round [of "open_world s"] by (cases x) (simp_all add: enqueuing kept_def open_world_def)

end

section \<open>The invariants of the books under every operation of the machine API and the WebApp\<close>

lemma books_ledger_only:
  assumes books: "books s0 s" and only: "ledger_only s s1" and ok: "ledger_ok s1"
  shows "books s0 s1"
proof -
  note same = ledger_only_simps [OF only]
  have "same_tree s s1" using same by (simp add: same_tree_def)
  moreover have "same_catalog s s1" using same by (auto simp: same_catalog_def)
  moreover have "orders_moved s s1" using same by (auto intro: orders_moved_same)
  ultimately show ?thesis
    using ok books_parts [OF books] by (intro books_step [OF books]) (auto intro: same_tree_ok same_catalog_ok)
qed

lemma enqueue_books: "books s0 s \<Longrightarrow> books s0 (snd (enqueue now topic aggregate_id payload s))"
  by (rule books_unlisted [of s0 s]) (auto simp: still_def enqueue_def Let_def)

lemma observe_books: "books s0 s \<Longrightarrow> books s0 (snd (observe R now d s))"
proof -
  assume books: "books s0 s"
  obtain r s' where run: "observe R now d s = (r, s')" by fastforce
  then have "books s0 s'"
  proof (cases rule: observe_cases)
    case (reset b cp payload)
    show ?thesis unfolding reset(6)
      by (rule enqueue_books, rule books_unlisted [OF books])
        (simp_all add: still_def add_usage_def move_checkpoint_def count_anomaly_def)
  next
    case (failed b cp e)
    then show ?thesis using books_ledger_only [OF books] books_ledger [OF books] by blast
  next
    case (accepted b cp rows u s1)
    have "books s0 s1"
      by (rule books_ledger_only [OF books settle_edges_only [OF accepted(5)] settle_edges_ledger_ok [OF accepted(5) books_ledger [OF books]]])
    then show ?thesis unfolding accepted(7)
      by (rule books_unlisted) (simp_all add: still_def add_usage_def move_checkpoint_def)
  qed (use books in \<open>auto intro!: books_unlisted [OF books] simp: still_def add_usage_def add_checkpoint_def count_anomaly_def\<close>)
  then show ?thesis by (simp add: run)
qed

interpretation readings: reading_keeper R "books s0"
  by unfold_locales (auto simp: observe_books record_hold_def enqueue_books)

lemma usage_step_books: "books s0 s \<Longrightarrow> books s0 (usage_step R x s)"
  by (cases x) (simp_all add: readings.usage_api_keeps readings.usage_batch_keeps readings.poll_keeps)

interpretation rounds: queue_keeper "books s0"
  by unfold_locales (auto intro: books_unlisted simp: still_def on_event_def suspend_binding_def enqueue_books)

lemma order_step_books:
  assumes books: "books s0 s" shows "books s0 (order_step root_env d x s)"
proof (cases "\<exists>now i y ident. x = Approve now i y ident")
  case False
  then show ?thesis using order_step_desk order_step_moves order_step_catalog by (intro ordered_books [OF books]) auto
next
  case True
  then obtain now i y ident where x: "x = Approve now i y ident" by blast
  have "books s0 (snd (approve_order root_env d now i y ident s))"
    unfolding approve_order_def
  proof (cases "fst (seller_route ''approved'' root_env (approve_panel_order d now (Some y)) i ident s)")
    case (Inl e)
    then have "snd (seller_route ''approved'' root_env (approve_panel_order d now (Some y)) i ident s) = s"
      unfolding seller_route_def by (metis prod.collapse transact_Inl)
    with books show "books s0 (snd (seller_route ''approved'' root_env (approve_panel_order d now (Some y)) i ident s))" by simp
  next
    case (Inr r)
    then obtain s' where run: "seller_route ''approved'' root_env (approve_panel_order d now (Some y)) i ident s = (Inr r, s')"
      by (metis prod.collapse)
    then obtain a m org ord where "manager root_env (user_id ident) ''decide_orders'' s = (Inr (a, m, org), s)"
      and get: "get_order s i = Some ord" and id: "ord_id ord = i" and "''approved'' \<in> set (ORDER_FLOW (ord_status ord))"
      and step: "approve_panel_order d now (Some y) (act_id a) (org_id org) ord s = (Inr r, s')"
      by (rule seller_route_Inr)
    have "tree_ok s' \<and> ledger_ok s'"
      using approval_made(1) [OF step books_tree [OF books] books_ledger [OF books] _ refl refl] get id by simp
    moreover have "orders_moved s s'" using order_step_moves [of s root_env d x] run by (simp add: x approve_order_def)
    moreover have "catalog_ok s'" using same_catalog_ok [OF books_catalog [OF books] order_step_catalog [of s root_env d x]] run
      by (simp add: x approve_order_def)
    ultimately show "books s0 (snd (seller_route ''approved'' root_env (approve_panel_order d now (Some y)) i ident s))"
      using books_step [OF books] run by simp
  qed
  then show ?thesis by (simp add: x)
qed

lemma catalog_step_still:
  assumes "\<forall>y. x \<noteq> Funnel y" shows "still s (catalog_step root_env d x s)"
proof -
  note keeps = catalog_route_keeps [where P = "still s"]
  have [simp]: "still s s" by (simp add: still_def)
  show ?thesis using assms
    by (cases x)
      (simp_all add: web_create_category_def web_update_category_def web_category_status_def web_delete_category_def
        web_create_plan_def web_update_plan_def web_plan_status_def web_delete_plan_def,
       (rule keeps; auto simp: create_plan_category_def create_catalog_plan_def bindr_Inr_iff catalog_shelf_iff catalog_plan_iff
          validated_plan_iff owned_panel_iff Let_def still_def dest: status_still)+)
qed

lemma catalog_step_books:
  assumes books: "books s0 s" shows "books s0 (catalog_step root_env d x s)"
proof (cases "\<forall>y. x \<noteq> Funnel y")
  case True
  show ?thesis by (rule books_still [OF books catalog_step_still [OF True] catalog_step_ok [OF books_catalog [OF books]]])
next
  case False
  then show ?thesis using order_step_books [OF books] by auto
qed

text \<open>Requests for funds and adjustments.\<close>

lemma reads_guards:
  "snd (manager root_env tid p s) = s" "snd (membership_for root_env tid s) = s" "snd (require_root root_env ident s) = s"
  using manager_reads membership_for_reads require_root_reads by (metis prod.collapse)+

lemma decide_funding_books:
  assumes books: "books s0 s" shows "books s0 (snd (decide_funding_request now a w i decision rootless s))"
proof (cases "decide_funding_request now a w i decision rootless s")
  case (Pair r s')
  show ?thesis
  proof (cases r)
    case (Inl e)
    have "s' = s" by (rule transact_Inl [OF Pair [unfolded Inl decide_funding_request_def]])
    with books Pair show ?thesis by simp
  next
    case (Inr st)
    from Pair [unfolded Inr] have "books s0 s'"
    proof (rule decide_funding_Inr)
      fix r child s1
      assume moved: "decision = ''approve'' \<and> st = ''approved'' \<and> (\<exists>tx. transfer now SYSTEM (Org (fun_organization_id r))
            (fun_amount_irr r) (funding_key i) ''fund'' (dec i) False (Some a) s = (Inr tx, s1)) \<or>
          decision = ''reject'' \<and> st = ''rejected'' \<and> s1 = s"
        and s': "s' = audit now (''funding_request.'' @ decision) ''funding_request'' (Some i) (Some a) (Some (fun_organization_id r))
          [(''amount_irr'', JInt (fun_amount_irr r)), (''decided_by'', JUid a)] (on_funding i (mark_funding st a now) s1)"
      from moved show "books s0 s'" unfolding s'
      proof (elim disjE conjE exE)
        fix tx assume "transfer now SYSTEM (Org (fun_organization_id r)) (fun_amount_irr r) (funding_key i) ''fund'' (dec i) False (Some a) s =
            (Inr tx, s1)"
        then show "books s0 (audit now (''funding_request.'' @ decision) ''funding_request'' (Some i) (Some a) (Some (fun_organization_id r))
          [(''amount_irr'', JInt (fun_amount_irr r)), (''decided_by'', JUid a)] (on_funding i (mark_funding st a now) s1))"
          by (rule post_books [OF books]) (simp_all add: funding_quiet)
      next
        assume "s1 = s"
        then show "books s0 (audit now (''funding_request.'' @ decision) ''funding_request'' (Some i) (Some a) (Some (fun_organization_id r))
          [(''amount_irr'', JInt (fun_amount_irr r)), (''decided_by'', JUid a)] (on_funding i (mark_funding st a now) s1))"
          by (simp add: books_unlisted [OF books] funding_quiet)
      qed
    qed
    with Pair show ?thesis by simp
  qed
qed

lemma guarded_books:
  assumes "books s0 s" "snd (guard s) = s" and "\<And>v. books s0 (snd (f v s))"
  shows "books s0 (snd (bindr (guard s) f))"
  by (rule bindr_keeps [where P = "books s0"]) (use assms in auto)

lemma funding_step_books:
  assumes books: "books s0 s" shows "books s0 (funding_step root_env x s)"
proof (cases x)
  case (Ask now amount ident)
  have "books s0 (snd (web_funding_request root_env now amount ident s))"
    unfolding web_funding_request_def
    by (rule transact_books [OF books])
      (auto simp: bindr_Inr_iff manager_iff membership_for_iff Let_def still_def intro!: books_unlisted [OF books])
  then show ?thesis by (simp add: Ask)
qed (simp_all add: branch_decide_funding_def admin_decide_funding_def,
     (intro guarded_books books; auto simp: reads_guards decide_funding_books books split: prod.split intro!: guarded_books)+)

lemma approval_quiet:
  "still t (on_approval i f t)" "plans (on_approval i f t) = plans t" "plan_categories (on_approval i f t) = plan_categories t"
  "panels (on_approval i f t) = panels t" "panel_owners (on_approval i f t) = panel_owners t"
  by (simp_all add: still_def on_approval_def)

lemma approval_row_books: "books s0 s \<Longrightarrow> books s0 (on_approval i f s)"
  by (rule books_unlisted) (simp_all add: approval_quiet)

lemma audit_books: "books s0 s \<Longrightarrow> books s0 (audit b1 b2 b3 b4 b5 b6 b7 s)"
  by (rule books_unlisted) (simp_all add: still_def)

lemma transact_snd: "books s0 s \<Longrightarrow> books s0 (snd (f s)) \<Longrightarrow> books s0 (snd (transact f s))"
  by (rule transact_books) simp_all

lemmas books_bind = bindr_keeps [where P = "books s0" for s0]

lemma transfer_books: "books s0 s \<Longrightarrow> books s0 (snd (transfer now source target n key kind ref enforce a s))"
  using books_ledger_only transfer_only transfer_ledger_ok books_ledger by (metis prod.collapse)

lemma adjusting_books:
  assumes books: "books s0 s" shows "books s0 (snd (apply_wallet_adjustment now r a s))"
proof -
  have conflict: "snd (as_conflict m) = snd m" for m :: "(transaction, db) res"
    by (auto simp: as_conflict_def raised_def split: prod.split sum.split error.split)
  show ?thesis unfolding apply_wallet_adjustment_def Let_def
    by (rule books_bind) (auto simp: require_some_def books conflict split: option.split intro!: books_bind audit_books transfer_books)
qed

lemma membership_parent:
  "membership_for root_env tid s = (Inr (a, m, org), s') \<Longrightarrow> s' = s \<and> get_organization s (org_id org) \<noteq> None"
  "manager root_env tid permission s = (Inr (a, m, org), s') \<Longrightarrow> s' = s \<and> get_organization s (org_id org) \<noteq> None"
  by (auto simp: manager_iff membership_for_iff dest!: lookup_SomeD [of org_id "mem_organization_id m" "organizations s" org])
    (use lookup_None_iff in fastforce)+

lemma approval_added_books: "books s0 s \<Longrightarrow> books s0 (draw (s\<lparr>approval_requests := rs\<rparr>))"
  by (rule books_unlisted) (simp_all add: still_def)

lemma request_adjustment_books:
  assumes books: "books s0 s" shows "books s0 (snd (request_adjustment root_env ttl now x ident s))"
  unfolding request_adjustment_def Let_def
  by (rule transact_snd [OF books], rule books_bind)
    (auto simp: reads_guards books require_def require_some_def split: option.split
      intro!: books_bind audit_books approval_row_books adjusting_books approval_added_books)

lemma settle_approval_books:
  assumes books: "books s0 s" and run: "settle_approval now decision q a s = (Inr st, s')"
  shows "books s0 s'"
proof -
  from run obtain s1 f b1 b2 b3 b4 b5 b6 b7 b8 b9 where "s1 = s \<or> (\<exists>u. apply_wallet_adjustment now q a s = (Inr u, s1))"
    and s': "s' = snd (enqueue now ''approval.granted'' b8 b9 (audit b1 b2 b3 b4 b5 b6 b7 (on_approval (apr_id q) f s1)))"
    unfolding settle_approval_def by (auto simp: bindr_Inr_iff APPROVAL_APPLICATORS_def split: if_splits; blast)
  then have "books s0 s1" using books adjustment_books by blast
  then show ?thesis unfolding s' by (intro enqueue_books audit_books approval_row_books)
qed

lemma decide_approval_books:
  assumes books: "books s0 s" shows "books s0 (snd (decide_approval root_env now i decision ident s))"
proof -
  obtain r s' where run: "decide_approval root_env now i decision ident s = (r, s')" by fastforce
  have "books s0 s'"
    using run
  proof (cases rule: decide_approval_guarded)
    case (guarded a m org)
    from guarded(4) show ?thesis
      by (cases rule: locked_decision_cases) (auto intro: books approval_row_books settle_approval_books [OF books])
  qed (simp add: books)
  then show ?thesis by (simp add: run)
qed

text \<open>New organizations, and those that are suspended.\<close>

lemma people_books:
  assumes "books s0 s"
  shows "books s0 (add_membership now w a role s)" "books s0 (put_setting k v s)" "books s0 (snd (find_or_add_actor tid name s))"
    "books s0 (snd (wake_actor tid name s))"
  by (rule books_unlisted [OF assms];
      simp add: still_def add_membership_def put_setting_def find_or_add_actor_def wake_actor_def add_actor_def Let_def split: option.split)+

lemma create_org_books:
  assumes books: "books s0 s" shows "books s0 (snd (create_org m now x s))"
proof (cases "create_org m now x s")
  case (Pair r s')
  show ?thesis
  proof (cases r)
    case (Inl e)
    have "s' = s" by (rule transact_Inl [OF Pair [unfolded Inl create_org_def]])
    with books Pair show ?thesis by simp
  next
    case (Inr i)
    from create_org_Inr(3) [OF Pair [unfolded Inr]] obtain org s1 a b c d e f where
      add: "add_organization now (oi_name x) (oi_slug x) (oi_parent_id x) (oi_credit_limit_irr x) (oi_price_per_gib_irr x) s = (org, s1)"
      and s': "s' = audit now a b c d e f s1" by blast
    have "books s0 s1"
      by (rule organization_books [OF books add]) (use create_org_Inr(1,2) [OF Pair [unfolded Inr]] in blast)
    then show ?thesis by (simp add: Pair s' audit_books)
  qed
qed

lemma new_organization_books:
  assumes "books s0 s" "parent = None \<or> (\<exists>p. parent = Some p \<and> get_organization s p \<noteq> None \<and> price \<noteq> None)"
    and "\<And>org s1. books s0 s1 \<Longrightarrow> books s0 (snd (f org s1))"
  shows "books s0 (snd (case add_organization now name slug parent credit price s of (org, s1) \<Rightarrow> f org s1))"
proof (cases "add_organization now name slug parent credit price s")
  case (Pair org s1)
  have "books s0 s1" by (rule organization_books [OF assms(1) Pair]) (use assms(2) in auto)
  then show ?thesis by (simp add: Pair assms(3))
qed

lemma reads_requirements: "snd (assert_depth_allowed d p s) = s" "snd (require c e s) = s" "snd (require_some y e s) = s"
  by (auto simp: assert_depth_allowed_def effective_depth_limit_def require_def require_some_def bindr_def raised_def returned_def
      split: option.split)

lemma people_found:
  assumes "books s0 s"
  shows "find_or_add_actor tid name s = (a, s') \<Longrightarrow> books s0 s'" "wake_actor tid name s = (b, s'') \<Longrightarrow> books s0 s''"
  using people_books(3,4) [OF assms, of tid name] by simp_all

lemma web_create_child_books:
  assumes books: "books s0 s" shows "books s0 (snd (web_create_child root_env d now x ident s))"
  unfolding web_create_child_def
  by (rule transact_snd [OF books], rule books_bind)
    (auto simp: reads_guards books reads_requirements dest!: membership_parent(2) assert_depth_allowed_Inr
      intro!: books_bind new_organization_books audit_books)

lemma admin_create_reseller_books:
  assumes books: "books s0 s" shows "books s0 (snd (admin_create_reseller root_env d now x ident s))"
  unfolding admin_create_reseller_def
  by (rule transact_snd [OF books], rule books_bind)
    (auto simp: reads_guards books reads_requirements dest!: membership_parent(1) assert_depth_allowed_Inr require_root_reads
      intro!: books_bind new_organization_books audit_books people_books split: prod.split elim: people_found)

lemma bootstrap_books:
  assumes books: "books s0 s" shows "books s0 (snd (bootstrap_workspace expected now x ident s))"
  unfolding bootstrap_workspace_def
  by (rule transact_snd [OF books], rule books_bind)
    (auto simp: books reads_requirements intro!: books_bind new_organization_books audit_books people_books
      split: prod.split elim: people_found)

lemma bind_actor_books:
  assumes books: "books s0 s" shows "books s0 (snd (bind_actor now x s))"
  unfolding bind_actor_def Let_def
  by (rule transact_snd [OF books], rule books_bind)
    (auto simp: books reads_requirements intro!: books_bind audit_books people_books split: prod.split
      intro: people_found(1) [OF books])

lemma fund_api_books:
  assumes books: "books s0 s" shows "books s0 (snd (fund_api now w amount key s))"
  unfolding fund_api_def Let_def
  by (rule transact_snd [OF books], rule books_bind)
    (auto simp: books reads_requirements intro!: books_bind audit_books transfer_books)

lemma binding_books: "books s0 s \<Longrightarrow> books s0 (snd (add_binding w i admin name s))"
  unfolding add_binding_def integers_stored_def
  by (intro books_bind) (auto simp: reads_requirements still_def intro: books_unlisted)

lemma create_binding_books:
  assumes books: "books s0 s" shows "books s0 (snd (create_binding now x s))"
  unfolding create_binding_def
  by (rule transact_snd [OF books], rule books_bind)
    (auto simp: books reads_requirements intro!: books_bind binding_books audit_books)

text \<open>A reseller that is suspended or woken up keeps its place in the tree.\<close>

lemma status_tree:
  assumes "tree_ok s" shows "tree_ok (set_org_status i st s)"
proof -
  let ?s = "set_org_status i st s"
  have get: "get_organization ?s j = map_option (\<lambda>r. if org_id r = i then r\<lparr>org_status := st\<rparr> else r) (get_organization s j)" for j
    unfolding set_org_status_def by (simp, rule lookup_modify_other) simp
  have ancestor: "ancestor ?s n j = ancestor s n j" for n j
    by (induction n arbitrary: j) (auto simp: get split: option.split)
  have same: "closures ?s = closures s" "contracts ?s = contracts s" "next_uid ?s = next_uid s"
    "active_contract ?s = active_contract s"
    by (simp_all add: set_org_status_def active_contract_def fun_eq_iff)
  have rows: "organizations ?s = map (\<lambda>r. if org_id r = i then r\<lparr>org_status := st\<rparr> else r) (organizations s)"
    by (simp add: set_org_status_def modify_def)
  have ids: "map org_id (organizations ?s) = map org_id (organizations s)" by (simp add: set_org_status_def)
  have found: "get_organization ?s j = None \<longleftrightarrow> get_organization s j = None" for j by (simp only: get option.map_disc_iff)
  have "parents_older ?s"
    using assms unfolding tree_ok_def parents_older_def found same ids unfolding rows by auto
  moreover have "closure_exact ?s" using assms unfolding tree_ok_def closure_exact_def found same ancestor by blast
  moreover have "contracts_ok ?s" using assms unfolding tree_ok_def contracts_ok_def same unfolding rows by auto
  ultimately show ?thesis by (simp add: tree_ok_def)
qed

lemma reseller_status_books:
  assumes books: "books s0 s" shows "books s0 (snd (admin_set_reseller_status root_env now i ident s))"
proof -
  have status: "books s0 (set_org_status j st s1)" if "books s0 s1" for j st s1
  proof (rule books_step [OF that])
    show "ledger_ok (set_org_status j st s1)"
      by (rule ledger_ok_same [OF books_ledger [OF that]]) (simp_all add: set_org_status_def)
    show "tree_ok (set_org_status j st s1)" by (rule status_tree [OF books_tree [OF that]])
    show "catalog_ok (set_org_status j st s1)"
      by (rule same_catalog_ok [OF books_catalog [OF that]]) (auto simp: same_catalog_def set_org_status_def)
    show "orders_moved s1 (set_org_status j st s1)" by (rule orders_moved_same) (simp add: set_org_status_def)
  qed
  show ?thesis unfolding admin_set_reseller_status_def Let_def
    by (rule transact_snd [OF books], rule books_bind)
      (auto simp: reads_guards books intro!: books_bind audit_books status split: option.split)
qed

text \<open>Panels: more of them and more owners, the same plans.\<close>

lemma more_panels_books:
  assumes books: "books s0 s" and rest: "still s s'" "plans s' = plans s" "plan_categories s' = plan_categories s"
    and panels: "\<And>i. get_panel s i \<noteq> None \<Longrightarrow> get_panel s' i \<noteq> None"
    and owners: "set (panel_owners s) \<subseteq> set (panel_owners s')"
  shows "books s0 s'"
proof (rule books_still [OF books rest(1)])
  have mine: "panel_is_mine s i w \<Longrightarrow> panel_is_mine s' i w" for i w
    using owners unfolding panel_is_mine_def by auto
  have "shelf_ok s' = shelf_ok s" "panel_orders s' = panel_orders s" "next_uid s \<le> next_uid s'"
    using rest by (auto simp: shelf_ok_def fun_eq_iff still_def split: option.split)
  then show "catalog_ok s'"
    using books_catalog [OF books] rest(2,3) panels mine unfolding catalog_ok_def
    by (auto intro: order.strict_trans2)
qed

lemma lookup_grows: "lookup key i rs \<noteq> None \<Longrightarrow> lookup key i (rs @ qs) \<noteq> None"
  by (auto simp: lookup_append)

lemma add_panel_books: "books s0 s \<Longrightarrow> books s0 (snd (add_panel p s))"
  unfolding add_panel_def
  by (rule books_bind) (auto simp: reads_requirements still_def lookup_append split: option.split intro: more_panels_books)

lemma create_panel_books:
  assumes books: "books s0 s" shows "books s0 (snd (create_panel urlsplit now x s))"
proof -
  have url: "snd (validate_panel_url urlsplit u s1) = s1" for u s1
    by (subst validate_panel_url_state) simp
  show ?thesis unfolding create_panel_def Let_def
    by (rule transact_snd [OF books], rule books_bind) (auto simp: books url intro!: books_bind add_panel_books audit_books)
qed

lemma saleable_books:
  assumes books: "books s0 s" shows "books s0 (snd (set_panel_saleable root_env now i saleable ident s))"
proof -
  have sale: "books s0 (s1\<lparr>panels := modify pan_id j (\<lambda>p. p\<lparr>pan_saleable := saleable\<rparr>) (panels s1)\<rparr>)" if "books s0 s1" for s1 j
    by (rule more_panels_books [OF that]) (auto simp: still_def lookup_modify)
  show ?thesis unfolding set_panel_saleable_def
    by (rule transact_snd [OF books], rule books_bind) (auto simp: reads_guards books access_reads intro!: books_bind sale audit_books)
qed

lemma coefficient_books:
  assumes books: "books s0 s" shows "books s0 (snd (web_set_usage_coefficient root_env now i c ident s))"
proof (cases "web_set_usage_coefficient root_env now i c ident s")
  case (Pair r s')
  have set: "books s0 (set_coefficient j c s1)" if "books s0 s1" for s1 j
    unfolding set_coefficient_def by (rule more_panels_books [OF that]) (auto simp: still_def lookup_modify)
  from Pair [unfolded web_set_usage_coefficient_def] access_reads(1) have "books s0 s'"
    by (rule panel_route_cases)
      (auto simp: books require_def commit_def returned_def raised_def split: if_splits intro!: audit_books set books)
  then show ?thesis by (simp add: Pair)
qed

lemma panel_step_books:
  assumes books: "books s0 s" shows "books s0 (snd (panel_step up root_env now i op ident s))"
proof (cases "panel_step up root_env now i op ident s")
  case (Pair r s')
  from panel_step_trail [OF Pair] have "logged s s'" unfolding logged_def by (metis logged_def logged_refl)
  with Pair show ?thesis by (simp add: books_logged [OF books])
qed

lemma web_create_panel_books:
  assumes books: "books s0 s" shows "books s0 (snd (web_create_panel up urlsplit root_env now x ident s))"
proof (cases "web_create_panel up urlsplit root_env now x ident s")
  case (Pair r s')
  from Pair have "books s0 s'"
  proof (cases rule: web_create_panel_cases)
    case (registered a m org p probe)
    have rest: "still s s'" "plans s' = plans s" "plan_categories s' = plan_categories s"
      using registered(4) unfolding register_panel_def
      by (cases "wp_pg_admin_id x"; auto simp: bindr_Inr_iff sealed_Inr Let_def add_panel_def add_binding_def still_def)+
    show ?thesis
      by (rule more_panels_books [OF books rest]) (use register_panel_Inr(1,9) [OF registered(4)] in \<open>auto simp: lookup_append split: option.split\<close>)
  qed (simp add: books)
  then show ?thesis by (simp add: Pair)
qed

section \<open>The system\<close>

text \<open>Everything that changes the database, by the component that serves it.\<close>

datatype act =
    Set_Up int bootstrap_in identity
  | New_Organization int org_in
  | New_Child int web_child_in identity
  | New_Reseller int admin_reseller_in identity
  | Reseller_Status int uid identity
  | Fund_Wallet int uid int string
  | Funding_Route funding_op
  | Ask_Adjustment int adjustment_in identity
  | Decide_Approval int uid string identity
  | New_Panel "string \<Rightarrow> split_url option" int panel_in
  | New_Binding int binding_in
  | New_Actor int actor_bind_in
  | Register_Panel upstream "string \<Rightarrow> split_url option" int web_panel_in identity
  | Panel_Route upstream int uid panel_op identity
  | Coefficient int uid rat identity
  | Saleable int uid bool identity
  | Catalog_Route catalog_op
  | Metering usage_op
  | Queue queue_op

text \<open>The configuration of a deployment.\<close>

record site =
  si_root_env :: string
  si_setup_token :: string
  si_control_key :: string
  si_max_tree_depth :: int
  si_approval_ttl :: int
  si_reset_readings :: nat
  si_outbox :: outbox_config

fun serve_act :: "site \<Rightarrow> act \<Rightarrow> db \<Rightarrow> db" where
  "serve_act e (Set_Up now x ident) s = snd (bootstrap_workspace (si_setup_token e) now x ident s)"
| "serve_act e (New_Organization now x) s = snd (create_org (si_max_tree_depth e) now x s)"
| "serve_act e (New_Child now x ident) s = snd (web_create_child (si_root_env e) (si_max_tree_depth e) now x ident s)"
| "serve_act e (New_Reseller now x ident) s = snd (admin_create_reseller (si_root_env e) (si_max_tree_depth e) now x ident s)"
| "serve_act e (Reseller_Status now i ident) s = snd (admin_set_reseller_status (si_root_env e) now i ident s)"
| "serve_act e (Fund_Wallet now w amount key) s = snd (fund_api now w amount key s)"
| "serve_act e (Funding_Route x) s = funding_step (si_root_env e) x s"
| "serve_act e (Ask_Adjustment now x ident) s = snd (request_adjustment (si_root_env e) (si_approval_ttl e) now x ident s)"
| "serve_act e (Decide_Approval now i decision ident) s = snd (decide_approval (si_root_env e) now i decision ident s)"
| "serve_act e (New_Panel urlsplit now x) s = snd (create_panel urlsplit now x s)"
| "serve_act e (New_Binding now x) s = snd (create_binding now x s)"
| "serve_act e (New_Actor now x) s = snd (bind_actor now x s)"
| "serve_act e (Register_Panel up urlsplit now x ident) s = snd (web_create_panel up urlsplit (si_root_env e) now x ident s)"
| "serve_act e (Panel_Route up now i op ident) s = snd (panel_step up (si_root_env e) now i op ident s)"
| "serve_act e (Coefficient now i c ident) s = snd (web_set_usage_coefficient (si_root_env e) now i c ident s)"
| "serve_act e (Saleable now i on ident) s = snd (set_panel_saleable (si_root_env e) now i on ident s)"
| "serve_act e (Catalog_Route x) s = catalog_step (si_root_env e) (si_max_tree_depth e) x s"
| "serve_act e (Metering x) s = usage_step (si_reset_readings e) x s"
| "serve_act e (Queue x) s = queue_step (si_outbox e) x s"

text \<open>\<open>auth\<close>: the routes of the machine API open with the control key only, which must be configured.\<close>

definition auth :: "string \<Rightarrow> string \<Rightarrow> error + unit" where
  "auth expected key = (if length expected < 32 then Inl (HTTPException 401 ''invalid control key'')
     else case compare_digest expected key of
       Inl e \<Rightarrow> Inl e
     | Inr ok \<Rightarrow> if ok then Inr () else Inl (HTTPException 401 ''invalid control key''))"

fun machine_act :: "act \<Rightarrow> bool" where
  "machine_act (New_Organization now x) = True"
| "machine_act (Fund_Wallet now w amount key) = True"
| "machine_act (New_Panel urlsplit now x) = True"
| "machine_act (New_Binding now x) = True"
| "machine_act (New_Actor now x) = True"
| "machine_act (Metering x) = (case x of Poll now fetch \<Rightarrow> False | _ \<Rightarrow> True)"
| "machine_act _ = False"

text \<open>
  A step of the system: an act, with the control key it was sent with, or an update of the bot with what Telegram and
  the panels answer meanwhile.
\<close>

datatype event = Act string act | Chat bot_env string update

fun system_step :: "site \<Rightarrow> event \<Rightarrow> bot_world \<Rightarrow> bot_world" where
  "system_step e (Act key x) W =
     (if machine_act x \<and> auth (si_control_key e) key \<noteq> Inr () then W else W\<lparr>bw_db := serve_act e x (bw_db W)\<rparr>)"
| "system_step e (Chat env i u) W = consume (env, i, u) W"

lemma auth_Inr: "auth expected key = Inr () \<longleftrightarrow> 32 \<le> length expected \<and> key = expected \<and> list_all (\<lambda>c. (of_char c :: nat) < 128) expected"
  by (auto simp: auth_def compare_digest_def split: sum.splits bool.splits)

text \<open>Without the configured key the machine API changes nothing.\<close>

lemma machine_api_needs_the_key: "machine_act x \<Longrightarrow> key \<noteq> si_control_key e \<Longrightarrow> system_step e (Act key x) W = W"
  by (simp add: auth_Inr)

lemma serve_act_books: "books s0 s \<Longrightarrow> books s0 (serve_act e x s)"
  by (cases x)
    (simp_all add: bootstrap_books create_org_books web_create_child_books admin_create_reseller_books reseller_status_books
      fund_api_books funding_step_books request_adjustment_books decide_approval_books create_panel_books create_binding_books
      bind_actor_books web_create_panel_books panel_step_books coefficient_books saleable_books catalog_step_books usage_step_books
      rounds.queue_keeps)

interpretation plant: step_system "system_step e" "\<lambda>W :: bot_world. books s0 (bw_db W)"
proof
  fix W :: bot_world and x assume books: "books s0 (bw_db W)"
  show "books s0 (bw_db (system_step e x W))"
  proof (cases x)
    case (Act key y)
    with books show ?thesis by (simp add: serve_act_books)
  next
    case (Chat env i u)
    have "books s0 (bw_db (consume (env, i, u) W))" by (rule update_keeps [OF books.desk_keeper_axioms books])
    with Chat show ?thesis by simp
  qed
qed

section \<open>Properties\<close>

definition fresh_world :: bot_world where
  "fresh_world = \<lparr>bw_db = empty_db, bw_states = (\<lambda>_. None), bw_calls = [], bw_acked = []\<rparr>"

definition db_after :: "site \<Rightarrow> event list \<Rightarrow> db" where
  "db_after e events = bw_db (fold (system_step e) events fresh_world)"

lemma catalog_ok_empty: "catalog_ok empty_db"
  by (simp add: catalog_ok_def empty_db_def)

lemma fresh_books: "books empty_db (bw_db fresh_world)"
  by (simp add: books_def fresh_world_def ledger_ok_empty tree_ok_empty catalog_ok_empty forward_refl)

text \<open>
  C7: the whole system keeps its books. From an empty database, whatever requests of the machine API and the WebApp,
  polls of the usage worker, rounds of the outbox worker and updates of the bot happen in whatever order, and whatever
  Telegram and the panels answer: the ledger balances, the reseller tree and the catalog are well formed, the health
  check finds no drifted account, and between any two moments every order has only moved forward along the flow, under
  the terms it was quoted.
\<close>

theorem system_keeps_its_books:
  "books (db_after e earlier) (db_after e (earlier @ later)) \<and>
   fst (health now (db_after e (earlier @ later)) m) = Healthy now"
proof -
  have "books empty_db (db_after e earlier)" unfolding db_after_def by (rule plant.run_inv [OF fresh_books])
  then have "books (db_after e earlier) (db_after e earlier)" by (simp add: books_def forward_refl)
  then have now: "books (db_after e earlier) (db_after e (earlier @ later))"
    unfolding db_after_def fold_append o_apply by (rule plant.run_inv)
  moreover have "ledger_ok (db_after e (earlier @ later))" by (rule books_ledger [OF now])
  ultimately show ?thesis by (simp add: health_is_the_ledger)
qed

end
