(* ===== verification/Bot_Forms.thy ===== *)
theory Bot_Forms
  imports Bot_Laws
begin

text \<open>
  The conversations as a table: which question a step asks, under which key its answer is stored and of
  which kind it is. The handlers of \<open>Bot_Chat\<close> refine the table, so the state of a chat is typed (no
  answer is missing or of the wrong kind when a form is assembled) and every conversation ends.
\<close>

section \<open>The table\<close>

datatype kind = Words | Amount | Reference | Choice

fun fits :: "kind \<Rightarrow> datum option \<Rightarrow> bool" where
  "fits Words (Some (Text t)) = True"
| "fits Amount (Some (Num n)) = True"
| "fits Reference (Some (Ref t)) = True"
| "fits Choice (Some (Ref t)) = True"
| "fits Choice (Some Nothing) = True"
| "fits _ _ = False"

text \<open>The questions of a flow in order; a row without a step is filled when the flow is opened.\<close>

definition QUESTIONS :: "string \<Rightarrow> (string \<times> string \<times> kind) list" where
  "QUESTIONS flow =
    (if flow = ''order'' then [([], ''panel_id'', Reference), (''business_name'', ''business_name'', Words),
         (''user_count'', ''user_count'', Amount), (''daily_gib'', ''daily_gib'', Amount), (''note'', ''note'', Words)]
     else if flow = ''quote'' then [([], ''order_id'', Reference), (''amount'', ''amount_irr'', Amount),
         (''credit'', ''credit_limit_irr'', Amount), (''price'', ''price_per_gib_irr'', Amount),
         (''instructions'', ''instructions'', Words), (''pg_admin_id'', ''pg_admin_id'', Amount)]
     else if flow = ''category'' then [(''name'', ''name'', Words), (''description'', ''description'', Words)]
     else if flow = ''plan'' then [(''panel'', ''panel_id'', Reference), (''shelf'', ''category_id'', Choice),
         (''name'', ''name'', Words), (''price_per_gib_irr'', ''price_per_gib_irr'', Amount),
         (''daily_gib'', ''daily_gib'', Amount), (''duration_days'', ''duration_days'', Amount),
         (''user_count'', ''user_count'', Amount), (''credit_limit_irr'', ''credit_limit_irr'', Amount),
         (''instructions'', ''instructions'', Words)]
     else if flow = ''attach'' then [([], ''order_id'', Reference), (''pg_admin_id'', ''pg_admin_id'', Amount)]
     else if flow = ''credit'' then [(''amount'', ''amount'', Amount)]
     else if flow = ''reseller'' then [(''name'', ''name'', Words), (''slug'', ''slug'', Words),
         (''telegram_id'', ''telegram_id'', Words), (''price'', ''price'', Words), (''credit'', ''credit'', Words)]
     else [])"

definition answered :: "chat_state \<Rightarrow> (string \<times> string \<times> kind) list" where
  "answered st = takeWhile (\<lambda>(q, k, t). q \<noteq> st_step st) (QUESTIONS (st_flow st))"

definition questions_left :: "chat_state \<Rightarrow> nat" where
  "questions_left st = length (dropWhile (\<lambda>(q, k, t). q \<noteq> st_step st) (QUESTIONS (st_flow st)))"

text \<open>An order of a plan already knows its size.\<close>

definition planned :: "chat_state \<Rightarrow> bool" where
  "planned st \<longleftrightarrow> st_flow st = ''order'' \<and> maybe_ref ''plan_id'' (st_data st) \<noteq> None \<and> maybe_ref ''plan_id'' (st_data st) \<noteq> Some []"

definition state_ok :: "chat_state \<Rightarrow> bool" where
  "state_ok st \<longleftrightarrow> st_step st \<noteq> [] \<and> st_step st \<in> set (map fst (QUESTIONS (st_flow st))) \<and>
     list_all (\<lambda>(q, k, t). fits t (st_data st k)) (answered st) \<and>
     (planned st \<longrightarrow> fits Amount (st_data st ''user_count'') \<and> fits Amount (st_data st ''daily_gib'') \<and>
        st_step st \<in> {''business_name'', ''note''})"

text \<open>An answer is stored and a later question asked: the next one, or the note of a planned order.\<close>

definition next_step :: "chat_state \<Rightarrow> string option" where
  "next_step st = (if planned st \<and> st_step st = ''business_name'' then Some ''note''
     else following (st_step st) (map fst (QUESTIONS (st_flow st))))"

inductive advances :: "chat_state \<Rightarrow> chat_state \<Rightarrow> bool" where
  "(st_step st, k, t) \<in> set (QUESTIONS (st_flow st)) \<Longrightarrow> fits t (Some x) \<Longrightarrow> next_step st = Some nxt \<Longrightarrow>
    advances st (st\<lparr>st_step := nxt, st_data := (st_data st)(k \<mapsto> x)\<rparr>)"

inductive_cases advancesE: "advances st st'"

lemmas questions_at =
  QUESTIONS_def [of "''order''"] QUESTIONS_def [of "''quote''"] QUESTIONS_def [of "''category''"] QUESTIONS_def [of "''plan''"]
  QUESTIONS_def [of "''attach''"] QUESTIONS_def [of "''credit''"] QUESTIONS_def [of "''reseller''"]

lemma questions_distinct: "distinct (map fst (QUESTIONS flow))" "distinct (map (fst \<circ> snd) (QUESTIONS flow))"
  and questions_tail: "[] \<notin> set (tl (map fst (QUESTIONS flow)))" "list_all (\<lambda>(q, k, t). k \<noteq> ''plan_id'') (QUESTIONS flow)"
  by (simp_all add: QUESTIONS_def)

lemma following_split:
  assumes "following q (map fst qs) = Some nxt" "(q, k, t) \<in> set qs" "distinct (map fst qs)"
  shows "\<exists>us k' t' ws. qs = us @ (q, k, t) # (nxt, k', t') # ws"
  using assms
proof (induction qs)
  case (Cons e qs)
  show ?case
  proof (cases "fst e = q")
    case True
    with Cons.prems have e: "e = (q, k, t)" by (cases e) force
    with Cons.prems obtain e' ws where qs: "qs = e' # ws" "fst e' = nxt" by (cases qs) auto
    have "e # qs = [] @ (q, k, t) # (nxt, snd e') # ws" using e qs by (cases e') simp
    then show ?thesis by (metis prod.collapse)
  next
    case False
    with Cons.prems have "following q (map fst qs) = Some nxt" "(q, k, t) \<in> set qs" "distinct (map fst qs)"
      by (cases qs; auto)+
    from Cons.IH [OF this] obtain us k' t' ws where "qs = us @ (q, k, t) # (nxt, k', t') # ws" by blast
    then show ?thesis by (metis append_Cons)
  qed
qed simp

lemma following_cut:
  assumes "following q (map fst qs) = Some nxt" "(q, k, t) \<in> set qs" "distinct (map fst qs)"
  shows "takeWhile (\<lambda>(q', k, t). q' \<noteq> nxt) qs = takeWhile (\<lambda>(q', k, t). q' \<noteq> q) qs @ [(q, k, t)]"
    and "Suc (length (dropWhile (\<lambda>(q', k, t). q' \<noteq> nxt) qs)) = length (dropWhile (\<lambda>(q', k, t). q' \<noteq> q) qs)"
    and "nxt \<in> set (map fst qs)"
proof -
  from following_split [OF assms] obtain us k' t' ws where qs: "qs = us @ (q, k, t) # (nxt, k', t') # ws" by blast
  have us: "\<forall>x \<in> set us. fst x \<noteq> q \<and> fst x \<noteq> nxt" "q \<noteq> nxt" using assms(3) unfolding qs by auto
  then have "takeWhile (\<lambda>(q', k, t). q' \<noteq> q) qs = us" "dropWhile (\<lambda>(q', k, t). q' \<noteq> q) qs = (q, k, t) # (nxt, k', t') # ws"
    "takeWhile (\<lambda>(q', k, t). q' \<noteq> nxt) qs = us @ [(q, k, t)]" "dropWhile (\<lambda>(q', k, t). q' \<noteq> nxt) qs = (nxt, k', t') # ws"
    unfolding qs by (simp_all add: takeWhile_append2 dropWhile_append2 split_beta takeWhile_tail)
  then show "takeWhile (\<lambda>(q', k, t). q' \<noteq> nxt) qs = takeWhile (\<lambda>(q', k, t). q' \<noteq> q) qs @ [(q, k, t)]"
    "Suc (length (dropWhile (\<lambda>(q', k, t). q' \<noteq> nxt) qs)) = length (dropWhile (\<lambda>(q', k, t). q' \<noteq> q) qs)"
    "nxt \<in> set (map fst qs)" by (simp_all add: qs)
qed

text \<open>Preservation: what follows a typed state is typed, and has fewer questions left.\<close>

lemma advances_ok:
  assumes "advances st st'" "state_ok st"
  shows "state_ok st' \<and> questions_left st' < questions_left st \<and> st_step st' \<noteq> st_step st"
  using assms(1)
proof (rule advancesE)
  fix k t x nxt
  assume st': "st' = st\<lparr>st_step := nxt, st_data := (st_data st)(k \<mapsto> x)\<rparr>"
    and row: "(st_step st, k, t) \<in> set (QUESTIONS (st_flow st))" and fit: "fits t (Some x)" and nxt: "next_step st = Some nxt"
  show ?thesis
  proof (cases "planned st")
    case True
    then have flow: "st_flow st = ''order''" by (simp add: planned_def)
    from True assms(2) have "st_step st = ''business_name'' \<or> st_step st = ''note''" by (auto simp: state_ok_def)
    then have step: "st_step st = ''business_name''"
    proof
      assume "st_step st = ''note''"
      with nxt flow show ?thesis by (simp add: next_step_def questions_at)
    qed
    have "nxt = ''note''" using nxt True step by (simp add: next_step_def)
    moreover have "k = ''business_name''" "t = Words" using row flow step by (simp_all add: questions_at)
    ultimately show ?thesis using True assms(2) fit flow step
      by (simp add: st' state_ok_def answered_def questions_left_def questions_at)
  next
    case False
    with nxt have step_next: "following (st_step st) (map fst (QUESTIONS (st_flow st))) = Some nxt" by (simp add: next_step_def)
    note cut = following_cut [OF step_next row questions_distinct(1)]
    obtain us k' t' ws where qs: "QUESTIONS (st_flow st) = us @ (st_step st, k, t) # (nxt, k', t') # ws"
      using following_split [OF step_next row questions_distinct(1)] by blast
    have before: "answered st = us" 
    proof -
      have "fst x \<noteq> st_step st" if "x \<in> set us" for x
      proof -
        have "st_step st \<notin> fst ` set us" using questions_distinct(1) [of "st_flow st"] unfolding qs by simp
        then show ?thesis using that by (metis imageI)
      qed
      then have "takeWhile (\<lambda>x. fst x \<noteq> st_step st) (us @ (st_step st, k, t) # (nxt, k', t') # ws) = us"
        by (simp add: takeWhile_append2)
      then show ?thesis unfolding answered_def qs split_beta .
    qed
    have new: "k \<notin> (fst \<circ> snd) ` set us" using questions_distinct(2) [of "st_flow st"] unfolding qs by auto
    have "k \<noteq> ''plan_id''" using questions_tail(2) [of "st_flow st"] unfolding qs by auto
    then have unplanned: "\<not> planned st'" using False by (simp add: st' planned_def maybe_ref_def)
    have filled: "answered st' = us @ [(st_step st, k, t)]" using cut(1) before by (simp add: st' answered_def)
    have "nxt \<noteq> []" using questions_tail(1) [of "st_flow st"] unfolding qs by (cases us) auto
    moreover have "list_all (\<lambda>(q, k, t). fits t (st_data st' k)) (answered st')"
      using assms(2) fit new unfolding filled before [symmetric] by (force simp: state_ok_def st' list_all_iff split_beta)
    ultimately show ?thesis using cut(2,3) unplanned qs questions_distinct(1) [of "st_flow st"]
      by (auto simp: st' state_ok_def questions_left_def)
  qed
qed

section \<open>The handlers refine the table\<close>

text \<open>What a message may do to the state of its chat: nothing, close the flow, or advance it.\<close>

definition outcome :: "bot_env \<Rightarrow> int \<Rightarrow> (chat_state \<Rightarrow> bool) \<Rightarrow> bot_world \<Rightarrow> bot_world \<Rightarrow> bool" where
  "outcome env chat reached W W' \<longleftrightarrow> bw_states W' = bw_states W \<or> bw_states W' = (bw_states W)(chat := None) \<or>
     (\<exists>st'. reached st' \<and> bw_states W' = (bw_states W)(chat := Some (st', be_now env + STATE_TTL)))"

lemma outcome_same [simp]: "bw_states W' = bw_states W \<Longrightarrow> outcome env chat reached W W'"
  and outcome_cleared [simp]: "bw_states W' = (bw_states W)(chat := None) \<Longrightarrow> outcome env chat reached W W'"
  by (simp_all add: outcome_def)

lemma states_set [simp]:
  "bw_states (set_state env chat st W) = (bw_states W)(chat := Some (st, be_now env + STATE_TTL))"
  "bw_states (clear_state chat W) = (bw_states W)(chat := None)"
  by (simp_all add: set_state_def clear_state_def)

lemma states_bind:
  assumes "bw_states (snd m) = F" and "\<And>v W. bw_states W = F \<Longrightarrow> bw_states (snd (f v W)) = F"
  shows "bw_states (snd (bindr m f)) = F"
  using assms by (rule bindr_keeps [where P = "\<lambda>W. bw_states W = F"])

lemma outcome_bind:
  assumes "bw_states (snd m) = bw_states W"
    and "\<And>v W1. m = (Inr v, W1) \<Longrightarrow> bw_states W1 = bw_states W \<Longrightarrow> outcome env chat reached W (snd (f v W1))"
  shows "outcome env chat reached W (snd (bindr m f))"
  using assms by (cases m; cases "fst m") auto

lemma outcome_catching:
  assumes "bw_states (snd m) = bw_states W"
    and "\<And>t W1. bw_states W1 = bw_states W \<Longrightarrow> outcome env chat reached W (snd (h t W1))"
    and "\<And>v W1. bw_states W1 = bw_states W \<Longrightarrow> outcome env chat reached W (snd (f v W1))"
  shows "outcome env chat reached W (snd (catching m h f))"
  using assms by (cases m; cases "fst m") (auto simp: catching_def split: error.split)

lemma states_basics [simp]:
  "bw_states (snd (send_menu env k m W)) = bw_states W" "bw_states (snd (send_view env k v W)) = bw_states W"
  "bw_states (snd (refuse env k t W)) = bw_states W" "bw_states (snd (role_of env k W)) = bw_states W"
  "bw_states (snd (send_all env ks m b W)) = bw_states W"
  "bw_states (snd (abort_flow env k t W)) = (bw_states W)(k := None)"
  "bw_states (snd (next_question env k st step d W)) = (bw_states W)(k := Some (st\<lparr>st_step := step, st_data := d\<rparr>, be_now env + STATE_TTL))"
proof -
  show menu: "bw_states (snd (send_menu env k m W)) = bw_states W" for k m W
    by (auto simp: send_menu_def role_of_def intro!: states_bind)
  show "bw_states (snd (send_all env ks m b W)) = bw_states W"
    by (induction ks arbitrary: W) (auto intro!: states_bind)
  show "bw_states (snd (send_view env k v W)) = bw_states W" "bw_states (snd (refuse env k t W)) = bw_states W"
    "bw_states (snd (role_of env k W)) = bw_states W" "bw_states (snd (abort_flow env k t W)) = (bw_states W)(k := None)"
    "bw_states (snd (next_question env k st step d W)) =
      (bw_states W)(k := Some (st\<lparr>st_step := step, st_data := d\<rparr>, be_now env + STATE_TTL))"
    by (simp_all add: send_view_def refuse_def role_of_def abort_flow_def menu next_question_def)
qed

lemma states_told [simp]:
  "bw_states (snd (announce_order env k row W)) = bw_states W" "bw_states (snd (announce_quote env k row W)) = bw_states W"
  by (auto simp: announce_order_def announce_quote_def Let_def intro!: states_bind split: option.split)

text \<open>The rule for a stored answer.\<close>

lemma outcome_next:
  assumes "(st_step st, k, t) \<in> set (QUESTIONS (st_flow st))" "fits t (Some x)" "next_step st = Some nxt"
    and "bw_states W1 = bw_states W"
  shows "outcome env chat (advances st) W (snd (next_question env chat st nxt ((st_data st)(k \<mapsto> x)) W1))"
  using advances.intros [OF assms(1-3)] assms(4) by (auto simp: outcome_def)

lemma category_outcome:
  assumes "st_flow st = ''category''"
  shows "outcome env chat (advances st) W (snd (continue_category env chat v st W))"
proof (cases "st_step st = ''name''")
  case True
  then show ?thesis using assms unfolding continue_category_def
    by (auto intro!: outcome_next [where t = Words] simp: questions_at next_step_def planned_def)
next
  case False
  show ?thesis unfolding continue_category_def if_not_P [OF False] Let_def split_beta
    by (rule outcome_catching) (auto intro!: states_bind outcome_cleared)
qed

lemma finish_plan_outcome:
  assumes "bw_states W1 = bw_states W"
  shows "outcome env chat reached W (snd (finish_plan env chat d W1))"
  unfolding finish_plan_def Let_def split_beta
  by (rule outcome_catching) (auto intro!: states_bind outcome_cleared simp: assms)

lemma plan_datum_kind:
  assumes "plan_datum env step v W = (Inr (Inr x), W1)"
  shows "fits (if step = ''name'' \<or> step = ''instructions'' then Words else Amount) (Some x)"
  using assms by (auto simp: plan_datum_def Let_def bindr_Inr_iff split: if_splits option.splits)

lemma plan_outcome:
  assumes "state_ok st" "st_flow st = ''plan''"
  shows "outcome env chat (advances st) W (snd (continue_plan env chat v st W))"
proof (cases "st_step st = ''panel'' \<or> st_step st = ''shelf''")
  case False
  let ?t = "if st_step st = ''name'' \<or> st_step st = ''instructions'' then Words else Amount"
  have row: "(st_step st, st_step st, ?t) \<in> set (QUESTIONS (st_flow st))"
    using assms False by (auto simp: state_ok_def questions_at)
  have steps: "following (st_step st) PLAN_QUESTIONS = next_step st"
    using assms False by (auto simp: state_ok_def questions_at PLAN_QUESTIONS_def next_step_def planned_def)
  show ?thesis
    unfolding continue_plan_def Let_def if_not_P [OF False] steps
    by (rule outcome_bind)
      (auto split: sum.split option.split intro!: finish_plan_outcome outcome_next [OF row] dest: plan_datum_kind)
qed (simp add: continue_plan_def)

lemma order_outcome:
  assumes "state_ok st" "st_flow st = ''order''"
  shows "outcome env chat (advances st) W (snd (continue_order env chat v st W))"
proof -
  have step: "st_step st \<in> {''business_name'', ''user_count'', ''daily_gib'', ''note''}"
    using assms by (auto simp: state_ok_def questions_at)
  have sized: "\<not> planned st" if "st_step st = ''user_count'' \<or> st_step st = ''daily_gib''"
    using assms that by (auto simp: state_ok_def)
  have name: "outcome env chat (advances st) W (snd (next_question env chat st
      (if maybe_ref ''plan_id'' (st_data st) \<noteq> None \<and> maybe_ref ''plan_id'' (st_data st) \<noteq> Some [] then ''note'' else ''user_count'')
      ((st_data st)(''business_name'' \<mapsto> Text t)) W))" if "st_step st = ''business_name''" for t
    by (rule outcome_next [where t = Words]) (use that assms in \<open>auto simp: questions_at next_step_def planned_def\<close>)
  have counted: "outcome env chat (advances st) W (snd (next_question env chat st
      (if st_step st = ''user_count'' then ''daily_gib'' else ''note'') ((st_data st)(st_step st \<mapsto> Num n)) W1))"
    if "st_step st = ''user_count'' \<or> st_step st = ''daily_gib''" "bw_states W1 = bw_states W" for n W1
    by (rule outcome_next [where t = Amount]) (use that assms sized in \<open>auto simp: questions_at next_step_def\<close>)
  have noted: "outcome env chat (advances st) W (snd (catching (bindr (order_answers_of (bw_db W) (st_data st) t W) (\<lambda>x.
      on_db (place_order (be_tokens env) (be_now env) chat x))) (abort_flow env chat)
          (\<lambda>row W. announce_order env chat row (clear_state chat W))))" for t
    by (rule outcome_catching) (auto intro!: states_bind)
  from step consider "st_step st = ''business_name''" | "st_step st = ''user_count'' \<or> st_step st = ''daily_gib''" | "st_step st = ''note''"
    by blast
  then show ?thesis
  proof cases
    case 1
    then show ?thesis using name by (simp add: continue_order_def Let_def)
  next
    case 2
    then show ?thesis
    proof
      assume step: "st_step st = ''user_count''"
      have "outcome env chat (advances st) W (snd (next_question env chat st ''daily_gib''
          ((st_data st)(''user_count'' \<mapsto> Num n)) W1))" if "bw_states W1 = bw_states W" for n W1
        using counted [OF 2 that] step by simp
      then show ?thesis unfolding continue_order_def Let_def step by (auto intro!: outcome_bind)
    next
      assume step: "st_step st = ''daily_gib''"
      have "outcome env chat (advances st) W (snd (next_question env chat st ''note''
          ((st_data st)(''daily_gib'' \<mapsto> Num n)) W1))" if "bw_states W1 = bw_states W" for n W1
        using counted [OF 2 that] step by simp
      then show ?thesis unfolding continue_order_def Let_def step by (auto intro!: outcome_bind)
    qed
  next
    case 3
    then show ?thesis using noted by (simp add: continue_order_def Let_def)
  qed
qed

lemma quote_outcome:
  assumes "state_ok st" "st_flow st = ''quote''"
  shows "outcome env chat (advances st) W (snd (continue_quote env chat v st W))"
proof -
  have step: "st_step st \<in> {''amount'', ''credit'', ''price'', ''instructions'', ''pg_admin_id''}"
    using assms by (auto simp: state_ok_def questions_at)
  have unplanned: "\<not> planned st" using assms(2) by (simp add: planned_def)
  have noted: "outcome env chat (advances st) W (snd (catching (bindr (quote_answers_of (bw_db W1) (st_data st) a W1) (\<lambda>x.
      on_db (apply_quote (be_root env) (be_now env) chat x))) (abort_flow env chat)
          (\<lambda>row W. announce_quote env chat row (clear_state chat W))))" if "bw_states W1 = bw_states W" for a W1
    by (rule outcome_catching) (auto intro!: states_bind simp: that)
  have amount: "outcome env chat (advances st) W (snd (next_question env chat st nxt ((st_data st)(k \<mapsto> Num n)) W1))"
    if "(st_step st, k, Amount) \<in> set (QUESTIONS ''quote'')" "next_step st = Some nxt" "bw_states W1 = bw_states W" for k nxt n W1
    by (rule outcome_next [where t = Amount]) (use that assms(2) in simp_all)
  have worded: "outcome env chat (advances st) W (snd (next_question env chat st ''pg_admin_id''
      ((st_data st)(''instructions'' \<mapsto> Text t)) W1))" if "st_step st = ''instructions''" "bw_states W1 = bw_states W" for t W1
    by (rule outcome_next [where t = Words]) (use that assms(2) unplanned in \<open>simp_all add: questions_at next_step_def\<close>)
  from step show ?thesis
    unfolding continue_quote_def Let_def
    by (elim insertE emptyE; simp add: QUOTE_STEPS_def require_some_def)
      (auto intro!: noted outcome_bind amount worded simp: questions_at next_step_def unplanned assms(2) split: option.split)
qed

lemma approval_outcome:
  assumes "bw_states W1 = bw_states W"
  shows "outcome env chat reached W (snd (apply_approval env chat i a c attach W1))"
proof -
  have told: "bw_states (snd (case c of None \<Rightarrow> returned () W2 | Some k \<Rightarrow> answer_callback env k t W2)) = bw_states W2"
    for t W2 by (simp split: option.split)
  show ?thesis unfolding apply_approval_def Let_def
    by (rule outcome_catching)
      (auto intro!: outcome_cleared states_bind simp: assms told split: option.split)
qed

lemma attach_outcome: "outcome env chat reached W (snd (continue_attach env chat v st W))"
  unfolding continue_attach_def
  by (auto intro!: outcome_bind approval_outcome split: option.split)

lemma credit_outcome: "outcome env chat reached W (snd (continue_credit env chat v W))"
proof -
  have done': "outcome env chat reached W (snd (bindr (send_menu env chat m (clear_state chat W1)) (\<lambda>_ W2. send_all env (ks W2) n b W2)))"
    if "bw_states W1 = bw_states W" for W1 m ks n b
    by (rule outcome_cleared, rule states_bind) (simp_all add: that)
  show ?thesis unfolding continue_credit_def by (auto intro!: outcome_bind done')
qed

lemma finish_reseller_outcome:
  assumes "bw_states W1 = bw_states W"
  shows "outcome env chat reached W (snd (finish_reseller env chat d c W1))"
proof -
  let ?m = "bindr (reseller_answers_of env d c W1) (\<lambda>x W. bindr (on_db (create_reseller (be_root env) (be_now env) chat x) W)
    (\<lambda>name W. send_menu env chat (Reseller_Made name) (clear_state chat W)))"
  have "outcome env chat (\<lambda>_. False) W (snd ?m)"
    by (intro outcome_bind) (simp_all add: assms)
  then have "bw_states (snd ?m) = bw_states W \<or> bw_states (snd ?m) = (bw_states W)(chat := None)" by (simp add: outcome_def)
  then show ?thesis by (cases ?m; cases "fst ?m") (auto simp: finish_reseller_def outcome_def)
qed

lemma reseller_outcome:
  assumes "state_ok st" "st_flow st = ''reseller''"
  shows "outcome env chat (advances st) W (snd (continue_reseller env chat v st W))"
proof -
  have step: "st_step st \<in> {''name'', ''slug'', ''telegram_id'', ''price'', ''credit''}"
    using assms by (auto simp: state_ok_def questions_at)
  have unplanned: "\<not> planned st" using assms(2) by (simp add: planned_def)
  have worded: "outcome env chat (advances st) W (snd (next_question env chat st nxt ((st_data st)(k \<mapsto> Text t)) W1))"
    if "(st_step st, k, Words) \<in> set (QUESTIONS ''reseller'')" "next_step st = Some nxt" "bw_states W1 = bw_states W" for k nxt t W1
    by (rule outcome_next [where t = Words]) (use that assms(2) in simp_all)
  from step show ?thesis
    unfolding continue_reseller_def Let_def
    by (elim insertE emptyE; simp)
      (auto intro!: outcome_bind worded finish_reseller_outcome simp: questions_at next_step_def unplanned assms(2))
qed

lemma known_flow:
  "state_ok st \<Longrightarrow> st_flow st \<in> {''order'', ''quote'', ''category'', ''plan'', ''attach'', ''credit'', ''reseller''}"
  by (auto simp: state_ok_def QUESTIONS_def split: if_splits)

lemma continue_outcome:
  assumes "state_ok st"
  shows "outcome env chat (advances st) W (snd (continue_state env chat v st W))"
proof (cases "v = plain ''/cancel''")
  case True
  then show ?thesis by (simp add: continue_state_def)
next
  case False
  from known_flow [OF assms] show ?thesis
    unfolding continue_state_def if_not_P [OF False]
    using order_outcome [OF assms] quote_outcome [OF assms] category_outcome plan_outcome [OF assms] attach_outcome
      credit_outcome reseller_outcome [OF assms]
    by (elim insertE emptyE; simp)
qed

section \<open>Conversations only move on\<close>

definition chat_ok :: "bot_world \<Rightarrow> bool" where
  "chat_ok W \<longleftrightarrow> (\<forall>chat x. bw_states W chat = Some x \<longrightarrow> state_ok (fst x))"

lemma chat_okD: "chat_ok W \<Longrightarrow> get_state env chat W = Some st \<Longrightarrow> state_ok st"
  by (fastforce simp: chat_ok_def get_state_def split: option.splits if_splits)

lemma outcome_mono:
  "outcome env chat r W W' \<Longrightarrow> (\<And>st. r st \<Longrightarrow> r' st) \<Longrightarrow> outcome env chat r' W W'"
  by (auto simp: outcome_def)

lemma outcome_ok: "chat_ok W \<Longrightarrow> outcome env chat state_ok W W' \<Longrightarrow> chat_ok W'"
  unfolding outcome_def chat_ok_def by (fastforce split: if_splits)

text \<open>
  The answers of a chat that its flow takes: messages, sent while the flow is open, after which the
  question is another one or the flow is closed.
\<close>

fun answers_taken :: "int \<Rightarrow> (bot_env \<times> string \<times> chat_text) list \<Rightarrow> bot_world \<Rightarrow> nat" where
  "answers_taken chat [] W = 0"
| "answers_taken chat ((env, i, v) # xs) W = (case get_state env chat W of
     None \<Rightarrow> 0
   | Some st \<Rightarrow> let W' = consume (env, i, Message (Some chat) v) W in
       (if map_option (\<lambda>(st', expiry). st_step st') (bw_states W' chat) = Some (st_step st) then 0 else 1) +
       answers_taken chat xs W')"

definition open_questions :: "int \<Rightarrow> bot_world \<Rightarrow> nat" where
  "open_questions chat W = (case bw_states W chat of None \<Rightarrow> 0 | Some (st, expiry) \<Rightarrow> questions_left st)"

lemma questions_left_bounds: "state_ok st \<Longrightarrow> 0 < questions_left st" "questions_left st \<le> 9"
proof -
  assume "state_ok st"
  then obtain e where "e \<in> set (QUESTIONS (st_flow st))" "fst e = st_step st" by (auto simp: state_ok_def)
  then show "0 < questions_left st"
    by (auto simp: questions_left_def dropWhile_eq_Nil_conv split_beta)
next
  have "length (QUESTIONS (st_flow st)) \<le> 9" by (simp add: QUESTIONS_def)
  then show "questions_left st \<le> 9"
    unfolding questions_left_def using length_dropWhile_le le_trans by blast
qed

lemma message_outcome:
  assumes st: "get_state env chat W = Some st" and ok: "state_ok st"
  shows "outcome env chat (advances st) W (consume (env, i, Message (Some chat) v) W)"
proof -
  have "outcome env chat (advances st) W (snd (handle_message env chat v W))"
    using continue_outcome [OF ok] by (simp add: handle_message_def st Let_def)
  then show ?thesis by (simp add: outcome_def consume_states handle_update_def)
qed

lemma taken_bounded:
  "chat_ok W \<Longrightarrow> answers_taken chat xs W \<le> open_questions chat W"
proof (induction xs arbitrary: W)
  case (Cons x xs)
  obtain env i v where x: "x = (env, i, v)" by (cases x) auto
  show ?case
  proof (cases "get_state env chat W")
    case (Some st)
    let ?W = "consume (env, i, Message (Some chat) v) W"
    obtain expiry where now: "bw_states W chat = Some (st, expiry)"
      using Some by (auto simp: get_state_def split: option.splits if_splits)
    have ok: "state_ok st" using chat_okD [OF Cons.prems Some] .
    note out = message_outcome [OF Some ok, of i v]
    have "chat_ok ?W" using Cons.prems by (rule outcome_ok) (rule outcome_mono [OF out], simp add: advances_ok ok)
    from Cons.IH [OF this] have IH: "answers_taken chat xs ?W \<le> open_questions chat ?W" .
    from out show ?thesis unfolding outcome_def
    proof (elim disjE exE conjE)
      assume "bw_states ?W = bw_states W"
      with IH show ?thesis by (simp add: x Some now open_questions_def Let_def)
    next
      assume "bw_states ?W = (bw_states W)(chat := None)"
      with IH questions_left_bounds(1) [OF ok] show ?thesis by (simp add: x Some now open_questions_def Let_def)
    next
      fix st' assume "advances st st'" and new: "bw_states ?W = (bw_states W)(chat := Some (st', be_now env + STATE_TTL))"
      from advances_ok [OF this(1) ok] IH new show ?thesis by (simp add: x Some now open_questions_def Let_def)
    qed
  qed (simp add: x)
qed simp

text \<open>What a message of a chat does to its open flow.\<close>

definition flow_moves :: "bot_env \<Rightarrow> int \<Rightarrow> chat_state \<Rightarrow> bot_world \<Rightarrow> bot_world \<Rightarrow> bool" where
  "flow_moves env chat st W W' \<longleftrightarrow> bw_states W' = bw_states W \<or> bw_states W' = (bw_states W)(chat := None) \<or>
     (\<exists>st' k x. bw_states W' = (bw_states W)(chat := Some (st', be_now env + STATE_TTL)) \<and> st_flow st' = st_flow st \<and>
        st_data st' = (st_data st)(k \<mapsto> x) \<and> questions_left st' < questions_left st)"

lemma message_moves:
  assumes st: "get_state env chat W = Some st" and ok: "state_ok st"
  shows "flow_moves env chat st W (consume (env, i, Message (Some chat) v) W)"
proof -
  have "st_flow st' = st_flow st \<and> (\<exists>k x. st_data st' = (st_data st)(k \<mapsto> x)) \<and> questions_left st' < questions_left st"
    if "advances st st'" for st'
  proof (rule advancesE [OF that])
    fix k t x nxt
    assume st': "st' = st\<lparr>st_step := nxt, st_data := (st_data st)(k \<mapsto> x)\<rparr>"
    then show ?thesis using advances_ok [OF that ok] by (auto intro!: exI [of _ k] exI [of _ x])
  qed
  with message_outcome [OF st ok] show ?thesis unfolding outcome_def flow_moves_def by blast
qed

text \<open>
  C11: conversations never go back. In a world whose chat states are typed, a message sent while a flow is open
  leaves the states of all chats as they were, or closes the flow of its chat, or stores one answer and moves the
  same flow to a question with fewer left, for fifteen minutes more. So however many messages a chat sends, at most as many of
  them are taken as answers as the open flow has questions left, at most nine. Nothing is promised of the
  other messages, which may leave the flow open as it is; but \<open>/cancel\<close> closes it at once, and once the
  time stored with it is over no flow is open.
\<close>

theorem conversations_never_go_back:
  assumes "chat_ok W"
  shows "answers_taken chat xs W \<le> (case bw_states W chat of None \<Rightarrow> 0 | Some (st, expiry) \<Rightarrow> questions_left st) \<and>
    answers_taken chat xs W \<le> 9 \<and>
    (\<forall>st v. get_state env chat W = Some st \<longrightarrow> flow_moves env chat st W (consume (env, i, Message (Some chat) v) W)) \<and>
    (chat \<noteq> 0 \<longrightarrow> get_state env chat W \<noteq> None \<longrightarrow>
      bw_states (consume (env, i, Message (Some chat) (plain ''/cancel'')) W) chat = None) \<and>
    (\<forall>st expiry. bw_states W chat = Some (st, expiry) \<longrightarrow> expiry \<le> be_now env \<longrightarrow> get_state env chat W = None)"
proof (intro conjI allI impI)
  have "answers_taken chat xs W \<le> open_questions chat W" using assms by (rule taken_bounded)
  moreover have "open_questions chat W \<le> 9"
    by (auto simp: open_questions_def questions_left_bounds(2) split: option.split)
  ultimately show "answers_taken chat xs W \<le> (case bw_states W chat of None \<Rightarrow> 0 | Some (st, expiry) \<Rightarrow> questions_left st)"
    "answers_taken chat xs W \<le> 9" by (auto simp: open_questions_def)
  show "flow_moves env chat st W (consume (env, i, Message (Some chat) v) W)" if "get_state env chat W = Some st" for st v
    using message_moves [OF that chat_okD [OF assms that]] .
  show "bw_states (consume (env, i, Message (Some chat) (plain ''/cancel'')) W) chat = None"
    if "chat \<noteq> 0" "get_state env chat W \<noteq> None"
    using that by (auto simp: consume_states handle_update_def handle_message_def Let_def continue_state_def plain_def
        strip_text_def whitespace_def)
  show "get_state env chat W = None" if "bw_states W chat = Some (st, expiry)" "expiry \<le> be_now env" for st expiry
    using that by (simp add: get_state_def)
qed

end
