(* ===== verification/Bot_Types.thy ===== *)
theory Bot_Types
  imports Bot_Forms
begin

text \<open>
  The states of the chats stay typed under every update, and a typed state never lets a handler run into
  a missing answer or an answer of the wrong kind.
\<close>

section \<open>Preservation\<close>

lemma outcome_from: "bw_states W1 = bw_states W \<Longrightarrow> outcome env chat r W1 W' \<Longrightarrow> outcome env chat r W W'"
  by (simp add: outcome_def)

lemma outcome_opened:
  "state_ok st \<Longrightarrow> bw_states W' = (bw_states W)(chat := Some (st, be_now env + STATE_TTL)) \<Longrightarrow> outcome env chat state_ok W W'"
  unfolding outcome_def by blast

lemma outcome_then:
  assumes "outcome env chat r W (snd m)" and "\<And>v W1. bw_states (snd (f v W1)) = bw_states W1"
  shows "outcome env chat r W (snd (bindr m f))"
  using assms by (cases m; cases "fst m") (auto simp: outcome_def)

lemma opened_ok:
  "state_ok \<lparr>st_flow = ''reseller'', st_step = ''name'', st_data = Map.empty\<rparr>"
  "state_ok \<lparr>st_flow = ''order'', st_step = ''business_name'', st_data = [''panel_id'' \<mapsto> Ref p]\<rparr>"
  "state_ok \<lparr>st_flow = ''order'', st_step = ''business_name'', st_data = [''panel_id'' \<mapsto> Ref p, ''plan_id'' \<mapsto> Ref q,
     ''user_count'' \<mapsto> Num m, ''daily_gib'' \<mapsto> Num n]\<rparr>"
  "state_ok \<lparr>st_flow = ''quote'', st_step = ''amount'', st_data = [''order_id'' \<mapsto> Ref p]\<rparr>"
  "state_ok \<lparr>st_flow = ''category'', st_step = ''name'', st_data = Map.empty\<rparr>"
  "state_ok \<lparr>st_flow = ''plan'', st_step = ''panel'', st_data = Map.empty\<rparr>"
  "state_ok \<lparr>st_flow = ''credit'', st_step = ''amount'', st_data = Map.empty\<rparr>"
  "state_ok \<lparr>st_flow = ''attach'', st_step = ''pg_admin_id'', st_data = [''order_id'' \<mapsto> Ref p]\<rparr>"
  by (simp_all add: state_ok_def answered_def questions_at planned_def maybe_ref_def)

lemma openings_outcome:
  assumes "bw_states W1 = bw_states W"
  shows "outcome env chat state_ok W (snd (begin_reseller env chat W1))"
    "outcome env chat state_ok W (snd (begin_order env chat p W1))"
    "outcome env chat state_ok W (snd (begin_plan_order env chat p W1))"
    "outcome env chat state_ok W (snd (begin_quote env chat p W1))"
    "outcome env chat state_ok W (snd (begin_shelf env chat W1))"
    "outcome env chat state_ok W (snd (begin_plan env chat W1))"
    "outcome env chat state_ok W (snd (begin_credit env chat W1))"
  by (auto simp: begin_reseller_def begin_order_def begin_plan_order_def begin_quote_def begin_shelf_def begin_plan_def
      begin_credit_def assms split: option.split intro!: outcome_bind intro: outcome_opened opened_ok)

lemma states_shown [simp]:
  "bw_states (snd (show_view env chat f W)) = bw_states W" "bw_states (snd (show_with_menu env chat role f W)) = bw_states W"
  "bw_states (snd (my_orders_section env chat role W)) = bw_states W" "bw_states (snd (pay_notice env i a row seller W)) = bw_states W"
  "bw_states (snd (after_customer_step env chat c r j a x W)) = bw_states W"
  by (auto simp: show_view_def show_with_menu_def split_beta my_orders_section_def Let_def pay_notice_def
      after_customer_step_def intro!: states_bind split: prod.split)

lemma customer_section_outcome:
  assumes "bw_states W1 = bw_states W"
  shows "outcome env chat state_ok W (snd (customer_section env chat role section W1))"
  unfolding customer_section_def by (rule outcome_bind) (auto simp: assms intro!: openings_outcome outcome_bind)

lemma open_section_outcome:
  assumes "bw_states W1 = bw_states W"
  shows "outcome env chat state_ok W (snd (open_section env chat section W1))"
  unfolding open_section_def Let_def
  by (rule outcome_bind) (simp_all add: assms openings_outcome customer_section_outcome states_bind)

lemma handle_message_outcome:
  assumes "chat_ok W"
  shows "outcome env chat state_ok W (snd (handle_message env chat typed W))"
proof (cases "get_state env chat W")
  case None
  show ?thesis unfolding handle_message_def Let_def None option.case
    by (auto intro!: outcome_bind open_section_outcome split: option.split)
next
  case (Some st)
  have ok: "state_ok st" using chat_okD [OF assms Some] .
  have "outcome env chat state_ok W (snd (continue_state env chat v st W))" for v
    by (rule outcome_mono [OF continue_outcome [OF ok]]) (simp add: advances_ok ok)
  then show ?thesis by (simp add: handle_message_def Let_def Some)
qed

lemma selected_ok:
  assumes "state_ok st" "st_flow st = ''plan''"
  shows "st_step st = ''panel'' \<Longrightarrow> state_ok (st\<lparr>st_data := (st_data st)(''panel_id'' \<mapsto> Ref p), st_step := ''shelf''\<rparr>)"
    and "st_step st = ''shelf'' \<Longrightarrow> fits Choice (Some x) \<Longrightarrow>
      state_ok (st\<lparr>st_data := (st_data st)(''category_id'' \<mapsto> x), st_step := ''name''\<rparr>)"
  using assms by (auto simp: state_ok_def answered_def questions_at planned_def)

lemma plan_step_ok: "chat_ok W \<Longrightarrow> plan_step env chat step W = Some st \<Longrightarrow>
    state_ok st \<and> st_flow st = ''plan'' \<and> st_step st = step"
  by (auto simp: plan_step_def chat_okD split: option.splits if_splits)

lemma attach_opened:
  assumes "bw_states W1 = bw_states W"
  shows "outcome env chat state_ok W (snd (send env chat m k
    (set_state env chat \<lparr>st_flow = ''attach'', st_step = ''pg_admin_id'', st_data = [''order_id'' \<mapsto> Ref r]\<rparr> W1)))"
  by (rule outcome_opened [OF opened_ok(8)]) (simp add: assms)

lemma dispatch_outcome:
  assumes "chat_ok W"
  shows "outcome env chat state_ok W (snd (dispatch env chat c b W))"
proof (cases b)
  case (Select_Panel p)
  show ?thesis
  proof (cases "plan_step env chat ''panel'' W")
    case (Some st)
    from plan_step_ok [OF assms this] selected_ok(1)
    have "state_ok (st\<lparr>st_data := (st_data st)(''panel_id'' \<mapsto> Ref p), st_step := ''shelf''\<rparr>)" by blast
    then show ?thesis
      unfolding Select_Panel dispatch.simps Some option.case
      by (rule outcome_opened) (rule states_bind, simp_all)
  qed (simp add: Select_Panel)
next
  case (Select_Shelf i)
  show ?thesis
  proof (cases "plan_step env chat ''shelf'' W")
    case (Some st)
    have "fits Choice (Some (if i = [] then Nothing else Ref i))" by simp
    with plan_step_ok [OF assms Some] selected_ok(2)
    have "state_ok (st\<lparr>st_data := (st_data st)(''category_id'' \<mapsto> (if i = [] then Nothing else Ref i)), st_step := ''name''\<rparr>)" by blast
    then show ?thesis
      unfolding Select_Shelf dispatch.simps Some option.case
      by (rule outcome_opened) (rule states_bind, simp_all)
  qed (simp add: Select_Shelf)
next
  case (On_Order r a)
  show ?thesis unfolding On_Order dispatch.simps order_callback_def Let_def
    by (simp add: outcome_bind openings_outcome approval_outcome attach_opened)
qed (auto simp: split_beta intro!: outcome_bind openings_outcome open_section_outcome split: option.split)

lemma handle_callback_outcome:
  assumes "chat_ok W"
  shows "outcome env chat state_ok W (snd (handle_callback env chat c data W))"
  using dispatch_outcome [OF assms, of env chat c "parse_callback data"]
  by (cases "dispatch env chat c (parse_callback data) W"; cases "fst (dispatch env chat c (parse_callback data) W)")
    (auto simp: handle_callback_def outcome_def split: error.split)

lemma consume_ok:
  assumes "chat_ok W"
  shows "chat_ok (consume (env, i, u) W)"
proof -
  have "chat_ok (snd (handle_update env u W))"
    using outcome_ok [OF assms handle_message_outcome [OF assms]] outcome_ok [OF assms handle_callback_outcome [OF assms]] assms
    by (auto simp: handle_update_def split: update.split option.split)
  then show ?thesis by (simp add: chat_ok_def consume_states)
qed

section \<open>Progress\<close>

text \<open>What a handler would raise on a state with a missing answer or one of the wrong kind.\<close>

definition ANSWER_KEYS :: "string list" where
  "ANSWER_KEYS = [''panel_id'', ''business_name'', ''user_count'', ''daily_gib'', ''order_id'', ''amount_irr'',
     ''credit_limit_irr'', ''price_per_gib_irr'', ''instructions'', ''name'', ''duration_days'', ''slug'', ''telegram_id'', ''price'']"

fun ill_typed :: "error \<Rightarrow> bool" where
  "ill_typed (KeyError k) = True"
| "ill_typed (TypeError k) = (k \<in> set ANSWER_KEYS)"
| "ill_typed _ = False"

definition smooth :: "('a, 's) res \<Rightarrow> bool" where
  "smooth m \<longleftrightarrow> (case fst m of Inl e \<Rightarrow> \<not> ill_typed e | Inr v \<Rightarrow> True)"

lemma smooth_simps [simp]:
  "smooth (returned v s)" "smooth (raised e s) \<longleftrightarrow> \<not> ill_typed e" "smooth (Inr v, s)" "smooth (Inl e, s) \<longleftrightarrow> \<not> ill_typed e"
  "smooth (require c e s) \<longleftrightarrow> c \<or> \<not> ill_typed e" "smooth (require_some x e s) \<longleftrightarrow> x \<noteq> None \<or> \<not> ill_typed e"
  "smooth (bigints_stored ns s)" "smooth (integers_stored ns s)"
  by (auto simp: smooth_def returned_def raised_def require_def require_some_def bigints_stored_def integers_stored_def
      split: option.split)

lemma smooth_bindr:
  assumes "smooth m" and "\<And>v s. m = (Inr v, s) \<Longrightarrow> smooth (f v s)"
  shows "smooth (bindr m f)"
  using assms by (cases m; cases "fst m") (auto simp: smooth_def)

lemma smooth_catching:
  assumes "smooth m" and "\<And>t W. smooth (h t W)" and "\<And>v W. m = (Inr v, W) \<Longrightarrow> smooth (f v W)"
  shows "smooth (catching m h f)"
  using assms by (cases m; cases "fst m") (auto simp: catching_def smooth_def raised_def split: error.split)

lemma smooth_plumbing:
  "smooth (f s) \<Longrightarrow> smooth (transact f s)" "smooth (f (bw_db W)) \<Longrightarrow> smooth (on_db f W)"
  "smooth m \<Longrightarrow> smooth (as_permission m)"
  by (auto simp: smooth_def transact_eq on_db_def as_permission_def raised_def split: prod.splits sum.splits error.splits)

lemma smooth_send [simp]:
  "smooth (telegram env c W)" "smooth (send env k m b W)" "smooth (answer_callback env i t W)"
  by (simp_all add: send_def answer_callback_def telegram_def Let_def)

lemma smooth_context [simp]:
  "smooth (bot_context root_env chat s)" "smooth (require_context root_env chat s)"
  "smooth (permitted_context permission root_env chat s)" "smooth (current_role root_env chat s)"
  by (auto simp: bot_context_def require_context_def permitted_context_def current_role_def refusal_def
      intro!: smooth_bindr split: option.split)

lemma smooth_basics [simp]:
  "smooth (send_menu env k m W)" "smooth (send_view env k v W)" "smooth (refuse env k t W)" "smooth (role_of env k W)"
  "smooth (abort_flow env k t W)" "smooth (next_question env k st step d W)" "smooth (send_all env ks m b W)"
proof -
  have role: "smooth (role_of env k W)" for k W by (simp add: role_of_def smooth_plumbing)
  have menu: "smooth (send_menu env k m W)" for k m W by (auto simp: send_menu_def role intro!: smooth_bindr)
  show "smooth (send_all env ks m b W)" by (induction ks arbitrary: W) (auto intro!: smooth_bindr)
  show "smooth (send_menu env k m W)" "smooth (send_view env k v W)" "smooth (refuse env k t W)" "smooth (role_of env k W)"
    "smooth (abort_flow env k t W)" "smooth (next_question env k st step d W)"
    by (simp_all add: menu role send_view_def refuse_def abort_flow_def next_question_def)
qed

lemma smooth_views [simp]:
  "smooth (bot_dashboard root_env chat admin s)" "smooth (server_list webapp root_env chat s)"
  "smooth (catalog_list root_env chat s)" "smooth (catalog_panels root_env chat s)"
  "smooth (catalog_shelves root_env chat s)" "smooth (reseller_list root_env chat s)"
  "smooth (bot_transactions root_env chat s)" "smooth (finance_menu root_env chat s)"
  "smooth (funding_requests_view root_env chat s)" "smooth (approval_requests_view root_env chat s)"
  "smooth (bot_order_queue root_env chat wanted s)" "smooth (customer_panel root_env chat s)"
  "smooth (order_detail root_env chat i s)"
  by (auto simp: bot_dashboard_def server_list_def catalog_list_def catalog_panels_def catalog_shelves_def
      reseller_list_def bot_transactions_def finance_menu_def funding_requests_view_def approval_requests_view_def
      bot_order_queue_def customer_panel_def order_detail_def Let_def intro!: smooth_bindr)

text \<open>The operations behind the flows.\<close>

lemma smooth_transfer: "smooth (transfer now a b n key kd ref enforce actor s)"
  by (auto simp: transfer_def transfer_locked_def post_def payer_error_def Let_def ANSWER_KEYS_def
      split: option.split prod.split if_splits owner.split)

lemma smooth_core:
  "smooth (create_plan_category now w a x s)" "smooth (create_catalog_plan now w a px s)"
  "smooth (create_panel_order tokens now chat name medium ox s)" "smooth (locked_order i to_status s)"
  "smooth (quote_panel_order now qx a w ord s)" "smooth (reject_panel_order now reason a w ord s)"
  by (auto simp: create_plan_category_def create_catalog_plan_def validated_plan_def catalog_shelf_def owned_panel_def
      active_panel_if_def create_panel_order_def priced_plan_def unique_order_slug_def locked_order_def require_transition_def
      quote_panel_order_def quote_stored_def plan_stored_def reject_panel_order_def
      assert_order_seller_def Let_def
      intro!: smooth_bindr split: option.split prod.split if_splits)

lemma smooth_approve: "smooth (approve_panel_order d now attach a w ord s)"
proof -
  have depth: "smooth (assert_depth_allowed d org s)" for org s
    by (auto simp: assert_depth_allowed_def effective_depth_limit_def ANSWER_KEYS_def intro!: smooth_bindr split: option.split)
  have bound: "smooth (bind_customer ord w p s)" for ord w p s
    by (auto simp: bind_customer_def add_binding_def Let_def intro!: smooth_bindr split: option.split)
  have finished: "smooth (finish_approval now a org p ord s)" for org p ord s
    by (simp add: finish_approval_def Let_def)
  show ?thesis
    by (auto simp: approve_panel_order_def assert_order_seller_def require_transition_def Let_def ANSWER_KEYS_def
        intro!: smooth_bindr depth bound finished smooth_transfer split: prod.split)
qed

lemma smooth_writes [simp]:
  "smooth (create_shelf root_env now chat name description s)" "smooth (save_plan root_env now chat x s)"
  "smooth (place_order tokens now chat ox s)" "smooth (apply_quote root_env now chat qx s)"
  "smooth (reviewer_order_action root_env d now chat i a reason attach s)" "smooth (ask_credit root_env now chat n s)"
  by (auto simp: create_shelf_def save_plan_def place_order_def apply_quote_def reviewer_order_action_def ask_credit_def
      validated_def intro!: smooth_plumbing smooth_bindr smooth_core smooth_approve)

section \<open>Forms\<close>

lemma smooth_items:
  "fits Words (d k) \<Longrightarrow> smooth (text_item k d s)" "fits Amount (d k) \<Longrightarrow> smooth (num_item k d s)"
  "fits Reference (d k) \<Longrightarrow> smooth (ref_item k d s)" "smooth (as_int env v s)" "smooth (skipped_number env b v s)"
  by (auto simp: text_item_def num_item_def ref_item_def as_int_def skipped_number_def intro!: smooth_bindr
      elim: fits.elims)

lemma smooth_told [simp]:
  "smooth (announce_order env k row W)" "smooth (announce_quote env k row W)"
  by (auto simp: announce_order_def announce_quote_def Let_def intro!: smooth_bindr split: option.split)

lemmas typed_state = state_ok_def answered_def questions_at

lemma smooth_category:
  assumes "state_ok st" "st_flow st = ''category''"
  shows "smooth (continue_category env chat v st W)"
proof (cases "st_step st = ''name''")
  case False
  with assms have "fits Words (st_data st ''name'')" by (auto simp: typed_state)
  then show ?thesis unfolding continue_category_def if_not_P [OF False] Let_def split_beta
    by (auto intro!: smooth_catching smooth_bindr smooth_plumbing smooth_items)
qed (simp add: continue_category_def)

lemma smooth_plan:
  assumes "state_ok st" "st_flow st = ''plan''"
  shows "smooth (continue_plan env chat v st W)"
proof (cases "st_step st = ''panel'' \<or> st_step st = ''shelf''")
  case False
  have known: "st_step st \<in> {''name'', ''price_per_gib_irr'', ''daily_gib'', ''duration_days'', ''user_count'',
      ''credit_limit_irr'', ''instructions''}"
    using assms False by (auto simp: typed_state)
  have "smooth (plan_datum env (st_step st) v W)"
    using known by (elim insertE emptyE; auto simp: plan_datum_def PLAN_LIMITS_def Let_def intro!: smooth_bindr smooth_items)
  moreover have "smooth (finish_plan env chat ((st_data st)(st_step st \<mapsto> x)) W1)"
    if last: "following (st_step st) PLAN_QUESTIONS = None" and x: "plan_datum env (st_step st) v W = (Inr (Inr x), W1)" for x W1
  proof -
    have step: "st_step st = ''instructions''" using known last by (elim insertE emptyE; simp add: PLAN_QUESTIONS_def)
    have "fits Words (Some x)" using plan_datum_kind [OF x] by (simp add: step)
    moreover have "list_all (\<lambda>(q, k, t). fits t (st_data st k)) (answered st)" using assms(1) by (simp add: state_ok_def)
    ultimately show ?thesis using assms(2) step
      by (auto simp: finish_plan_def plan_answers_of_def Let_def split_beta answered_def questions_at
          intro!: smooth_catching smooth_bindr smooth_plumbing smooth_items)
  qed
  ultimately show ?thesis unfolding continue_plan_def Let_def if_not_P [OF False]
    by (auto intro!: smooth_bindr split: sum.split option.split)
qed (simp add: continue_plan_def)

lemma smooth_order:
  assumes "state_ok st" "st_flow st = ''order''"
  shows "smooth (continue_order env chat v st W)"
proof (cases "st_step st = ''note''")
  case True
  moreover have "list_all (\<lambda>(q, k, t). fits t (st_data st k)) (answered st)" using assms(1) by (simp add: state_ok_def)
  ultimately show ?thesis using assms(2)
    by (auto simp: continue_order_def order_answers_of_def Let_def answered_def questions_at
        intro!: smooth_catching smooth_bindr smooth_plumbing smooth_items)
next
  case False
  then show ?thesis by (auto simp: continue_order_def Let_def intro!: smooth_bindr smooth_items)
qed

lemma smooth_quote:
  assumes "state_ok st" "st_flow st = ''quote''"
  shows "smooth (continue_quote env chat v st W)"
proof -
  have known: "st_step st \<in> {''amount'', ''credit'', ''price'', ''instructions'', ''pg_admin_id''}"
    using assms by (auto simp: typed_state)
  have answers: "list_all (\<lambda>(q, k, t). fits t (st_data st k)) (answered st)" using assms(1) by (simp add: state_ok_def)
  show ?thesis
  proof (cases "st_step st = ''pg_admin_id''")
    case True
    with answers assms(2) show ?thesis
      by (auto simp: continue_quote_def QUOTE_STEPS_def quote_answers_of_def Let_def answered_def questions_at
          intro!: smooth_catching smooth_bindr smooth_plumbing smooth_items split: option.split)
  next
    case False
    with known show ?thesis
      by (elim insertE emptyE; auto simp: continue_quote_def QUOTE_STEPS_def Let_def require_some_def
          intro!: smooth_bindr smooth_items)
  qed
qed

lemma smooth_approval: "smooth (apply_approval env chat i a c attach W)"
  unfolding apply_approval_def Let_def
  by (auto intro!: smooth_catching smooth_bindr smooth_plumbing split: option.split)

lemma smooth_attach:
  assumes "state_ok st" "st_flow st = ''attach''"
  shows "smooth (continue_attach env chat v st W)"
proof -
  have "fits Reference (st_data st ''order_id'')" using assms by (auto simp: typed_state)
  then show ?thesis unfolding continue_attach_def
    by (auto simp: validated_def intro!: smooth_bindr smooth_items smooth_approval split: option.split)
qed

lemma smooth_rest:
  "smooth (continue_credit env chat v W)" "smooth (continue_reseller env chat v st W)"
  by (auto simp: continue_credit_def continue_reseller_def finish_reseller_def Let_def
      intro!: smooth_bindr smooth_items smooth_plumbing split: prod.split sum.split)

lemma smooth_continue: "state_ok st \<Longrightarrow> smooth (continue_state env chat v st W)"
  unfolding continue_state_def
  by (simp add: smooth_order smooth_quote smooth_category smooth_plan smooth_attach smooth_rest)

lemma smooth_shown:
  "(\<And>s. smooth (f s)) \<Longrightarrow> smooth (show_view env chat f W)" "(\<And>s. smooth (f s)) \<Longrightarrow> smooth (show_with_menu env chat role f W)"
  by (auto simp: show_view_def show_with_menu_def split_beta intro!: smooth_bindr smooth_plumbing)

lemma smooth_begin_plan: "smooth (begin_plan env chat W)"
  by (auto simp: begin_plan_def intro!: smooth_bindr smooth_plumbing)

lemma smooth_customer: "smooth (customer_section env chat role section W)"
  unfolding customer_section_def
  by (auto simp: begin_credit_def intro!: smooth_bindr smooth_plumbing smooth_shown)

lemma smooth_section: "smooth (open_section env chat section W)"
  unfolding open_section_def Let_def
  by (rule smooth_bindr)
    (simp_all add: smooth_shown smooth_customer my_orders_section_def begin_reseller_def begin_credit_def Let_def
      smooth_bindr smooth_plumbing)

lemma smooth_message:
  assumes "chat_ok W"
  shows "smooth (handle_message env chat typed W)"
  unfolding handle_message_def Let_def
  by (auto intro!: smooth_bindr smooth_plumbing smooth_section smooth_continue dest: chat_okD [OF assms] split: option.split)

text \<open>
  C10: the conversations are well typed. From a world whose chat states are typed, every sequence of
  updates leaves them typed: each state asks a question of its flow and holds an answer of the right kind
  to every question before it. No update, whatever it is, then ends in a missing answer or in one of the
  wrong kind, unless reading the entry itself raised it: it is not JSON, or lacks a field every update has.
\<close>

theorem chats_stay_typed:
  assumes "chat_ok W"
  shows "chat_ok (fold consume updates W) \<and>
    (\<forall>env u e. fst (handle_update env u (fold consume updates W)) = Inl e \<longrightarrow> ill_typed e \<longrightarrow> u = Malformed e)"
proof -
  have kept: "chat_ok (fold consume updates W)" using assms
    by (induction updates arbitrary: W) (auto simp: consume_ok)
  have "u = Malformed e" if "fst (handle_update env u (fold consume updates W)) = Inl e" "ill_typed e" for env u e
  proof (rule ccontr)
    assume other: "u \<noteq> Malformed e"
    then have "u \<noteq> Malformed k" for k using that(1) by (auto simp: handle_update_def)
    then have "smooth (handle_update env u (fold consume updates W))"
      using smooth_message [OF kept]
      by (auto simp: handle_update_def handle_callback_def split: update.split option.split prod.split sum.split error.split)
    with that show False by (simp add: smooth_def)
  qed
  with kept show ?thesis by blast
qed

end
