(* ===== verification/Bot_Twins.thy ===== *)
theory Bot_Twins
  imports Bot_Effects
begin

text \<open>
  The bot and the WebApp are two doors to one core. For a chat with exactly one active membership the two
  ways of finding the caller agree, and each operation of the bot then succeeds exactly when the route of
  the WebApp does and leaves the same database behind.
\<close>

text \<open>Two runs that end alike: both fail or both succeed, in the same state.\<close>

definition alike_runs :: "('a, 's) res \<Rightarrow> ('b, 's) res \<Rightarrow> bool" where
  "alike_runs m m' \<longleftrightarrow> isl (fst m) = isl (fst m') \<and> snd m = snd m'"

text \<open>In a transaction the state of a failed run does not matter.\<close>

definition agree :: "('a, 's) res \<Rightarrow> ('b, 's) res \<Rightarrow> bool" where
  "agree m m' \<longleftrightarrow> isl (fst m) = isl (fst m') \<and> (\<not> isl (fst m) \<longrightarrow> snd m = snd m')"

definition sole_member :: "int \<Rightarrow> db \<Rightarrow> bool" where
  "sole_member chat s \<longleftrightarrow> (case active_actor s chat of None \<Rightarrow> False | Some a \<Rightarrow>
     (case filter (\<lambda>m. mem_actor_id m = act_id a \<and> mem_status m = ''active'') (memberships s) of
        [m] \<Rightarrow> get_organization s (mem_organization_id m) \<noteq> None
      | _ \<Rightarrow> False))"

lemma find_filter: "List.find P xs = (case filter P xs of [] \<Rightarrow> None | x # _ \<Rightarrow> Some x)"
  by (induction xs) auto

lemma sole_memberE:
  assumes "sole_member chat s"
  obtains a m org where "active_actor s chat = Some a" "pick_membership root_env s (act_id a) chat = Some m"
    "List.find (\<lambda>m. mem_actor_id m = act_id a \<and> mem_status m = ''active'') (memberships s) = Some m"
    "get_organization s (mem_organization_id m) = Some org"
proof -
  from assms obtain a m org where a: "active_actor s chat = Some a"
    and m: "filter (\<lambda>m. mem_actor_id m = act_id a \<and> mem_status m = ''active'') (memberships s) = [m]"
    and org: "get_organization s (mem_organization_id m) = Some org"
    by (auto simp: sole_member_def split: option.splits list.splits)
  have "pick_membership root_env s (act_id a) chat = Some m"
    by (simp add: pick_membership_def Let_def m)
  with a org that show thesis by (simp add: find_filter m)
qed

lemma permitted_known:
  "bot_context root_env chat s = (Inr (Some c), s) \<Longrightarrow>
    permitted_context p root_env chat s = (if can (Some (cx_role c)) p then (Inr c, s) else (Inl (refusal p), s))"
  by (simp add: permitted_context_def require_context_def require_some_def require_def returned_def raised_def)

lemma same_caller:
  assumes "sole_member chat s"
  obtains c a m org where "bot_context root_env chat s = (Inr (Some c), s)"
    "cx_actor_id c = act_id a" "cx_organization_id c = org_id org"
    "\<And>p. manager root_env chat p s = (if can (Some (cx_role c)) p then (Inr (a, m, org), s) else (Inl (denial p), s))"
proof -
  from assms obtain a m org where h: "active_actor s chat = Some a" "pick_membership root_env s (act_id a) chat = Some m"
    "List.find (\<lambda>m. mem_actor_id m = act_id a \<and> mem_status m = ''active'') (memberships s) = Some m"
    "get_organization s (mem_organization_id m) = Some org"
    by (rule sole_memberE)
  let ?c = "\<lparr>cx_actor_id = act_id a, cx_organization_id = org_id org, cx_organization_name = org_name org,
    cx_role = effective_role root_env chat (Some (mem_role m))\<rparr>"
  show thesis
  proof (rule that [of ?c a org m])
    show "bot_context root_env chat s = (Inr (Some ?c), s)"
      by (simp add: bot_context_def optional_membership_def h returned_def)
    show "manager root_env chat p s = (if can (Some (cx_role ?c)) p then (Inr (a, m, org), s) else (Inl (denial p), s))" for p
      by (simp add: manager_def membership_for_def h require_some_def require_def returned_def raised_def)
  qed simp_all
qed

lemma agree_transact: "agree (f s) (g s) \<Longrightarrow> alike_runs (transact f s) (transact g s)"
  by (auto simp: agree_def alike_runs_def transact_eq split: prod.split sum.split)

lemma agree_refl [simp]: "agree m m"
  by (simp add: agree_def)

lemma agree_as_permission [simp]: "agree (as_permission m) m' \<longleftrightarrow> agree m m'"
  by (cases m; cases "fst m") (auto simp: agree_def as_permission_def raised_def split: error.split)

lemma agree_bindr:
  assumes "agree m m'" and "\<And>v v' s. m = (Inr v, s) \<Longrightarrow> m' = (Inr v', s) \<Longrightarrow> agree (f v s) (g v' s)"
  shows "agree (bindr m f) (bindr m' g)"
  using assms by (cases m; cases m'; cases "fst m"; cases "fst m'") (auto simp: agree_def)

lemma agree_raised [simp]: "agree (raised e s) (raised e' s')" "agree (Inl e, s) (Inl e', s')"
  by (simp_all add: agree_def raised_def)

text \<open>Two guarded transactions agree when their bodies do.\<close>

lemma agree_guarded:
  assumes sole: "sole_member chat s"
    and body: "\<And>c a m org. cx_actor_id c = act_id a \<Longrightarrow> cx_organization_id c = org_id org \<Longrightarrow> agree (f c s) (g (a, m, org) s)"
  shows "alike_runs (transact (\<lambda>s. bindr (permitted_context p root_env chat s) f) s)
    (transact (\<lambda>s. bindr (manager root_env chat p s) g) s)"
proof (rule agree_transact)
  obtain c a m org where ctx: "bot_context root_env chat s = (Inr (Some c), s)"
    and same: "cx_actor_id c = act_id a" "cx_organization_id c = org_id org"
    and man: "manager root_env chat p s = (if can (Some (cx_role c)) p then (Inr (a, m, org), s) else (Inl (denial p), s))"
    using same_caller [OF sole, of root_env] by metis
  show "agree (bindr (permitted_context p root_env chat s) f) (bindr (manager root_env chat p s) g)"
    unfolding permitted_known [OF ctx] man by (simp add: body [OF same])
qed

text \<open>What a bot operation computes for its reply does not matter.\<close>

lemma agree_reply [simp]:
  "agree (bindr m (\<lambda>v. returned (h v))) m' \<longleftrightarrow> agree m m'" "agree m' (bindr m (\<lambda>v. returned (h v))) \<longleftrightarrow> agree m' m"
  "agree (bindr m (\<lambda>v s. returned (k v s) s)) m' \<longleftrightarrow> agree m m'"
  by (cases m; cases "fst m"; simp add: agree_def returned_def)+

lemma agree_steps [simp]:
  "agree (require_some x e s) (require_some x e' s)" "agree (returned v s) (returned v' s)"
  by (cases x; simp add: agree_def require_some_def returned_def raised_def)+

lemma validated_bindr: "ok \<Longrightarrow> bindr (validated ok s) f = f () s"
  by (simp add: validated_def require_def returned_def)

section \<open>Operation by operation\<close>

lemma twin_sale:
  assumes sole: "sole_member chat s" and active: "\<forall>p. get_panel s i = Some p \<longrightarrow> pan_status p = ''active''"
    and ident: "user_id ident = chat"
  shows "alike_runs (set_saleable root_env now chat i on s) (set_panel_saleable root_env now i on ident s)"
  unfolding set_saleable_def set_panel_saleable_def ident
proof (rule agree_guarded [OF sole], goal_cases)
  case (1 c a m org)
  then show ?case using active by (cases "get_panel s i")
      (auto simp: owned_panel_def active_panel_if_def require_some_def returned_def raised_def agree_def)
qed

lemma twin_shelf:
  assumes sole: "sole_member chat s" and ident: "user_id ident = chat"
    and ok: "2 \<le> length name \<and> length name \<le> 80 \<and> length description \<le> 500"
  shows "alike_runs (create_shelf root_env now chat name description s)
    (web_create_category root_env now \<lparr>ci_name = utf8 name, ci_description = utf8 description\<rparr> ident s)"
  unfolding create_shelf_def web_create_category_def catalog_route_def ident
  by (rule agree_guarded [OF sole]) (simp add: validated_bindr [OF ok])

lemma twin_plan:
  assumes sole: "sole_member chat s" and ident: "user_id ident = chat" and ok: "plan_valid x"
  shows "alike_runs (save_plan root_env now chat x s) (web_create_plan root_env now (plan_form x) ident s)"
  unfolding save_plan_def web_create_plan_def catalog_route_def ident
proof (rule agree_guarded [OF sole], goal_cases)
  case (1 c a m org)
  show ?case unfolding 1 prod.case validated_bindr [OF ok]
    by (rule agree_bindr) auto
qed

lemma twin_toggle:
  assumes sole: "sole_member chat s" and ident: "user_id ident = chat"
  shows "get_category s i = Some c \<Longrightarrow> alike_runs (toggle_catalog root_env now chat ''category'' i s)
      (web_category_status root_env now i (if cat_status c \<noteq> ''active'' then ''active'' else ''inactive'') ident s)"
    and "get_plan s i = Some p \<Longrightarrow> alike_runs (toggle_catalog root_env now chat ''plan'' i s)
      (web_plan_status root_env now i (if plan_status p \<noteq> ''active'' then ''active'' else ''inactive'') ident s)"
  unfolding toggle_catalog_def web_category_status_def web_plan_status_def catalog_route_def ident
  by (rule agree_guarded [OF sole]; simp add: require_some_def)+

lemma twin_quote:
  assumes sole: "sole_member chat s" and ident: "user_id ident = chat" and ok: "quote_valid x"
  shows "alike_runs (apply_quote root_env now chat x s) (quote_order root_env now (qa_order_id x) (quote_form x) ident s)"
  unfolding apply_quote_def quote_order_def seller_route_def ident validated_bindr [OF ok]
  by (rule agree_guarded [OF sole]) (auto intro!: agree_bindr)

lemma twin_review:
  assumes sole: "sole_member chat s" and ident: "user_id ident = chat"
  shows "alike_runs (reviewer_order_action root_env d now chat i ''ok'' reason (Some x) s) (approve_order root_env d now i x ident s)"
    and "alike_runs (reviewer_order_action root_env d now chat i ''no'' reason None s) (reject_order root_env now i reason ident s)"
  unfolding reviewer_order_action_def approve_order_def reject_order_def seller_route_def ident
  by (rule agree_guarded [OF sole]; auto intro!: agree_bindr)+

text \<open>
  C9: the bot grants exactly what the WebApp grants. For a chat with exactly one active membership, putting
  an active server on sale, opening and closing a shelf or a plan, creating a shelf, creating a plan, quoting
  an order, approving it with the form that names an admin, and rejecting it succeed in the bot exactly when the route of the WebApp succeeds
  for the same person and the same form, and leave the same database, audit row included. The forms of a
  shelf, a plan and a quote are the ones the routes validate.
\<close>

theorem bot_and_webapp_agree:
  assumes sole: "sole_member chat s" and ident: "user_id ident = chat"
  shows "((\<forall>p. get_panel s i = Some p \<longrightarrow> pan_status p = ''active'') \<longrightarrow>
      alike_runs (set_saleable root_env now chat i on s) (set_panel_saleable root_env now i on ident s)) \<and>
    (get_category s i = Some c \<longrightarrow> alike_runs (toggle_catalog root_env now chat ''category'' i s)
      (web_category_status root_env now i (if cat_status c \<noteq> ''active'' then ''active'' else ''inactive'') ident s)) \<and>
    (get_plan s i = Some p \<longrightarrow> alike_runs (toggle_catalog root_env now chat ''plan'' i s)
      (web_plan_status root_env now i (if plan_status p \<noteq> ''active'' then ''active'' else ''inactive'') ident s)) \<and>
    (2 \<le> length name \<and> length name \<le> 80 \<and> length description \<le> 500 \<longrightarrow>
      alike_runs (create_shelf root_env now chat name description s)
      (web_create_category root_env now \<lparr>ci_name = utf8 name, ci_description = utf8 description\<rparr> ident s)) \<and>
    (plan_valid x \<longrightarrow> alike_runs (save_plan root_env now chat x s) (web_create_plan root_env now (plan_form x) ident s)) \<and>
    (quote_valid q \<longrightarrow> alike_runs (apply_quote root_env now chat q s)
      (quote_order root_env now (qa_order_id q) (quote_form q) ident s)) \<and>
    (alike_runs (reviewer_order_action root_env d now chat i ''ok'' reason (Some attach) s)
      (approve_order root_env d now i attach ident s)) \<and>
    (alike_runs (reviewer_order_action root_env d now chat i ''no'' reason None s) (reject_order root_env now i reason ident s))"
  using twin_sale [OF sole _ ident] twin_toggle [OF sole ident] twin_shelf [OF sole ident] twin_plan [OF sole ident]
    twin_quote [OF sole ident] twin_review [OF sole ident]
  by (intro conjI) simp_all

end
