(* ===== verification/Bot_Gaps.thy ===== *)
theory Bot_Gaps
  imports Bot_Twins
begin

text \<open>
  Where the bot parts from the WebApp: a question that no answer leaves, and buttons that ask for no
  permission.
\<close>

section \<open>A quote that cannot be finished\<close>

lemma invalid_quote:
  "\<not> quote_valid q \<Longrightarrow> apply_quote root_env now chat q s = (Inl (ValueError ''validation error''), s)"
  by (simp add: apply_quote_def transact_eq validated_def require_def raised_def)

lemma quote_amount_kept: "quote_answers_of t d a s = (Inr q, s') \<Longrightarrow> d ''amount_irr'' = Some (Num (qa_amount_irr q)) \<and> s' = s"
  by (auto simp: quote_answers_of_def bindr_Inr_iff num_item_def text_item_def ref_item_def
      split: option.splits datum.splits)

lemma bindr_avoids: "fst m \<noteq> Inl e \<Longrightarrow> (\<And>v s. fst (f v s) \<noteq> Inl e) \<Longrightarrow> fst (bindr m f) \<noteq> Inl e"
  by (cases m; cases "fst m") auto

lemma quote_answers_avoid: "fst (quote_answers_of t d a s) \<noteq> Inl (PermissionError u)"
  unfolding quote_answers_of_def
  by (intro bindr_avoids) (simp_all add: num_item_def text_item_def ref_item_def returned_def raised_def split: option.split datum.split)

text \<open>
  C36: a quote above ten trillion rials is never finished. The amount question takes any positive number,
  and the bound is checked only after the last question, by an error the handler does not catch. In that
  state every message but \<open>/cancel\<close> leaves the conversation and the database as they were, and an answer to
  the question, a number or a skip, is neither acknowledged nor answered.
\<close>

theorem oversized_quote_is_stuck:
  assumes open_quote: "get_state env chat W = Some st" "st_flow st = ''quote''" "st_step st = ''pg_admin_id''"
    and amount: "st_data st ''amount_irr'' = Some (Num n)" "10000000000000 < n"
    and message: "strip_text typed \<noteq> plain ''/cancel''" "chat \<noteq> 0"
  shows "bw_states (consume (env, i, Message (Some chat) typed) W) = bw_states W \<and>
    bw_db (consume (env, i, Message (Some chat) typed) W) = bw_db W \<and>
    (strip_text typed \<in> set SKIP \<or> is_digits env (number (strip_text typed)) \<longrightarrow>
       strip_text typed \<noteq> plain ''/id'' \<longrightarrow> consume (env, i, Message (Some chat) typed) W = W)"
proof -
  let ?v = "strip_text typed"
  let ?answer = "\<lambda>x. case x of None \<Rightarrow> refuse env chat ''a number, please'' W
    | Some admin \<Rightarrow> catching (bindr (quote_answers_of (bw_db W) (st_data st) admin W) (\<lambda>x.
          on_db (apply_quote (be_root env) (be_now env) chat x))) (abort_flow env chat)
        (\<lambda>row W. announce_quote env chat row (clear_state chat W))"
  have failed: "\<exists>e. ?answer (Some admin) = (Inl e, W)" for admin
  proof (cases "quote_answers_of (bw_db W) (st_data st) admin W")
    case (Pair r W1)
    have W1: "W1 = W" using reads_answers(3) [of "bw_db W" "st_data st" admin W] Pair by simp
    show ?thesis
    proof (cases r)
      case (Inl e)
      have "\<forall>t. e \<noteq> PermissionError t"
        using quote_answers_avoid [of "bw_db W" "st_data st" admin W] Pair Inl by auto
      then show ?thesis by (cases e) (simp_all add: Pair Inl W1 catching_def raised_def)
    next
      case (Inr q)
      have "n = qa_amount_irr q" using quote_amount_kept [OF Pair [unfolded Inr]] amount(1) by simp
      then have "\<not> quote_valid q" using amount(2) by (simp add: quote_valid_def)
      then show ?thesis by (simp add: Pair Inr W1 catching_def on_db_def invalid_quote raised_def)
    qed
  qed
  have step: "continue_state env chat ?v st W = bindr (skipped_number env (?v \<in> set SKIP) ?v W) (\<lambda>x W. case x of None \<Rightarrow> refuse env chat ''a number, please'' W
    | Some admin \<Rightarrow> catching (bindr (quote_answers_of (bw_db W) (st_data st) admin W) (\<lambda>x.
          on_db (apply_quote (be_root env) (be_now env) chat x))) (abort_flow env chat)
        (\<lambda>row W. announce_quote env chat row (clear_state chat W)))"
    using message(1) open_quote(2,3) by (simp add: continue_state_def continue_quote_def QUOTE_STEPS_def require_some_def Let_def)
  have stuck: "\<exists>e. continue_state env chat ?v st W = (Inl e, W)" if "?v \<in> set SKIP \<or> is_digits env (number ?v)"
  proof -
    have "\<exists>r. skipped_number env (?v \<in> set SKIP) ?v W = (r, W) \<and> r \<noteq> Inr None"
      using that by (auto simp: skipped_number_def returned_def as_int_def require_some_def raised_def split: option.split)
    then obtain r where r: "skipped_number env (?v \<in> set SKIP) ?v W = (r, W)" "r \<noteq> Inr None" by blast
    show ?thesis
    proof (cases r)
      case (Inr x)
      with r obtain admin where "skipped_number env (?v \<in> set SKIP) ?v W = (Inr (Some admin), W)" by (cases x) auto
      with failed [of admin] show ?thesis unfolding step by simp
    qed (simp add: step r)
  qed
  have asked: "continue_state env chat ?v st W = refuse env chat ''a number, please'' W"
    if "\<not> (?v \<in> set SKIP \<or> is_digits env (number ?v))"
    using that by (simp add: step skipped_number_def returned_def)
  show ?thesis
  proof (cases "?v = plain ''/id''")
    case True
    then show ?thesis by (simp add: consume_db consume_states handle_update_def handle_message_def message(2))
  next
    case False
    then have same: "handle_update env (Message (Some chat) typed) W = continue_state env chat ?v st W"
      using message(2) open_quote(1) by (simp add: handle_update_def handle_message_def)
    show ?thesis
    proof (cases "?v \<in> set SKIP \<or> is_digits env (number ?v)")
      case True
      with stuck same show ?thesis by (auto simp: consume_def)
    next
      case False
      with asked same show ?thesis by (simp add: consume_db consume_states refuse_def)
    qed
  qed
qed

section \<open>Buttons without a permission\<close>

text \<open>
  C37: the node buttons ask for no permission. For a member of the organization that owns a server whose role
  does not include \<open>node_control\<close>, every node route of the WebApp is refused and changes nothing, while the
  bot runs the same operation on the same server and reports its success.
\<close>

theorem node_buttons_skip_the_permission:
  assumes sole: "sole_member chat s" and ident: "user_id ident = chat"
    and powerless: "\<not> entitled root_env chat ''node_control'' s"
    and owned: "get_panel s i = Some p" "pan_status p = ''active''" "pan_vendor p \<in> set SUPPORTED_VENDORS"
      "\<And>c. fst (bot_context root_env chat s) = Inr (Some c) \<Longrightarrow> panel_is_mine s i (cx_organization_id c)"
    and button: "NODE_OPERATIONS action = Some (audited, run, reply)" "action \<noteq> ''status''" "py_int node_ref = Some n"
    and answer: "via up (\<lambda>h cl. run h cl n) p = Answer v"
  shows "fst (node_action up root_env now chat i node_ref action s) = Inr (Say reply) \<and>
    (\<forall>op. needs op = ''node_control'' \<longrightarrow> (\<exists>e. panel_step up root_env now i op ident s = (Inl e, s)))"
proof -
  obtain c a m org where ctx: "bot_context root_env chat s = (Inr (Some c), s)" and "cx_organization_id c = org_id org"
    and man: "\<And>p. manager root_env chat p s = (if can (Some (cx_role c)) p then (Inr (a, m, org), s) else (Inl (denial p), s))"
    using same_caller [OF sole, of root_env] by metis
  have cannot: "\<not> can (Some (cx_role c)) ''node_control''" using powerless by (auto simp: entitled_def ctx)
  have mine: "panel_is_mine s i (cx_organization_id c)" using owned(4) ctx by simp
  have panel: "bot_panel root_env chat i s = (Inr (c, p), s)"
    by (simp add: bot_panel_def require_context_def ctx mine owned require_some_def require_def returned_def)
  have "fst (node_action up root_env now chat i node_ref action s) = Inr (Say reply)"
    using button answer owned(3)
    by (simp add: node_action_def request_def in_session_def open_session_def panel require_some_def run_panel_operation_def
        panel_operation_def as_permission_def returned_def Let_def)
  moreover have "\<exists>e. panel_step up root_env now i op ident s = (Inl e, s)" if "needs op = ''node_control''" for op
    using that
    by (cases op) (simp_all add: web_reconnect_node_def web_node_status_def web_reset_node_def web_set_node_enabled_def
        panel_route_def request_def in_session_def open_session_def man cannot ident erase_def)
  ultimately show ?thesis by blast
qed

end
