(* ===== verification/Panels_Cases.thy ===== *)
theory Panels_Cases
  imports Panels Funding_Cases
begin

text \<open>
  The properties of stored secrets and panel routes on the tree of \<open>Funding_Cases\<close>: the root organization
  owns one server and its reseller is bound to it. The panel answers every request the same way.
\<close>

definition test_http :: transport where
  "test_http url verify rq = Some \<lparr>rp_status = 200, rp_body = Body (JObj
     [(''access_token'', JStr ''t''), (''nodes'', JList [JNull, JNull]), (''admin_id'', JInt 99)])\<rparr>"

definition test_up :: upstream where
  "test_up = \<lparr>up_http = test_http, up_encrypt = (\<lambda>k t. rev t), up_decrypt = (\<lambda>k t. Some (rev t)),
     up_getenv = (\<lambda>name. if name = ''APP_ENCRYPTION_KEY'' then replicate 32 CHR ''k'' else [])\<rparr>"

definition served :: db where
  "served = branch\<lparr>panels := [(new_panel 35 ''Mother'' ''https://p.example'' 1 True)\<lparr>pan_api_key_ref := Some ''enc://yek''\<rparr>],
     panel_owners := [\<lparr>own_panel_id = 35, own_organization_id = 1\<rparr>],
     bindings := [\<lparr>bnd_id = 36, bnd_organization_id = 3, bnd_panel_id = 35, bnd_pg_admin_id = 12, bnd_username = ''east'',
       bnd_status = ''active''\<rparr>]\<rparr>"

definition new_server :: web_panel_in where
  "new_server = \<lparr>wp_name = ''Two'', wp_base_url = ''https://q.example/'', wp_api_key = ''0123456789'',
     wp_owner_username = Some ''owner'', wp_owner_password = Some ''pass'', wp_pg_admin_id = Some 7, wp_admin_username = None,
     wp_usage_coefficient = 1, wp_verify_tls = False\<rparr>"

definition test_split :: "string \<Rightarrow> split_url option" where
  "test_split url = Some \<lparr>url_scheme = ''https'', url_hostname = Some ''q.example'', url_username = None, url_password = None\<rparr>"

lemma served_runs:
  "fst (panel_step test_up ''77'' 5 35 (Node_Enabled 4 ''enable'') seller_identity served) = Inr ()"
  "fst (panel_step test_up ''77'' 5 35 (Reset_Data 8) buyer_identity served) =
     Inl (HTTPException 403 ''this subscriber does not belong to your panel'')"
  "fst (web_create_panel test_up test_split ''77'' 5 new_server seller_identity served) = Inr (40, 2)"
  "length (panels (snd (web_create_panel test_up test_split ''77'' 5 new_server seller_identity served))) = 2"
  by code_simp+

lemma served_rows:
  "list_all (\<lambda>p. pan_id p < next_uid served) (panels served)" "list_all (\<lambda>l. own_panel_id l < next_uid served) (panel_owners served)"
  "next_uid served = 40"
  by code_simp+

theorem secrets_survive_storage_witness:
  "resolve_secret (\<lambda>k t. Some (rev t)) (replicate 32 CHR ''k'') (\<lambda>_. []) (Some ''enc://yek'') = Inr (Some ''key'')"
proof -
  have kept: "encrypt_secret (\<lambda>k t. rev t) (replicate 32 CHR ''k'') (Some ''key'') = Inr (Some ''enc://yek'')" by code_simp
  show ?thesis
    using secrets_survive_storage [where encrypt = "\<lambda>k t. rev t" and decrypt = "\<lambda>k t. Some (rev t)" and
        master = "replicate 32 CHR ''k''" and v = "Some ''key''" and getenv = "\<lambda>_. []"]
    unfolding kept by (simp add: truthy_def)
qed

theorem panel_operations_keep_their_lane_witness:
  "\<exists>org p. may_operate ''77'' seller_identity (Node_Enabled 4 ''enable'') 35 served org p"
proof -
  obtain s' where run: "panel_step test_up ''77'' 5 35 (Node_Enabled 4 ''enable'') seller_identity served = (Inr (), s')"
    using served_runs(1) by (metis prod.collapse)
  show ?thesis using panel_operations_keep_their_lane [OF run] by (auto split: if_splits)
qed

text \<open>A second buyer of the same panel, to whose admin the panel attributes every subscriber.\<close>

definition shared :: db where
  "shared = served\<lparr>organizations := organizations served @ [(hd (organizations served))\<lparr>org_id := 34, org_slug := ''west''\<rparr>],
     bindings := bindings served @ [\<lparr>bnd_id = 37, bnd_organization_id = 34, bnd_panel_id = 35, bnd_pg_admin_id = 99,
       bnd_username = ''west'', bnd_status = ''active''\<rparr>]\<rparr>"

lemma shared_rows:
  "(case fst (manager ''77'' 88 ''subscriber_control'' shared) of
     Inr (a, m, org) \<Rightarrow> \<not> panel_is_mine shared 35 (org_id org) \<and> org_id org = 3 | _ \<Rightarrow> True)"
  "list_all (\<lambda>b. bnd_organization_id b = 3 \<longrightarrow> bnd_pg_admin_id b = 12) (bindings shared)"
  "has (\<lambda>b. bnd_panel_id b = 35 \<and> bnd_organization_id b = 34 \<and> bnd_pg_admin_id b = 99) (bindings shared)"
  "list_all (\<lambda>p. case via test_up (\<lambda>h c. pg_user h c 8) p of Answer row \<Rightarrow> subscriber_admin row = Some 99 | _ \<Rightarrow> False) (panels shared)"
  by code_simp+

theorem foreign_subscribers_are_out_of_reach_witness:
  "(\<exists>e. fst (panel_step test_up ''77'' 5 35 (Reset_Data 8) buyer_identity shared) = Inl e) \<and>
   has (\<lambda>b. bnd_panel_id b = 35 \<and> bnd_organization_id b = 34 \<and> bnd_pg_admin_id b = 99) (bindings shared)"
proof -
  let ?h = "\<lambda>url verify rq. if rq_method rq = ''GET'' then test_http url verify rq else None"
  have "\<exists>e s'. panel_step test_up ''77'' 5 35 (Reset_Data 8) buyer_identity shared = (Inl e, s') \<and>
      panel_step (test_up\<lparr>up_http := ?h\<rparr>) ''77'' 5 35 (Reset_Data 8) buyer_identity shared = (Inl e, s')"
  proof (rule foreign_subscribers_are_out_of_reach)
    show "\<not> panel_is_mine shared 35 (org_id org)"
      if "manager ''77'' (user_id buyer_identity) ''subscriber_control'' shared = (Inr (a, m, org), shared)" for a m org
      using that shared_rows(1) by (auto simp: buyer_identity_def)
    show "subscriber_admin row \<noteq> Some (bnd_pg_admin_id b)"
      if "manager ''77'' (user_id buyer_identity) ''subscriber_control'' shared = (Inr (a, m, org), shared)"
        "get_panel shared 35 = Some p" "b \<in> set (bindings shared)" "bnd_organization_id b = org_id org"
        "via test_up (\<lambda>h c. pg_user h c 8) p = Answer row" for a m org p b row
    proof -
      have "p \<in> set (panels shared)" using that(2) by (auto dest: lookup_SomeD)
      with shared_rows(4) that(5) have "subscriber_admin row = Some 99" by (auto simp: list_all_iff)
      moreover have "org_id org = 3" using that(1) shared_rows(1) by (auto simp: buyer_identity_def)
      then have "bnd_pg_admin_id b = 12" using shared_rows(2) that(3,4) by (simp add: list_all_iff)
      ultimately show ?thesis by simp
    qed
  qed (simp_all add: test_up_def)
  then show ?thesis using shared_rows(3) by auto
qed

theorem registered_panel_is_sealed_and_owned_witness:
  "\<exists>p s'. owned_panel 40 1 s' = (Inr p, s') \<and> \<not> on_sale p \<and> pan_owner_pass_ref p = Some (''enc://'' @ ''ssap'')"
proof -
  obtain s' where run: "web_create_panel test_up test_split ''77'' 5 new_server seller_identity served = (Inr (40, 2), s')"
    using served_runs(3) by (metis prod.collapse)
  have "pan_id p < next_uid served" if "p \<in> set (panels served)" for p using that served_rows(1) by (simp add: list_all_iff)
  moreover have "own_panel_id l < next_uid served" if "l \<in> set (panel_owners served)" for l
    using that served_rows(2) by (simp add: list_all_iff)
  ultimately obtain a m org p probe where
    "manager ''77'' (user_id seller_identity) ''manage_servers'' served = (Inr (a, m, org), served)"
    "owned_panel (pan_id p) (org_id org) s' = (Inr p, s')" "\<not> on_sale p"
    "pan_owner_pass_ref p = sealed_ref test_up (wp_owner_password new_server)"
    "(Inr (40, 2) :: error + uid \<times> nat) = (case probe of
        JObj fs \<Rightarrow> Inr (pan_id p, case field ''nodes'' fs of Some (JList xs) \<Rightarrow> length xs | _ \<Rightarrow> 0) | _ \<Rightarrow> Inl (AttributeError ''get''))"
    using registered_panel_is_sealed_and_owned [OF run] by blast
  moreover from this(5) have "pan_id p = 40" by (auto split: json.splits)
  moreover have "(case fst (manager ''77'' 77 ''manage_servers'' served) of Inr (a, m, org) \<Rightarrow> org_id org = 1 | _ \<Rightarrow> False)" by code_simp
  moreover have "sealed_ref test_up (wp_owner_password new_server) = Some (''enc://'' @ ''ssap'')" by code_simp
  ultimately show ?thesis by (auto simp: seller_identity_def)
qed

end
