(* ===== verification/Bot_Cases.thy ===== *)
theory Bot_Cases
  imports Bot_Books Bot_Types Bot_Gaps Orders_Cases Panels_Cases
begin

text \<open>
  The properties of the bot on the shop of \<open>Orders_Cases\<close>: the seller is chat 77, the buyer chat 88. Every
  call to Telegram succeeds, digits are the ASCII ones and the panel is the one of \<open>Panels_Cases\<close>.
\<close>

definition ascii_digit :: "nat \<Rightarrow> digit_kind" where
  "ascii_digit c = (if 48 \<le> c \<and> c \<le> 57 then Decimal (c - 48) else No_Digit)"

definition chat_env :: bot_env where
  "chat_env = \<lparr>be_root = ''77'', be_depth = 5, be_now = 1, be_tokens = [''ab''], be_webapp = [], be_up = test_up,
     be_py_str = (\<lambda>_. []), be_delivers = (\<lambda>_ _. True), be_digit = ascii_digit\<rparr>"

definition bot_shop :: bot_world where
  "bot_shop = \<lparr>bw_db = quoted_shop, bw_states = Map.empty, bw_calls = [], bw_acked = []\<rparr>"

definition buyer_confirms :: update where
  "buyer_confirms = Callback_Query 88 ''c'' ''o|21|confirm''"

definition busy_day :: "(bot_env \<times> string \<times> update) list" where
  "busy_day = [(chat_env, ''m'', buyer_confirms), (chat_env, ''n'', Message (Some 77) (plain ''/start'')),
     (chat_env, ''o'', Callback_Query 88 ''d'' ''o|21|pay'')]"

lemma buyer_confirms_runs:
  "map_option ord_status (get_order (bw_db (consume (chat_env, ''m'', buyer_confirms) bot_shop)) 21) = Some ''confirmed''"
  by code_simp

lemma buyer_is_a_bystander: "bystander ''77'' 88 quoted_shop" "members_drawn quoted_shop"
  by (simp add: bystander_def DECIDING_def entitled_def bot_context_def quoted_shop_facts, code_simp)

theorem bystanders_stay_in_their_lane_witness:
  "in_lane 88 quoted_shop (bw_db (consume (chat_env, ''m'', buyer_confirms) bot_shop)) \<and>
   map_option ord_status (get_order (bw_db (consume (chat_env, ''m'', buyer_confirms) bot_shop)) 21) = Some ''confirmed''"
  using bystanders_stay_in_their_lane [of buyer_confirms 88 chat_env bot_shop "''m''"] buyer_is_a_bystander buyer_confirms_runs
  by (simp add: buyer_confirms_def chat_of_def chat_env_def bot_shop_def)

theorem bot_keeps_the_books_witness:
  "books quoted_shop (bw_db (fold consume busy_day bot_shop))"
  using bot_keeps_the_books [of bot_shop busy_day] shop_invariants catalog_ok_quoted
  by (simp add: bot_shop_def)

text \<open>The seller quotes the order: the world at one of the questions.\<close>

definition quoting :: "string \<Rightarrow> answers \<Rightarrow> bot_world" where
  "quoting step d = \<lparr>bw_db = quoted_shop, bw_states = [77 \<mapsto> (\<lparr>st_flow = ''quote'', st_step = step, st_data = d\<rparr>, 901)],
     bw_calls = [], bw_acked = []\<rparr>"

definition quote_replies :: "(bot_env \<times> string \<times> chat_text) list" where
  "quote_replies = map (\<lambda>t. (chat_env, ''r'', plain t)) [''soon'', ''99999999999999'']"

definition big_amount :: answers where
  "big_amount = [''order_id'' \<mapsto> Ref ''21'', ''amount_irr'' \<mapsto> Num 99999999999999]"

lemmas typed_defs = plain_def strip_text_def whitespace_def number_def is_digits_def chat_env_def ascii_digit_def
  to_int_def decimal_value_def as_int_def require_some_def returned_def

lemma quote_runs:
  "answers_taken 77 quote_replies (quoting ''amount'' [''order_id'' \<mapsto> Ref ''21'']) = 1"
  by (simp add: quote_replies_def quoting_def get_state_def consume_def handle_update_def handle_message_def continue_state_def
      continue_quote_def QUOTE_STEPS_def Let_def next_question_def refuse_def send_def telegram_def set_state_def STATE_TTL_def
      typed_defs)

lemma chat_ok_quoting: "state_ok \<lparr>st_flow = ''quote'', st_step = step, st_data = d\<rparr> \<Longrightarrow> chat_ok (quoting step d)"
  by (simp add: chat_ok_def quoting_def)

theorem conversations_never_go_back_witness:
  "answers_taken 77 quote_replies (quoting ''amount'' [''order_id'' \<mapsto> Ref ''21'']) \<le> 5 \<and>
   answers_taken 77 quote_replies (quoting ''amount'' [''order_id'' \<mapsto> Ref ''21'']) = 1"
proof -
  let ?W = "quoting ''amount'' [''order_id'' \<mapsto> Ref ''21'']"
  have "chat_ok ?W" by (rule chat_ok_quoting) (simp add: opened_ok)
  from conversations_never_go_back [OF this, of 77 quote_replies] quote_runs show ?thesis
    by (simp add: quoting_def questions_left_def questions_at)
qed

theorem chats_stay_typed_witness:
  "chat_ok (fold consume busy_day (quoting ''amount'' [''order_id'' \<mapsto> Ref ''21'']))"
proof -
  have "chat_ok (quoting ''amount'' [''order_id'' \<mapsto> Ref ''21''])" by (rule chat_ok_quoting) (simp add: opened_ok)
  from chats_stay_typed [OF this, of busy_day] show ?thesis by blast
qed

theorem oversized_quote_is_stuck_witness:
  "consume (chat_env, ''z'', Message (Some 77) (plain ''55'')) (quoting ''pg_admin_id'' big_amount) = quoting ''pg_admin_id'' big_amount"
proof -
  let ?W = "quoting ''pg_admin_id'' big_amount"
  have st: "get_state chat_env 77 ?W = Some \<lparr>st_flow = ''quote'', st_step = ''pg_admin_id'', st_data = big_amount\<rparr>"
    by (simp add: get_state_def quoting_def chat_env_def)
  have "strip_text (plain ''55'') = plain ''55''" "is_digits chat_env (number (plain ''55''))"
    "plain ''55'' \<noteq> plain ''/cancel''" "plain ''55'' \<noteq> plain ''/id''"
    by (simp_all add: typed_defs)
  with oversized_quote_is_stuck [OF st, of 99999999999999 "plain ''55''" "''z''"] show ?thesis
    by (simp add: big_amount_def)
qed

text \<open>One membership, one caller; a clerk without \<open>node_control\<close> in the organization that owns a server.\<close>

lemma seller_is_sole: "sole_member 77 quoted_shop" "map_option plan_status (get_plan quoted_shop 11) = Some ''active''"
  by code_simp+

theorem bot_and_webapp_agree_witness:
  "alike_runs (toggle_catalog ''77'' 3 77 ''plan'' 11 quoted_shop) (web_plan_status ''77'' 3 11 ''inactive'' seller_identity quoted_shop)"
proof -
  obtain p where p: "get_plan quoted_shop 11 = Some p" "plan_status p = ''active''" using seller_is_sole(2) by auto
  have "user_id seller_identity = 77" by (simp add: seller_identity_def)
  from bot_and_webapp_agree [OF seller_is_sole(1) this, where i = 11 and root_env = "''77''" and now = 3 and p = p] p
  show ?thesis by simp
qed

definition clerk_desk :: db where
  "clerk_desk = served\<lparr>memberships := [\<lparr>mem_id = 32, mem_organization_id = 1, mem_actor_id = 30, mem_role = ''finance'',
     mem_status = ''active'', mem_created_at = 0\<rparr>]\<rparr>"

lemma clerk_runs:
  "sole_member 77 clerk_desk"
  "(case fst (bot_context ''5'' 77 clerk_desk) of Inr (Some c) \<Rightarrow> cx_organization_id c = 1 \<and> \<not> can (Some (cx_role c)) ''node_control''
    | _ \<Rightarrow> False)"
  "panel_is_mine clerk_desk 35 1"
  "(case get_panel clerk_desk 35 of None \<Rightarrow> False | Some p \<Rightarrow> pan_status p = ''active'' \<and> pan_vendor p \<in> set SUPPORTED_VENDORS \<and>
     (case via test_up (\<lambda>h cl. set_node_enabled h cl 4 False) p of Answer v \<Rightarrow> True | _ \<Rightarrow> False))"
  "py_int ''4'' = Some 4"
  by code_simp+

theorem node_buttons_skip_the_permission_witness:
  "fst (node_action test_up ''5'' 9 77 35 ''4'' ''disable'' clerk_desk) = Inr (Say ''the node was turned off'') \<and>
   (\<exists>e. panel_step test_up ''5'' 9 35 (Node_Enabled 4 ''disable'') seller_identity clerk_desk = (Inl e, clerk_desk))"
proof -
  obtain p v where p: "get_panel clerk_desk 35 = Some p" "pan_status p = ''active''" "pan_vendor p \<in> set SUPPORTED_VENDORS"
    and v: "via test_up (\<lambda>h cl. set_node_enabled h cl 4 False) p = Answer v"
    using clerk_runs(4) by (auto split: option.splits answer.splits)
  have powerless: "\<not> entitled ''5'' 77 ''node_control'' clerk_desk" using clerk_runs(2) by (auto simp: entitled_def split: sum.splits)
  have mine: "panel_is_mine clerk_desk 35 (cx_organization_id c)" if "fst (bot_context ''5'' 77 clerk_desk) = Inr (Some c)" for c
    using clerk_runs(2,3) that by simp
  have op: "NODE_OPERATIONS ''disable'' = Some (''node.disable'', \<lambda>h c i. set_node_enabled h c i False, ''the node was turned off'')"
    by (simp add: NODE_OPERATIONS_def)
  have ident: "user_id seller_identity = 77" by (simp add: seller_identity_def)
  have "needs (Node_Enabled 4 ''disable'') = ''node_control''" by simp
  with node_buttons_skip_the_permission [OF clerk_runs(1) ident powerless p mine op _ clerk_runs(5) v, of 9]
  show ?thesis by blast
qed

end
