(* ===== verification/Bot_Text.thy ===== *)
theory Bot_Text
  imports Bot_Desk Pricing
begin

text \<open>
  The words of the bot (\<open>telegram_consumer.py\<close>, \<open>rbac.py\<close>): how the views of the bot become the text of
  a message. Telegram reads the text as HTML, so every text of the database goes through \<open>html.escape\<close>; the
  lemmas show that a message is always readable and that what a person typed comes out as it was typed.

  The Persian words are the ones of the source, written out as code points; the tables name each of them.
\<close>

section \<open>Texts of the database\<close>

text \<open>The database stores UTF-8; Python counts and cuts code points.\<close>

fun decode :: "nat list \<Rightarrow> chat_text" where
  "decode [] = []"
| "decode (a # t) = (if a < 128 then a # decode t
     else if a < 224 then (case t of b # t \<Rightarrow> ((a - 192) * 64 + (b - 128)) # decode t | _ \<Rightarrow> [])
     else if a < 240 then (case t of b # c # t \<Rightarrow> ((a - 224) * 4096 + (b - 128) * 64 + (c - 128)) # decode t | _ \<Rightarrow> [])
     else (case t of b # c # d # t \<Rightarrow>
         ((a - 240) * 262144 + (b - 128) * 4096 + (c - 128) * 64 + (d - 128)) # decode t | _ \<Rightarrow> []))"

definition chars :: "string \<Rightarrow> chat_text" where
  "chars t = decode (map of_char t)"

definition or_dash :: "string option \<Rightarrow> chat_text" where
  "or_dash t = (case t of None \<Rightarrow> [8212] | Some v \<Rightarrow> if v = [] then [8212] else chars v)"

section \<open>Labels of permissions and roles\<close>

type_synonym wording = "(string \<times> chat_text) list"

definition fa :: "wording \<Rightarrow> string \<Rightarrow> chat_text" where
  "fa ws name = (case map_of ws name of Some t \<Rightarrow> t | None \<Rightarrow> [])"

definition LABELS_FA :: wording where
  "LABELS_FA =
    [(''view_dashboard'', [1605, 1588, 1575, 1607, 1583, 1607, 1620, 32, 1583, 1575, 1588, 1576, 1608, 1585, 1583]),
     (''view_finance'', [1605, 1588, 1575, 1607, 1583, 1607, 1620, 32, 1605, 1575, 1604, 1740]),
     (''view_audit'', [1605, 1588, 1575, 1607, 1583, 1607, 1620, 32, 1711, 1586, 1575, 1585, 1588, 8204, 1607, 1575, 1740, 32, 1585,
        1587, 1740, 1583, 1711, 1740]),
     (''export_reports'', [1582, 1585, 1608, 1580, 1740, 32, 1711, 1586, 1575, 1585, 1588]),
     (''create_support_ticket'', [1579, 1576, 1578, 32, 1583, 1585, 1582, 1608, 1575, 1587, 1578, 32, 1662, 1588, 1578, 1740, 1576,
        1575, 1606, 1740]),
     (''answer_support'', [1662, 1575, 1587, 1582, 32, 1576, 1607, 32, 1662, 1588, 1578, 1740, 1576, 1575, 1606, 1740]),
     (''request_funding'', [1583, 1585, 1582, 1608, 1575, 1587, 1578, 32, 1575, 1601, 1586, 1575, 1740, 1588, 32, 1575, 1593, 1578,
        1576, 1575, 1585]),
     (''decide_funding'', [1578, 1571, 1740, 1740, 1583, 32, 1740, 1575, 32, 1585, 1583, 32, 1583, 1585, 1582, 1608, 1575, 1587, 1578,
        32, 1605, 1575, 1604, 1740]),
     (''request_adjustment'', [1583, 1585, 1582, 1608, 1575, 1587, 1578, 32, 1575, 1589, 1604, 1575, 1581, 32, 1581, 1587, 1575, 1576]),
     (''decide_adjustment'', [1578, 1571, 1740, 1740, 1583, 32, 1575, 1589, 1604, 1575, 1581, 32, 1581, 1587, 1575, 1576]),
     (''manage_servers'', [1605, 1583, 1740, 1585, 1740, 1578, 32, 1587, 1585, 1608, 1585, 1607, 1575]),
     (''node_control'', [1585, 1608, 1588, 1606, 47, 1582, 1575, 1605, 1608, 1588, 32, 1608, 32, 1576, 1575, 1586, 1606, 1588, 1575,
        1606, 1740, 32, 1606, 1608, 1583]),
     (''subscriber_control'', [1605, 1583, 1740, 1585, 1740, 1578, 32, 1605, 1588, 1578, 1585, 1705, 1575, 1606]),
     (''admin_limit'', [1578, 1594, 1740, 1740, 1585, 32, 1587, 1602, 1601, 32, 1662, 1606, 1604]),
     (''change_billing_coefficient'', [1578, 1594, 1740, 1740, 1585, 32, 1590, 1585, 1740, 1576, 32, 1589, 1608, 1585, 1578, 1581,
        1587, 1575, 1576]),
     (''manage_resellers'', [1605, 1583, 1740, 1585, 1740, 1578, 32, 1606, 1605, 1575, 1740, 1606, 1583, 1711, 1575, 1606]),
     (''order_panel'', [1579, 1576, 1578, 32, 1608, 32, 1662, 1740, 1711, 1740, 1585, 1740, 32, 1587, 1601, 1575, 1585, 1588, 32, 1662,
        1606, 1604]),
     (''decide_orders'', [1576, 1585, 1585, 1587, 1740, 32, 1608, 32, 1578, 1571, 1740, 1740, 1583, 32, 1587, 1601, 1575, 1585, 1588,
        32, 1662, 1606, 1604]),
     (''manage_catalog'', [1605, 1583, 1740, 1585, 1740, 1578, 32, 1705, 1575, 1578, 1575, 1604, 1608, 1711, 32, 1662, 1604, 1606,
        8204, 1607, 1575])]"

definition label_fa :: "string \<Rightarrow> chat_text" where
  "label_fa p = (case map_of LABELS_FA p of Some t \<Rightarrow> t | None \<Rightarrow> chars p)"

definition denial_fa :: "string \<Rightarrow> chat_text" where
  "denial_fa p = [1588, 1605, 1575, 32, 1575, 1580, 1575, 1586, 1607, 1620, 32, 171] @ label_fa p @ [187, 32, 1585, 1575, 32, 1606,
        1583, 1575, 1585, 1740, 1583, 46]"

definition ROLES_FA :: wording where
  "ROLES_FA =
    [(''system_admin'', [1605, 1583, 1740, 1585, 32, 1705, 1604, 32, 1587, 1740, 1587, 1578, 1605]),
     (''reseller_admin'', [1605, 1583, 1740, 1585, 32, 1606, 1605, 1575, 1740, 1606, 1583, 1711, 1740]),
     (''operator'', [1575, 1662, 1585, 1575, 1578, 1608, 1585]),
     (''finance'', [1605, 1583, 1740, 1585, 32, 1605, 1575, 1604, 1740]),
     (''support'', [1662, 1588, 1578, 1740, 1576, 1575, 1606]),
     (''viewer'', [1605, 1588, 1575, 1607, 1583, 1607, 8204, 1711, 1585]),
     (''customer'', [1605, 1588, 1578, 1585, 1740, 32, 40, 1601, 1585, 1608, 1588, 1606, 1583, 1607, 41])]"

definition role_fa :: "string option \<Rightarrow> chat_text" where
  "role_fa role = (case map_of ROLES_FA (normalize role) of Some t \<Rightarrow> t
     | None \<Rightarrow> (case role of None \<Rightarrow> [1705, 1575, 1585, 1576, 1585] | Some r \<Rightarrow> if r = [] then [1705,
        1575, 1585, 1576, 1585] else chars r))"

section \<open>Numbers\<close>

text \<open>\<open>f"{n:,}"\<close> groups the digits in threes; the text is read from the right.\<close>

fun commas :: "string \<Rightarrow> string" where
  "commas (a # b # c # d # t) = a # b # c # CHR '','' # commas (d # t)"
| "commas t = t"

definition grouped :: "int \<Rightarrow> chat_text" where
  "grouped n = plain ((if n < 0 then ''-'' else []) @ rev (commas (rev (dec (nat \<bar>n\<bar>)))))"

definition money :: "int \<Rightarrow> chat_text" where
  "money n = grouped n @ [32, 1585, 1740, 1575, 1604]"

definition users :: "int \<Rightarrow> chat_text" where
  "users n = grouped n @ [32, 1705, 1575, 1585, 1576, 1585]"

definition gib :: "int \<Rightarrow> chat_text" where
  "gib n = grouped n @ [32, 1711, 1740, 1711, 1575, 1576, 1575, 1740, 1578, 32, 1583, 1585, 32, 1585, 1608, 1586]"

text \<open>
  Bytes divided by \<open>1073741824\<close> are a float: the nearest number with 53 significant binary digits. \<open>f"{x:,.2f}"\<close>
  rounds its exact value to two digits, half to even.
\<close>

function bits :: "int \<Rightarrow> nat" where
  "bits n = (if n \<le> 0 then 0 else Suc (bits (n div 2)))"
  by auto
termination by (relation "measure nat") auto

declare bits.simps [simp del]

definition to_float :: "int \<Rightarrow> int" where
  "to_float n = (let u = 2 ^ (bits n - 53) in round_half_even (of_int n / of_int u) * u)"

definition gib_text :: "int \<Rightarrow> chat_text" where
  "gib_text n = (let h = round_half_even (of_int (to_float \<bar>n\<bar>) * 100 / 1073741824) in
     plain (if n < 0 then ''-'' else []) @ grouped (h div 100) @ plain ''.'' @ plain (pystr (h div 10 mod 10) @ pystr (h mod 10)))"

section \<open>Marked up text\<close>

text \<open>
  The f-strings of the source are made of fixed words and of values that go through \<open>html.escape\<close>, some of them
  between a pair of tags.
\<close>

datatype part = Words chat_text | Value chat_text

datatype piece = Plain part | Tagged string "part list"

definition escape_char :: "nat \<Rightarrow> chat_text" where
  "escape_char c = (if c = 38 then plain ''&amp;'' else if c = 60 then plain ''&lt;'' else if c = 62 then plain ''&gt;''
     else if c = 34 then plain ''&quot;'' else if c = 39 then plain ''&#x27;'' else [c])"

definition escape :: "chat_text \<Rightarrow> chat_text" where
  "escape t = concat (map escape_char t)"

fun part_html :: "part \<Rightarrow> chat_text" where
  "part_html (Words t) = t"
| "part_html (Value t) = escape t"

fun piece_html :: "piece \<Rightarrow> chat_text" where
  "piece_html (Plain p) = part_html p"
| "piece_html (Tagged t ps) = plain (''<'' @ t @ ''>'') @ concat (map part_html ps) @ plain (''</'' @ t @ ''>'')"

text \<open>\<open>NL.join(lines)\<close>\<close>

fun join_lines :: "'a \<Rightarrow> 'a list list \<Rightarrow> 'a list" where
  "join_lines nl [] = []"
| "join_lines nl [t] = t"
| "join_lines nl (t # ts) = t @ nl # join_lines nl ts"

definition page :: "piece list list \<Rightarrow> chat_text" where
  "page ls = join_lines 10 (map (\<lambda>ps. concat (map piece_html ps)) ls)"

abbreviation words :: "chat_text \<Rightarrow> piece" where "words t \<equiv> Plain (Words t)"
abbreviation val :: "chat_text \<Rightarrow> piece" where "val t \<equiv> Plain (Value t)"
abbreviation bold :: "part list \<Rightarrow> piece" where "bold ps \<equiv> Tagged ''b'' ps"
abbreviation italic :: "part list \<Rightarrow> piece" where "italic ps \<equiv> Tagged ''i'' ps"
abbreviation typed :: "part list \<Rightarrow> piece" where "typed ps \<equiv> Tagged ''code'' ps"

section \<open>An order\<close>

definition STATUS_FA :: wording where
  "STATUS_FA =
    [(''pending'', [1583, 1585, 32, 1575, 1606, 1578, 1592, 1575, 1585, 32, 1576, 1585, 1585, 1587, 1740, 32, 1605, 1583, 1740, 1585]),
     (''quoted'', [1602, 1740, 1605, 1578, 8204, 1711, 1584, 1575, 1585, 1740, 32, 1588, 1583, 1548, 32, 1605, 1606, 1578, 1592, 1585,
        32, 1578, 1571, 1740, 1740, 1583, 32, 1588, 1605, 1575]),
     (''confirmed'', [1578, 1571, 1740, 1740, 1583, 32, 1588, 1583, 1548, 32, 1605, 1606, 1578, 1592, 1585, 32, 1662, 1585, 1583, 1575,
        1582, 1578]),
     (''payment_declared'', [1662, 1585, 1583, 1575, 1582, 1578, 32, 1575, 1593, 1604, 1575, 1605, 32, 1588, 1583, 1548, 32, 1605,
        1606, 1578, 1592, 1585, 32, 1578, 1571, 1740, 1740, 1583, 32, 1606, 1607, 1575, 1740, 1740]),
     (''approved'', [1581, 1587, 1575, 1576, 32, 1587, 1575, 1582, 1578, 1607, 32, 1588, 1583]),
     (''rejected'', [1585, 1583, 32, 1588, 1583]),
     (''cancelled'', [1604, 1594, 1608, 32, 1588, 1583])]"

definition status_fa :: "string \<Rightarrow> chat_text" where
  "status_fa st = (case map_of STATUS_FA st of Some t \<Rightarrow> t | None \<Rightarrow> chars st)"

definition ORDER_WORDS :: wording where
  "ORDER_WORDS =
    [(''order'', [129534, 32]),
     (''server'', [1587, 1585, 1608, 1585, 58, 32]),
     (''status'', [1608, 1590, 1593, 1740, 1578, 58, 32]),
     (''plan'', [1662, 1604, 1606, 58, 32]),
     (''for'', [32, 183, 32]),
     (''days'', [32, 1585, 1608, 1586]),
     (''note'', [1578, 1608, 1590, 1740, 1581, 58, 32]),
     (''amount'', [1605, 1576, 1604, 1594, 58, 32]),
     (''credit'', [1587, 1602, 1601, 32, 1575, 1593, 1578, 1576, 1575, 1585, 58, 32]),
     (''price'', [1602, 1740, 1605, 1578, 32, 1607, 1585, 32, 1711, 1740, 1711, 58, 32]),
     (''payment'', [1585, 1575, 1607, 1606, 1605, 1575, 1740, 32, 1662, 1585, 1583, 1575, 1582, 1578, 58]),
     (''reason'', [1583, 1604, 1740, 1604, 32, 1585, 1583, 58, 32]),
     (''owner'', [1588, 1606, 1575, 1587, 1607, 32, 1578, 1604, 1711, 1585, 1575, 1605, 32, 1587, 1601, 1575, 1585, 1588, 8204, 1583,
        1607, 1606, 1583, 1607, 58, 32])]"

definition order_lines :: "order_view \<Rightarrow> int option \<Rightarrow> piece list list" where
  "order_lines v telegram_id = (let r = ov_order v; w = fa ORDER_WORDS in
     [[words (w ''order''), bold [Value (chars (ord_business_name r))]],
      [words (w ''server''), bold [Value (or_dash (ov_panel_name v))]],
      [words (w ''status''), bold [Words (status_fa (ord_status r))]],
      [words (users (ord_user_count r) @ w ''for'' @ gib (ord_daily_gib r))]] @
     (case ov_plan_name v of
        None \<Rightarrow> []
      | Some name \<Rightarrow> if name = [] then [] else
          [[words (w ''plan''), bold [Value (chars name)]] @
           (case ov_duration_days v of
              None \<Rightarrow> []
            | Some d \<Rightarrow> if d = 0 then [] else [words (w ''for'' @ plain (pystr d) @ w ''days'')])]) @
     (if ord_note r = [] then [] else [[words (w ''note''), italic [Value (take 200 (chars (ord_note r)))]]]) @
     (if ord_amount_irr r = 0 then [] else
        [[],
         [words (w ''amount''), bold [Words (money (ord_amount_irr r))]],
         [words (w ''credit''), bold [Words (money (ord_credit_limit_irr r))]],
         [words (w ''price''), bold [Words (money (ord_price_per_gib_irr r))]]]) @
     (if ord_status r \<in> {''quoted'', ''confirmed'', ''payment_declared''} \<and> ord_payment_instructions r \<noteq> [] then
        [[], [words (w ''payment'' @ [10]), val (take 600 (chars (ord_payment_instructions r)))]]
      else []) @
     (if ord_rejection_reason r = [] then [] else
        [[words (w ''reason''), italic [Value (take 200 (chars (ord_rejection_reason r)))]]]) @
     (case telegram_id of
        None \<Rightarrow> []
      | Some i \<Rightarrow> if i = 0 then [] else [[], [words (w ''owner''), typed [Words (plain (pystr i))]]]))"

definition order_text :: "order_view \<Rightarrow> int option \<Rightarrow> chat_text" where
  "order_text v telegram_id = page (order_lines v telegram_id)"

section \<open>Wallets and servers\<close>

definition DASHBOARD_WORDS :: wording where
  "DASHBOARD_WORDS =
    [(''title'', [1583, 1575, 1588, 1576, 1608, 1585, 1583, 32, 1605, 1583, 1740, 1585, 1740, 1578]),
     (''balance'', [1605, 1608, 1580, 1608, 1583, 1740, 58, 32]),
     (''credit'', [1575, 1593, 1578, 1576, 1575, 1585, 58, 32]),
     (''usable'', [1602, 1575, 1576, 1604, 32, 1575, 1587, 1578, 1601, 1575, 1583, 1607, 58, 32]),
     (''usage'', [1605, 1589, 1585, 1601, 58, 32]),
     (''gib'', [32, 71, 105, 66]),
     (''children'', [1586, 1740, 1585, 1605, 1580, 1605, 1608, 1593, 1607, 32, 1605, 1587, 1578, 1602, 1740, 1605, 58, 32]),
     (''organizations'', [1705, 1604, 32, 1587, 1575, 1586, 1605, 1575, 1606, 8204, 1607, 1575, 58, 32]),
     (''servers'', [1587, 1585, 1608, 1585, 1607, 1575, 1740, 32, 1601, 1593, 1575, 1604, 58, 32]),
     (''funding'', [1583, 1585, 1582, 1608, 1575, 1587, 1578, 32, 1605, 1575, 1604, 1740, 32, 1576, 1575, 1586, 58, 32]),
     (''orders'', [1587, 1601, 1575, 1585, 1588, 32, 1662, 1606, 1604, 32, 1576, 1575, 1586, 58, 32])]"

definition dashboard_lines :: "bot_dashboard \<Rightarrow> piece list list" where
  "dashboard_lines d = (let w = fa DASHBOARD_WORDS in
     [[bold [case bd_totals d of Some _ \<Rightarrow> Words (w ''title'') | None \<Rightarrow> Value (chars (bd_name d))]],
      [],
      [words (w ''balance''), bold [Words (money (bd_balance_irr d))]],
      [words (w ''credit''), bold [Words (money (bd_credit_irr d))]],
      [words (w ''usable''), bold [Words (money (bd_balance_irr d + bd_credit_irr d))]],
      [words (w ''usage''), bold [Words (gib_text (bd_lifetime_bytes d) @ w ''gib'')]],
      [words (w ''children''), bold [Words (plain (dec (bd_direct_children d)))]]] @
     (case bd_totals d of
        None \<Rightarrow> []
      | Some (orgs, servers, funding, orders) \<Rightarrow>
         [[],
          [words (w ''organizations''), bold [Words (plain (dec orgs))]],
          [words (w ''servers''), bold [Words (plain (dec servers))]],
          [words (w ''funding''), bold [Words (plain (dec funding))]],
          [words (w ''orders''), bold [Words (plain (dec orders))]]]))"

definition CUSTOMER_WORDS :: wording where
  "CUSTOMER_WORDS =
    [(''panel'', [128421, 32]),
     (''server'', [1587, 1585, 1608, 1585, 58, 32]),
     (''unbound'', [1607, 1606, 1608, 1586, 32, 1576, 1607, 32, 1587, 1585, 1608, 1585, 1740, 32, 1605, 1578, 1589, 1604, 32, 1606,
        1588, 1583, 1607, 32, 1575, 1587, 1578]),
     (''balance'', [1605, 1608, 1580, 1608, 1583, 1740, 58, 32]),
     (''credit'', [1587, 1602, 1601, 32, 1575, 1593, 1578, 1576, 1575, 1585, 58, 32]),
     (''usage'', [1605, 1589, 1585, 1601, 58, 32]),
     (''gib'', [32, 71, 105, 66]),
     (''bound'', [1587, 1575, 1582, 1578, 32, 1705, 1575, 1585, 1576, 1585, 32, 1608, 32, 1605, 1583, 1740, 1585, 1740, 1578, 32, 1605,
        1588, 1578, 1585, 1705, 1575, 1606, 32, 1575, 1586, 32, 1662, 1606, 1604, 32, 1575, 1606, 1580, 1575, 1605, 32, 1605, 1740,
        8204, 1588, 1608, 1583, 46]),
     (''later'', [1662, 1587, 32, 1575, 1586, 32, 1578, 1571, 1740, 1740, 1583, 32, 1662, 1585, 1583, 1575, 1582, 1578, 1548, 32, 1605,
        1583, 1740, 1585, 32, 1605, 1580, 1605, 1608, 1593, 1607, 32, 1587, 1585, 1608, 1585, 32, 1585, 1575, 32, 1576, 1607, 32, 1581,
        1587, 1575, 1576, 32, 1588, 1605, 1575, 32, 1605, 1578, 1589, 1604, 32, 1605, 1740, 8204, 1705, 1606, 1583, 46])]"

definition customer_lines :: "customer_view \<Rightarrow> piece list list" where
  "customer_lines v = (let w = fa CUSTOMER_WORDS in
     [[words (w ''panel''), bold [Value (chars (cw_name v))]],
      [],
      [words (w ''server''),
        bold [case cw_panel_name v of Some name \<Rightarrow> Value (chars name) | None \<Rightarrow> Words (w ''unbound'')]],
      [words (w ''balance''), bold [Words (money (cw_balance_irr v))]],
      [words (w ''credit''), bold [Words (money (cw_credit_irr v))]],
      [words (w ''usage''), bold [Words (gib_text (cw_lifetime_bytes v) @ w ''gib'')]],
      [words (case cw_panel_name v of Some _ \<Rightarrow> w ''bound'' | None \<Rightarrow> w ''later'')]])"

definition SERVER_WORDS :: wording where
  "SERVER_WORDS =
    [(''title'', [1587, 1585, 1608, 1585, 1607, 1575]),
     (''hint'', [1587, 1585, 1608, 1585, 1740, 32, 1705, 1607, 32, 171, 1570, 1605, 1575, 1583, 1607, 32, 1601, 1585, 1608, 1588, 187,
        32, 1576, 1575, 1588, 1583, 32, 1583, 1585, 32, 1604, 1740, 1587, 1578, 32, 1587, 1601, 1575, 1585, 1588, 32, 1605, 1588, 1578,
        1585, 1740, 1575, 1606, 32, 1578, 1604, 1711, 1585, 1575, 1605, 32, 1602, 1585, 1575, 1585, 32, 1605, 1740, 8204, 1711, 1740,
        1585, 1583, 46]),
     (''active'', [128994]),
     (''inactive'', [128308]),
     (''saleable'', [128722, 32, 1570, 1605, 1575, 1583, 1607, 32, 1601, 1585, 1608, 1588]),
     (''withheld'', [9940, 32, 1582, 1575, 1585, 1580, 32, 1575, 1586, 32, 1601, 1585, 1608, 1588]),
     (''dash'', [32, 8212, 32])]"

definition server_lines :: "panel list \<Rightarrow> piece list list" where
  "server_lines ps = (let w = fa SERVER_WORDS in
     [[bold [Words (w ''title'')]], [italic [Words (w ''hint'')]]] @
     map (\<lambda>p. [words ((if pan_status p = ''active'' then w ''active'' else w ''inactive'') @ plain '' ''),
         bold [Value (chars (pan_name p))],
         words (w ''dash'' @ (if pan_saleable p then w ''saleable'' else w ''withheld'') @ [10]),
         typed [Value (chars (pan_base_url p))]]) ps)"

section \<open>The catalog\<close>

definition CATALOG_WORDS :: wording where
  "CATALOG_WORDS =
    [(''title'', [1705, 1575, 1578, 1575, 1604, 1608, 1711, 32, 1662, 1604, 1606]),
     (''hint'', [1662, 1604, 1606, 1616, 32, 1576, 1575, 1586, 32, 1585, 1608, 1740, 32, 1587, 1585, 1608, 1585, 1616, 32, 171, 1570,
        1605, 1575, 1583, 1607, 32, 1601, 1585, 1608, 1588, 187, 32, 1576, 1607, 32, 1605, 1588, 1578, 1585, 1740, 32, 1583, 1585, 32,
        171, 10133, 32, 1587, 1601, 1575, 1585, 1588, 32, 1662, 1606, 1604, 187, 32, 1606, 1588, 1575, 1606, 32, 1583, 1575, 1583,
        1607, 32, 1605, 1740, 8204, 1588, 1608, 1583, 1563, 32, 1602, 1740, 1605, 1578, 32, 1575, 1586, 32, 1582, 1608, 1583, 32, 1662,
        1604, 1606, 32, 1582, 1608, 1575, 1606, 1583, 1607, 32] @
        [1605, 1740, 8204, 1588, 1608, 1583, 1548, 32, 1606, 1607, 32, 1575, 1586, 32, 1711, 1601, 1578, 8204, 1608, 1711, 1608, 46]),
     (''active'', [128994]),
     (''inactive'', [9898, 65039]),
     (''shelf'', [128452, 32]),
     (''dash'', [32, 8212, 32]),
     (''opened'', [1576, 1575, 1586]),
     (''closed'', [1576, 1587, 1578, 1607]),
     (''on'', [32, 1585, 1608, 1740, 32]),
     (''for'', [32, 183, 32]),
     (''days'', [32, 1585, 1608, 1586]),
     (''price'', [1602, 1740, 1605, 1578, 32, 1607, 1585, 32, 1711, 1740, 1711, 32]),
     (''total'', [32, 183, 32] @ [1605, 1576, 1604, 1594, 32, 1705, 1604, 32]),
     (''none'', [1607, 1606, 1608, 1586, 32, 1662, 1604, 1606, 1740, 32, 1606, 1587, 1575, 1582, 1578, 1607, 8204, 1575, 1740, 1583,
        46])]"

definition catalog_lines :: "plan_category list \<Rightarrow> plan_view list \<Rightarrow> piece list list" where
  "catalog_lines shelves rows = (let w = fa CATALOG_WORDS; light = (\<lambda>st. if st = ''active'' then w ''active'' else w ''inactive'') in
     [[bold [Words (w ''title'')]], [italic [Words (w ''hint'')]]] @
     map (\<lambda>c. [words (light (cat_status c) @ plain '' ''), bold [Words (w ''shelf''), Value (chars (cat_name c))],
         words (w ''dash'' @ (if cat_status c = ''active'' then w ''opened'' else w ''closed''))]) shelves @
     map (\<lambda>v. let p = pv_plan v in
        [words (light (plan_status p) @ plain '' ''), bold [Value (chars (plan_name p))], words (w ''on''),
        val (or_dash (pv_panel_name v)),
         words (w ''dash'' @ users (plan_user_count p) @ w ''for'' @ gib (plan_daily_gib p) @ w ''for'' @
           plain (pystr (plan_duration_days p)) @ w ''days'' @ [10] @ w ''price'' @ money (plan_price_per_gib_irr p) @ w ''total''),
         bold [Words (money (pv_amount_irr v))]]) rows @
     (if rows = [] then [[words (w ''none'')]] else []))"

definition CHOICE_WORDS :: wording where
  "CHOICE_WORDS =
    [(''title'', [1670, 1607, 32, 1670, 1740, 1586, 1740, 32, 1605, 1740, 8204, 1582, 1608, 1575, 1607, 1740, 1583, 32, 1576, 1582,
        1585, 1740, 1583, 1567]),
     (''hint'', [1662, 1604, 1606, 32, 1570, 1605, 1575, 1583, 1607, 32, 1602, 1740, 1605, 1578, 32, 1605, 1588, 1582, 1589, 1740, 32,
        1583, 1575, 1585, 1583, 32, 1608, 32, 1607, 1605, 1575, 1606, 32, 1604, 1581, 1592, 1607, 32, 1579, 1576, 1578, 32, 1605, 1740,
        8204, 1588, 1608, 1583, 1563, 32, 1575, 1711, 1585, 32, 1587, 1585, 1608, 1585, 1740, 32, 1585, 1575, 32, 1575, 1606, 1578,
        1582, 1575, 1576, 32, 1705, 1606, 1740, 1583, 1548, 32, 1605, 1583, 1740, 1585, 32, 1605, 1580, 1605, 1608, 1593, 1607, 32,
        1602, 1740, 1605, 1578, 32, 1585, 1575, 32] @
        [1583, 1587, 1578, 1740, 32, 1578, 1593, 1740, 1740, 1606, 32, 1605, 1740, 8204, 1705, 1606, 1583, 46]),
     (''plans'', [127991, 32, 1662, 1604, 1606, 8204, 1607, 1575, 1740, 32, 1570, 1605, 1575, 1583, 1607]),
     (''bullet'', [8226, 32]),
     (''on'', [32, 1585, 1608, 1740, 32]),
     (''dash'', [32, 8212, 32]),
     (''for'', [32, 183, 32]),
     (''days'', [32, 1585, 1608, 1586, 32, 8212, 32]),
     (''agreed'', [128421, 32, 1587, 1585, 1608, 1585, 32, 1576, 1575, 32, 1602, 1740, 1605, 1578, 32, 1578, 1608, 1575, 1601, 1602,
        1740]),
     (''servers'', [128421, 32, 1587, 1585, 1608, 1585, 1607, 1575])]"

definition choice_lines :: "plan_view list \<Rightarrow> piece list list" where
  "choice_lines rows = (let w = fa CHOICE_WORDS in
     [[bold [Words (w ''title'')]], [words (w ''hint'')]] @
     (if rows = [] then [] else
        [[], [bold [Words (w ''plans'')]]] @
        map (\<lambda>v. let p = pv_plan v in
          [words (w ''bullet''), bold [Value (chars (plan_name p))], words (w ''on''), val (or_dash (pv_panel_name v)),
           words (w ''dash'' @ users (plan_user_count p) @ w ''for'' @ gib (plan_daily_gib p) @ w ''for'' @
             plain (pystr (plan_duration_days p)) @ w ''days''),
           bold [Words (money (pv_amount_irr v))]]) rows) @
     [[], [bold [Words (if rows = [] then w ''servers'' else w ''agreed'')]]])"

section \<open>Lists\<close>

definition LIST_WORDS :: wording where
  "LIST_WORDS =
    [(''resellers'', [1606, 1605, 1575, 1740, 1606, 1583, 1711, 1575, 1606]),
     (''bullet'', [8226, 32]),
     (''dash'', [32, 8212, 32]),
     (''holding'', [32, 8212, 32, 1605, 1608, 1580, 1608, 1583, 1740, 32]),
     (''unlinked'', [32, 8212, 32, 1576, 1583, 1608, 1606, 32, 1575, 1578, 1589, 1575, 1604, 32, 1578, 1604, 1711, 1585, 1575, 1605]),
     (''no_child'', [1607, 1606, 1608, 1586, 32, 1586, 1740, 1585, 1605, 1580, 1605, 1608, 1593, 1607, 8204, 1575, 1740, 32, 1575,
        1740, 1580, 1575, 1583, 32, 1606, 1588, 1583, 1607, 32, 1575, 1587, 1578, 46])]"

definition reseller_lines :: "(organization \<times> int \<times> int option) list \<Rightarrow> piece list list" where
  "reseller_lines rows = (let w = fa LIST_WORDS in
     if rows = [] then [[words (w ''no_child'')]] else
     [bold [Words (w ''resellers'')]] #
     map (\<lambda>(org, wallet, telegram_id).
       [words (w ''bullet''), bold [Value (chars (org_name org))], words (w ''holding'' @ money wallet)] @
       (case telegram_id of
          None \<Rightarrow> [words (w ''unlinked'')]
        | Some i \<Rightarrow> if i = 0 then [words (w ''unlinked'')] else [words (w ''dash''), typed [Words (plain (pystr i))]])) rows)"

definition TRANSACTION_WORDS :: wording where
  "TRANSACTION_WORDS =
    [(''none'', [1607, 1606, 1608, 1586, 32, 1578, 1585, 1575, 1705, 1606, 1588, 1740, 32, 1579, 1576, 1578, 32, 1606, 1588, 1583,
        1607, 32, 1575, 1587, 1578, 46]),
     (''title'', [1570, 1582, 1585, 1740, 1606, 32, 1578, 1585, 1575, 1705, 1606, 1588, 8204, 1607, 1575]),
     (''dash'', [32, 8212, 32])]"

definition transaction_lines :: "(bool \<times> int \<times> string) list \<Rightarrow> piece list list" where
  "transaction_lines rows = (let w = fa TRANSACTION_WORDS in
     if rows = [] then [[words (w ''none'')]] else
     [bold [Words (w ''title'')]] #
     map (\<lambda>(credit, amount, kind).
       [words (plain (if credit then ''+'' else ''-'') @ money amount @ w ''dash''), val (chars kind)]) rows)"

definition FUNDING_WORDS :: wording where
  "FUNDING_WORDS =
    [(''title'', [1583, 1585, 1582, 1608, 1575, 1587, 1578, 8204, 1607, 1575, 1740, 32, 1575, 1601, 1586, 1575, 1740, 1588, 32, 1575,
        1593, 1578, 1576, 1575, 1585, 32, 1586, 1740, 1585, 1605, 1580, 1605, 1608, 1593, 1607, 8204, 1607, 1575, 1740, 32, 1588, 1605,
        1575]),
     (''bullet'', [8226, 32]),
     (''dash'', [32, 8212, 32])]"

definition funding_lines :: "(string \<times> int) list \<Rightarrow> piece list list" where
  "funding_lines rows = (let w = fa FUNDING_WORDS in
     [bold [Words (w ''title'')]] #
     map (\<lambda>(name, amount). [words (w ''bullet''), val (chars name), words (w ''dash''), bold [Words (money amount)]]) rows)"

definition APPROVAL_WORDS :: wording where
  "APPROVAL_WORDS =
    [(''title'', [1575, 1589, 1604, 1575, 1581, 32, 1581, 1587, 1575, 1576, 8204, 1607, 1575, 1740, 32, 1583, 1585, 32, 1575, 1606,
        1578, 1592, 1575, 1585, 32, 1578, 1571, 1740, 1740, 1583]),
     (''bullet'', [8226, 32]),
     (''dash'', [32, 8212, 32])]"

definition approval_lines :: "(string \<times> int \<times> string) list \<Rightarrow> piece list list" where
  "approval_lines rows = (let w = fa APPROVAL_WORDS in
     [bold [Words (w ''title'')]] #
     map (\<lambda>(name, amount, note).
       [words (w ''bullet''), val (chars name), words (w ''dash''), bold [Words (money amount)], words [10],
        italic [Value (take 160 (chars note))]]) rows)"

definition QUEUE_WORDS :: wording where
  "QUEUE_WORDS =
    [(''title'', [1587, 1601, 1575, 1585, 1588, 8204, 1607, 1575, 1740, 32, 1662, 1606, 1604, 32, 8212, 32]),
     (''bullet'', [8226, 32]),
     (''on'', [32, 1585, 1608, 1740, 32]),
     (''dash'', [32, 8212, 32]),
     (''and'', [1548, 32]),
     (''link'', [32, 183, 32]),
     (''none'', [1605, 1608, 1585, 1583, 1740, 32, 1583, 1585, 32, 1575, 1740, 1606, 32, 1608, 1590, 1593, 1740, 1578, 32, 1608, 1580,
        1608, 1583, 32, 1606, 1583, 1575, 1585, 1583, 46])]"

definition queue_lines :: "string \<Rightarrow> (order_view \<times> int option) list \<Rightarrow> piece list list" where
  "queue_lines st rows = (let w = fa QUEUE_WORDS in
     [bold [Words (w ''title'' @ status_fa st)]] #
     map (\<lambda>(v, telegram_id). let r = ov_order v in
       [words (w ''bullet''), bold [Value (chars (ord_business_name r))], words (w ''on''), val (or_dash (ov_panel_name v)),
        words (w ''dash'' @ users (ord_user_count r) @ w ''and'' @ gib (ord_daily_gib r))] @
       (case telegram_id of None \<Rightarrow> [] | Some i \<Rightarrow> [words (w ''link''), typed [Words (plain (pystr i))]])) rows @
     (if rows = [] then [[words (w ''none'')]] else []))"

definition MY_ORDERS_WORDS :: wording where
  "MY_ORDERS_WORDS =
    [(''title'', [1587, 1601, 1575, 1585, 1588, 8204, 1607, 1575, 1740, 32, 1588, 1605, 1575]),
     (''bullet'', [8226, 32]),
     (''dash'', [32, 8212, 32])]"

definition my_order_lines :: "order_view list \<Rightarrow> piece list list" where
  "my_order_lines rows = (let w = fa MY_ORDERS_WORDS in
     [bold [Words (w ''title'')]] #
     map (\<lambda>v. [words (w ''bullet''), val (chars (ord_business_name (ov_order v))), words (w ''dash''),
       words (status_fa (ord_status (ov_order v)))]) rows)"

section \<open>Notices\<close>

definition NOTICE_WORDS :: wording where
  "NOTICE_WORDS =
    [(''placed'', [1587, 1601, 1575, 1585, 1588, 32, 1588, 1605, 1575, 32, 1579, 1576, 1578, 32, 1588, 1583, 32, 1608, 32, 1576, 1585,
        1575, 1740, 32, 1576, 1585, 1585, 1587, 1740, 32, 1576, 1607, 32, 1605, 1583, 1740, 1585, 32, 1605, 1580, 1605, 1608, 1593,
        1607, 32, 1575, 1585, 1587, 1575, 1604, 32, 1588, 1583, 46]),
     (''new'', [129534, 32, 1587, 1601, 1575, 1585, 1588, 32, 1580, 1583, 1740, 1583, 58, 32]),
     (''dash'', [32, 8212, 32]),
     (''and'', [1548, 32]),
     (''plan'', [32, 183, 32, 1662, 1604, 1606, 32]),
     (''quoted'', [128181, 32, 1587, 1601, 1575, 1585, 1588, 32, 1588, 1605, 1575, 32, 1602, 1740, 1605, 1578, 8204, 1711, 1584, 1575,
        1585, 1740, 32, 1588, 1583, 46]),
     (''paid'', [128179, 32, 1662, 1585, 1583, 1575, 1582, 1578, 32, 1587, 1601, 1575, 1585, 1588, 32]),
     (''check'', [32, 1575, 1593, 1604, 1575, 1605, 32, 1588, 1583, 46, 32] @ [1662, 1587, 32, 1575, 1586, 32, 1576, 1585, 1585, 1587,
        1740, 32, 1608, 1580, 1607, 1548, 32, 171, 1578, 1571, 1740, 1740, 1583, 32, 1608, 32, 1587, 1575, 1582, 1578, 32, 1581, 1587,
        1575, 1576, 187, 32, 1585, 1575, 32, 1576, 1586, 1606, 1740, 1583, 46]),
     (''approved'', [127881, 32, 1587, 1601, 1575, 1585, 1588, 32, 1588, 1605, 1575, 32, 1578, 1571, 1740, 1740, 1583, 32, 1588, 1583,
        32, 1608, 32, 1581, 1587, 1575, 1576, 32, 1588, 1605, 1575, 32, 1587, 1575, 1582, 1578, 1607, 32, 1588, 1583, 46]),
     (''initial'', [1605, 1608, 1580, 1608, 1583, 1740, 32, 1575, 1608, 1604, 1740, 1607, 58, 32]),
     (''server'', [1587, 1585, 1608, 1585, 58, 32]),
     (''enter'', [1576, 1575, 32, 171, 127760, 32, 1662, 1606, 1604, 32, 1705, 1575, 1585, 1576, 1585, 1740, 187, 32, 1608, 1575, 1585,
        1583, 32, 1662, 1606, 1604, 32, 1588, 1608, 1740, 1583, 32, 1608, 32, 1705, 1575, 1585, 1576, 1585, 32, 1576, 1587, 1575, 1586,
        1740, 1583, 46]),
     (''topup'', [128179, 32, 1583, 1585, 1582, 1608, 1575, 1587, 1578, 32, 1588, 1575, 1585, 1688, 32, 1576, 1585, 1575, 1740, 32]),
     (''reseller'', [1606, 1605, 1575, 1740, 1606, 1583, 1607, 32]),
     (''made'', [32, 1587, 1575, 1582, 1578, 1607, 32, 1608, 32, 1581, 1587, 1575, 1576, 32, 1578, 1604, 1711, 1585, 1575, 1605, 32,
        1605, 1578, 1589, 1604, 32, 1588, 1583, 46])]"

definition placed_lines :: "order_view \<Rightarrow> piece list list" where
  "placed_lines v = [words (fa NOTICE_WORDS ''placed'')] # [] # order_lines v None"

definition new_order_lines :: "order_view \<Rightarrow> piece list list" where
  "new_order_lines v = (let r = ov_order v; w = fa NOTICE_WORDS in
     [[words (w ''new''), bold [Value (chars (ord_business_name r))],
       words (w ''dash'' @ users (ord_user_count r) @ w ''and'' @ gib (ord_daily_gib r))] @
      (if ord_status r = ''quoted'' then
         [words (w ''plan''), val (case ov_plan_name v of None \<Rightarrow> [] | Some name \<Rightarrow> chars name)] else [])])"

definition quoted_lines :: "order_view \<Rightarrow> piece list list" where
  "quoted_lines v = [words (fa NOTICE_WORDS ''quoted'')] # [] # order_lines v None"

definition paid_lines :: "order_view \<Rightarrow> piece list list" where
  "paid_lines v = (let w = fa NOTICE_WORDS in
     [[words (w ''paid''), bold [Value (chars (ord_business_name (ov_order v)))], words (w ''check'')]])"

definition approved_lines :: "int \<Rightarrow> string \<Rightarrow> piece list list" where
  "approved_lines amount panel_name = (let w = fa NOTICE_WORDS in
     [[words (w ''approved'')],
      [words (w ''initial''), bold [Words (money amount)]],
      [words (w ''server''), bold [Value (chars panel_name)]],
      [words (w ''enter'')]])"

definition topup_lines :: "string \<Rightarrow> int \<Rightarrow> piece list list" where
  "topup_lines name amount = (let w = fa NOTICE_WORDS in
     [[words (w ''topup''), bold [Value (chars name)], words (w ''dash'' @ money amount)]])"

definition reseller_made_lines :: "string \<Rightarrow> piece list list" where
  "reseller_made_lines name = (let w = fa NOTICE_WORDS in
     [[words (w ''reseller''), bold [Value (chars name)], words (w ''made'')]])"

definition ACCESS_WORDS :: wording where
  "ACCESS_WORDS =
    [(''role'', [1606, 1602, 1588, 32, 1588, 1605, 1575, 58, 32]),
     (''id'', [1588, 1606, 1575, 1587, 1607, 1620, 32, 1578, 1604, 1711, 1585, 1575, 1605, 58, 32]),
     (''access'', [1583, 1587, 1578, 1585, 1587, 1740, 8204, 1607, 1575, 58, 32]),
     (''and'', [1548, 32]),
     (''view'', [1601, 1602, 1591, 32, 1605, 1588, 1575, 1607, 1583, 1607])]"

fun joined :: "chat_text \<Rightarrow> chat_text list \<Rightarrow> chat_text" where
  "joined sep [] = []"
| "joined sep [t] = t"
| "joined sep (t # ts) = t @ sep @ joined sep ts"

definition access_lines :: "int \<Rightarrow> string \<Rightarrow> string list \<Rightarrow> piece list list" where
  "access_lines chat role names = (let w = fa ACCESS_WORDS;
       access = joined (w ''and'') (map (\<lambda>name. case section_label name of Some t \<Rightarrow> t | None \<Rightarrow> []) names) in
     [[words (w ''role''), bold [Value (role_fa (Some role))]],
      [words (w ''id''), typed [Words (plain (pystr chat))]],
      [words (w ''access''), val (if access = [] then w ''view'' else access)]])"

definition ID_WORDS :: wording where
  "ID_WORDS = [(''id'', [1588, 1606, 1575, 1587, 1607, 32, 1593, 1583, 1583, 1740, 32, 1578, 1604, 1711, 1585, 1575, 1605, 32, 1588,
        1605, 1575, 58, 32])]"

definition id_lines :: "int \<Rightarrow> piece list list" where
  "id_lines chat = [[words (fa ID_WORDS ''id''), typed [Words (plain (pystr chat))]]]"

section \<open>Answers of a flow\<close>

definition FLOW_WORDS :: wording where
  "FLOW_WORDS =
    [(''plan'', [1662, 1604, 1606, 32]),
     (''dash'', [32, 8212, 32]),
     (''chosen'', [32, 1575, 1606, 1578, 1582, 1575, 1576, 32, 1588, 1583, 46]),
     (''name'', [1606, 1575, 1605, 32, 1705, 1587, 1576, 8204, 1608, 1705, 1575, 1585, 32, 1582, 1608, 1583, 32, 1585, 1575, 32, 1575,
        1585, 1587, 1575, 1604, 32, 1705, 1606, 1740, 1583, 46, 32, 1576, 1585, 1575, 1740, 32, 1604, 1594, 1608, 32, 47, 99, 97, 110,
        99, 101, 108, 32, 1585, 1575, 32, 1576, 1601, 1585, 1587, 1578, 1740, 1583, 46]),
     (''shelf'', [1583, 1587, 1578, 1607, 32]),
     (''shelf_made'', [32, 1587, 1575, 1582, 1578, 1607, 32, 1588, 1583, 46]),
     (''plan_made'', [32, 1587, 1575, 1582, 1578, 1607, 32, 1588, 1583, 32, 1608, 32, 1575, 1586, 32, 1575, 1740, 1606, 32, 1662, 1587,
        32, 1605, 1588, 1578, 1585, 1740, 32, 1605, 1740, 8204, 1578, 1608, 1575, 1606, 1583, 32, 1570, 1606, 32, 1585, 1575, 32, 1576,
        1582, 1585, 1583, 46]),
     (''total'', [1605, 1576, 1604, 1594, 32, 1705, 1604, 58, 32]),
     (''no_reseller'', [1587, 1575, 1582, 1578, 32, 1606, 1605, 1575, 1740, 1606, 1583, 1607, 32, 1575, 1606, 1580, 1575, 1605, 32,
        1606, 1588, 1583, 58, 32])]"

definition plan_chosen_lines :: "plan_view \<Rightarrow> piece list list" where
  "plan_chosen_lines v = (let w = fa FLOW_WORDS in
     [[words (w ''plan''), bold [Value (chars (plan_name (pv_plan v)))],
       words (w ''dash'' @ money (pv_amount_irr v) @ w ''chosen'')],
      [words (w ''name'')]])"

text \<open>The catalog follows the news of a new shelf or plan.\<close>

definition listing :: "message \<Rightarrow> piece list list" where
  "listing m = (case m of Show_Catalog shelves rows \<Rightarrow> catalog_lines shelves rows | _ \<Rightarrow> [[]])"

definition shelf_made_lines :: "string \<Rightarrow> message \<Rightarrow> piece list list" where
  "shelf_made_lines name m = (let w = fa FLOW_WORDS in
     [[words (w ''shelf''), bold [Value (chars name)], words (w ''shelf_made'')], []] @ listing m)"

definition plan_made_lines :: "plan_view \<Rightarrow> message \<Rightarrow> piece list list" where
  "plan_made_lines v m = (let w = fa FLOW_WORDS in
     [[words (w ''plan''), bold [Value (chars (plan_name (pv_plan v)))], words (w ''plan_made'')],
      [words (w ''total''), bold [Words (money (pv_amount_irr v))]], []] @ listing m)"

section \<open>Nodes\<close>

text \<open>
  What Python prints for the JSON of a panel, \<open>str\<close> and \<open>json.dumps\<close>, and for an exception, is a parameter.
\<close>

record printers =
  pr_str :: "json \<Rightarrow> string"
  pr_dumps :: "json \<Rightarrow> chat_text"
  pr_exception :: "error \<Rightarrow> chat_text"

definition NODE_WORDS :: wording where
  "NODE_WORDS =
    [(''title'', [1606, 1608, 1583, 1607, 1575, 1740, 32]),
     (''on'', [128994]),
     (''off'', [9898]),
     (''bullet'', [32, 8226, 32]),
     (''dash'', [32, 8212, 32]),
     (''none'', [1606, 1608, 1583, 1740, 32, 1583, 1585, 1740, 1575, 1601, 1578, 32, 1606, 1588, 1583, 46]),
     (''status'', [1608, 1590, 1593, 1740, 1578, 32, 1606, 1608, 1583])]"

definition json_true :: "json \<Rightarrow> bool" where
  "json_true v = (case v of JNull \<Rightarrow> False | JBool b \<Rightarrow> b | JInt n \<Rightarrow> n \<noteq> 0 | JStr t \<Rightarrow> t \<noteq> [] | JUid i \<Rightarrow> True
     | JDecimal r \<Rightarrow> r \<noteq> 0 | JList xs \<Rightarrow> xs \<noteq> [] | JObj fs \<Rightarrow> fs \<noteq> [])"

definition true_field :: "string \<Rightarrow> (string \<times> json) list \<Rightarrow> json option" where
  "true_field name fs = (case field name fs of None \<Rightarrow> None | Some v \<Rightarrow> if json_true v then Some v else None)"

definition node_line :: "printers \<Rightarrow> json \<Rightarrow> piece list list" where
  "node_line pr node = (case node of
     JObj fs \<Rightarrow> (case field ''id'' fs of
         None \<Rightarrow> []
       | Some JNull \<Rightarrow> []
       | Some i \<Rightarrow>
          (let w = fa NODE_WORDS; str = node_text (pr_str pr);
               name = (case true_field ''name'' fs of Some v \<Rightarrow> str v | None \<Rightarrow> ''Node '' @ str i);
               state = (case true_field ''message'' fs of Some v \<Rightarrow> str v
                 | None \<Rightarrow> (case true_field ''status'' fs of Some v \<Rightarrow> str v | None \<Rightarrow> []))
           in [[words ((if node_on fs then w ''on'' else w ''off'') @ w ''bullet''), val (chars name), words (w ''dash''),
                typed [Value (chars state)]]]))
   | _ \<Rightarrow> [])"

definition node_lines :: "printers \<Rightarrow> string \<Rightarrow> json list \<Rightarrow> piece list list" where
  "node_lines pr panel_name nodes = (let w = fa NODE_WORDS; ls = concat (map (node_line pr) nodes) in
     [bold [Words (w ''title''), Value (chars panel_name)]] # ls @ (if ls = [] then [[words (w ''none'')]] else []))"

definition node_status_lines :: "printers \<Rightarrow> json \<Rightarrow> piece list list" where
  "node_status_lines pr status =
     [[bold [Words (fa NODE_WORDS ''status'')]], [typed [Value (take 900 (pr_dumps pr status))]]]"

section \<open>The text of a message\<close>

text \<open>
  Every message that is put together from data has its lines: what it takes from the database or from a panel, from an
  exception or from an account is a \<open>Value\<close>. The others are fixed sentences.
\<close>

fun fixed_sentence :: "message \<Rightarrow> bool" where
  "fixed_sentence (Say t) = True"
| "fixed_sentence (Refused p) = True"
| "fixed_sentence (Pick_Panel rows) = True"
| "fixed_sentence (Pick_Shelf rows) = True"
| "fixed_sentence _ = False"

definition message_lines :: "printers \<Rightarrow> int \<Rightarrow> message \<Rightarrow> piece list list option" where
  "message_lines pr chat m = (case m of
     Show_Dashboard d \<Rightarrow> Some (dashboard_lines d)
   | Show_Servers ps \<Rightarrow> Some (server_lines ps)
   | Show_Catalog shelves rows \<Rightarrow> Some (catalog_lines shelves rows)
   | Show_Resellers rows \<Rightarrow> Some (reseller_lines rows)
   | Show_Transactions rows \<Rightarrow> Some (transaction_lines rows)
   | Show_Funding rows \<Rightarrow> Some (funding_lines rows)
   | Show_Approvals rows \<Rightarrow> Some (approval_lines rows)
   | Show_Choice servers rows \<Rightarrow> Some (choice_lines rows)
   | Show_Order v telegram_id \<Rightarrow> Some (order_lines v telegram_id)
   | Show_Queue st rows \<Rightarrow> Some (queue_lines st rows)
   | Show_Customer v \<Rightarrow> Some (customer_lines v)
   | Show_My_Orders rows \<Rightarrow> Some (my_order_lines rows)
   | Order_Placed v \<Rightarrow> Some (placed_lines v)
   | Order_Notice v \<Rightarrow> Some (new_order_lines v)
   | Quote_Notice v \<Rightarrow> Some (quoted_lines v)
   | Payment_Notice v \<Rightarrow> Some (paid_lines v)
   | Approval_Notice amount panel_name \<Rightarrow> Some (approved_lines amount panel_name)
   | Topup_Notice name amount \<Rightarrow> Some (topup_lines name amount)
   | Reseller_Made name \<Rightarrow> Some (reseller_made_lines name)
   | Your_Access role names \<Rightarrow> Some (access_lines chat role names)
   | Your_Id i \<Rightarrow> Some (id_lines i)
   | Plan_Chosen v \<Rightarrow> Some (plan_chosen_lines v)
   | Shelf_Made name rest \<Rightarrow> Some (shelf_made_lines name rest)
   | Plan_Made v rest \<Rightarrow> Some (plan_made_lines v rest)
   | Show_Nodes panel_name nodes \<Rightarrow> Some (node_lines pr panel_name nodes)
   | Node_Status status \<Rightarrow> Some (node_status_lines pr status)
   | Failed t \<Rightarrow> Some [[val (chars t)]]
   | Reseller_Failed e \<Rightarrow> Some [[words (fa FLOW_WORDS ''no_reseller''), val (pr_exception pr e)]]
   | _ \<Rightarrow> None)"

definition message_text :: "printers \<Rightarrow> int \<Rightarrow> message \<Rightarrow> chat_text option" where
  "message_text pr chat m = map_option page (message_lines pr chat m)"

section \<open>What Telegram reads\<close>

text \<open>
  Telegram reads a text as HTML: tags, the entities \<open>html.escape\<close> writes, and characters. The reader yields the
  characters with the tag each of them stands in, and refuses a tag or an entity it does not know, a tag within a tag
  and a tag that is left open.
\<close>

definition TAGS :: "chat_text list" where
  "TAGS = map plain [''b'', ''i'', ''code'']"

definition ENTITIES :: "(chat_text \<times> nat) list" where
  "ENTITIES = [(plain ''amp'', 38), (plain ''lt'', 60), (plain ''gt'', 62), (plain ''quot'', 34), (plain ''#x27'', 39)]"

type_synonym styled = "(chat_text option \<times> nat) list"

fun read_html :: "chat_text option \<Rightarrow> chat_text \<Rightarrow> styled option" where
  "read_html tag [] = (if tag = None then Some [] else None)"
| "read_html tag (c # cs) =
    (if c = 60 then
       (let name = takeWhile (\<lambda>x. x \<noteq> 62) cs; rest = drop (Suc (length name)) cs in
        if length name = length cs then None
        else case tag of
          None \<Rightarrow> if name \<in> set TAGS then read_html (Some name) rest else None
        | Some t \<Rightarrow> if name = 47 # t then read_html None rest else None)
     else if c = 38 then
       (let name = takeWhile (\<lambda>x. x \<noteq> 59) cs; rest = drop (Suc (length name)) cs in
        if length name = length cs then None
        else case map_of ENTITIES name of
          None \<Rightarrow> None
        | Some x \<Rightarrow> map_option ((#) (tag, x)) (read_html tag rest))
     else if c = 62 then None
     else map_option ((#) (tag, c)) (read_html tag cs))"

declare read_html.simps [simp del]

text \<open>What the pieces show: the values as they are.\<close>

fun part_text :: "part \<Rightarrow> chat_text" where
  "part_text (Words t) = t"
| "part_text (Value t) = t"

fun piece_shown :: "piece \<Rightarrow> styled" where
  "piece_shown (Plain p) = map (Pair None) (part_text p)"
| "piece_shown (Tagged t ps) = map (Pair (Some (plain t))) (concat (map part_text ps))"

definition shown :: "piece list list \<Rightarrow> styled" where
  "shown ls = join_lines (None, 10) (map (\<lambda>ps. concat (map piece_shown ps)) ls)"

text \<open>Words are written without markup, and only the three tags are used.\<close>

definition tidy :: "chat_text \<Rightarrow> bool" where
  "tidy t = list_all (\<lambda>c. c \<noteq> 38 \<and> c \<noteq> 60 \<and> c \<noteq> 62) t"

fun tidy_part :: "part \<Rightarrow> bool" where
  "tidy_part (Words t) = tidy t"
| "tidy_part (Value t) = True"

fun tidy_piece :: "piece \<Rightarrow> bool" where
  "tidy_piece (Plain p) = tidy_part p"
| "tidy_piece (Tagged t ps) = (t \<in> {''b'', ''i'', ''code''} \<and> list_all tidy_part ps)"

abbreviation tidy_lines :: "piece list list \<Rightarrow> bool" where
  "tidy_lines \<equiv> list_all (list_all tidy_piece)"

section \<open>Reading a message\<close>

lemma prepend [simp]:
  "map_option ((@) []) x = x" "map_option (\<lambda>a. a) x = x"
  "map_option ((@) a) (map_option ((@) b) x) = map_option ((@) (a @ b)) x"
  "map_option ((#) c) (map_option ((@) b) x) = map_option ((@) (c # b)) x"
  by (cases x; simp)+

lemma read_char: "c \<notin> {38, 60, 62} \<Longrightarrow> read_html tag (c # cs) = map_option ((#) (tag, c)) (read_html tag cs)"
  by (simp add: read_html.simps)

lemma read_tidy: "tidy t \<Longrightarrow> read_html tag (t @ r) = map_option ((@) (map (Pair tag) t)) (read_html tag r)"
  by (induction t) (auto simp: tidy_def read_char)

lemma read_entity:
  "(name, x) \<in> set ENTITIES \<Longrightarrow> read_html tag (38 # name @ 59 # r) = map_option ((#) (tag, x)) (read_html tag r)"
  by (auto simp: read_html.simps ENTITIES_def plain_def)

lemma read_escape: "read_html tag (escape v @ r) = map_option ((@) (map (Pair tag) v)) (read_html tag r)"
proof (induction v)
  case (Cons c v)
  have entity: "read_html tag (38 # name @ 59 # escape v @ r) = map_option ((@) (map (Pair tag) (x # v))) (read_html tag r)"
    if "(name, x) \<in> set ENTITIES" for name x
    unfolding read_entity [OF that] Cons.IH by simp
  have "read_html tag (escape_char c @ escape v @ r) = map_option ((@) (map (Pair tag) (c # v))) (read_html tag r)"
    using entity [of "plain ''amp''" 38] entity [of "plain ''lt''" 60] entity [of "plain ''gt''" 62] entity [of "plain ''quot''" 34]
      entity [of "plain ''#x27''" 39] Cons.IH
    by (cases "c \<in> {38, 60, 62, 34, 39}") (auto simp: ENTITIES_def plain_def escape_char_def read_char)
  then show ?case by (simp only: escape_def list.map concat.simps append_assoc)
qed (simp add: escape_def)

lemma read_part: "tidy_part p \<Longrightarrow> read_html tag (part_html p @ r) = map_option ((@) (map (Pair tag) (part_text p))) (read_html tag r)"
  by (cases p) (simp_all add: read_tidy read_escape)

lemma read_parts:
  "list_all tidy_part ps \<Longrightarrow> read_html tag (concat (map part_html ps) @ r) =
    map_option ((@) (map (Pair tag) (concat (map part_text ps)))) (read_html tag r)"
  by (induction ps) (auto simp: read_part)

lemma read_open: "t \<in> {''b'', ''i'',
        ''code''} \<Longrightarrow> read_html None (plain (''<'' @ t @ ''>'') @ r) = read_html (Some (plain t)) r"
  by (auto simp: read_html.simps plain_def TAGS_def)

lemma read_close: "t \<in> {''b'', ''i'',
        ''code''} \<Longrightarrow> read_html (Some (plain t)) (plain (''</'' @ t @ ''>'') @ r) = read_html None r"
  by (auto simp: read_html.simps plain_def)

lemma read_piece: "tidy_piece p \<Longrightarrow> read_html None (piece_html p @ r) = map_option ((@) (piece_shown p)) (read_html None r)"
proof (cases p)
  case (Tagged t ps)
  assume "tidy_piece p"
  with Tagged have t: "t \<in> {''b'', ''i'', ''code''}" and ps: "list_all tidy_part ps" by auto
  show ?thesis unfolding Tagged piece_html.simps append_assoc read_open [OF t] read_parts [OF ps] read_close [OF t] by simp
qed (simp add: read_part)

lemma read_pieces:
  "list_all tidy_piece ps \<Longrightarrow> read_html None (concat (map piece_html ps) @ r) =
    map_option ((@) (concat (map piece_shown ps))) (read_html None r)"
  by (induction ps) (auto simp: read_piece)

lemma read_page: "tidy_lines ls \<Longrightarrow> read_html None (page ls) = Some (shown ls)"
proof (induction ls rule: induct_list012)
  case (2 ps)
  then show ?case using read_pieces [of ps "[]"] by (simp add: page_def shown_def read_html.simps)
next
  case (3 ps qs ls)
  then show ?case by (simp add: page_def shown_def read_pieces read_char)
qed (simp_all add: page_def shown_def read_html.simps)

section \<open>The words are tidy\<close>

lemma tidy_simps [simp]: "tidy []" "tidy (c # t) \<longleftrightarrow> c \<noteq> 38 \<and> c \<noteq> 60 \<and> c \<noteq> 62 \<and> tidy t" "tidy (a @ b) \<longleftrightarrow> tidy a \<and> tidy b"
  by (auto simp: tidy_def)

lemma plain_simps [simp]: "plain [] = []" "plain (c # t) = of_char c # plain t" "plain (a @ b) = plain a @ plain b"
  by (simp_all add: plain_def)

lemma tidy_dec [simp]: "tidy (plain (dec n))"
proof (induction n rule: dec.induct)
  case (1 n)
  have "n mod 10 < 10" by simp
  with 1 show ?case by (subst dec.simps) (auto simp: digit_value)
qed

lemma tidy_pystr [simp]: "tidy (plain (pystr i))"
  by (simp add: pystr_def)

lemma tidy_commas: "tidy (plain (commas t)) \<longleftrightarrow> tidy (plain t)"
  by (induction t rule: commas.induct) simp_all

lemma tidy_rev: "tidy (plain (rev t)) \<longleftrightarrow> tidy (plain t)"
  by (induction t) auto

lemma tidy_grouped [simp]: "tidy (grouped n)"
  by (simp add: grouped_def tidy_commas tidy_rev)

lemma tidy_numbers [simp]: "tidy (money n)" "tidy (users n)" "tidy (gib n)" "tidy (gib_text n)"
  by (simp_all add: money_def users_def gib_def gib_text_def Let_def)

lemma tidy_lookup: "list_all (\<lambda>(name, t). tidy t) ws \<Longrightarrow> map_of ws name = Some t \<Longrightarrow> tidy t"
  by (induction ws) (auto split: if_splits)

lemma tidy_fa: "list_all (\<lambda>(name, t). tidy t) ws \<Longrightarrow> tidy (fa ws name)"
  by (auto simp: fa_def dest: tidy_lookup split: option.split)

lemma tidy_words [simp]:
  "tidy (fa ORDER_WORDS name)" "tidy (fa DASHBOARD_WORDS name)" "tidy (fa CUSTOMER_WORDS name)" "tidy (fa SERVER_WORDS name)"
  "tidy (fa CATALOG_WORDS name)" "tidy (fa CHOICE_WORDS name)" "tidy (fa LIST_WORDS name)" "tidy (fa TRANSACTION_WORDS name)"
  "tidy (fa FUNDING_WORDS name)" "tidy (fa APPROVAL_WORDS name)" "tidy (fa QUEUE_WORDS name)" "tidy (fa MY_ORDERS_WORDS name)"
  "tidy (fa NOTICE_WORDS name)" "tidy (fa ACCESS_WORDS name)" "tidy (fa ID_WORDS name)" "tidy (fa FLOW_WORDS name)"
  "tidy (fa NODE_WORDS name)"
  by (rule tidy_fa; simp add: ORDER_WORDS_def DASHBOARD_WORDS_def CUSTOMER_WORDS_def SERVER_WORDS_def CATALOG_WORDS_def CHOICE_WORDS_def
      LIST_WORDS_def TRANSACTION_WORDS_def FUNDING_WORDS_def APPROVAL_WORDS_def QUEUE_WORDS_def MY_ORDERS_WORDS_def FLOW_WORDS_def NODE_WORDS_def NOTICE_WORDS_def
      ACCESS_WORDS_def ID_WORDS_def)+

lemma tidy_status: "map_of STATUS_FA st = Some t \<Longrightarrow> tidy t"
  by (rule tidy_lookup [of STATUS_FA]) (simp_all add: STATUS_FA_def)

text \<open>The only text of the database that is not escaped is the status of an order.\<close>

fun message_statuses :: "message \<Rightarrow> string list" where
  "message_statuses (Show_Order v i) = [ord_status (ov_order v)]"
| "message_statuses (Show_Queue st rows) = [st]"
| "message_statuses (Show_My_Orders rows) = map (\<lambda>v. ord_status (ov_order v)) rows"
| "message_statuses (Order_Placed v) = [ord_status (ov_order v)]"
| "message_statuses (Quote_Notice v) = [ord_status (ov_order v)]"
| "message_statuses _ = []"

lemma tidy_status_fa: "map_of STATUS_FA st \<noteq> None \<Longrightarrow> tidy (status_fa st)"
  by (auto simp: status_fa_def dest: tidy_status)

lemma order_lines_tidy: "map_of STATUS_FA (ord_status (ov_order v)) \<noteq> None \<Longrightarrow> tidy_lines (order_lines v i)"
  by (auto simp: order_lines_def Let_def tidy_status_fa split: option.split)

lemma tidy_map: "list_all P (map f xs) \<longleftrightarrow> (\<forall>x \<in> set xs. P (f x))"
  by (auto simp: list_all_iff)

lemma dashboard_lines_tidy [simp]: "tidy_lines (dashboard_lines d)"
  by (simp add: dashboard_lines_def Let_def tidy_map split: option.split prod.split)

lemma customer_lines_tidy [simp]: "tidy_lines (customer_lines v)"
  by (simp add: customer_lines_def Let_def tidy_map split: option.split prod.split)

lemma server_lines_tidy [simp]: "tidy_lines (server_lines ps)"
  by (simp add: server_lines_def Let_def tidy_map split: option.split prod.split)

lemma catalog_lines_tidy [simp]: "tidy_lines (catalog_lines shelves rows)"
  by (simp add: catalog_lines_def Let_def tidy_map split: option.split prod.split)

lemma choice_lines_tidy [simp]: "tidy_lines (choice_lines rows)"
  by (simp add: choice_lines_def Let_def tidy_map split: option.split prod.split)

lemma reseller_lines_tidy [simp]: "tidy_lines (reseller_lines rows)"
  by (simp add: reseller_lines_def Let_def tidy_map split: option.split prod.split)

lemma transaction_lines_tidy [simp]: "tidy_lines (transaction_lines rows)"
  by (simp add: transaction_lines_def Let_def tidy_map split: option.split prod.split)

lemma funding_lines_tidy [simp]: "tidy_lines (funding_lines rows)"
  by (simp add: funding_lines_def Let_def tidy_map split: option.split prod.split)

lemma approval_lines_tidy [simp]: "tidy_lines (approval_lines rows)"
  by (simp add: approval_lines_def Let_def tidy_map split: option.split prod.split)

lemma new_order_lines_tidy [simp]: "tidy_lines (new_order_lines v)"
  by (simp add: new_order_lines_def Let_def tidy_map split: option.split prod.split)

lemma paid_lines_tidy [simp]: "tidy_lines (paid_lines v)"
  by (simp add: paid_lines_def Let_def tidy_map split: option.split prod.split)

lemma approved_lines_tidy [simp]: "tidy_lines (approved_lines n name)"
  by (simp add: approved_lines_def Let_def tidy_map split: option.split prod.split)

lemma topup_lines_tidy [simp]: "tidy_lines (topup_lines name n)"
  by (simp add: topup_lines_def Let_def tidy_map split: option.split prod.split)

lemma reseller_made_lines_tidy [simp]: "tidy_lines (reseller_made_lines name)"
  by (simp add: reseller_made_lines_def Let_def tidy_map split: option.split prod.split)

lemma access_lines_tidy [simp]: "tidy_lines (access_lines chat role names)"
  by (simp add: access_lines_def Let_def tidy_map split: option.split prod.split)

lemma id_lines_tidy [simp]: "tidy_lines (id_lines chat)"
  by (simp add: id_lines_def Let_def tidy_map split: option.split prod.split)

lemma queue_lines_tidy: "map_of STATUS_FA st \<noteq> None \<Longrightarrow> tidy_lines (queue_lines st rows)"
  by (auto simp: queue_lines_def Let_def tidy_map tidy_status_fa split: option.split)

lemma my_order_lines_tidy: "\<forall>v \<in> set rows. map_of STATUS_FA (ord_status (ov_order v)) \<noteq> None \<Longrightarrow> tidy_lines (my_order_lines rows)"
  by (auto simp: my_order_lines_def Let_def tidy_map tidy_status_fa)

lemma plan_chosen_lines_tidy [simp]: "tidy_lines (plan_chosen_lines v)"
  by (simp add: plan_chosen_lines_def Let_def)

lemma listing_tidy [simp]: "tidy_lines (listing m)"
  by (simp add: listing_def split: message.split)

lemma made_lines_tidy [simp]: "tidy_lines (shelf_made_lines name m)" "tidy_lines (plan_made_lines v m)"
  by (simp_all add: shelf_made_lines_def plan_made_lines_def Let_def)

lemma node_line_tidy [simp]: "tidy_lines (node_line pr node)"
  by (simp add: node_line_def Let_def split: json.split option.split)

lemma node_lines_tidy [simp]: "tidy_lines (node_lines pr name nodes)" "tidy_lines (node_status_lines pr status)"
proof -
  have "tidy_lines (concat (map (node_line pr) nodes))" by (induction nodes) simp_all
  then show "tidy_lines (node_lines pr name nodes)" by (simp add: node_lines_def Let_def)
qed (simp add: node_status_lines_def)

lemma message_lines_tidy:
  assumes "message_lines pr chat m = Some ls" "\<forall>st \<in> set (message_statuses m). map_of STATUS_FA st \<noteq> None"
  shows "tidy_lines ls"
  using assms by (cases m) (auto simp: message_lines_def order_lines_tidy queue_lines_tidy my_order_lines_tidy placed_lines_def quoted_lines_def)

section \<open>Nothing is lost on the way\<close>

text \<open>A text that a chat stored as UTF-8 is read back as the same code points.\<close>

lemma of_utf8_char: "map of_char (utf8_char c) = map (\<lambda>n. n mod 256)
     (if c < 128 then [c]
      else if c < 2048 then [192 + c div 64, 128 + c mod 64]
      else if c < 65536 then [224 + c div 4096, 128 + c div 64 mod 64, 128 + c mod 64]
      else [240 + c div 262144, 128 + c div 4096 mod 64, 128 + c div 64 mod 64, 128 + c mod 64])"
  by (simp add: utf8_char_def)

lemma decode_char:
  assumes "c < 1114112" shows "decode (map of_char (utf8_char c) @ r) = c # decode r"
proof -
  have bytes: "128 + n mod 64 < 256" for n :: nat by (rule order.strict_trans2 [of _ "128 + 64"]) simp_all
  have small: "c div 262144 < 5" "c < 65536 \<Longrightarrow> c div 4096 < 16" "c < 2048 \<Longrightarrow> c div 64 < 32" using assms by auto
  have digits: "c div 64 * 64 + c mod 64 = c" "c div 4096 * 4096 + c div 64 mod 64 * 64 + c mod 64 = c"
    "c div 262144 * 262144 + c div 4096 mod 64 * 4096 + c div 64 mod 64 * 64 + c mod 64 = c"
  proof -
    show two: "c div 64 * 64 + c mod 64 = c" by (rule div_mult_mod_eq)
    have "c div 64 div 64 * 64 + c div 64 mod 64 = c div 64" by (rule div_mult_mod_eq)
    then have three: "c div 4096 * 64 + c div 64 mod 64 = c div 64" by (simp add: div_mult2_eq [symmetric])
    with two show "c div 4096 * 4096 + c div 64 mod 64 * 64 + c mod 64 = c" by linarith
    have "c div 4096 div 64 * 64 + c div 4096 mod 64 = c div 4096" by (rule div_mult_mod_eq)
    then have "c div 262144 * 64 + c div 4096 mod 64 = c div 4096" by (simp add: div_mult2_eq [symmetric])
    with two three show "c div 262144 * 262144 + c div 4096 mod 64 * 4096 + c div 64 mod 64 * 64 + c mod 64 = c" by linarith
  qed
  define x y z m where "x = c div 262144" "y = c div 4096" "z = c div 64" "m = c mod 64"
  note atoms = x_y_z_m_def
  note parts = small [folded atoms] digits [folded atoms] bytes [of c, folded atoms] bytes [of z] bytes [of y]
  have bytes_of: "map of_char (utf8_char c) = map (\<lambda>n. n mod 256)
     (if c < 128 then [c] else if c < 2048 then [192 + z, 128 + m] else if c < 65536 then [224 + y, 128 + z mod 64, 128 + m]
      else [240 + x, 128 + y mod 64, 128 + z mod 64, 128 + m])"
    unfolding of_utf8_char atoms ..
  consider "c < 128" | "128 \<le> c" "c < 2048" | "2048 \<le> c" "c < 65536" | "65536 \<le> c" by linarith
  then show ?thesis
  proof cases
    case 1
    then show ?thesis by (simp add: bytes_of)
  next
    case 2
    then have "z < 32" using parts(3) by simp
    with 2 parts show ?thesis by (simp add: bytes_of)
  next
    case 3
    then have "y < 16" using parts(2) by simp
    with 3 parts show ?thesis by (simp add: bytes_of)
  next
    case 4
    with parts show ?thesis by (simp add: bytes_of)
  qed
qed

lemma chars_utf8: "\<forall>c \<in> set t. c < 1114112 \<Longrightarrow> chars (utf8 t) = t"
proof -
  have "\<forall>c \<in> set t. c < 1114112 \<Longrightarrow> decode (map of_char (concat (map utf8_char t))) = t"
    by (induction t) (simp_all add: decode_char)
  then show "\<forall>c \<in> set t. c < 1114112 \<Longrightarrow> chars (utf8 t) = t" by (simp add: chars_def utf8_def)
qed

lemma join_lines_in: "x \<in> set xs \<Longrightarrow> sublist x (join_lines nl xs)"
proof (induction xs rule: induct_list012)
  case (3 y z xs)
  show ?case
  proof (cases "x = y")
    case True
    then show ?thesis by (simp add: sublist_append_rightI)
  next
    case False
    with 3 have "sublist x (join_lines nl (z # xs))" by simp
    then show ?thesis using sublist_appendI [of _ "y @ [nl]" "[]"] sublist_order.order_trans by fastforce
  qed
qed simp_all

lemma shown_line: "ps \<in> set ls \<Longrightarrow> sublist (concat (map piece_shown ps)) (shown ls)"
  by (simp add: shown_def join_lines_in)

lemma shown_piece: "ps \<in> set ls \<Longrightarrow> p \<in> set ps \<Longrightarrow> sublist (piece_shown p) (shown ls)"
proof -
  assume ps: "ps \<in> set ls" and "p \<in> set ps"
  then obtain a b where "ps = a @ p # b" by (meson split_list)
  then have "sublist (piece_shown p) (concat (map piece_shown ps))" by (simp add: sublist_appendI)
  with shown_line [OF ps] show ?thesis using sublist_order.order_trans by blast
qed

lemma shown_value: "Value v \<in> set qs \<Longrightarrow> sublist (map (Pair (Some (plain t))) v) (piece_shown (Tagged t qs))"
proof -
  assume "Value v \<in> set qs"
  then obtain a b where "qs = a @ Value v # b" by (meson split_list)
  then show ?thesis by (simp add: sublist_appendI)
qed

text \<open>
  C28: what people typed comes out as they typed it. A message of the bot is a fixed sentence, or Telegram can
  read it and shows every name, note, address, instruction, error text and answer of a panel in it as exactly the
  characters the bot took, under the tag the bot put around it: no text can open a tag, close one, or break the message. What
  is taken of a text is the text as it is stored, cut to its first 200 characters for the note of an order and the
  reason of a rejection, 600 for payment instructions, 160 for the note of an adjustment and 900 for the status of a node.
  The status of an order is the one text that is not escaped, so it has to be one the bot knows.
\<close>

theorem messages_come_out_as_typed:
  assumes known: "\<forall>st \<in> set (message_statuses m). map_of STATUS_FA st \<noteq> None"
  shows "case message_lines pr chat m of
      None \<Rightarrow> fixed_sentence m
    | Some ls \<Rightarrow> message_text pr chat m = Some (page ls) \<and> read_html None (page ls) = Some (shown ls) \<and>
    (\<forall>ps \<in> set ls. \<forall>v. Plain (Value v) \<in> set ps \<longrightarrow> sublist (map (Pair None) v) (shown ls)) \<and>
    (\<forall>ps \<in> set ls. \<forall>t qs v. Tagged t qs \<in> set ps \<and> Value v \<in> set qs \<longrightarrow> sublist (map (Pair (Some (plain t))) v) (shown ls))"
proof (cases "message_lines pr chat m")
  case None
  then show ?thesis by (cases m) (simp_all add: message_lines_def)
next
  case (Some ls)
  have "read_html None (page ls) = Some (shown ls)" by (rule read_page [OF message_lines_tidy [OF Some known]])
  moreover have "sublist (map (Pair None) v) (shown ls)" if "ps \<in> set ls" "Plain (Value v) \<in> set ps" for ps v
    using that shown_piece by fastforce
  moreover have "sublist (map (Pair (Some (plain t))) v) (shown ls)"
    if "ps \<in> set ls" "Tagged t qs \<in> set ps \<and> Value v \<in> set qs" for ps t qs v
    using that shown_piece shown_value sublist_order.order_trans by blast
  ultimately show ?thesis by (simp add: Some message_text_def)
qed

text \<open>A customer who tries to look like the bot.\<close>

definition loud_order :: order_view where
  "loud_order = \<lparr>ov_order = \<lparr>ord_id = 7, ord_actor_id = 3, ord_panel_id = 10, ord_plan_id = None,
        ord_business_name = ''</b>Bot & Co'',
     ord_slug = ''bot'', ord_user_count = 1200, ord_daily_gib = 5, ord_note = ''<code>1</code>'', ord_status = ''pending'',
     ord_credit_limit_irr = 0, ord_price_per_gib_irr = 0, ord_amount_irr = 0, ord_payment_instructions = [], ord_admin_username = [],
     ord_pg_admin_id = None, ord_organization_id = None, ord_decided_by = None, ord_decided_at = None, ord_rejection_reason = [],
     ord_created_at = 1\<rparr>, ov_panel_name = None, ov_plan_name = None, ov_duration_days = None\<rparr>"

theorem messages_come_out_as_typed_witness:
  "read_html None (order_text loud_order None) = Some (shown (order_lines loud_order None)) \<and>
   sublist (map (Pair (Some (plain ''b''))) (plain ''</b>Bot & Co'')) (shown (order_lines loud_order None)) \<and>
   order_text loud_order None \<noteq> []"
proof -
  let ?pr = "\<lparr>pr_str = \<lambda>_. [], pr_dumps = \<lambda>_. [], pr_exception = \<lambda>_. []\<rparr>"
  have lines: "message_lines ?pr 88 (Show_Order loud_order None) = Some (order_lines loud_order None)" by (simp add: message_lines_def)
  have known: "\<forall>st \<in> set (message_statuses (Show_Order loud_order None)). map_of STATUS_FA st \<noteq> None"
    by (simp add: loud_order_def STATUS_FA_def)
  note typed = messages_come_out_as_typed [OF known, of ?pr 88, unfolded lines option.case]
  have name: "chars ''</b>Bot & Co'' = plain ''</b>Bot & Co''" by (simp add: chars_def)
  have "[words (fa ORDER_WORDS ''order''), bold [Value (plain ''</b>Bot & Co'')]] \<in> set (order_lines loud_order None)"
    unfolding order_lines_def Let_def by (simp add: loud_order_def name)
  then have "sublist (map (Pair (Some (plain ''b''))) (plain ''</b>Bot & Co'')) (shown (order_lines loud_order None))"
    using typed by fastforce
  moreover from typed have "read_html None (order_text loud_order None) = Some (shown (order_lines loud_order None))"
    by (simp add: order_text_def)
  moreover from calculation have "order_text loud_order None \<noteq> []" by (auto simp: read_html.simps)
  ultimately show ?thesis by blast
qed

section \<open>How long a message is\<close>

text \<open>Telegram refuses a message of more than 4096 characters, which it counts in UTF-16 units after reading the tags.\<close>

definition MESSAGE_LIMIT :: nat where
  "MESSAGE_LIMIT = 4096"

definition units :: "styled \<Rightarrow> nat" where
  "units t = sum_list (map (\<lambda>(tag, c). if c < 65536 then 1 else 2) t)"

lemma units_bounds: "length t \<le> units t" "units t \<le> 2 * length t"
  by (induction t) (auto simp: units_def)

definition size_of :: "piece list list \<Rightarrow> nat" where
  "size_of ls = sum_list (map (\<lambda>ps. Suc (length (concat (map piece_shown ps)))) ls)"

lemma size_of_simps [simp]: "size_of [] = 0" "size_of (ps # ls) = Suc (length (concat (map piece_shown ps))) + size_of ls"
  "size_of (ls @ ms) = size_of ls + size_of ms"
  by (simp_all add: size_of_def)

lemma shown_length: "ls \<noteq> [] \<Longrightarrow> Suc (length (shown ls)) = size_of ls"
proof (induction ls rule: induct_list012)
  case (3 ps qs ls)
  then show ?case by (simp add: shown_def)
qed (simp_all add: shown_def)

lemma dec_length: "n < 10 ^ Suc k \<Longrightarrow> length (dec n) \<le> Suc k"
proof (induction k arbitrary: n)
  case 0
  then show ?case by (subst dec.simps) simp
next
  case (Suc k)
  have "n div 10 < 10 ^ Suc k" using Suc.prems by (simp add: less_mult_imp_div_less)
  then show ?case using Suc.IH [of "n div 10"] by (subst dec.simps) simp
qed

lemma dec_not_empty: "1 \<le> length (dec n)"
  by (subst dec.simps) simp

lemma commas_length: "length (commas t) = length t + (length t - 1) div 3"
  by (induction t rule: commas.induct) simp_all

lemma bigint_digits: "fits_bigint n \<Longrightarrow> length (dec (nat \<bar>n\<bar>)) \<le> 19"
  using dec_length [of "nat \<bar>n\<bar>" 18] by (auto simp: fits_bigint_def nat_less_iff abs_if split: if_splits)

lemma grouped_length: "fits_bigint n \<Longrightarrow> length (grouped n) \<le> 26" "1 \<le> length (grouped n)"
proof -
  show "length (grouped n) \<le> 26" if "fits_bigint n"
    using bigint_digits [OF that] by (auto simp: grouped_def plain_def commas_length)
  show "1 \<le> length (grouped n)" using dec_not_empty [of "nat \<bar>n\<bar>"] by (simp add: grouped_def plain_def commas_length)
qed

lemma pystr_length: "fits_bigint n \<Longrightarrow> length (plain (pystr n)) \<le> 20" "1 \<le> length (plain (pystr n))"
  using bigint_digits [of n] dec_not_empty by (auto simp: pystr_def plain_def abs_if split: if_splits)

text \<open>What the columns of an order can hold.\<close>

definition fits_columns :: "order_view \<Rightarrow> int option \<Rightarrow> bool" where
  "fits_columns v telegram_id \<longleftrightarrow> (let r = ov_order v in
     length (chars (ord_business_name r)) \<le> 160 \<and> length (or_dash (ov_panel_name v)) \<le> 120 \<and>
     (\<forall>name. ov_plan_name v = Some name \<longrightarrow> length (chars name) \<le> 120) \<and> map_of STATUS_FA (ord_status r) \<noteq> None \<and>
     list_all fits_bigint [ord_user_count r, ord_daily_gib r, ord_amount_irr r, ord_credit_limit_irr r, ord_price_per_gib_irr r] \<and>
     (\<forall>d. ov_duration_days v = Some d \<longrightarrow> fits_bigint d) \<and> (\<forall>i. telegram_id = Some i \<longrightarrow> fits_bigint i))"

lemma status_length: "map_of STATUS_FA st \<noteq> None \<Longrightarrow> length (status_fa st) \<le> 40"
proof -
  have "list_all (\<lambda>(name, t). length t \<le> 40) STATUS_FA" by (simp add: STATUS_FA_def)
  then have "map_of STATUS_FA st = Some t \<Longrightarrow> length t \<le> 40" for t by (auto simp: list_all_iff dest!: map_of_SomeD)
  then show "map_of STATUS_FA st \<noteq> None \<Longrightarrow> ?thesis" by (auto simp: status_fa_def)
qed

lemma order_words_length:
  "length (fa ORDER_WORDS name) \<le> 27" "length (fa ORDER_WORDS ''for'') = 3" "length (fa ORDER_WORDS ''days'') = 4"
proof -
  have "list_all (\<lambda>(name, t). length t \<le> 27) ORDER_WORDS" by (simp add: ORDER_WORDS_def)
  then have "map_of ORDER_WORDS name = Some t \<Longrightarrow> length t \<le> 27" for t by (auto simp: list_all_iff dest!: map_of_SomeD)
  then show "length (fa ORDER_WORDS name) \<le> 27" by (auto simp: fa_def split: option.split)
qed (simp_all add: fa_def ORDER_WORDS_def)

lemma number_lengths:
  "fits_bigint n \<Longrightarrow> length (money n) \<le> 31" "fits_bigint n \<Longrightarrow> length (users n) \<le> 32" "fits_bigint n \<Longrightarrow> length (gib n) \<le> 43"
  "6 \<le> length (money n)" "7 \<le> length (users n)" "17 \<le> length (gib n)"
  using grouped_length [of n] by (auto simp: money_def users_def gib_def)

text \<open>
  The text of an order always fits, whatever the customer and the seller wrote.
\<close>

theorem order_text_fits:
  assumes fits: "fits_columns v telegram_id"
  shows "units (shown (order_lines v telegram_id)) \<le> MESSAGE_LIMIT"
proof -
  let ?r = "ov_order v"
  note columns = fits [unfolded fits_columns_def Let_def, simplified]
  note sizes = order_words_length number_lengths(1-3) pystr_length status_length
  have head: "size_of (take 4 (order_lines v telegram_id)) \<le> 484"
  proof -
    note parts = sizes(1) [of "''order''"] sizes(1) [of "''server''"] sizes(1) [of "''status''"]
      number_lengths(2) [of "ord_user_count ?r"] number_lengths(3) [of "ord_daily_gib ?r"] status_length [of "ord_status ?r"]
    have "size_of (take 4 (order_lines v telegram_id)) = 7 + length (fa ORDER_WORDS ''order'') + length (chars (ord_business_name ?r)) +
        length (fa ORDER_WORDS ''server'') + length (or_dash (ov_panel_name v)) + length (fa ORDER_WORDS ''status'') +
        length (status_fa (ord_status ?r)) + length (users (ord_user_count ?r)) + length (gib (ord_daily_gib ?r))"
      by (simp add: order_lines_def Let_def order_words_length)
    with parts columns show ?thesis by simp
  qed
  have tail: "size_of (drop 4 (order_lines v telegram_id)) \<le> 1565"
  proof -
    define plan_part where "plan_part = size_of (case ov_plan_name v of
        None \<Rightarrow> []
      | Some name \<Rightarrow> if name = [] then [] else
          [[words (fa ORDER_WORDS ''plan''), bold [Value (chars name)]] @
           (case ov_duration_days v of
              None \<Rightarrow> []
            | Some d \<Rightarrow> if d = 0 then [] else [words (fa ORDER_WORDS ''for'' @ plain (pystr d) @ fa ORDER_WORDS ''days'')])])"
    define owner_part where "owner_part = size_of (case telegram_id of
        None \<Rightarrow> []
      | Some i \<Rightarrow> if i = 0 then [] else [[], [words (fa ORDER_WORDS ''owner''), typed [Words (plain (pystr i))]]])"
    have "plan_part \<le> 175"
      using columns sizes(1) [of "''plan''"] order_words_length(2,3) pystr_length(1)
      by (auto simp: plan_part_def split: option.split) fastforce+
    moreover have "owner_part \<le> 49"
      using columns sizes(1) [of "''owner''"] pystr_length(1) by (auto simp: owner_part_def split: option.split) fastforce
    moreover note sizes(1) [of "''note''"] sizes(1) [of "''amount''"] sizes(1) [of "''credit''"] sizes(1) [of "''price''"]
      sizes(1) [of "''payment''"] sizes(1) [of "''reason''"] number_lengths(1) [of "ord_amount_irr ?r"]
      number_lengths(1) [of "ord_credit_limit_irr ?r"] number_lengths(1) [of "ord_price_per_gib_irr ?r"]
    ultimately show ?thesis
      using columns by (auto simp: order_lines_def Let_def plan_part_def [symmetric] owner_part_def [symmetric])
  qed
  have "order_lines v telegram_id \<noteq> []" by (simp add: order_lines_def Let_def)
  then have "Suc (length (shown (order_lines v telegram_id))) = size_of (take 4 (order_lines v telegram_id)) + size_of (drop 4 (order_lines v telegram_id))"
    using shown_length size_of_simps(3) [of "take 4 (order_lines v telegram_id)" "drop 4 (order_lines v telegram_id)"] by simp
  then have "length (shown (order_lines v telegram_id)) \<le> 2048" using head tail by simp
  then show ?thesis using units_bounds(2) [of "shown (order_lines v telegram_id)"] by (simp add: MESSAGE_LIMIT_def)
qed

text \<open>
  The catalog lists every plan of a seller in one message: from fifty plans on Telegram refuses it, however short the
  names are, and the section cannot be opened any more.
\<close>

theorem long_catalogs_do_not_fit:
  assumes "50 \<le> length rows" shows "MESSAGE_LIMIT < units (shown (catalog_lines shelves rows))"
proof -
  define row where "row = (\<lambda>v :: plan_view. let p = pv_plan v; w = fa CATALOG_WORDS in
        [words ((if plan_status p = ''active'' then w ''active'' else w ''inactive'') @ plain '' ''), bold [Value (chars (plan_name p))],
         words (w ''on''), val (or_dash (pv_panel_name v)),
         words (w ''dash'' @ users (plan_user_count p) @ w ''for'' @ gib (plan_daily_gib p) @ w ''for'' @
           plain (pystr (plan_duration_days p)) @ w ''days'' @ [10] @ w ''price'' @ money (plan_price_per_gib_irr p) @ w ''total''),
         bold [Words (money (pv_amount_irr v))]])"
  have long: "82 \<le> Suc (length (concat (map piece_shown (row v))))" for v
    using number_lengths(5) [of "plan_user_count (pv_plan v)"] number_lengths(6) [of "plan_daily_gib (pv_plan v)"]
      number_lengths(4) [of "plan_price_per_gib_irr (pv_plan v)"] number_lengths(4) [of "pv_amount_irr v"]
      pystr_length(2) [of "plan_duration_days (pv_plan v)"]
    by (simp add: row_def Let_def fa_def CATALOG_WORDS_def)
  have "82 * length rows \<le> size_of (map row rows)"
  proof (induction rows)
    case (Cons v rows)
    then show ?case using long [of v] by simp
  qed simp
  moreover have "size_of (map row rows) \<le> size_of (catalog_lines shelves rows)"
    by (simp add: catalog_lines_def Let_def row_def)
  moreover have "Suc (length (shown (catalog_lines shelves rows))) = size_of (catalog_lines shelves rows)"
    by (rule shown_length) (simp add: catalog_lines_def Let_def)
  ultimately have "82 * length rows \<le> Suc (length (shown (catalog_lines shelves rows)))" by simp
  with assms have "4096 < length (shown (catalog_lines shelves rows))" by simp
  then show ?thesis using units_bounds(1) [of "shown (catalog_lines shelves rows)"] by (simp add: MESSAGE_LIMIT_def)
qed

section \<open>Labels of permissions\<close>

lemma label_unique: "distinct (map snd ws) \<Longrightarrow> (a, t) \<in> set ws \<Longrightarrow> (b,
        t) \<in> set ws \<Longrightarrow> a = b"
  by (induction ws) force+

text \<open>Every permission has a label of its own, so a refusal names what was refused.\<close>

theorem refusals_name_the_permission:
  "set (map fst LABELS_FA) = set ALL_PERMISSIONS \<and> inj_on denial_fa (set ALL_PERMISSIONS)"
proof
  show keys: "set (map fst LABELS_FA) = set ALL_PERMISSIONS"
    unfolding ALL_PERMISSIONS_set by (auto simp: LABELS_FA_def permission_groups CATALOG_def ORDER_DECIDE_def)
  have labels: "distinct (map snd LABELS_FA)" by (simp add: LABELS_FA_def)
  have "inj_on label_fa (set (map fst LABELS_FA))"
  proof (rule inj_onI)
    fix p q assume "p \<in> set (map fst LABELS_FA)" "q \<in> set (map fst LABELS_FA)" and same: "label_fa p = label_fa q"
    then obtain t u where found: "map_of LABELS_FA p = Some t" "map_of LABELS_FA q = Some u"
      by (metis list.set_map map_of_eq_None_iff not_None_eq)
    with same have "t = u" by (simp add: label_fa_def)
    with found show "p = q" by (intro label_unique [OF labels]) (auto dest: map_of_SomeD)
  qed
  then show "inj_on denial_fa (set ALL_PERMISSIONS)" unfolding keys by (auto simp: inj_on_def denial_fa_def)
qed

end
