(* ===== verification/Spec2Isabelle.thy ===== *)
theory Spec2Isabelle
  imports Rbac Usage_Cases Funding_Cases Gateway Exposition System Bot_Cases Bot_Text
begin

text \<open>
  A verification development of the control plane of \<open>src/src/control_plane\<close>: a service that sells traffic on
  PasarGuard panels through a tree of resellers. A machine API, a WebApp and a Telegram bot share one PostgreSQL
  database; a poller reads the byte counters of the panels and bills them up the tree, and a worker delivers the
  events that must survive a crash. Money is integer rials in a double-entry ledger.

  \<^bold>\<open>How the parts interact.\<close> A route resolves the caller (the control key of the machine API, the signed Telegram
  identity of the WebApp, the chat of the bot) to a membership and a role, asks the permission matrix, and then runs
  one transaction on the database: it moves money with \<open>transfer\<close>, extends the tree, moves an order, edits the
  catalog, or queues an event. The usage poller and the usage routes call \<open>observe\<close>, which prices a reading with
  \<open>cascade\<close> along the chain of contracts and settles it with \<open>transfer\<close>; when a payer cannot pay it records a hold and
  queues an event for the worker, which limits the panel and tells the people concerned. The bot keeps the state of a
  conversation in Redis and calls the same core as the WebApp. In front of everything stand the middleware with its
  budgets and metrics, and the webhook that queues updates for the bot.

  \<^bold>\<open>Which theory models what.\<close> The database is the record \<open>db\<close> of its tables, an operation is a function
  \<open>db \<Rightarrow> (result, db) res\<close> with the errors of the program as values of \<open>error\<close>, a request or a transaction that
  raises goes back to the state it started from (\<open>transact\<close>, \<open>request\<close>), and identifiers, which the code draws at
  random, are drawn from a counter.

  \<^item> \<open>Prelude\<close>: errors, results and their composition, tables as lists of rows, decimal printing, the locales
    \<open>step_system\<close> and \<open>status_flow\<close>.
  \<^item> \<open>Pricing\<close> (\<open>domain.py\<close>): \<open>price_usage\<close> and \<open>cascade\<close> with the 28-digit decimal context and both roundings, as
    exact rationals.
  \<^item> \<open>Rbac\<close> (\<open>rbac.py\<close>): the matrix of roles and permissions.
  \<^item> \<open>Database\<close>, \<open>Ledger\<close>, \<open>Hierarchy\<close> (\<open>app.py\<close>, \<open>api.py\<close>): the tables, the settings and the audit trail;
    \<open>account\<close>, \<open>balance\<close>, \<open>transfer\<close>; the closure table, the depth limit, the chain of contracts, new organizations.
  \<^item> \<open>Outbox\<close> (\<open>outbox.py\<close>): the queue, claim, retry, complete, reclaim, the four handlers and \<open>run_once\<close>, with
    flushed and committed state kept apart.
  \<^item> \<open>Usage\<close>, \<open>Usage_Cases\<close> (\<open>app.py\<close>, \<open>api.py\<close>, \<open>worker.py\<close>): \<open>observe\<close> on every branch, the single and the batch
    route, the poller.
  \<^item> \<open>Access\<close> (\<open>app.py\<close>, \<open>web_api.py\<close>, \<open>api.py\<close>): memberships, roles and guards, the onboarding, children, the
    machine routes.
  \<^item> \<open>Orders\<close>, \<open>Catalog\<close>, \<open>Funding\<close>, \<open>Panels\<close> with \<open>Orders_Cases\<close>, \<open>Funding_Cases\<close>, \<open>Panels_Cases\<close>
    (\<open>web_api.py\<close>): the customer funnel, the plan catalog, funding requests and approvals, the views and the routes
    that operate on a panel.
  \<^item> \<open>Pasarguard\<close> (\<open>secrets.py\<close>, \<open>pasarguard.py\<close>): stored credentials and the client of a panel.
  \<^item> \<open>Guardrails\<close>, \<open>Exposition\<close> (\<open>observability.py\<close>, \<open>telegram_auth.py\<close>, \<open>main.py\<close>): request budgets, metrics, safe
    logging, the signed identity, the middleware, the health check; the text of a scrape with a reader of it, the log
    lines, the application as \<open>create_app\<close> puts it together.
  \<^item> \<open>Gateway\<close> (\<open>telegram_gateway.py\<close>, \<open>migrate.py\<close>): the webhook in front of the stream; the migration runner.
  \<^item> \<open>Bot_Menu\<close>, \<open>Bot_Desk\<close>, \<open>Bot_Text\<close>, \<open>Bot_Chat\<close> (\<open>telegram_consumer.py\<close>): sections, keyboards and the calls of
    buttons; the views and operations behind them; the text of the messages; the conversations and the handling of an
    update. \<open>Bot_Laws\<close>, \<open>Bot_Effects\<close>, \<open>Bot_Safety\<close>, \<open>Bot_Books\<close>, \<open>Bot_Forms\<close>, \<open>Bot_Types\<close>, \<open>Bot_Twins\<close>,
    \<open>Bot_Gaps\<close> hold what is proved of it, \<open>Bot_Cases\<close> the concrete runs.
  \<^item> \<open>System\<close>: every request, poll, round and update as one step on one database.

  \<^bold>\<open>The interfaces.\<close> \<open>step_system\<close> (steps that keep an invariant) is interpreted for the queue, the meters, the catalog,
  funding and the whole system; \<open>status_flow\<close> (a status that only moves forward) for orders; \<open>money_service\<close> (moves of
  money under idempotency keys) for the ledger; \<open>delivery\<close> (what a round relies on of its handlers) for the handlers;
  \<open>reading_keeper\<close> and \<open>queue_keeper\<close> (what readings and worker rounds write) for the meters and the books;
  \<open>desk_keeper\<close> (what the operations of a chat write) for the books and for the lane of a chat that may decide nothing.
  The lemmas of a client are proved once in its locale and reach the properties through the interpretations.

  \<^bold>\<open>What the lemmas show.\<close>
  Of prices: the chain of rounded decimal operations yields the exact price within the stated bounds (C1, C2).
  Of money: the ledger stays balanced, a retried request moves its money once, credit limits hold (C3 to C5).
  Of the tree: creation keeps the closure exact and the depth bounded (C6).
  Of the system: the invariants hold together from an empty database under any interleaving (C7).
  Of the bot: no lane is left without a permission, the bot and the WebApp agree, conversations are typed and never go
  back, texts come out as they were typed, with two gaps proved as they are (C8 to C11, C28, C36, C37).
  Of the queue: it stays well formed, a round settles what it claims, a hold is enforced once, and a dead worker can stop
  the queue (C12 to C15).
  Of metering: no byte is metered twice, an accepted reading bills every level, an unaffordable one is undone, but a held
  batch bills twice (C16 to C19).
  Of the routes: guards are sound, orders move forward under frozen terms, approval opens one funded account, the catalog
  stays consistent, funding refines an abstract vault, secrets survive storage, panel operations keep
  their lane (C20 to C32).
  Of the edge: budgets are exact, the workspace is claimed with a signed identity, an update is queued once, a scrape
  reads back, a raw path forges labels, routed answers are guarded (C33 to C35, C38 to C40).

  \<^bold>\<open>Bounds and fuel.\<close> No definition needs fuel: loops over rows are structural, the chain of an organization is read off
  the closure table, and \<open>decade\<close>, \<open>dec\<close>, \<open>bits\<close> and the reader of HTML terminate by measures. The prices are exact up to
  10 to the 14th rials because 28 digits leave room for the intermediate quotient. Integers are unbounded as in Python.
  The bounds of the schemas are checks of the model, and so are the bounds of the columns (\<open>bigints_stored\<close>,
  \<open>integers_stored\<close>) wherever an order, a quote, a plan, a binding, a top-up or a reseller of the bot is written;
  an organization that the machine API or the WebApp creates with a limit or a price beyond 64 bits, and a sum in an
  account beyond them, are not refused here.

  \<^bold>\<open>Parameters.\<close> Code outside the repository is an argument: HMAC and the digest, the Fernet cipher, the HTTP transport to
  a panel, the answers of Telegram, the parsers of JSON, URLs and query strings, the JSON printer of a log line,
  PostgreSQL's execution of a script, the clock, and the characters Unicode counts as digits. What a property relies on of
  them is a named hypothesis, with a witness on a concrete instance.

  \<^bold>\<open>Not modelled.\<close> The endless loops of the three processes, which only repeat \<open>poll\<close>, \<open>run_once\<close> and \<open>consume\<close>; rows are
  locked by the transactions, so a step is atomic here. In a round of the
  worker every commit is a step of its own and every outcome has its own reading of the clock, but no other process runs
  between them. At the webhook a call to Redis may also take effect and lose its reply; in the bot and the request budgets a
  call to Redis or Telegram that fails has no effect. The fixed sentences of a dialogue and the captions of inline
  buttons are display text, and error details are given in English. The SQL scripts under \<open>src/migrations\<close> enter only
  through the constraints the code relies on. The front end \<open>src/webapp\<close>, the deployment files, scripts, tests and
  documents are outside the program's core.
\<close>

end
